(* ===== verification/Prelude.thy ===== *)
theory Prelude
  imports Complex_Main "HOL-Library.AList" "HOL-Library.Sublist" "HOL-Library.Char_ord"
    "HOL-Library.List_Lexorder" "HOL-Library.Product_Lexorder" "HOL-Library.While_Combinator"
begin

text \<open>
  What every component of the development shares: the Python values the program passes
  around (JSON-like objects, insertion-ordered dictionaries, strings), the errors an
  operation can raise, the handful of string operations the source uses, and three
  interfaces with the lemmas their clients need: \<open>codec\<close> (a serialiser with its
  parser), \<open>step_system\<close> (a transition system with an invariant) and \<open>shrink_loop\<close>
  (a loop that keeps replacing a value until it fits a budget).

  Conventions. A Python \<open>float\<close> is a rational number; a string is a list of 8-bit
  characters (code points above 255 are outside the model, Latin-1 behaviour is exact);
  \<open>d.get(k)\<close> returns \<open>JNull\<close> for a missing key, as Python returns \<open>None\<close>.
\<close>

section \<open>Errors and results\<close>

datatype py_error =
    AttributeError
  | TypeError
  | ValueError
  | KeyError
  | ZeroDivisionError
  | RuntimeError string

type_synonym 'a res = "py_error + 'a"

definition res_bind :: "'a res \<Rightarrow> ('a \<Rightarrow> 'b res) \<Rightarrow> 'b res" where
  "res_bind m f = (case m of Inl e \<Rightarrow> Inl e | Inr x \<Rightarrow> f x)"

fun res_map :: "('a \<Rightarrow> 'b res) \<Rightarrow> 'a list \<Rightarrow> 'b list res" where
  "res_map f [] = Inr []"
| "res_map f (x # xs) =
     res_bind (f x) (\<lambda>y. res_bind (res_map f xs) (\<lambda>ys. Inr (y # ys)))"

lemma res_bind_simps [simp]:
  "res_bind (Inl e) f = Inl e"
  "res_bind (Inr x) f = f x"
  by (simp_all add: res_bind_def)

lemma res_bind_Inr_iff:
  "res_bind m f = Inr y \<longleftrightarrow> (\<exists>x. m = Inr x \<and> f x = Inr y)"
  by (cases m) auto

lemma res_map_length: "res_map f xs = Inr ys \<Longrightarrow> length ys = length xs"
  by (induction xs arbitrary: ys) (auto simp: res_bind_Inr_iff)

section \<open>Dictionaries\<close>

text \<open>
  A Python \<open>dict\<close> keeps insertion order, and an assignment to an existing key keeps the
  key's place: exactly \<open>AList.update\<close>.
\<close>

type_synonym ('k, 'v) dict = "('k \<times> 'v) list"

abbreviation dget :: "('k, 'v) dict \<Rightarrow> 'k \<Rightarrow> 'v option" where
  "dget d k \<equiv> map_of d k"

abbreviation dset :: "'k \<Rightarrow> 'v \<Rightarrow> ('k, 'v) dict \<Rightarrow> ('k, 'v) dict" where
  "dset k v d \<equiv> AList.update k v d"

abbreviation dpop :: "'k \<Rightarrow> ('k, 'v) dict \<Rightarrow> ('k, 'v) dict" where
  "dpop k d \<equiv> AList.delete k d"

abbreviation dkeys :: "('k, 'v) dict \<Rightarrow> 'k list" where
  "dkeys d \<equiv> map fst d"

abbreviation dvalues :: "('k, 'v) dict \<Rightarrow> 'v list" where
  "dvalues d \<equiv> map snd d"

definition dict_ok :: "('k, 'v) dict \<Rightarrow> bool" where
  "dict_ok d \<longleftrightarrow> distinct (dkeys d)"

named_theorems dict_simps "facts about insertion-ordered dictionaries"

lemma dget_dset [simp]: "dget (dset k v d) k' = (if k' = k then Some v else dget d k')"
  by (simp add: update_conv')

lemma dict_ok_Nil [simp]: "dict_ok []"
  by (simp add: dict_ok_def)

lemma dict_ok_dset [intro, simp]: "dict_ok d \<Longrightarrow> dict_ok (dset k v d)"
  by (simp add: dict_ok_def distinct_update)

lemma dict_ok_dpop [intro, simp]: "dict_ok d \<Longrightarrow> dict_ok (dpop k d)"
  by (simp add: dict_ok_def distinct_delete)

lemma dget_dpop [simp]: "dget (dpop k d) k' = (if k' = k then None else dget d k')"
  by (simp add: delete_conv')

lemma set_dset [dict_simps]:
  "dict_ok d \<Longrightarrow> set (dset k v d) = insert (k, v) {p \<in> set d. fst p \<noteq> k}"
  unfolding dict_ok_def by (induction d) (auto simp: rev_image_eqI)

lemma dset_not_Nil [simp]: "dset k v d \<noteq> []"
  by (cases d) auto

lemma dkeys_dset [dict_simps]:
  "dkeys (dset k v d) = (if k \<in> set (dkeys d) then dkeys d else dkeys d @ [k])"
  by (induction d) auto

lemma dget_Some_set: "dict_ok d \<Longrightarrow> dget d k = Some v \<longleftrightarrow> (k, v) \<in> set d"
  unfolding dict_ok_def by (rule map_of_eq_Some_iff)

lemma dget_in_values: "dget d k = Some v \<Longrightarrow> v \<in> set (dvalues d)"
  by (force dest: map_of_SomeD)

text \<open>\<open>d.update(e)\<close>\<close>

definition dict_update :: "('k, 'v) dict \<Rightarrow> ('k, 'v) dict \<Rightarrow> ('k, 'v) dict" where
  "dict_update d e = fold (\<lambda>(k, v) d. dset k v d) e d"

lemma dict_update_simps [simp]: "dict_update d [] = d" "dict_update d ((k, v) # e) = dict_update (dset k v d) e"
  by (simp_all add: dict_update_def)

lemma dict_ok_update [intro]: "dict_ok d \<Longrightarrow> dict_ok (dict_update d e)"
  by (induction e arbitrary: d) auto

lemma dget_update: "dict_ok e \<Longrightarrow> dget (dict_update d e) k = (case dget e k of Some v \<Rightarrow> Some v | None \<Rightarrow> dget d k)"
proof (induction e arbitrary: d)
  case (Cons p e)
  obtain k' v where p: "p = (k', v)" by (cases p)
  with Cons.prems have "dict_ok e" and new: "dget e k' = None" by (auto simp: dict_ok_def map_of_eq_None_iff)
  with Cons.IH p show ?case by (auto split: option.splits)
qed simp

section \<open>JSON-like values\<close>

datatype json =
    JNull
  | JBool bool
  | JInt int
  | JFloat rat
  | JStr string
  | JList "json list"
  | JDict "(string \<times> json) list"

type_synonym json_object = "(string, json) dict"

fun truthy :: "json \<Rightarrow> bool" where
  "truthy JNull = False"
| "truthy (JBool b) = b"
| "truthy (JInt i) = (i \<noteq> 0)"
| "truthy (JFloat r) = (r \<noteq> 0)"
| "truthy (JStr s) = (s \<noteq> [])"
| "truthy (JList xs) = (xs \<noteq> [])"
| "truthy (JDict d) = (d \<noteq> [])"

definition py_or :: "json \<Rightarrow> json \<Rightarrow> json" where
  "py_or a b = (if truthy a then a else b)"

definition obj_get :: "json_object \<Rightarrow> string \<Rightarrow> json" where
  "obj_get d k = (case dget d k of None \<Rightarrow> JNull | Some v \<Rightarrow> v)"

definition obj_get_or :: "json_object \<Rightarrow> string \<Rightarrow> json \<Rightarrow> json" where
  "obj_get_or d k dflt = (case dget d k of None \<Rightarrow> dflt | Some v \<Rightarrow> v)"

fun as_obj :: "json \<Rightarrow> json_object res" where
  "as_obj (JDict d) = Inr d"
| "as_obj _ = Inl AttributeError"

fun is_dict :: "json \<Rightarrow> bool" where
  "is_dict (JDict d) = True"
| "is_dict _ = False"

fun dict_of :: "json \<Rightarrow> json_object" where
  "dict_of (JDict d) = d"
| "dict_of _ = []"

definition json_opt :: "('a \<Rightarrow> json) \<Rightarrow> 'a option \<Rightarrow> json" where
  "json_opt f x = (case x of None \<Rightarrow> JNull | Some v \<Rightarrow> f v)"

lemma json_opt_simps [simp]: "json_opt f None = JNull" "json_opt f (Some v) = f v"
  by (simp_all add: json_opt_def)

lemma obj_get_Nil [simp]: "obj_get [] k = JNull"
  by (simp add: obj_get_def)

lemma obj_get_Cons [simp]: "obj_get ((k', v) # d) k = (if k = k' then v else obj_get d k)"
  by (simp add: obj_get_def)

lemma obj_get_dset [simp]: "obj_get (dset k' v d) k = (if k = k' then v else obj_get d k)"
  by (simp add: obj_get_def)

lemma py_or_truthy [simp]: "truthy a \<Longrightarrow> py_or a b = a"
  by (simp add: py_or_def)

lemma py_or_falsy [simp]: "\<not> truthy a \<Longrightarrow> py_or a b = b"
  by (simp add: py_or_def)

section \<open>Strings\<close>

definition is_space :: "char \<Rightarrow> bool" where
  "is_space c = (let n = (of_char c :: nat) in
     9 \<le> n \<and> n \<le> 13 \<or> 28 \<le> n \<and> n \<le> 32 \<or> n = 133 \<or> n = 160)"

definition py_lstrip :: "string \<Rightarrow> string" where
  "py_lstrip s = dropWhile is_space s"

definition py_rstrip :: "string \<Rightarrow> string" where
  "py_rstrip s = rev (dropWhile is_space (rev s))"

definition py_strip :: "string \<Rightarrow> string" where
  "py_strip s = py_rstrip (py_lstrip s)"

definition lower_char :: "char \<Rightarrow> char" where
  "lower_char c = (let n = (of_char c :: nat) in
     if 65 \<le> n \<and> n \<le> 90 \<or> 192 \<le> n \<and> n \<le> 222 \<and> n \<noteq> 215 then char_of (n + 32) else c)"

definition py_lower :: "string \<Rightarrow> string" where
  "py_lower s = map lower_char s"

definition py_startswith :: "string \<Rightarrow> string \<Rightarrow> bool" where
  "py_startswith s p = (take (length p) s = p)"

fun py_contains :: "string \<Rightarrow> string \<Rightarrow> bool" where
  "py_contains sub [] = (sub = [])"
| "py_contains sub (c # cs) = (py_startswith (c # cs) sub \<or> py_contains sub cs)"

fun py_split :: "char \<Rightarrow> string \<Rightarrow> string list" where
  "py_split c [] = [[]]"
| "py_split c (x # xs) =
     (if x = c then [] # py_split c xs
      else (case py_split c xs of [] \<Rightarrow> [[x]] | y # ys \<Rightarrow> (x # y) # ys))"

text \<open>\<open>s.split(c, 1)\<close>: the part before the first \<open>c\<close> and the part after it.\<close>

fun py_split1 :: "char \<Rightarrow> string \<Rightarrow> string \<times> string" where
  "py_split1 c [] = ([], [])"
| "py_split1 c (x # xs) =
     (if x = c then ([], xs) else (let (a, b) = py_split1 c xs in (x # a, b)))"

text \<open>\<open>s.split()\<close>: maximal runs of non-space characters.\<close>

fun py_split_ws :: "string \<Rightarrow> string list" where
  "py_split_ws [] = []"
| "py_split_ws (x # xs) =
     (if is_space x then py_split_ws xs
      else (case xs of
              [] \<Rightarrow> [[x]]
            | y # _ \<Rightarrow> (if is_space y then [x] # py_split_ws xs
                       else (case py_split_ws xs of [] \<Rightarrow> [[x]] | t # ts \<Rightarrow> (x # t) # ts))))"

fun py_join :: "string \<Rightarrow> string list \<Rightarrow> string" where
  "py_join sep [] = []"
| "py_join sep [x] = x"
| "py_join sep (x # y # ys) = x @ sep @ py_join sep (y # ys)"

definition digit_char :: "nat \<Rightarrow> char" where
  "digit_char d = char_of (48 + d)"

fun show_nat :: "nat \<Rightarrow> string" where
  "show_nat n = (if n < 10 then [digit_char n] else show_nat (n div 10) @ [digit_char (n mod 10)])"

declare show_nat.simps [simp del]

definition show_int :: "int \<Rightarrow> string" where
  "show_int i = (if i < 0 then ''-'' @ show_nat (nat (- i)) else show_nat (nat i))"

lemma py_strip_Nil [simp]: "py_strip [] = []"
  by (simp add: py_strip_def py_lstrip_def py_rstrip_def)

lemma py_split_not_Nil [simp]: "py_split c s \<noteq> []"
  by (induction s) (auto split: list.splits)

lemma py_rstrip_length: "length (py_rstrip s) \<le> length s"
  by (metis length_dropWhile_le length_rev py_rstrip_def)

lemma py_strip_length: "length (py_strip s) \<le> length s"
  by (metis length_dropWhile_le order_trans py_lstrip_def py_rstrip_length py_strip_def)

lemma py_rstrip_last: "py_rstrip s \<noteq> [] \<Longrightarrow> \<not> is_space (last (py_rstrip s))"
  by (metis Nil_is_rev_conv hd_dropWhile last_rev py_rstrip_def)

lemma py_rstrip_id: "s = [] \<or> \<not> is_space (last s) \<Longrightarrow> py_rstrip s = s"
  by (cases s rule: rev_cases) (auto simp: py_rstrip_def)

lemma py_rstrip_prefix: "\<exists>t. s = py_rstrip s @ t"
  by (metis py_rstrip_def rev_append rev_rev_ident takeWhile_dropWhile_id)

lemma py_strip_edges:
  "py_strip s = [] \<or> (\<not> is_space (hd (py_strip s)) \<and> \<not> is_space (last (py_strip s)))"
proof (cases "py_strip s = []")
  case False
  let ?l = "py_lstrip s"
  obtain t where t: "?l = py_strip s @ t"
    using py_rstrip_prefix [of ?l] by (auto simp: py_strip_def)
  with False have "hd ?l = hd (py_strip s)" and "?l \<noteq> []" by auto
  moreover have "?l \<noteq> [] \<Longrightarrow> \<not> is_space (hd ?l)"
    unfolding py_lstrip_def by (metis hd_dropWhile)
  ultimately show ?thesis
    using False py_rstrip_last [of ?l] by (auto simp: py_strip_def)
qed simp

lemma py_strip_id:
  "s = [] \<or> \<not> is_space (hd s) \<and> \<not> is_space (last s) \<Longrightarrow> py_strip s = s"
  by (cases s) (auto simp: py_strip_def py_lstrip_def py_rstrip_id)

lemma py_strip_idem [simp]: "py_strip (py_strip s) = py_strip s"
  using py_strip_edges [of s] by (rule py_strip_id)

section \<open>Conversions: str(), int(), float()\<close>

text \<open>
  \<open>str()\<close> of a composite value or a float, and the parsers behind \<open>int(str)\<close> and
  \<open>float(str)\<close>, belong to the interpreter: the definitions that reach them take them as
  fields of a \<open>py_runtime\<close>. Everything else is written out.
\<close>

record py_runtime =
  rt_repr :: "json \<Rightarrow> string"
  rt_int :: "string \<Rightarrow> int option"
  rt_float :: "string \<Rightarrow> rat option"

text \<open>A runtime that parses and prints nothing, for the places where no such text occurs.\<close>

definition null_runtime :: py_runtime where
  "null_runtime = \<lparr>rt_repr = (\<lambda>_. []), rt_int = (\<lambda>_. None), rt_float = (\<lambda>_. None)\<rparr>"

definition py_str :: "py_runtime \<Rightarrow> json \<Rightarrow> string" where
  "py_str rt v = (case v of
      JStr s \<Rightarrow> s
    | JNull \<Rightarrow> ''None''
    | JBool b \<Rightarrow> (if b then ''True'' else ''False'')
    | JInt i \<Rightarrow> show_int i
    | _ \<Rightarrow> rt_repr rt v)"

definition trunc_rat :: "rat \<Rightarrow> int" where
  "trunc_rat r = (if r < 0 then - \<lfloor>- r\<rfloor> else \<lfloor>r\<rfloor>)"

definition py_int :: "py_runtime \<Rightarrow> json \<Rightarrow> int res" where
  "py_int rt v = (case v of
      JInt i \<Rightarrow> Inr i
    | JBool b \<Rightarrow> Inr (if b then 1 else 0)
    | JFloat r \<Rightarrow> Inr (trunc_rat r)
    | JStr s \<Rightarrow> (case rt_int rt s of None \<Rightarrow> Inl ValueError | Some i \<Rightarrow> Inr i)
    | _ \<Rightarrow> Inl TypeError)"

definition py_float :: "py_runtime \<Rightarrow> json \<Rightarrow> rat res" where
  "py_float rt v = (case v of
      JInt i \<Rightarrow> Inr (of_int i)
    | JBool b \<Rightarrow> Inr (if b then 1 else 0)
    | JFloat r \<Rightarrow> Inr r
    | JStr s \<Rightarrow> (case rt_float rt s of None \<Rightarrow> Inl ValueError | Some r \<Rightarrow> Inr r)
    | _ \<Rightarrow> Inl TypeError)"

lemma py_str_JStr [simp]: "py_str rt (JStr s) = s"
  by (simp add: py_str_def)

lemma py_int_JInt [simp]: "py_int rt (JInt i) = Inr i"
  by (simp add: py_int_def)

lemma py_float_JFloat [simp]: "py_float rt (JFloat r) = Inr r"
  by (simp add: py_float_def)

section \<open>Interface: a serialiser and its parser\<close>

locale codec =
  fixes enc :: "'a \<Rightarrow> 'b"
    and dec :: "'b \<Rightarrow> 'a res"
    and ok :: "'a \<Rightarrow> bool"
  assumes dec_enc: "ok x \<Longrightarrow> dec (enc x) = Inr x"
begin

lemma enc_inj: "ok x \<Longrightarrow> ok y \<Longrightarrow> enc x = enc y \<Longrightarrow> x = y"
  by (metis dec_enc sum.inject(2))

lemma dec_list: "list_all ok xs \<Longrightarrow> res_map dec (map enc xs) = Inr xs"
  by (induction xs) (auto simp: dec_enc)

lemma enc_list_inj: "list_all ok xs \<Longrightarrow> list_all ok ys \<Longrightarrow> map enc xs = map enc ys \<Longrightarrow> xs = ys"
  by (metis dec_list sum.inject(2))

end

section \<open>Interface: a transition system and its invariant\<close>

locale step_system =
  fixes init :: "'s \<Rightarrow> bool"
    and step :: "'s \<Rightarrow> 's \<Rightarrow> bool"
    and inv :: "'s \<Rightarrow> bool"
  assumes init_inv: "init s \<Longrightarrow> inv s"
    and step_inv: "inv s \<Longrightarrow> step s t \<Longrightarrow> inv t"
begin

lemma steps_inv: "step\<^sup>*\<^sup>* s t \<Longrightarrow> inv s \<Longrightarrow> inv t"
  by (induction rule: rtranclp_induct) (auto intro: step_inv)

lemma reachable_inv: "init s \<Longrightarrow> step\<^sup>*\<^sup>* s t \<Longrightarrow> inv t"
  by (auto intro: steps_inv init_inv)

end

section \<open>Interface: a loop that shrinks its state while it is over budget\<close>

text \<open>
  \<open>while over(s): t = next(s); if t is None: break; s = t\<close>. Both tests may raise; the loop then stops
  and \<open>shrink_error\<close> is what is raised. The result is \<open>None\<close> when the loop does not end.
\<close>

definition proceeds :: "('s \<Rightarrow> bool res) \<Rightarrow> ('s \<Rightarrow> 's option res) \<Rightarrow> 's \<Rightarrow> bool" where
  "proceeds over nxt s = (case over s of Inr True \<Rightarrow> (case nxt s of Inr (Some _) \<Rightarrow> True | _ \<Rightarrow> False) | _ \<Rightarrow> False)"

definition shrink_while :: "('s \<Rightarrow> bool res) \<Rightarrow> ('s \<Rightarrow> 's option res) \<Rightarrow> 's \<Rightarrow> 's option" where
  "shrink_while over nxt = while_option (proceeds over nxt) (\<lambda>s. case nxt s of Inr (Some t) \<Rightarrow> t | _ \<Rightarrow> s)"

definition shrink_error :: "('s \<Rightarrow> bool res) \<Rightarrow> ('s \<Rightarrow> 's option res) \<Rightarrow> 's \<Rightarrow> py_error option" where
  "shrink_error over nxt s = (case over s of
      Inl e \<Rightarrow> Some e | Inr False \<Rightarrow> None | Inr True \<Rightarrow> (case nxt s of Inl e \<Rightarrow> Some e | Inr _ \<Rightarrow> None))"

lemma proceedsE:
  assumes "proceeds over nxt s"
  obtains t where "over s = Inr True" "nxt s = Inr (Some t)"
  using assms by (auto simp: proceeds_def split: sum.splits option.splits bool.splits)

locale shrink_loop =
  fixes over :: "'s \<Rightarrow> bool res"
    and nxt :: "'s \<Rightarrow> 's option res"
    and size :: "'s \<Rightarrow> nat"
  assumes shrinks: "nxt s = Inr (Some t) \<Longrightarrow> size t < size s"
begin

lemma ends: "\<exists>t. shrink_while over nxt s = Some t"
  unfolding shrink_while_def
  by (rule measure_while_option_Some [where P = "\<lambda>_. True" and f = size]) (auto elim!: proceedsE dest: shrinks)

lemma stops: "shrink_while over nxt s = Some t \<Longrightarrow> shrink_error over nxt t = None \<Longrightarrow>
    over t = Inr False \<or> over t = Inr True \<and> nxt t = Inr None"
  unfolding shrink_while_def
  by (drule while_option_stop) (auto simp: proceeds_def shrink_error_def split: sum.splits option.splits bool.splits)

lemma keeps:
  assumes "shrink_while over nxt s = Some t" and "P s"
    and "\<And>u v. P u \<Longrightarrow> over u = Inr True \<Longrightarrow> nxt u = Inr (Some v) \<Longrightarrow> P v"
  shows "P t"
  using assms(1,2) unfolding shrink_while_def
  by (rule while_option_rule [rotated 1, where P = P]) (auto elim!: proceedsE intro: assms(3))

end

end
