(* ===== verification/Subtasks.thy ===== *)
theory Subtasks
  imports Prelude
begin

text \<open>
  The bookkeeping of delegated sub-agents, \<^verbatim>\<open>core/agent/session/global_state.py\<close>: one
  \<open>SubTaskRecord\<close> per sub-session, the per-main-session state with its aggregation batches,
  and the process-wide registries (states by main session, owner of a sub-session, cancel
  requests). Mutation of the shared Python objects is state passing; the registries are one
  record \<open>subtask_globals\<close>. Also the role policy of \<^verbatim>\<open>session_role.py\<close>.

  The invariant \<open>subtask_inv\<close> says what the batches are for: every live subtask is in the
  current batch, and a batch whose barrier was emitted holds only terminal subtasks.
\<close>

section \<open>Session roles\<close>

definition SUB_SESSION_MARKER :: string where
  "SUB_SESSION_MARKER = ''_sub_''"

datatype session_role = RoleMain | RoleSub

definition resolve_session_role_policy :: "string \<Rightarrow> session_role" where
  "resolve_session_role_policy session_id =
     (if py_contains SUB_SESSION_MARKER session_id then RoleSub else RoleMain)"

definition can_callback_user :: "session_role \<Rightarrow> bool" where
  "can_callback_user r = (r = RoleMain)"

definition should_auto_mark_terminal_on_text :: "session_role \<Rightarrow> bool" where
  "should_auto_mark_terminal_on_text r = (r = RoleSub)"

section \<open>One subtask record\<close>

definition TERMINAL_STATUSES :: "string set" where
  "TERMINAL_STATUSES = {''completed'', ''failed'', ''cancelled''}"

record sub_task_record =
  st_sub_session_id :: string
  st_instruction :: string
  st_status :: string
  st_start_time :: rat
  st_summary :: string
  st_batch_id :: int

definition sub_task_to_dict :: "sub_task_record \<Rightarrow> json_object" where
  "sub_task_to_dict r =
     [(''sub_session_id'', JStr (st_sub_session_id r)),
      (''instruction'', JStr (st_instruction r)),
      (''status'', JStr (st_status r)),
      (''start_time'', JFloat (st_start_time r)),
      (''summary'', JStr (st_summary r)),
      (''batch_id'', JInt (st_batch_id r))]"

definition sub_task_from_dict :: "py_runtime \<Rightarrow> json_object \<Rightarrow> sub_task_record res" where
  "sub_task_from_dict rt d =
     res_bind (py_float rt (py_or (obj_get d ''start_time'') (JFloat 0))) (\<lambda>t.
     res_bind (py_int rt (py_or (obj_get d ''batch_id'') (JInt 0))) (\<lambda>b.
       Inr \<lparr>st_sub_session_id = py_str rt (py_or (obj_get d ''sub_session_id'') (JStr [])),
            st_instruction = py_str rt (py_or (obj_get d ''instruction'') (JStr [])),
            st_status = py_str rt (py_or (obj_get d ''status'') (JStr ''unknown'')),
            st_start_time = t,
            st_summary = py_str rt (py_or (obj_get d ''summary'') (JStr [])),
            st_batch_id = b\<rparr>))"

section \<open>All subtasks of one main session\<close>

record subtask_state =
  records :: "(string, sub_task_record) dict"
  barrier_notified :: bool
  current_batch_id :: int
  emitted_batch_ids :: "int set"
  immediate_failure_notified :: "string set"

definition new_subtask_state :: subtask_state where
  "new_subtask_state =
     \<lparr>records = [], barrier_notified = False, current_batch_id = 0,
      emitted_batch_ids = {}, immediate_failure_notified = {}\<rparr>"

definition is_terminal_status :: "string \<Rightarrow> bool" where
  "is_terminal_status status = (status \<in> TERMINAL_STATUSES)"

definition list_records :: "subtask_state \<Rightarrow> int option \<Rightarrow> sub_task_record list" where
  "list_records s batch = (case batch of
      None \<Rightarrow> dvalues (records s)
    | Some b \<Rightarrow> filter (\<lambda>r. st_batch_id r = b) (dvalues (records s)))"

definition all_terminal :: "subtask_state \<Rightarrow> int option \<Rightarrow> bool" where
  "all_terminal s batch =
     (let rs = list_records s batch
      in if rs = [] then False else list_all (\<lambda>r. is_terminal_status (st_status r)) rs)"

definition is_all_subtasks_terminal :: "subtask_state \<Rightarrow> bool" where
  "is_all_subtasks_terminal s = all_terminal s (Some (current_batch_id s))"

definition register_task :: "string \<Rightarrow> string \<Rightarrow> rat \<Rightarrow> subtask_state \<Rightarrow> subtask_state" where
  "register_task sid instr t s =
     (let b = (if records s \<noteq> [] \<and> all_terminal s (Some (current_batch_id s))
               then current_batch_id s + 1 else current_batch_id s)
      in s\<lparr>records := dset sid
               \<lparr>st_sub_session_id = sid, st_instruction = instr, st_status = ''running'',
                st_start_time = t, st_summary = [], st_batch_id = b\<rparr> (records s),
           barrier_notified := False,
           current_batch_id := b,
           emitted_batch_ids := emitted_batch_ids s - {b},
           immediate_failure_notified := immediate_failure_notified s - {sid}\<rparr>)"

definition normalize_terminal :: "string \<Rightarrow> string" where
  "normalize_terminal status =
     (let n = py_lower (py_strip status); n' = (if n = [] then ''completed'' else n)
      in if n' \<notin> TERMINAL_STATUSES then ''completed'' else n')"

definition mark_terminal ::
  "string \<Rightarrow> string \<Rightarrow> string \<Rightarrow> subtask_state \<Rightarrow> bool \<times> subtask_state" where
  "mark_terminal sid status summary s = (case dget (records s) sid of
      None \<Rightarrow> (False, s)
    | Some r \<Rightarrow>
        (if is_terminal_status (st_status r) then (False, s)
         else (True, s\<lparr>records := dset sid
                (r\<lparr>st_status := normalize_terminal status,
                   st_summary := (if summary \<noteq> [] then summary else st_summary r)\<rparr>)
                (records s)\<rparr>)))"

definition is_terminal :: "subtask_state \<Rightarrow> string \<Rightarrow> bool" where
  "is_terminal s sid = (case dget (records s) sid of
      None \<Rightarrow> False | Some r \<Rightarrow> is_terminal_status (st_status r))"

text \<open>
  The source filters a \<open>set\<close> of keys, whose iteration order is unspecified; every caller
  uses only the length, the sole element of a singleton, or a sorted copy. The model lists the
  matches in insertion order.
\<close>

definition find_matching_task_ids :: "subtask_state \<Rightarrow> string \<Rightarrow> string list" where
  "find_matching_task_ids s p =
     (if p = [] then [] else filter (\<lambda>k. py_startswith k p) (dkeys (records s)))"

definition resolve_task_id :: "subtask_state \<Rightarrow> string \<Rightarrow> string option" where
  "resolve_task_id s p =
     (if dget (records s) p \<noteq> None then Some p
      else (case find_matching_task_ids s p of [m] \<Rightarrow> Some m | _ \<Rightarrow> None))"

definition get_record :: "subtask_state \<Rightarrow> string \<Rightarrow> sub_task_record option" where
  "get_record s sid = dget (records s) sid"

definition update_status :: "string \<Rightarrow> string \<Rightarrow> string \<Rightarrow> subtask_state \<Rightarrow> subtask_state" where
  "update_status sid status summary s = (case dget (records s) sid of
      None \<Rightarrow> s
    | Some r \<Rightarrow>
        (let s1 = s\<lparr>records := dset sid
                  (r\<lparr>st_status := status,
                     st_summary := (if summary \<noteq> [] then summary else st_summary r)\<rparr>) (records s)\<rparr>
         in if \<not> is_terminal_status status
            then s1\<lparr>barrier_notified := False,
                    emitted_batch_ids := emitted_batch_ids s - {st_batch_id r},
                    immediate_failure_notified := immediate_failure_notified s - {sid}\<rparr>
            else s1))"

definition reopen_task ::
  "string \<Rightarrow> string \<Rightarrow> string \<Rightarrow> subtask_state \<Rightarrow> bool \<times> subtask_state" where
  "reopen_task sid status summary s = (case dget (records s) sid of
      None \<Rightarrow> (False, s)
    | Some r \<Rightarrow>
        (let b = (if all_terminal s (Some (current_batch_id s))
                  then current_batch_id s + 1 else current_batch_id s);
             was = is_terminal_status (st_status r);
             summary' = (if was then summary
                         else if summary \<noteq> [] then summary else st_summary r)
         in (was, s\<lparr>records := dset sid
                      (r\<lparr>st_status := status, st_summary := summary', st_batch_id := b\<rparr>) (records s),
                    barrier_notified := False,
                    current_batch_id := b,
                    emitted_batch_ids := emitted_batch_ids s - {b},
                    immediate_failure_notified := immediate_failure_notified s - {sid}\<rparr>)))"

definition active_count :: "subtask_state \<Rightarrow> nat" where
  "active_count s = length (filter (\<lambda>r. py_startswith (st_status r) ''running'') (dvalues (records s)))"

definition consume_aggregation_emitted :: "subtask_state \<Rightarrow> bool \<times> subtask_state" where
  "consume_aggregation_emitted s =
     (if current_batch_id s \<in> emitted_batch_ids s then (True, s)
      else (False, s\<lparr>barrier_notified := True,
                     emitted_batch_ids := insert (current_batch_id s) (emitted_batch_ids s)\<rparr>))"

definition has_aggregation_emitted :: "subtask_state \<Rightarrow> bool" where
  "has_aggregation_emitted s = (current_batch_id s \<in> emitted_batch_ids s)"

definition mark_aggregation_emitted :: "subtask_state \<Rightarrow> subtask_state" where
  "mark_aggregation_emitted s =
     s\<lparr>barrier_notified := True,
       emitted_batch_ids := insert (current_batch_id s) (emitted_batch_ids s)\<rparr>"

definition has_immediate_failure_notified :: "subtask_state \<Rightarrow> string \<Rightarrow> bool" where
  "has_immediate_failure_notified s sid = (sid \<in> immediate_failure_notified s)"

definition mark_immediate_failure_notified :: "string \<Rightarrow> subtask_state \<Rightarrow> subtask_state" where
  "mark_immediate_failure_notified sid s =
     (if sid \<noteq> [] then s\<lparr>immediate_failure_notified := insert sid (immediate_failure_notified s)\<rparr>
      else s)"

record aggregate =
  ag_total :: nat
  ag_completed :: nat
  ag_failed :: nat
  ag_cancelled :: nat
  ag_summaries :: "(string, string) dict"

definition aggregate_step :: "aggregate \<Rightarrow> sub_task_record \<Rightarrow> aggregate" where
  "aggregate_step a r =
     (let a1 = a\<lparr>ag_summaries := dset (st_sub_session_id r) (st_summary r) (ag_summaries a)\<rparr>
      in if st_status r = ''completed'' then a1\<lparr>ag_completed := Suc (ag_completed a)\<rparr>
         else if st_status r = ''failed'' then a1\<lparr>ag_failed := Suc (ag_failed a)\<rparr>
         else if st_status r = ''cancelled'' then a1\<lparr>ag_cancelled := Suc (ag_cancelled a)\<rparr>
         else a1)"

definition get_aggregated_subtask_results :: "subtask_state \<Rightarrow> int option \<Rightarrow> aggregate" where
  "get_aggregated_subtask_results s batch =
     (let target = (case batch of None \<Rightarrow> current_batch_id s | Some b \<Rightarrow> b);
          rs = list_records s (Some target)
      in foldl aggregate_step
           \<lparr>ag_total = length rs, ag_completed = 0, ag_failed = 0, ag_cancelled = 0,
            ag_summaries = []\<rparr> rs)"

definition get_current_batch_records :: "subtask_state \<Rightarrow> sub_task_record list" where
  "get_current_batch_records s = list_records s (Some (current_batch_id s))"

definition newline :: string where
  "newline = [char_of (10::nat)]"

definition block_separator :: string where
  "block_separator = newline @ newline @ ''---'' @ newline @ newline"

definition SYSTEM_NOTIFICATION_COMPLETED_PREFIX :: string where
  "SYSTEM_NOTIFICATION_COMPLETED_PREFIX =
     ''[System Notification] Background tasks completed:'' @ newline @ newline"

definition SYSTEM_NOTIFICATION_FAILED_PREFIX :: string where
  "SYSTEM_NOTIFICATION_FAILED_PREFIX =
     ''[System Notification] Sub-agent failed early:'' @ newline @ newline"

definition build_barrier_message :: "subtask_state \<Rightarrow> string option \<times> subtask_state" where
  "build_barrier_message s =
     (if barrier_notified s then (None, s)
      else if \<not> all_terminal s (Some (current_batch_id s)) then (None, s)
      else (let ls = map (\<lambda>r. ''['' @ st_status r @ ''] '' @ st_sub_session_id r @ newline @
                                (if st_summary r = [] then ''(no summary)'' else st_summary r))
                       (sort_key st_start_time (get_current_batch_records s))
            in (Some (SYSTEM_NOTIFICATION_COMPLETED_PREFIX @ py_join block_separator ls),
                mark_aggregation_emitted s)))"

section \<open>Process-wide registries\<close>

record subtask_globals =
  session_locks :: "string set"
  subtask_states :: "(string, subtask_state) dict"
  sub_session_to_main :: "(string, string) dict"
  sub_session_cancel_requested :: "string set"

definition get_session_lock :: "string \<Rightarrow> subtask_globals \<Rightarrow> subtask_globals" where
  "get_session_lock sid g = g\<lparr>session_locks := insert sid (session_locks g)\<rparr>"

definition get_or_create_subtask_state ::
  "string \<Rightarrow> subtask_globals \<Rightarrow> subtask_state \<times> subtask_globals" where
  "get_or_create_subtask_state main g = (case dget (subtask_states g) main of
      Some s \<Rightarrow> (s, g)
    | None \<Rightarrow> (new_subtask_state,
                g\<lparr>subtask_states := dset main new_subtask_state (subtask_states g)\<rparr>))"

text \<open>The caller mutates the object it got; the model writes it back under its key.\<close>

definition put_subtask_state :: "string \<Rightarrow> subtask_state \<Rightarrow> subtask_globals \<Rightarrow> subtask_globals" where
  "put_subtask_state main s g = g\<lparr>subtask_states := dset main s (subtask_states g)\<rparr>"

definition bind_sub_session :: "string \<Rightarrow> string \<Rightarrow> subtask_globals \<Rightarrow> subtask_globals" where
  "bind_sub_session main sub g =
     g\<lparr>sub_session_to_main := dset sub main (sub_session_to_main g)\<rparr>"

definition get_main_session_by_sub_session :: "subtask_globals \<Rightarrow> string \<Rightarrow> string option" where
  "get_main_session_by_sub_session g sub = dget (sub_session_to_main g) sub"

definition request_sub_session_cancel :: "string \<Rightarrow> subtask_globals \<Rightarrow> subtask_globals" where
  "request_sub_session_cancel sub g =
     (if sub \<noteq> [] then g\<lparr>sub_session_cancel_requested := insert sub (sub_session_cancel_requested g)\<rparr>
      else g)"

definition clear_sub_session_cancel :: "string \<Rightarrow> subtask_globals \<Rightarrow> subtask_globals" where
  "clear_sub_session_cancel sub g =
     (if sub \<noteq> [] then g\<lparr>sub_session_cancel_requested := sub_session_cancel_requested g - {sub}\<rparr>
      else g)"

definition is_sub_session_cancel_requested :: "subtask_globals \<Rightarrow> string \<Rightarrow> bool" where
  "is_sub_session_cancel_requested g sub =
     (if sub = [] then False else sub \<in> sub_session_cancel_requested g)"

section \<open>Facts about the operations\<close>

lemmas subtask_op_defs = register_task_def mark_terminal_def update_status_def reopen_task_def
  mark_aggregation_emitted_def consume_aggregation_emitted_def

lemma set_list_records:
  "dict_ok (records s) \<Longrightarrow>
   r \<in> set (list_records s (Some b)) \<longleftrightarrow> (\<exists>k. dget (records s) k = Some r \<and> st_batch_id r = b)"
  unfolding list_records_def
  by (auto simp: dget_Some_set dest: dget_in_values intro!: image_eqI)

lemma all_terminal_iff:
  assumes "dict_ok (records s)"
  shows "all_terminal s (Some b) \<longleftrightarrow>
    (\<exists>k r. dget (records s) k = Some r \<and> st_batch_id r = b) \<and>
    (\<forall>k r. dget (records s) k = Some r \<longrightarrow> st_batch_id r = b \<longrightarrow> is_terminal_status (st_status r))"
proof -
  have "list_records s (Some b) = [] \<longleftrightarrow> set (list_records s (Some b)) = {}" by simp
  then show ?thesis
    unfolding all_terminal_def Let_def list_all_iff
    using set_list_records [OF assms] by (smt (verit, best) ex_in_conv)
qed

definition subtask_inv :: "subtask_state \<Rightarrow> bool" where
  "subtask_inv s \<longleftrightarrow>
     dict_ok (records s) \<and>
     (\<forall>k r. dget (records s) k = Some r \<longrightarrow>
        st_sub_session_id r = k \<and> st_batch_id r \<le> current_batch_id s \<and>
        (is_terminal_status (st_status r) \<or> st_batch_id r = current_batch_id s)) \<and>
     (records s \<noteq> [] \<longrightarrow>
        (\<exists>k r. dget (records s) k = Some r \<and> st_batch_id r = current_batch_id s)) \<and>
     (\<forall>b \<in> emitted_batch_ids s. b \<le> current_batch_id s) \<and>
     (has_aggregation_emitted s \<longrightarrow> is_all_subtasks_terminal s) \<and>
     (barrier_notified s \<longrightarrow> has_aggregation_emitted s)"

lemma subtask_invD:
  assumes "subtask_inv s"
  shows "dict_ok (records s)"
    and "dget (records s) k = Some r \<Longrightarrow> st_sub_session_id r = k"
    and "dget (records s) k = Some r \<Longrightarrow> st_batch_id r \<le> current_batch_id s"
    and "dget (records s) k = Some r \<Longrightarrow> \<not> is_terminal_status (st_status r) \<Longrightarrow>
           st_batch_id r = current_batch_id s"
    and "records s \<noteq> [] \<Longrightarrow> \<exists>k r. dget (records s) k = Some r \<and> st_batch_id r = current_batch_id s"
    and "b \<in> emitted_batch_ids s \<Longrightarrow> b \<le> current_batch_id s"
    and "has_aggregation_emitted s \<Longrightarrow> is_all_subtasks_terminal s"
    and "barrier_notified s \<Longrightarrow> has_aggregation_emitted s"
  using assms unfolding subtask_inv_def by blast+

lemma new_subtask_state_inv: "subtask_inv new_subtask_state"
  by (simp add: subtask_inv_def new_subtask_state_def has_aggregation_emitted_def)

lemma normalize_terminal_terminal [simp]: "is_terminal_status (normalize_terminal st)"
  by (simp add: normalize_terminal_def is_terminal_status_def TERMINAL_STATUSES_def Let_def)

lemma not_terminal_running [simp]: "\<not> is_terminal_status ''running''"
  by (simp add: is_terminal_status_def TERMINAL_STATUSES_def)

text \<open>A task enters the current batch, which has not been announced.\<close>

lemma subtask_inv_open:
  assumes inv: "subtask_inv s"
    and r: "st_sub_session_id r = sid" "st_batch_id r = b"
    and b: "b = current_batch_id s \<or>
            b = current_batch_id s + 1 \<and> all_terminal s (Some (current_batch_id s))"
  shows "subtask_inv (s\<lparr>records := dset sid r (records s), barrier_notified := False,
           current_batch_id := b, emitted_batch_ids := emitted_batch_ids s - {b},
           immediate_failure_notified := i\<rparr>)"
proof -
  note I = subtask_invD [OF inv]
  have tm: "is_terminal_status (st_status r')"
    if "dget (records s) k = Some r'" and "all_terminal s (Some (current_batch_id s))" for k r'
    using that I(4) unfolding all_terminal_iff [OF I(1)] by blast
  have old: "st_sub_session_id r' = k" "st_batch_id r' \<le> b"
      "is_terminal_status (st_status r') \<or> st_batch_id r' = b"
    if k: "dget (records s) k = Some r'" for k r'
    using I(2,3,4) [OF k] b tm [OF k] by auto
  have em: "c \<le> b" if "c \<in> emitted_batch_ids s" for c
    using I(6) [OF that] b by auto
  have live: "st_sub_session_id r' = k \<and> st_batch_id r' \<le> b \<and>
      (is_terminal_status (st_status r') \<or> st_batch_id r' = b)"
    if "dget (dset sid r (records s)) k = Some r'" for k r'
    using that r old by (auto split: if_splits)
  have "dget (dset sid r (records s)) sid = Some r" by simp
  with r(2) have cur: "\<exists>k r'. dget (dset sid r (records s)) k = Some r' \<and> st_batch_id r' = b"
    by blast
  from I(1) live em cur show ?thesis
    unfolding subtask_inv_def has_aggregation_emitted_def by simp
qed

text \<open>A record changes in place, its batch unchanged.\<close>

lemma subtask_inv_in_place:
  assumes inv: "subtask_inv s"
    and old: "dget (records s) sid = Some r0"
    and r: "st_sub_session_id r = sid" "st_batch_id r = st_batch_id r0"
    and change: "if is_terminal_status (st_status r) then e = emitted_batch_ids s \<and> n = barrier_notified s
       else \<not> is_terminal_status (st_status r0) \<and> e = emitted_batch_ids s - {st_batch_id r0} \<and> \<not> n"
  shows "subtask_inv (s\<lparr>records := dset sid r (records s), barrier_notified := n,
           emitted_batch_ids := e, immediate_failure_notified := i\<rparr>)"
proof -
  note I = subtask_invD [OF inv]
  let ?c = "current_batch_id s" and ?d = "dset sid r (records s)"
  let ?t = "s\<lparr>records := ?d, barrier_notified := n, emitted_batch_ids := e,
              immediate_failure_notified := i\<rparr>"
  have d: "dict_ok (records ?t)" using I(1) by simp
  have live: "st_sub_session_id r' = k \<and> st_batch_id r' \<le> ?c \<and>
      (is_terminal_status (st_status r') \<or> st_batch_id r' = ?c)"
    if k: "dget ?d k = Some r'" for k r'
    using k r change I(2,3,4) [of k r'] I(3,4) [OF old] by (auto split: if_splits)
  obtain k1 r1 where k1: "dget (records s) k1 = Some r1" "st_batch_id r1 = ?c"
    using I(5) old by (cases "records s = []") auto
  have cur: "\<exists>k r'. dget ?d k = Some r' \<and> st_batch_id r' = ?c"
    using k1 r(2) old by (cases "k1 = sid") auto
  have em: "\<forall>c\<in>e. c \<le> ?c" using I(6) change by (auto split: if_splits)
  have emitted: "is_all_subtasks_terminal ?t" if h: "has_aggregation_emitted ?t"
  proof (cases "is_terminal_status (st_status r)")
    case True
    with change h have "is_all_subtasks_terminal s"
      using I(7) by (simp add: has_aggregation_emitted_def)
    then have "\<forall>k r'. dget (records s) k = Some r' \<longrightarrow> st_batch_id r' = ?c \<longrightarrow>
        is_terminal_status (st_status r')"
      unfolding is_all_subtasks_terminal_def all_terminal_iff [OF I(1)] by blast
    with True cur show ?thesis
      unfolding is_all_subtasks_terminal_def all_terminal_iff [OF d] by simp
  next
    case False
    with change h I(4) [OF old] show ?thesis by (simp add: has_aggregation_emitted_def)
  qed
  have note_em: "barrier_notified ?t \<Longrightarrow> has_aggregation_emitted ?t"
    using change I(8) by (auto simp: has_aggregation_emitted_def split: if_splits)
  from I(1) live em cur emitted note_em show ?thesis
    unfolding subtask_inv_def [of ?t] by simp
qed

lemma register_task_inv: "subtask_inv s \<Longrightarrow> subtask_inv (register_task sid instr t s)"
  unfolding register_task_def Let_def by (rule subtask_inv_open) auto

lemma reopen_task_inv:
  assumes "subtask_inv s" shows "subtask_inv (snd (reopen_task sid st sm s))"
proof (cases "dget (records s) sid")
  case (Some r)
  then have "st_sub_session_id r = sid" using assms by (intro subtask_invD(2))
  with assms show ?thesis
    unfolding reopen_task_def Let_def Some option.case snd_conv
    by (intro subtask_inv_open) auto
qed (use assms in \<open>simp add: reopen_task_def\<close>)

lemma mark_terminal_inv:
  assumes "subtask_inv s" shows "subtask_inv (snd (mark_terminal sid st sm s))"
proof (cases "dget (records s) sid")
  case (Some r)
  let ?r = "r\<lparr>st_status := normalize_terminal st, st_summary := (if sm \<noteq> [] then sm else st_summary r)\<rparr>"
  have "subtask_inv (s\<lparr>records := dset sid ?r (records s), barrier_notified := barrier_notified s,
      emitted_batch_ids := emitted_batch_ids s,
      immediate_failure_notified := immediate_failure_notified s\<rparr>)"
    using assms Some by (intro subtask_inv_in_place) (auto simp: subtask_invD(2))
  with Some assms show ?thesis by (auto simp: mark_terminal_def)
qed (use assms in \<open>simp add: mark_terminal_def\<close>)

text \<open>
  \<open>update_status\<close> has no guard of its own: it keeps the invariant where its callers use it, on a
  task that is still live or for a terminal status.
\<close>

definition live_update :: "subtask_state \<Rightarrow> string \<Rightarrow> string \<Rightarrow> bool" where
  "live_update s sid st \<longleftrightarrow> is_terminal_status st \<or> \<not> is_terminal s sid"

lemma update_status_inv:
  assumes inv: "subtask_inv s" and live: "live_update s sid st"
  shows "subtask_inv (update_status sid st sm s)"
proof (cases "dget (records s) sid")
  case (Some r)
  let ?r = "r\<lparr>st_status := st, st_summary := (if sm \<noteq> [] then sm else st_summary r)\<rparr>"
  let ?tm = "is_terminal_status st"
  have "subtask_inv (s\<lparr>records := dset sid ?r (records s),
      barrier_notified := (if ?tm then barrier_notified s else False),
      emitted_batch_ids := (if ?tm then emitted_batch_ids s else emitted_batch_ids s - {st_batch_id r}),
      immediate_failure_notified := (if ?tm then immediate_failure_notified s
         else immediate_failure_notified s - {sid})\<rparr>)"
    using assms Some
    by (intro subtask_inv_in_place) (auto simp: subtask_invD(2) live_update_def is_terminal_def)
  with Some show ?thesis by (cases ?tm; cases "sm = []") (simp_all add: update_status_def)
qed (use assms in \<open>simp add: update_status_def\<close>)

lemma mark_aggregation_emitted_inv:
  assumes "subtask_inv s" and "is_all_subtasks_terminal s"
  shows "subtask_inv (mark_aggregation_emitted s)"
  using assms
  unfolding subtask_inv_def mark_aggregation_emitted_def has_aggregation_emitted_def
    is_all_subtasks_terminal_def all_terminal_def list_records_def
  by simp

lemma mark_immediate_failure_notified_inv:
  "subtask_inv s \<Longrightarrow> subtask_inv (mark_immediate_failure_notified sid s)"
  unfolding subtask_inv_def mark_immediate_failure_notified_def has_aggregation_emitted_def
    is_all_subtasks_terminal_def all_terminal_def list_records_def
  by simp

lemma build_barrier_message_inv:
  "subtask_inv s \<Longrightarrow> subtask_inv (snd (build_barrier_message s))"
  using mark_aggregation_emitted_inv
  by (auto simp: build_barrier_message_def Let_def is_all_subtasks_terminal_def)

text \<open>The barrier looks at the current batch only, and sees every live subtask.\<close>

lemma barrier_ready_iff:
  assumes "subtask_inv s"
  shows "is_all_subtasks_terminal s \<longleftrightarrow>
    records s \<noteq> [] \<and> (\<forall>k r. dget (records s) k = Some r \<longrightarrow> is_terminal_status (st_status r))"
proof -
  note I = subtask_invD [OF assms]
  show ?thesis
    unfolding is_all_subtasks_terminal_def all_terminal_iff [OF I(1)]
    using I(4,5) by fastforce
qed

section \<open>The life of one main session's subtasks\<close>

text \<open>
  The operations as the tools and the planner use them: \<open>delegate_task\<close> registers and updates,
  \<open>message_subtask\<close> updates a live task or reopens a terminal one, \<open>kill_subtask\<close>,
  \<open>report_subtask_done\<close> and the planner mark terminal, and a barrier is emitted for a batch that
  is all terminal.
\<close>

inductive subtask_step :: "subtask_state \<Rightarrow> subtask_state \<Rightarrow> bool" where
  register: "subtask_step s (register_task sid instr t s)"
| mark: "subtask_step s (snd (mark_terminal sid st sm s))"
| update: "live_update s sid st \<Longrightarrow> subtask_step s (update_status sid st sm s)"
| reopen: "subtask_step s (snd (reopen_task sid st sm s))"
| emit: "is_all_subtasks_terminal s \<Longrightarrow> subtask_step s (mark_aggregation_emitted s)"
| build: "subtask_step s (snd (build_barrier_message s))"
| failure: "subtask_step s (mark_immediate_failure_notified sid s)"

lemma subtask_step_inv: "subtask_step s t \<Longrightarrow> subtask_inv s \<Longrightarrow> subtask_inv t"
  by (induction rule: subtask_step.induct)
    (auto intro: register_task_inv mark_terminal_inv update_status_inv reopen_task_inv
      mark_aggregation_emitted_inv build_barrier_message_inv mark_immediate_failure_notified_inv)

interpretation subtasks: step_system "\<lambda>s. s = new_subtask_state" subtask_step subtask_inv
  by unfold_locales (auto simp: new_subtask_state_inv intro: subtask_step_inv)

section \<open>Lookup, idempotence and counting\<close>

lemma py_startswith_self [simp]: "py_startswith s s"
  by (simp add: py_startswith_def)

lemma find_matching_task_ids_set:
  "set (find_matching_task_ids s p) =
     (if p = [] then {} else {k. dget (records s) k \<noteq> None \<and> py_startswith k p})"
  by (auto simp: find_matching_task_ids_def map_of_eq_None_iff)

lemma resolve_task_id_exact: "dget (records s) p \<noteq> None \<Longrightarrow> resolve_task_id s p = Some p"
  by (simp add: resolve_task_id_def)

lemma resolve_task_id_prefix:
  "dget (records s) p = None \<Longrightarrow>
   resolve_task_id s p = Some k \<longleftrightarrow> find_matching_task_ids s p = [k]"
  by (auto simp: resolve_task_id_def split: list.splits)

lemma distinct_singleton:
  assumes "distinct xs" and "set xs = {k}" shows "xs = [k]"
proof (cases xs)
  case (Cons a ys)
  with assms have "a = k" and "set ys \<subseteq> {k}" and "k \<notin> set ys" by auto
  then have "set ys = {}" by (auto dest: subset_singletonD)
  with Cons \<open>a = k\<close> show ?thesis by simp
qed (use assms in simp)

lemma distinct_singleton_iff: "distinct xs \<Longrightarrow> xs = [k] \<longleftrightarrow> set xs = {k}"
  by (auto dest: distinct_singleton)

lemma mark_terminal_changes:
  assumes "mark_terminal sid st sm s = (True, t)"
  shows "\<not> is_terminal s sid" and "is_terminal t sid"
  using assms by (auto simp: mark_terminal_def is_terminal_def split: option.splits if_splits)

lemma mark_terminal_stays:
  assumes "is_terminal s sid"
  shows "mark_terminal sid st sm s = (False, s)"
  using assms by (auto simp: mark_terminal_def is_terminal_def split: option.splits)

lemma mark_terminal_other: "k \<noteq> sid \<Longrightarrow> dget (records (snd (mark_terminal sid st sm s))) k = dget (records s) k"
  by (auto simp: mark_terminal_def split: option.splits)

lemma foldl_aggregate_counts:
  "ag_completed (foldl aggregate_step a rs) =
     ag_completed a + length (filter (\<lambda>r. st_status r = ''completed'') rs)"
  "ag_failed (foldl aggregate_step a rs) =
     ag_failed a + length (filter (\<lambda>r. st_status r = ''failed'') rs)"
  "ag_cancelled (foldl aggregate_step a rs) =
     ag_cancelled a + length (filter (\<lambda>r. st_status r = ''cancelled'') rs)"
  "ag_total (foldl aggregate_step a rs) = ag_total a"
  by (induction rs arbitrary: a) (auto simp: aggregate_step_def Let_def)

lemma foldl_aggregate_summaries:
  "distinct (map st_sub_session_id rs) \<Longrightarrow>
   dget (ag_summaries (foldl aggregate_step a rs)) k =
     (case find (\<lambda>r. st_sub_session_id r = k) rs of
        Some r \<Rightarrow> Some (st_summary r) | None \<Rightarrow> dget (ag_summaries a) k)"
proof (induction rs arbitrary: a)
  case (Cons r rs)
  have "find (\<lambda>r'. st_sub_session_id r' = st_sub_session_id r) rs = None"
    using Cons.prems by (auto simp: find_None_iff image_iff)
  with Cons show ?case by (auto simp: aggregate_step_def Let_def split: option.splits)
qed simp

lemma terminal_partition:
  "list_all (\<lambda>r. is_terminal_status (st_status r)) rs \<Longrightarrow>
   length (filter (\<lambda>r. st_status r = ''completed'') rs) +
   length (filter (\<lambda>r. st_status r = ''failed'') rs) +
   length (filter (\<lambda>r. st_status r = ''cancelled'') rs) = length rs"
  by (induction rs) (auto simp: is_terminal_status_def TERMINAL_STATUSES_def)

lemma aggregated_counts:
  assumes "all_terminal s (Some b)"
  defines "a \<equiv> get_aggregated_subtask_results s (Some b)"
  shows "ag_total a = length (list_records s (Some b))"
    and "ag_completed a + ag_failed a + ag_cancelled a = ag_total a"
proof -
  let ?rs = "list_records s (Some b)"
  have all: "list_all (\<lambda>r. is_terminal_status (st_status r)) ?rs"
    using assms(1) by (auto simp: all_terminal_def Let_def split: if_splits)
  show "ag_total a = length ?rs"
    by (simp add: a_def get_aggregated_subtask_results_def foldl_aggregate_counts Let_def)
  show "ag_completed a + ag_failed a + ag_cancelled a = ag_total a"
    using terminal_partition [OF all]
    by (simp add: a_def get_aggregated_subtask_results_def foldl_aggregate_counts Let_def)
qed

section \<open>Serialisation of a record\<close>

interpretation sub_task_codec:
  codec sub_task_to_dict "sub_task_from_dict rt" "\<lambda>r. st_status r \<noteq> []" for rt
  by unfold_locales (auto simp: sub_task_from_dict_def sub_task_to_dict_def py_or_def)

section \<open>Properties\<close>

lemma barrier_rearm:
  assumes "barrier_notified s" shows "build_barrier_message s = (None, s)"
  using assms by (simp add: build_barrier_message_def)

lemma aggregation_state [simp]:
  "barrier_notified (mark_aggregation_emitted s)" "records (mark_aggregation_emitted s) = records s"
  "current_batch_id (mark_aggregation_emitted s) = current_batch_id s"
  by (simp_all add: mark_aggregation_emitted_def)

lemma build_barrier_emits:
  "build_barrier_message s = (Some m, t) \<Longrightarrow>
     t = mark_aggregation_emitted s \<and> is_all_subtasks_terminal s \<and> \<not> barrier_notified s"
  by (auto simp: build_barrier_message_def is_all_subtasks_terminal_def Let_def split: if_splits)

lemma subtask_reachable_inv: "subtask_step\<^sup>*\<^sup>* new_subtask_state s \<Longrightarrow> subtask_inv s"
  by (rule subtasks.reachable_inv) auto


text \<open> Terminal is final: the first \<open>mark_terminal\<close> that takes effect stores a terminal status,
  leaves every other task alone, and no later \<open>mark_terminal\<close> of that task changes anything.\<close>

theorem mark_terminal_once:
  assumes "mark_terminal sid st sm s = (True, t)"
  shows "\<not> is_terminal s sid \<and> is_terminal t sid \<and> mark_terminal sid st' sm' t = (False, t) \<and>
         (k \<noteq> sid \<longrightarrow> dget (records t) k = dget (records s) k)"
  using mark_terminal_changes [OF assms] mark_terminal_stays mark_terminal_other [of k sid st sm s] assms
  by auto

text \<open> A subtask reference resolves to exactly one task: the task of that id, or else the only
  task whose id starts with the given non-empty prefix; an ambiguous or unknown one resolves to
  nothing.\<close>

theorem resolve_task_id_unique:
  assumes "subtask_step\<^sup>*\<^sup>* new_subtask_state s"
  shows "resolve_task_id s p = Some k \<longleftrightarrow>
     (if dget (records s) p \<noteq> None then k = p
      else p \<noteq> [] \<and> {j. dget (records s) j \<noteq> None \<and> py_startswith j p} = {k})"
proof -
  have "distinct (find_matching_task_ids s p)"
    using subtask_invD(1) [OF subtask_reachable_inv [OF assms]]
    by (auto simp: find_matching_task_ids_def dict_ok_def)
  then show ?thesis
    using find_matching_task_ids_set [of s p]
    by (auto simp: resolve_task_id_exact resolve_task_id_prefix distinct_singleton_iff)
qed

text \<open> The aggregate of a complete batch accounts for each of its tasks once: completed, failed and
  cancelled add up to the total, and the summaries hold each task's own summary.\<close>

theorem aggregate_accounts:
  assumes "subtask_step\<^sup>*\<^sup>* new_subtask_state s" and "all_terminal s (Some b)"
  shows "ag_total (get_aggregated_subtask_results s (Some b)) = length (list_records s (Some b)) \<and>
    ag_completed (get_aggregated_subtask_results s (Some b)) + ag_failed (get_aggregated_subtask_results s (Some b))
      + ag_cancelled (get_aggregated_subtask_results s (Some b)) = length (list_records s (Some b)) \<and>
    dget (ag_summaries (get_aggregated_subtask_results s (Some b))) k =
      (case dget (records s) k of Some r \<Rightarrow> (if st_batch_id r = b then Some (st_summary r) else None) | None \<Rightarrow> None)"
proof -
  note I = subtask_invD [OF subtask_reachable_inv [OF assms(1)]]
  let ?rs = "list_records s (Some b)"
  have ids: "map st_sub_session_id (dvalues (records s)) = dkeys (records s)"
    using I(1,2) by (auto simp: dget_Some_set)
  then have d: "distinct (map st_sub_session_id ?rs)"
    using I(1) unfolding list_records_def option.case dict_ok_def by (metis distinct_map_filter)
  have "find (\<lambda>r. st_sub_session_id r = k) ?rs =
      (case dget (records s) k of Some r \<Rightarrow> (if st_batch_id r = b then Some r else None) | None \<Rightarrow> None)"
    (is "?f = ?c")
  proof (cases ?f)
    case None
    then show ?thesis using set_list_records [OF I(1), of _ b] I(2)
      by (auto simp: find_None_iff split: option.splits)
  next
    case (Some r)
    then have "r \<in> set ?rs" and "st_sub_session_id r = k"
      by (auto simp: find_Some_iff)
    then show ?thesis using Some set_list_records [OF I(1), of r b] I(2) by auto
  qed
  with foldl_aggregate_summaries [OF d] aggregated_counts [OF assms(2)]
  show ?thesis by (auto simp: get_aggregated_subtask_results_def Let_def split: option.splits)
qed

text \<open>A barrier message is built at most once per completed batch: right after one was built the
  next call builds none, whatever terminal marks and failure notices come in between.\<close>

theorem barrier_message_once:
  assumes "build_barrier_message s = (Some m, t)"
  shows "fst (build_barrier_message t) = None \<and>
         fst (build_barrier_message (snd (mark_terminal sid st sm t))) = None \<and>
         fst (build_barrier_message (mark_immediate_failure_notified sid t)) = None \<and>
         is_all_subtasks_terminal s \<and> has_aggregation_emitted t"
proof -
  have "barrier_notified t" "has_aggregation_emitted t" "is_all_subtasks_terminal s"
    using build_barrier_emits [OF assms] by (auto simp: has_aggregation_emitted_def mark_aggregation_emitted_def)
  moreover have "barrier_notified (snd (mark_terminal sid st sm t)) = barrier_notified t"
    by (auto simp: mark_terminal_def split: option.splits)
  moreover have "barrier_notified (mark_immediate_failure_notified sid t) = barrier_notified t"
    by (simp add: mark_immediate_failure_notified_def)
  ultimately show ?thesis by (simp add: barrier_rearm)
qed

section \<open>Witnesses\<close>

definition demo_subtasks :: subtask_state where
  "demo_subtasks = snd (mark_terminal ''a1'' ''failed'' ''boom'' (snd (mark_terminal ''b2'' ''done'' ''ok''
     (register_task ''b2'' ''i2'' 2 (register_task ''a1'' ''i1'' 1 new_subtask_state)))))"

lemma steps_register: "subtask_step\<^sup>*\<^sup>* s0 s \<Longrightarrow> subtask_step\<^sup>*\<^sup>* s0 (register_task sid i t s)"
  by (rule rtranclp.rtrancl_into_rtrancl) (auto intro: subtask_step.register)

lemma steps_mark: "subtask_step\<^sup>*\<^sup>* s0 s \<Longrightarrow> subtask_step\<^sup>*\<^sup>* s0 (snd (mark_terminal sid st sm s))"
  by (rule rtranclp.rtrancl_into_rtrancl) (auto intro: subtask_step.mark)

lemma demo_subtasks_reachable: "subtask_step\<^sup>*\<^sup>* new_subtask_state demo_subtasks"
  unfolding demo_subtasks_def
  by (intro steps_mark steps_register rtranclp.rtrancl_refl)

lemmas subtask_eval = demo_subtasks_def new_subtask_state_def register_task_def mark_terminal_def
  normalize_terminal_def all_terminal_def list_records_def is_terminal_status_def TERMINAL_STATUSES_def
  is_all_subtasks_terminal_def py_strip_def py_lstrip_def py_rstrip_def py_lower_def lower_char_def is_space_def

lemma demo_subtasks_eval: "records demo_subtasks =
    [(''a1'', \<lparr>st_sub_session_id = ''a1'', st_instruction = ''i1'', st_status = ''failed'',
       st_start_time = 1, st_summary = ''boom'', st_batch_id = 0\<rparr>),
     (''b2'', \<lparr>st_sub_session_id = ''b2'', st_instruction = ''i2'', st_status = ''completed'',
       st_start_time = 2, st_summary = ''ok'', st_batch_id = 0\<rparr>)] \<and> current_batch_id demo_subtasks = 0
     \<and> \<not> barrier_notified demo_subtasks"
  by (simp add: subtask_eval)


definition demo_live :: subtask_state where
  "demo_live = register_task ''a1'' ''i1'' 1 new_subtask_state"

lemma demo_mark: "mark_terminal ''a1'' ''failed'' ''boom'' demo_live =
    (True, snd (mark_terminal ''a1'' ''failed'' ''boom'' demo_live))"
  by (simp add: demo_live_def subtask_eval)

theorem mark_terminal_once_witness:
  "is_terminal (snd (mark_terminal ''a1'' ''failed'' ''boom'' demo_live)) ''a1'' \<and>
   \<not> fst (mark_terminal ''a1'' ''completed'' ''late'' (snd (mark_terminal ''a1'' ''failed'' ''boom'' demo_live)))"
  using mark_terminal_once [OF demo_mark] by (metis fst_conv)

theorem resolve_task_id_unique_witness: "resolve_task_id demo_subtasks ''b'' = Some ''b2''"
  using resolve_task_id_unique [OF demo_subtasks_reachable, of "''b''" "''b2''"] demo_subtasks_eval
  by (auto simp: py_startswith_def split: if_splits)

theorem aggregate_accounts_witness:
  "dget (ag_summaries (get_aggregated_subtask_results demo_subtasks (Some 0))) ''a1'' = Some ''boom'' \<and>
   ag_total (get_aggregated_subtask_results demo_subtasks (Some 0)) = 2"
proof -
  have "all_terminal demo_subtasks (Some 0)" and "length (list_records demo_subtasks (Some 0)) = 2"
    using demo_subtasks_eval by (simp_all add: all_terminal_def list_records_def is_terminal_status_def TERMINAL_STATUSES_def)
  then show ?thesis
    using aggregate_accounts [OF demo_subtasks_reachable, of 0 "''a1''"] demo_subtasks_eval by simp
qed

theorem barrier_message_once_witness:
  "fst (build_barrier_message (snd (build_barrier_message demo_subtasks))) = None \<and>
   fst (build_barrier_message demo_subtasks) \<noteq> None"
proof -
  have "\<exists>m. build_barrier_message demo_subtasks = (Some m, snd (build_barrier_message demo_subtasks))"
    using demo_subtasks_eval
    by (auto simp: build_barrier_message_def all_terminal_def list_records_def Let_def
        is_terminal_status_def TERMINAL_STATUSES_def)
  then show ?thesis using barrier_message_once by (metis fst_conv option.distinct(1))
qed

end
