(* ===== verification/Events.thy ===== *)
theory Events
  imports Prelude
begin

text \<open>
  Runtime events: \<^verbatim>\<open>core/events/bus.py\<close> (event types, \<open>RuntimeEvent\<close>, the mailbox envelope,
  \<open>SessionRuntimeState\<close>) and the typed payload contracts of \<^verbatim>\<open>core/events/payloads.py\<close>.
  \<open>to_dict\<close> and \<open>from_dict\<close> are modelled over \<open>json\<close>; a fresh identifier and the current time are
  arguments. Calling \<open>.get\<close> on a payload that is no dictionary is the error \<open>AttributeError\<close>.
\<close>

section \<open>Event types\<close>

datatype event_type =
    USER_MESSAGE_RECEIVED
  | SUBTASK_COMPLETED
  | WAKEUP_REQUESTED
  | FILE_UPLOAD_RECEIVED
  | FORCE_FINISH_REQUESTED

fun event_type_str :: "event_type \<Rightarrow> string" where
  "event_type_str USER_MESSAGE_RECEIVED = ''user_message_received''"
| "event_type_str SUBTASK_COMPLETED = ''subtask_completed''"
| "event_type_str WAKEUP_REQUESTED = ''wakeup_requested''"
| "event_type_str FILE_UPLOAD_RECEIVED = ''file_upload_received''"
| "event_type_str FORCE_FINISH_REQUESTED = ''force_finish_requested''"

definition event_types :: "event_type list" where
  "event_types = [USER_MESSAGE_RECEIVED, SUBTASK_COMPLETED, WAKEUP_REQUESTED,
                  FILE_UPLOAD_RECEIVED, FORCE_FINISH_REQUESTED]"

text \<open>\<open>RuntimeEventType = EventType | str\<close>\<close>

datatype runtime_event_type = ETEnum event_type | ETStr string

fun event_type_value :: "runtime_event_type \<Rightarrow> string" where
  "event_type_value (ETEnum t) = event_type_str t"
| "event_type_value (ETStr s) = py_strip s"

definition event_type_key :: "runtime_event_type \<Rightarrow> string" where
  "event_type_key t = event_type_value t"

text \<open>\<open>EventType(raw)\<close>, falling back to the raw string on \<open>ValueError\<close>.\<close>

definition parse_event_type :: "string \<Rightarrow> runtime_event_type" where
  "parse_event_type raw =
     (case find (\<lambda>t. event_type_str t = raw) event_types of
        Some t \<Rightarrow> ETEnum t | None \<Rightarrow> ETStr raw)"

datatype wakeup_reason = WR_USER_MESSAGE | WR_SUBTASK_COMPLETED | WR_SYSTEM

fun wakeup_reason_str :: "wakeup_reason \<Rightarrow> string" where
  "wakeup_reason_str WR_USER_MESSAGE = ''user_message''"
| "wakeup_reason_str WR_SUBTASK_COMPLETED = ''subtask_completed''"
| "wakeup_reason_str WR_SYSTEM = ''system''"

section \<open>RuntimeEvent\<close>

record runtime_event =
  re_type :: runtime_event_type
  re_session_id :: string
  re_payload :: json
  re_source :: string
  re_id :: string
  re_timestamp :: int

definition type_value :: "runtime_event \<Rightarrow> string" where
  "type_value e = event_type_value (re_type e)"

definition runtime_event_to_dict :: "runtime_event \<Rightarrow> json_object" where
  "runtime_event_to_dict e =
     [(''id'', JStr (re_id e)),
      (''type'', JStr (type_value e)),
      (''session_id'', JStr (re_session_id e)),
      (''payload'', re_payload e),
      (''source'', JStr (re_source e)),
      (''timestamp'', JInt (re_timestamp e))]"

definition runtime_event_from_dict ::
  "py_runtime \<Rightarrow> string \<Rightarrow> int \<Rightarrow> json_object \<Rightarrow> runtime_event res" where
  "runtime_event_from_dict rt fresh now d =
     res_bind (py_int rt (py_or (obj_get d ''timestamp'') (JInt now))) (\<lambda>ts.
       Inr \<lparr>re_type = parse_event_type (py_strip (py_str rt (py_or (obj_get d ''type'') (JStr [])))),
            re_session_id = py_str rt (py_or (obj_get d ''session_id'') (JStr [])),
            re_payload = py_or (obj_get d ''payload'') (JDict []),
            re_source = py_str rt (py_or (obj_get d ''source'') (JStr ''runtime'')),
            re_id = py_str rt (py_or (obj_get d ''id'') (JStr fresh)),
            re_timestamp = ts\<rparr>)"

section \<open>Typed payloads\<close>

definition WAKEUP_SYSTEM_REASON :: string where
  "WAKEUP_SYSTEM_REASON = ''system''"

definition runtime_event_type_value :: "runtime_event \<Rightarrow> string" where
  "runtime_event_type_value e =
     py_strip (case re_type e of ETEnum t \<Rightarrow> event_type_str t | ETStr s \<Rightarrow> s)"

text \<open>\<open>isinstance(x, str) and x.strip()\<close>, and the list of such group names.\<close>

fun nonblank_str :: "json \<Rightarrow> string option" where
  "nonblank_str (JStr s) = (if py_strip s \<noteq> [] then Some s else None)"
| "nonblank_str _ = None"

definition clean_groups :: "json list \<Rightarrow> string list" where
  "clean_groups xs = List.map_filter nonblank_str xs"

fun bool_or :: "json \<Rightarrow> bool \<Rightarrow> bool" where
  "bool_or (JBool b) dflt = b"
| "bool_or _ dflt = dflt"

fun list_opt :: "json \<Rightarrow> json list option" where
  "list_opt (JList xs) = Some xs"
| "list_opt _ = None"

fun dict_opt :: "json \<Rightarrow> json_object option" where
  "dict_opt (JDict d) = Some d"
| "dict_opt _ = None"

record event_payload_base =
  ep_session_id :: string
  ep_event_id :: string
  ep_source :: string
  ep_timestamp_ms :: int

record user_message_payload = event_payload_base +
  um_trigger_turn :: bool
  um_task_type :: string
  um_enabled_groups :: "string list option"

record wakeup_payload = event_payload_base +
  wk_reason :: string

record subtask_completed_payload = event_payload_base +
  sc_trigger_turn :: bool
  sc_sub_session_id :: "string option"
  sc_aggregated :: "json_object option"
  sc_status :: "string option"
  sc_immediate :: bool

record file_upload_payload = event_payload_base +
  fu_file_id :: string
  fu_filename :: string
  fu_mime_type :: string

record generic_payload = event_payload_base +
  gp_event_type :: string
  gp_data :: json_object
  gp_schema_definition :: "json_object option"

record force_finish_payload = event_payload_base +
  ff_trigger_turn :: bool
  ff_reason :: "string option"
  ff_stage :: "string option"
  ff_turn_id :: "string option"
  ff_task_type :: "string option"
  ff_enabled_groups :: "string list option"
  ff_is_sub_session :: bool
  ff_details :: "json_object option"

text \<open>\<open>payload = event.payload or {}\<close>; the first \<open>.get\<close> fails on a non-dictionary.\<close>

definition event_payload_obj :: "runtime_event \<Rightarrow> json_object res" where
  "event_payload_obj e = as_obj (py_or (re_payload e) (JDict []))"

definition groups_value :: "json_object \<Rightarrow> json" where
  "groups_value p = (case list_opt (obj_get p ''enabled_groups'') of
      Some xs \<Rightarrow> JList xs | None \<Rightarrow> obj_get p ''selected_groups'')"

definition cleaned_groups_opt :: "json \<Rightarrow> string list option" where
  "cleaned_groups_opt j = (case list_opt j of
      None \<Rightarrow> None
    | Some xs \<Rightarrow> (if clean_groups xs = [] then None else Some (clean_groups xs)))"

definition user_message_from_event :: "runtime_event \<Rightarrow> user_message_payload res" where
  "user_message_from_event e = res_bind (event_payload_obj e) (\<lambda>p.
     Inr \<lparr>ep_session_id = re_session_id e, ep_event_id = re_id e, ep_source = re_source e,
          ep_timestamp_ms = re_timestamp e,
          um_trigger_turn = bool_or (obj_get p ''trigger_turn'') True,
          um_task_type = (case nonblank_str (obj_get p ''task_type'') of
             Some s \<Rightarrow> py_strip s | None \<Rightarrow> ''general''),
          um_enabled_groups = cleaned_groups_opt (groups_value p)\<rparr>)"

definition wakeup_from_event :: "runtime_event \<Rightarrow> wakeup_payload res" where
  "wakeup_from_event e = res_bind (event_payload_obj e) (\<lambda>p.
     Inr \<lparr>ep_session_id = re_session_id e, ep_event_id = re_id e, ep_source = re_source e,
          ep_timestamp_ms = re_timestamp e,
          wk_reason = (case nonblank_str (obj_get p ''reason'') of
             Some s \<Rightarrow> s | None \<Rightarrow> WAKEUP_SYSTEM_REASON)\<rparr>)"

definition subtask_completed_from_event :: "runtime_event \<Rightarrow> subtask_completed_payload res" where
  "subtask_completed_from_event e = res_bind (event_payload_obj e) (\<lambda>p.
     Inr \<lparr>ep_session_id = re_session_id e, ep_event_id = re_id e, ep_source = re_source e,
          ep_timestamp_ms = re_timestamp e,
          sc_trigger_turn = bool_or (obj_get p ''trigger_turn'') True,
          sc_sub_session_id = nonblank_str (obj_get p ''sub_session_id''),
          sc_aggregated = dict_opt (obj_get p ''aggregated''),
          sc_status = nonblank_str (obj_get p ''status''),
          sc_immediate = bool_or (obj_get p ''immediate'') False\<rparr>)"

fun str_or :: "json \<Rightarrow> string \<Rightarrow> string" where
  "str_or (JStr s) dflt = s"
| "str_or _ dflt = dflt"

definition file_upload_from_event :: "runtime_event \<Rightarrow> file_upload_payload res" where
  "file_upload_from_event e = res_bind (event_payload_obj e) (\<lambda>p.
     Inr \<lparr>ep_session_id = re_session_id e, ep_event_id = re_id e, ep_source = re_source e,
          ep_timestamp_ms = re_timestamp e,
          fu_file_id = str_or (obj_get p ''file_id'') [],
          fu_filename = str_or (obj_get p ''filename'') [],
          fu_mime_type = (case nonblank_str (obj_get p ''mime_type'') of
             Some s \<Rightarrow> s | None \<Rightarrow> ''application/octet-stream'')\<rparr>)"

text \<open>The generic payload keeps any truthy payload, replacing a non-dictionary by \<open>{}\<close>.\<close>

definition generic_from_event :: "runtime_event \<Rightarrow> generic_payload" where
  "generic_from_event e =
     \<lparr>ep_session_id = re_session_id e, ep_event_id = re_id e, ep_source = re_source e,
      ep_timestamp_ms = re_timestamp e,
      gp_event_type = runtime_event_type_value e,
      gp_data = dict_of (py_or (re_payload e) (JDict [])),
      gp_schema_definition = None\<rparr>"

definition force_finish_from_event :: "runtime_event \<Rightarrow> force_finish_payload res" where
  "force_finish_from_event e = res_bind (event_payload_obj e) (\<lambda>p.
     Inr \<lparr>ep_session_id = re_session_id e, ep_event_id = re_id e, ep_source = re_source e,
          ep_timestamp_ms = re_timestamp e,
          ff_trigger_turn = bool_or (obj_get p ''trigger_turn'') False,
          ff_reason = nonblank_str (obj_get p ''reason''),
          ff_stage = nonblank_str (obj_get p ''stage''),
          ff_turn_id = nonblank_str (obj_get p ''turn_id''),
          ff_task_type = nonblank_str (obj_get p ''task_type''),
          ff_enabled_groups = map_option clean_groups (list_opt (obj_get p ''enabled_groups'')),
          ff_is_sub_session = bool_or (obj_get p ''is_sub_session'') False,
          ff_details = dict_opt (obj_get p ''details'')\<rparr>)"

datatype runtime_event_payload =
    PUserMessage user_message_payload
  | PSubtaskCompleted subtask_completed_payload
  | PWakeup wakeup_payload
  | PFileUpload file_upload_payload
  | PForceFinish force_finish_payload
  | PGeneric generic_payload

definition payload_from_runtime_event :: "runtime_event \<Rightarrow> runtime_event_payload res" where
  "payload_from_runtime_event e =
     (let t = runtime_event_type_value e in
      if t = ''user_message_received'' then res_bind (user_message_from_event e) (\<lambda>p. Inr (PUserMessage p))
      else if t = ''subtask_completed'' then res_bind (subtask_completed_from_event e) (\<lambda>p. Inr (PSubtaskCompleted p))
      else if t = ''wakeup_requested'' then res_bind (wakeup_from_event e) (\<lambda>p. Inr (PWakeup p))
      else if t = ''file_upload_received'' then res_bind (file_upload_from_event e) (\<lambda>p. Inr (PFileUpload p))
      else if t = ''force_finish_requested'' then res_bind (force_finish_from_event e) (\<lambda>p. Inr (PForceFinish p))
      else Inr (PGeneric (generic_from_event e)))"

definition normalize_trigger_turn :: "string \<Rightarrow> json_object \<Rightarrow> bool" where
  "normalize_trigger_turn t p =
     bool_or (obj_get p ''trigger_turn'') (t \<in> {''user_message_received'', ''subtask_completed''})"

section \<open>The mailbox envelope\<close>

record envelope =
  en_event_id :: string
  en_event_type :: runtime_event_type
  en_payload :: json
  en_source :: string
  en_timestamp :: int
  en_trigger_turn :: bool

definition envelope_from_runtime_event :: "runtime_event \<Rightarrow> envelope res" where
  "envelope_from_runtime_event e = res_bind (event_payload_obj e) (\<lambda>p.
     Inr \<lparr>en_event_id = re_id e, en_event_type = re_type e,
          en_payload = py_or (re_payload e) (JDict []), en_source = re_source e,
          en_timestamp = re_timestamp e,
          en_trigger_turn = normalize_trigger_turn (type_value e) p\<rparr>)"

definition envelope_to_dict :: "envelope \<Rightarrow> json_object" where
  "envelope_to_dict v =
     [(''event_id'', JStr (en_event_id v)),
      (''event_type'', JStr (event_type_value (en_event_type v))),
      (''payload'', en_payload v),
      (''source'', JStr (en_source v)),
      (''timestamp'', JInt (en_timestamp v)),
      (''trigger_turn'', JBool (en_trigger_turn v))]"

definition envelope_from_dict :: "py_runtime \<Rightarrow> int \<Rightarrow> json_object \<Rightarrow> envelope res" where
  "envelope_from_dict rt now d =
     (let t = parse_event_type (py_strip (py_str rt (py_or (obj_get d ''event_type'') (JStr [])))) in
      res_bind (py_int rt (py_or (obj_get d ''timestamp'') (JInt now))) (\<lambda>ts.
        Inr \<lparr>en_event_id = py_str rt (py_or (obj_get d ''event_id'') (JStr [])),
             en_event_type = t,
             en_payload = py_or (obj_get d ''payload'') (JDict []),
             en_source = py_str rt (py_or (obj_get d ''source'') (JStr ''runtime'')),
             en_timestamp = ts,
             en_trigger_turn = normalize_trigger_turn (event_type_value t) d\<rparr>))"

section \<open>The runtime state of one session\<close>

record session_state =
  ss_session_id :: string
  ss_inflight :: bool
  ss_wakeup_queued :: bool
  ss_heartbeat_at :: rat
  ss_mailbox :: "envelope list"

definition new_session_state :: "string \<Rightarrow> rat \<Rightarrow> session_state" where
  "new_session_state sid now =
     \<lparr>ss_session_id = sid, ss_inflight = False, ss_wakeup_queued = False,
      ss_heartbeat_at = now, ss_mailbox = []\<rparr>"

definition touch :: "rat \<Rightarrow> session_state \<Rightarrow> session_state" where
  "touch now s = s\<lparr>ss_heartbeat_at := now\<rparr>"

definition enqueue_event :: "rat \<Rightarrow> runtime_event \<Rightarrow> session_state \<Rightarrow> session_state res" where
  "enqueue_event now e s = res_bind (envelope_from_runtime_event e) (\<lambda>v.
     Inr (touch now (s\<lparr>ss_mailbox := ss_mailbox s @ [v]\<rparr>)))"

definition consume_mailbox :: "session_state \<Rightarrow> envelope list \<times> session_state" where
  "consume_mailbox s = (ss_mailbox s, s\<lparr>ss_mailbox := []\<rparr>)"

definition has_mailbox_events :: "session_state \<Rightarrow> bool" where
  "has_mailbox_events s = (length (ss_mailbox s) > 0)"

definition has_triggerable_mailbox_events :: "session_state \<Rightarrow> bool" where
  "has_triggerable_mailbox_events s = list_ex en_trigger_turn (ss_mailbox s)"

definition session_state_to_dict :: "session_state \<Rightarrow> json_object" where
  "session_state_to_dict s =
     [(''session_id'', JStr (ss_session_id s)),
      (''inflight'', JBool (ss_inflight s)),
      (''wakeup_queued'', JBool (ss_wakeup_queued s)),
      (''heartbeat_at'', JFloat (ss_heartbeat_at s)),
      (''mailbox'', JList (map (\<lambda>v. JDict (envelope_to_dict v)) (ss_mailbox s)))]"

text \<open>What a \<open>for\<close> loop sees when it runs over a value.\<close>

fun iter_items :: "json \<Rightarrow> json list res" where
  "iter_items (JList xs) = Inr xs"
| "iter_items (JDict d) = Inr (map (\<lambda>p. JStr (fst p)) d)"
| "iter_items (JStr s) = Inr (map (\<lambda>c. JStr [c]) s)"
| "iter_items _ = Inl TypeError"

definition session_state_from_dict :: "py_runtime \<Rightarrow> rat \<Rightarrow> int \<Rightarrow> json_object \<Rightarrow> session_state res" where
  "session_state_from_dict rt now now_ms d =
     res_bind (iter_items (py_or (obj_get d ''mailbox'') (JList []))) (\<lambda>raw.
     res_bind (res_map (\<lambda>j. envelope_from_dict rt now_ms (dict_of j)) (filter is_dict raw)) (\<lambda>mb.
     res_bind (py_float rt (py_or (obj_get d ''heartbeat_at'') (JFloat now))) (\<lambda>hb.
       Inr \<lparr>ss_session_id = py_str rt (py_or (obj_get d ''session_id'') (JStr [])),
            ss_inflight = truthy (obj_get_or d ''inflight'' (JBool False)),
            ss_wakeup_queued = truthy (obj_get_or d ''wakeup_queued'' (JBool False)),
            ss_heartbeat_at = hb,
            ss_mailbox = mb\<rparr>)))"

section \<open>Facts about event types\<close>

text \<open>The event types \<open>from_dict\<close> produces: an enumeration member, or a stripped other name.\<close>

fun canonical_type :: "runtime_event_type \<Rightarrow> bool" where
  "canonical_type (ETEnum t) = True"
| "canonical_type (ETStr s) = (py_strip s = s \<and> s \<notin> set (map event_type_str event_types))"

lemma event_type_str_strip [simp]: "py_strip (event_type_str t) = event_type_str t"
  by (cases t) (simp_all add: py_strip_id is_space_def)

lemma event_type_str_not_Nil [simp]: "event_type_str t \<noteq> []"
  by (cases t) simp_all

lemma event_type_str_inj [simp]: "event_type_str t = event_type_str u \<longleftrightarrow> t = u"
  by (cases t; cases u) simp_all

lemma event_type_value_strip [simp]: "py_strip (event_type_value t) = event_type_value t"
  by (cases t) simp_all

lemma parse_event_type_enum [simp]: "parse_event_type (event_type_str t) = ETEnum t"
  by (cases t) (simp_all add: parse_event_type_def event_types_def)

lemma parse_event_type_other:
  "s \<notin> set (map event_type_str event_types) \<Longrightarrow> parse_event_type s = ETStr s"
  by (auto simp: parse_event_type_def find_None_iff find_Some_iff split: option.splits)

lemma parse_event_type_value:
  "canonical_type t \<Longrightarrow> parse_event_type (event_type_value t) = t"
  by (cases t) (auto intro: parse_event_type_other)

lemma canonical_type_parse: "canonical_type (parse_event_type (py_strip s))"
  by (auto simp: parse_event_type_def find_None_iff image_iff split: option.splits)

lemma runtime_event_type_value_eq: "runtime_event_type_value e = type_value e"
  by (cases "re_type e") (simp_all add: runtime_event_type_value_def type_value_def)

lemma event_payload_obj_Inr:
  "event_payload_obj e = Inr p \<Longrightarrow> p = dict_of (py_or (re_payload e) (JDict []))"
  unfolding event_payload_obj_def by (cases "py_or (re_payload e) (JDict [])") auto

section \<open>Round trips\<close>

definition event_ok :: "runtime_event \<Rightarrow> bool" where
  "event_ok e \<longleftrightarrow> canonical_type (re_type e) \<and> re_id e \<noteq> [] \<and> re_source e \<noteq> [] \<and>
     re_timestamp e \<noteq> 0 \<and> (truthy (re_payload e) \<or> re_payload e = JDict [])"

definition envelope_ok :: "envelope \<Rightarrow> bool" where
  "envelope_ok v \<longleftrightarrow> canonical_type (en_event_type v) \<and> en_source v \<noteq> [] \<and>
     en_timestamp v \<noteq> 0 \<and> (truthy (en_payload v) \<or> en_payload v = JDict [])"

definition session_state_ok :: "session_state \<Rightarrow> bool" where
  "session_state_ok s \<longleftrightarrow> ss_heartbeat_at s \<noteq> 0 \<and> list_all envelope_ok (ss_mailbox s)"

lemma py_or_str [simp]: "py_str rt (py_or (JStr s) (JStr d)) = (if s = [] then d else s)"
  by (simp add: py_or_def)

interpretation event_codec:
  codec runtime_event_to_dict "runtime_event_from_dict rt fresh now" event_ok for rt fresh now
  by unfold_locales
    (auto simp: runtime_event_from_dict_def runtime_event_to_dict_def event_ok_def type_value_def
      parse_event_type_value)

lemma envelope_round_trip:
  "envelope_ok v \<Longrightarrow> envelope_from_dict rt now (envelope_to_dict v) = Inr v"
  by (auto simp: envelope_from_dict_def envelope_to_dict_def envelope_ok_def Let_def
      parse_event_type_value normalize_trigger_turn_def)

interpretation envelope_codec:
  codec "\<lambda>v. JDict (envelope_to_dict v)" "\<lambda>j. envelope_from_dict rt now (dict_of j)" envelope_ok
  for rt now
  by unfold_locales (simp add: envelope_round_trip)

lemma session_state_round_trip:
  assumes "session_state_ok s"
  shows "session_state_from_dict rt now now_ms (session_state_to_dict s) = Inr s"
proof -
  let ?raw = "map (\<lambda>v. JDict (envelope_to_dict v)) (ss_mailbox s)"
  have "filter is_dict ?raw = ?raw" by (simp add: filter_map comp_def)
  moreover have "res_map (\<lambda>j. envelope_from_dict rt now_ms (dict_of j)) ?raw = Inr (ss_mailbox s)"
    using assms by (intro envelope_codec.dec_list) (simp add: session_state_ok_def)
  moreover have "iter_items (py_or (JList ?raw) (JList [])) = Inr ?raw"
    by (simp add: py_or_def)
  ultimately show ?thesis
    using assms
    by (simp add: session_state_from_dict_def session_state_to_dict_def session_state_ok_def
        obj_get_or_def)
qed

interpretation session_state_codec:
  codec session_state_to_dict "session_state_from_dict rt now now_ms" session_state_ok
  for rt now now_ms
  by unfold_locales (rule session_state_round_trip)

section \<open>When an event triggers a turn\<close>

lemma envelope_Inr_iff:
  "envelope_from_runtime_event e = Inr v \<longleftrightarrow>
   (\<exists>p. event_payload_obj e = Inr p \<and>
     v = \<lparr>en_event_id = re_id e, en_event_type = re_type e,
          en_payload = py_or (re_payload e) (JDict []), en_source = re_source e,
          en_timestamp = re_timestamp e,
          en_trigger_turn = normalize_trigger_turn (type_value e) p\<rparr>)"
  by (auto simp: envelope_from_runtime_event_def res_bind_Inr_iff)

lemma trigger_turn_user_message:
  assumes "type_value e = ''user_message_received''"
    and "envelope_from_runtime_event e = Inr v" and "user_message_from_event e = Inr p"
  shows "en_trigger_turn v = um_trigger_turn p"
  using assms by (auto simp: envelope_Inr_iff user_message_from_event_def res_bind_Inr_iff
      normalize_trigger_turn_def)

lemma trigger_turn_subtask_completed:
  assumes "type_value e = ''subtask_completed''"
    and "envelope_from_runtime_event e = Inr v" and "subtask_completed_from_event e = Inr p"
  shows "en_trigger_turn v = sc_trigger_turn p"
  using assms by (auto simp: envelope_Inr_iff subtask_completed_from_event_def res_bind_Inr_iff
      normalize_trigger_turn_def)

text \<open>An event whose payload is an object can be queued, and its mailbox entry survives storage.\<close>

lemma envelope_of_event_ok:
  "event_ok e \<Longrightarrow> envelope_from_runtime_event e = Inr v \<Longrightarrow> envelope_ok v"
  by (auto simp: envelope_Inr_iff event_ok_def envelope_ok_def)

end
