(* ===== verification/EventBus.thy ===== *)
theory EventBus
  imports Events "HOL-Library.Multiset"
begin

text \<open>
  \<open>SessionEventBus\<close> of \<^verbatim>\<open>core/events/bus.py\<close> and the publishing entry point of
  \<^verbatim>\<open>core/events/runtime.py\<close>. The bus's lock is never held across a suspension point, so
  \<open>publish\<close>, \<open>_pop_next_event\<close> and \<open>_reschedule_session\<close> are atomic; a worker is between two of them
  in one of four places, and the workers and publishers interleave freely (\<open>bus_step\<close>).

  Shown here: a session is never dispatched by two workers at once, its events are dispatched in
  publishing order, none is lost, and the workers alone drain every queue.
\<close>

section \<open>State and operations\<close>

datatype worker_state =
    WIdle
  | WGot string
  | WDispatch runtime_event
  | WResched string

record 'h bus =
  bus_worker_count :: nat
  session_queues :: "(string, runtime_event list) dict"
  ready_sessions :: "string list"
  scheduled_sessions :: "string set"
  subscribers :: "(string, 'h list) dict"
  workers :: "worker_state list"
  bus_running :: bool

definition bus_init :: "int \<Rightarrow> 'h bus" where
  "bus_init worker_count =
     \<lparr>bus_worker_count = nat (max 1 worker_count), session_queues = [], ready_sessions = [],
      scheduled_sessions = {}, subscribers = [], workers = [], bus_running = False\<rparr>"

definition subscribe :: "runtime_event_type \<Rightarrow> 'h \<Rightarrow> 'h bus \<Rightarrow> 'h bus" where
  "subscribe t cb b =
     (let hs = (case dget (subscribers b) (event_type_key t) of None \<Rightarrow> [] | Some hs \<Rightarrow> hs)
      in b\<lparr>subscribers := dset (event_type_key t) (hs @ [cb]) (subscribers b)\<rparr>)"

definition publish :: "runtime_event \<Rightarrow> 'h bus \<Rightarrow> 'h bus" where
  "publish e b =
     (let sid = re_session_id e;
          queue = (case dget (session_queues b) sid of None \<Rightarrow> [] | Some q \<Rightarrow> q);
          b1 = b\<lparr>session_queues := dset sid (queue @ [e]) (session_queues b)\<rparr>
      in if sid \<notin> scheduled_sessions b
         then b1\<lparr>scheduled_sessions := insert sid (scheduled_sessions b),
                 ready_sessions := ready_sessions b @ [sid]\<rparr>
         else b1)"

definition bus_start :: "'h bus \<Rightarrow> 'h bus" where
  "bus_start b =
     (if bus_running b then b
      else b\<lparr>bus_running := True, workers := workers b @ replicate (bus_worker_count b) WIdle\<rparr>)"

definition bus_stop :: "'h bus \<Rightarrow> 'h bus" where
  "bus_stop b = b\<lparr>bus_running := False, workers := []\<rparr>"

definition pop_next_event :: "string \<Rightarrow> 'h bus \<Rightarrow> runtime_event option \<times> 'h bus" where
  "pop_next_event sid b = (case dget (session_queues b) sid of
      None \<Rightarrow> (None, b\<lparr>scheduled_sessions := scheduled_sessions b - {sid}\<rparr>)
    | Some [] \<Rightarrow> (None, b\<lparr>scheduled_sessions := scheduled_sessions b - {sid},
                          session_queues := dpop sid (session_queues b)\<rparr>)
    | Some (e # q) \<Rightarrow> (Some e, b\<lparr>session_queues := dset sid q (session_queues b)\<rparr>))"

definition reschedule_session :: "string \<Rightarrow> 'h bus \<Rightarrow> 'h bus" where
  "reschedule_session sid b =
     (if dget (session_queues b) sid \<in> {None, Some []}
      then b\<lparr>scheduled_sessions := scheduled_sessions b - {sid},
             session_queues := dpop sid (session_queues b)\<rparr>
      else b\<lparr>ready_sessions := ready_sessions b @ [sid]\<rparr>)"

text \<open>
  The handlers one dispatch runs. \<open>gather(..., return_exceptions=True)\<close> runs them all and keeps
  their exceptions, so a dispatch always completes.
\<close>

definition dispatch_handlers :: "'h bus \<Rightarrow> runtime_event \<Rightarrow> 'h list" where
  "dispatch_handlers b e = (case dget (subscribers b) (event_type_key (re_type e)) of
      None \<Rightarrow> [] | Some hs \<Rightarrow> hs)"

text \<open>\<open>publish_runtime_event\<close> through the process-wide bus, if one is registered.\<close>

definition publish_runtime_event ::
  "runtime_event_type \<Rightarrow> string \<Rightarrow> json \<Rightarrow> string \<Rightarrow> string \<Rightarrow> int \<Rightarrow> 'h bus option
   \<Rightarrow> bool \<times> 'h bus option" where
  "publish_runtime_event t sid payload source fresh now bus = (case bus of
      None \<Rightarrow> (False, None)
    | Some b \<Rightarrow> (True, Some (publish
        \<lparr>re_type = t, re_session_id = sid, re_payload = py_or payload (JDict []),
         re_source = source, re_id = fresh, re_timestamp = now\<rparr> b)))"

section \<open>Workers and publishers interleaved\<close>

text \<open>
  A run is the bus with two logs: what was published and what was handed to a worker's
  \<open>_dispatch\<close>, in order.
\<close>

record 'h bus_run =
  the_bus :: "'h bus"
  published :: "runtime_event list"
  dispatched :: "runtime_event list"

inductive worker_step :: "'h bus_run \<Rightarrow> 'h bus_run \<Rightarrow> bool" where
  take_ready: "workers (the_bus r) = ws1 @ WIdle # ws2 \<Longrightarrow> ready_sessions (the_bus r) = sid # rest \<Longrightarrow>
     worker_step r (r\<lparr>the_bus := (the_bus r)\<lparr>workers := ws1 @ WGot sid # ws2, ready_sessions := rest\<rparr>\<rparr>)"
| pop_none: "workers (the_bus r) = ws1 @ WGot sid # ws2 \<Longrightarrow> pop_next_event sid (the_bus r) = (None, b) \<Longrightarrow>
     worker_step r (r\<lparr>the_bus := b\<lparr>workers := ws1 @ WIdle # ws2\<rparr>\<rparr>)"
| pop_event: "workers (the_bus r) = ws1 @ WGot sid # ws2 \<Longrightarrow> pop_next_event sid (the_bus r) = (Some e, b) \<Longrightarrow>
     worker_step r (r\<lparr>the_bus := b\<lparr>workers := ws1 @ WDispatch e # ws2\<rparr>, dispatched := dispatched r @ [e]\<rparr>)"
| finish: "workers (the_bus r) = ws1 @ WDispatch e # ws2 \<Longrightarrow>
     worker_step r (r\<lparr>the_bus := (the_bus r)\<lparr>workers := ws1 @ WResched (re_session_id e) # ws2\<rparr>\<rparr>)"
| resched: "workers (the_bus r) = ws1 @ WResched sid # ws2 \<Longrightarrow>
     worker_step r (r\<lparr>the_bus := (reschedule_session sid (the_bus r))\<lparr>workers := ws1 @ WIdle # ws2\<rparr>\<rparr>)"

inductive bus_step :: "'h bus_run \<Rightarrow> 'h bus_run \<Rightarrow> bool" where
  work: "worker_step r r' \<Longrightarrow> bus_step r r'"
| env_publish: "bus_step r (r\<lparr>the_bus := publish e (the_bus r), published := published r @ [e]\<rparr>)"
| env_subscribe: "bus_step r (r\<lparr>the_bus := subscribe t cb (the_bus r)\<rparr>)"
| env_start: "bus_step r (r\<lparr>the_bus := bus_start (the_bus r)\<rparr>)"

definition bus_run_init :: "int \<Rightarrow> 'h bus_run" where
  "bus_run_init n = \<lparr>the_bus = bus_init n, published = [], dispatched = []\<rparr>"

fun holding :: "worker_state \<Rightarrow> string list" where
  "holding WIdle = []"
| "holding (WGot sid) = [sid]"
| "holding (WDispatch e) = [re_session_id e]"
| "holding (WResched sid) = [sid]"

definition held :: "worker_state list \<Rightarrow> string list" where
  "held ws = concat (map holding ws)"

lemma held_simps [simp]:
  "held [] = []" "held (w # ws) = holding w @ held ws" "held (ws1 @ ws2) = held ws1 @ held ws2"
  by (simp_all add: held_def)

lemma held_replicate_idle [simp]: "held (replicate n WIdle) = []"
  by (induction n) auto

definition pending :: "'h bus \<Rightarrow> string \<Rightarrow> runtime_event list" where
  "pending b sid = (case dget (session_queues b) sid of None \<Rightarrow> [] | Some q \<Rightarrow> q)"

definition of_session :: "string \<Rightarrow> runtime_event list \<Rightarrow> runtime_event list" where
  "of_session sid es = filter (\<lambda>e. re_session_id e = sid) es"

lemma of_session_simps [simp]:
  "of_session sid [] = []"
  "of_session sid (es @ fs) = of_session sid es @ of_session sid fs"
  "of_session sid (e # es) = (if re_session_id e = sid then e # of_session sid es else of_session sid es)"
  by (simp_all add: of_session_def)

section \<open>The invariant\<close>

definition bus_inv :: "'h bus \<Rightarrow> bool" where
  "bus_inv b \<longleftrightarrow>
     dict_ok (session_queues b) \<and>
     distinct (ready_sessions b @ held (workers b)) \<and>
     scheduled_sessions b = set (ready_sessions b @ held (workers b)) \<and>
     (\<forall>sid. dget (session_queues b) sid \<noteq> None \<longrightarrow> sid \<in> scheduled_sessions b) \<and>
     (\<forall>sid \<in> set (ready_sessions b). pending b sid \<noteq> []) \<and>
     (\<forall>sid. WGot sid \<in> set (workers b) \<longrightarrow> pending b sid \<noteq> []) \<and>
     (\<forall>sid. \<forall>e \<in> set (pending b sid). re_session_id e = sid) \<and>
     (\<not> bus_running b \<longrightarrow> workers b = []) \<and>
     (bus_running b \<longrightarrow> workers b \<noteq> []) \<and> 0 < bus_worker_count b"

definition run_inv :: "'h bus_run \<Rightarrow> bool" where
  "run_inv r \<longleftrightarrow> bus_inv (the_bus r) \<and>
     (\<forall>sid. of_session sid (published r) = of_session sid (dispatched r) @ pending (the_bus r) sid)"

lemma bus_inv_init: "bus_inv (bus_init n)"
  by (simp add: bus_inv_def bus_init_def pending_def)

lemma run_inv_init: "run_inv (bus_run_init n)"
  by (simp add: run_inv_def bus_run_init_def bus_inv_init) (simp add: pending_def bus_init_def)

lemma pending_publish:
  "pending (publish e b) sid = (if re_session_id e = sid then pending b sid @ [e] else pending b sid)"
  by (simp add: publish_def pending_def Let_def)

lemma publish_frame [simp]:
  "workers (publish e b) = workers b" "bus_running (publish e b) = bus_running b"
  "bus_worker_count (publish e b) = bus_worker_count b" "subscribers (publish e b) = subscribers b"
  by (simp_all add: publish_def Let_def)

lemma bus_invD:
  assumes "bus_inv b"
  shows "dict_ok (session_queues b)"
    and "distinct (ready_sessions b @ held (workers b))"
    and "scheduled_sessions b = set (ready_sessions b @ held (workers b))"
    and "dget (session_queues b) sid \<noteq> None \<Longrightarrow> sid \<in> scheduled_sessions b"
    and "sid \<in> set (ready_sessions b) \<Longrightarrow> pending b sid \<noteq> []"
    and "WGot sid \<in> set (workers b) \<Longrightarrow> pending b sid \<noteq> []"
    and "e \<in> set (pending b sid) \<Longrightarrow> re_session_id e = sid"
    and "\<not> bus_running b \<Longrightarrow> workers b = []"
    and "bus_running b \<Longrightarrow> workers b \<noteq> []" and "0 < bus_worker_count b"
  using assms unfolding bus_inv_def by blast+

lemma publish_fields:
  "session_queues (publish e b) = dset (re_session_id e) (pending b (re_session_id e) @ [e]) (session_queues b)"
  "scheduled_sessions (publish e b) = insert (re_session_id e) (scheduled_sessions b)"
  "ready_sessions (publish e b) =
     (if re_session_id e \<in> scheduled_sessions b then ready_sessions b
      else ready_sessions b @ [re_session_id e])"
  by (auto simp: publish_def Let_def pending_def)

lemma publish_inv:
  assumes "bus_inv b" shows "bus_inv (publish e b)"
proof -
  note I = bus_invD [OF assms]
  have got: "re_session_id e \<in> scheduled_sessions b" if "WGot (re_session_id e) \<in> set (workers b)"
    using that I(3) by (force simp: held_def)
  show ?thesis
    unfolding bus_inv_def publish_frame pending_publish publish_fields
    using I(1-3,8-10) I(4,5,6,7) by (auto split: if_splits)
qed

lemma subscribe_frame [simp]:
  "workers (subscribe t cb b) = workers b" "bus_running (subscribe t cb b) = bus_running b"
  "bus_worker_count (subscribe t cb b) = bus_worker_count b"
  "session_queues (subscribe t cb b) = session_queues b"
  "ready_sessions (subscribe t cb b) = ready_sessions b"
  "scheduled_sessions (subscribe t cb b) = scheduled_sessions b"
  "pending (subscribe t cb b) sid = pending b sid"
  by (simp_all add: subscribe_def Let_def pending_def)

lemma bus_start_inv: "bus_inv b \<Longrightarrow> bus_inv (bus_start b)"
  by (auto simp: bus_inv_def bus_start_def pending_def)

lemma pop_none_impossible:
  "bus_inv b \<Longrightarrow> workers b = ws1 @ WGot sid # ws2 \<Longrightarrow> pop_next_event sid b = (None, b') \<Longrightarrow> False"
  by (auto simp: bus_inv_def pop_next_event_def pending_def split: option.splits list.splits)

lemma pop_event_spec:
  assumes "pop_next_event sid b = (Some e, b')"
  obtains q where "dget (session_queues b) sid = Some (e # q)"
    and "b' = b\<lparr>session_queues := dset sid q (session_queues b)\<rparr>"
  using assms by (auto simp: pop_next_event_def split: option.splits list.splits)

lemma held_app_mid: "held (ws1 @ w # ws2) = held ws1 @ holding w @ held ws2"
  by simp

lemma got_in_held: "WGot s \<in> set ws \<Longrightarrow> s \<in> set (held ws)"
  by (force simp: held_def)

lemma pop_event_inv:
  assumes inv: "bus_inv b" and w: "workers b = ws1 @ WGot sid # ws2"
    and p: "pop_next_event sid b = (Some e, b')"
  shows "bus_inv (b'\<lparr>workers := ws1 @ WDispatch e # ws2\<rparr>)" and "re_session_id e = sid"
    and "pending b sid = e # pending b' sid" and "k \<noteq> sid \<Longrightarrow> pending b' k = pending b k"
proof -
  obtain q where q: "dget (session_queues b) sid = Some (e # q)"
    and b': "b' = b\<lparr>session_queues := dset sid q (session_queues b)\<rparr>"
    using p by (rule pop_event_spec)
  show e: "re_session_id e = sid" using bus_invD(7) [OF inv, of e sid] q by (simp add: pending_def)
  show "pending b sid = e # pending b' sid" using q by (simp add: b' pending_def)
  show "k \<noteq> sid \<Longrightarrow> pending b' k = pending b k" by (simp add: b' pending_def)
  define B where "B = b'\<lparr>workers := ws1 @ WDispatch e # ws2\<rparr>"
  have f: "session_queues B = dset sid q (session_queues b)" "ready_sessions B = ready_sessions b"
    "scheduled_sessions B = scheduled_sessions b" "workers B = ws1 @ WDispatch e # ws2"
    "bus_running B = bus_running b" "bus_worker_count B = bus_worker_count b"
    "held (workers B) = held (workers b)"
    by (simp_all add: B_def b' w e)
  have pend: "pending B k = (if k = sid then q else pending b k)" for k
    by (simp add: pending_def f)
  have qs: "pending b sid = e # q" using q by (simp add: pending_def)
  note I = bus_invD [OF inv]
  have d: "distinct (ready_sessions b @ held ws1 @ sid # held ws2)"
    using I(2) by (simp add: w)
  then have r: "sid \<notin> set (ready_sessions b)" and g: "WGot sid \<notin> set ws1" "WGot sid \<notin> set ws2"
    using got_in_held [of sid ws1] got_in_held [of sid ws2] by auto
  have "bus_inv B"
    unfolding bus_inv_def pend f(1-3) f(5-7)
  proof (intro conjI)
    show "dict_ok (dset sid q (session_queues b))" by (rule dict_ok_dset) (rule I(1))
    show "distinct (ready_sessions b @ held (workers b))" by (rule I(2))
    show "scheduled_sessions b = set (ready_sessions b @ held (workers b))" by (rule I(3))
    show "\<forall>k. dget (dset sid q (session_queues b)) k \<noteq> None \<longrightarrow> k \<in> scheduled_sessions b"
      using I(4) q by (auto split: if_splits)
    show "\<forall>k\<in>set (ready_sessions b). (if k = sid then q else pending b k) \<noteq> []"
      using I(5) r by auto
    show "\<forall>k. WGot k \<in> set (workers B) \<longrightarrow> (if k = sid then q else pending b k) \<noteq> []"
      using I(6) g by (auto simp: f(4) w)
    show "\<forall>k. \<forall>x\<in>set (if k = sid then q else pending b k). re_session_id x = k"
    proof (intro allI ballI)
      fix k x assume "x \<in> set (if k = sid then q else pending b k)"
      then have "x \<in> set (pending b k)" by (auto simp: qs split: if_splits)
      then show "re_session_id x = k" by (rule I(7))
    qed
    show "\<not> bus_running b \<longrightarrow> workers B = []" using I(8) w by auto
    show "bus_running b \<longrightarrow> workers B \<noteq> []" by (simp add: f(4))
    show "0 < bus_worker_count b" by (rule I(10))
  qed
  then show "bus_inv (b'\<lparr>workers := ws1 @ WDispatch e # ws2\<rparr>)" by (simp add: B_def)
qed

lemma bus_inv_workers:
  assumes "bus_inv b" and "workers b \<noteq> []" and "ws \<noteq> []"
    and "mset (rs @ held ws) = mset (ready_sessions b @ held (workers b))"
    and "\<And>k. k \<in> set rs \<Longrightarrow> pending b k \<noteq> []"
    and "\<And>k. WGot k \<in> set ws \<Longrightarrow> pending b k \<noteq> []"
  shows "bus_inv (b\<lparr>workers := ws, ready_sessions := rs\<rparr>)"
proof -
  note I = bus_invD [OF assms(1)]
  have "distinct (rs @ held ws)" using I(2) assms(4) by (metis mset_eq_imp_distinct_iff)
  moreover have "set (rs @ held ws) = set (ready_sessions b @ held (workers b))"
    using assms(4) by (rule mset_eq_setD)
  moreover have "bus_running b" using I(8) assms(2) by blast
  moreover have "pending (b\<lparr>workers := ws, ready_sessions := rs\<rparr>) k = pending b k" for k
    by (simp add: pending_def)
  ultimately show ?thesis using I(1,3,4,7,10) assms(3,5,6) unfolding bus_inv_def by simp
qed

lemma reschedule_pending: "bus_inv b \<Longrightarrow> pending (reschedule_session sid b) k = pending b k"
  by (auto simp: reschedule_session_def pending_def)

lemma take_ready_inv:
  assumes "bus_inv b" and "workers b = ws1 @ WIdle # ws2" and "ready_sessions b = sid # rest"
  shows "bus_inv (b\<lparr>workers := ws1 @ WGot sid # ws2, ready_sessions := rest\<rparr>)"
  using bus_invD(5,6) [OF assms(1)] assms(2,3)
  by (intro bus_inv_workers [OF assms(1)]) (auto simp: assms(2,3))

lemma finish_inv:
  assumes "bus_inv b" and "workers b = ws1 @ WDispatch e # ws2"
  shows "bus_inv (b\<lparr>workers := ws1 @ WResched (re_session_id e) # ws2\<rparr>)"
proof -
  have "bus_inv (b\<lparr>workers := ws1 @ WResched (re_session_id e) # ws2, ready_sessions := ready_sessions b\<rparr>)"
    using bus_invD(5,6) [OF assms(1)] assms(2)
    by (intro bus_inv_workers [OF assms(1)]) (auto simp: assms(2))
  then show ?thesis by simp
qed

lemma resched_inv:
  assumes inv: "bus_inv b" and w: "workers b = ws1 @ WResched sid # ws2"
  shows "bus_inv ((reschedule_session sid b)\<lparr>workers := ws1 @ WIdle # ws2\<rparr>)"
proof (cases "pending b sid = []")
  case False
  then have "reschedule_session sid b = b\<lparr>ready_sessions := ready_sessions b @ [sid]\<rparr>"
    by (auto simp: reschedule_session_def pending_def split: option.splits)
  moreover have "bus_inv (b\<lparr>workers := ws1 @ WIdle # ws2, ready_sessions := ready_sessions b @ [sid]\<rparr>)"
    using bus_invD(5,6) [OF inv] w False by (intro bus_inv_workers [OF inv]) (auto simp: w)
  moreover have "b\<lparr>workers := ws1 @ WIdle # ws2, ready_sessions := ready_sessions b @ [sid]\<rparr> =
      b\<lparr>ready_sessions := ready_sessions b @ [sid], workers := ws1 @ WIdle # ws2\<rparr>" by simp
  ultimately show ?thesis by simp
next
  case True
  note I = bus_invD [OF inv]
  define B where "B = (reschedule_session sid b)\<lparr>workers := ws1 @ WIdle # ws2\<rparr>"
  have "dget (session_queues b) sid \<in> {None, Some []}"
    using True by (auto simp: pending_def split: option.splits)
  then have f: "session_queues B = dpop sid (session_queues b)" "ready_sessions B = ready_sessions b"
    "scheduled_sessions B = scheduled_sessions b - {sid}" "workers B = ws1 @ WIdle # ws2"
    "bus_running B = bus_running b" "bus_worker_count B = bus_worker_count b"
    by (simp_all add: B_def reschedule_session_def)
  have pend: "pending B k = pending b k" for k
    using reschedule_pending [OF inv, of sid k] by (simp add: B_def pending_def)
  have d: "distinct (ready_sessions b @ held ws1 @ sid # held ws2)" using I(2) by (simp add: w)
  have "bus_inv B"
    unfolding bus_inv_def pend f
  proof (intro conjI)
    show "dict_ok (dpop sid (session_queues b))" by (rule dict_ok_dpop) (rule I(1))
    show "distinct (ready_sessions b @ held (ws1 @ WIdle # ws2))" using d by auto
    show "scheduled_sessions b - {sid} = set (ready_sessions b @ held (ws1 @ WIdle # ws2))"
      using d by (auto simp: I(3) w)
    show "\<forall>k. dget (dpop sid (session_queues b)) k \<noteq> None \<longrightarrow> k \<in> scheduled_sessions b - {sid}"
      using I(4) by (auto split: if_splits)
    show "\<forall>k\<in>set (ready_sessions b). pending b k \<noteq> []" using I(5) by blast
    show "\<forall>k. WGot k \<in> set (ws1 @ WIdle # ws2) \<longrightarrow> pending b k \<noteq> []" using I(6) by (auto simp: w)
    show "\<forall>k. \<forall>x\<in>set (pending b k). re_session_id x = k" using I(7) by blast
    show "\<not> bus_running b \<longrightarrow> ws1 @ WIdle # ws2 = []" using I(8) w by auto
    show "bus_running b \<longrightarrow> ws1 @ WIdle # ws2 \<noteq> []" by simp
    show "0 < bus_worker_count b" by (rule I(10))
  qed
  then show ?thesis by (simp add: B_def)
qed

lemma run_inv_frame:
  assumes "run_inv r" and "bus_inv b" and "\<And>k. pending b k = pending (the_bus r) k"
  shows "run_inv (r\<lparr>the_bus := b\<rparr>)"
  using assms by (simp add: run_inv_def)

lemma pending_workers [simp]:
  "pending (b\<lparr>workers := ws\<rparr>) k = pending b k"
  "pending (b\<lparr>ready_sessions := rs\<rparr>) k = pending b k"
  "pending (b\<lparr>bus_running := x\<rparr>) k = pending b k"
  by (simp_all add: pending_def)

lemma run_inv_bus: "run_inv r \<Longrightarrow> bus_inv (the_bus r)"
  by (simp add: run_inv_def)

lemma worker_step_inv: "worker_step r r' \<Longrightarrow> run_inv r \<Longrightarrow> run_inv r'"
proof (induction rule: worker_step.induct)
  case (take_ready r ws1 ws2 sid rest)
  then show ?case
    by (intro run_inv_frame take_ready_inv) (auto dest: run_inv_bus)
next
  case (pop_none r ws1 sid ws2 b)
  then show ?case using pop_none_impossible [OF run_inv_bus] by blast
next
  case (pop_event r ws1 sid ws2 e b)
  note P = pop_event_inv [OF run_inv_bus [OF pop_event(3)] pop_event(1,2)]
  have "of_session k (published r) = of_session k (dispatched r @ [e]) @ pending b k" for k
    using pop_event(3) P(2,3) P(4) [of k] by (cases "k = sid") (auto simp: run_inv_def)
  then show ?case using P(1) by (simp add: run_inv_def)
next
  case (finish r ws1 e ws2)
  then show ?case by (intro run_inv_frame finish_inv) (auto dest: run_inv_bus)
next
  case (resched r ws1 sid ws2)
  then show ?case
    by (intro run_inv_frame resched_inv) (auto dest: run_inv_bus simp: reschedule_pending)
qed

lemma bus_step_inv: "bus_step r r' \<Longrightarrow> run_inv r \<Longrightarrow> run_inv r'"
proof (induction rule: bus_step.induct)
  case (env_publish r e)
  then show ?case by (auto simp: run_inv_def publish_inv pending_publish)
next
  case (env_subscribe r t cb)
  then show ?case by (intro run_inv_frame) (auto simp: run_inv_def bus_inv_def)
next
  case (env_start r)
  then show ?case
    by (intro run_inv_frame bus_start_inv) (auto simp: run_inv_def bus_start_def)
qed (auto intro: worker_step_inv)

interpretation bus_runs: step_system "\<lambda>r. \<exists>n. r = bus_run_init n" bus_step run_inv
  by unfold_locales (auto intro: bus_step_inv run_inv_init)

section \<open>Progress\<close>

fun worker_work :: "worker_state \<Rightarrow> nat" where
  "worker_work WIdle = 0"
| "worker_work (WGot _) = 1"
| "worker_work (WResched _) = 3"
| "worker_work (WDispatch _) = 4"

definition queued :: "(string, runtime_event list) dict \<Rightarrow> nat" where
  "queued d = sum_list (map (\<lambda>p. length (snd p)) d)"

definition bus_work :: "'h bus \<Rightarrow> nat" where
  "bus_work b = sum_list (map worker_work (workers b)) + 2 * length (ready_sessions b)
                + 4 * queued (session_queues b)"

lemma queued_dset: "dget d k = Some v \<Longrightarrow> queued (dset k w d) + length v = queued d + length w"
  by (induction d) (auto simp: queued_def split: if_splits)

lemma queued_dpop: "queued (dpop k d) \<le> queued d"
  by (induction d) (auto simp: queued_def)

lemma worker_step_work: "worker_step r r' \<Longrightarrow> bus_work (the_bus r') < bus_work (the_bus r)"
proof (induction rule: worker_step.induct)
  case (pop_none r ws1 sid ws2 b)
  then show ?case
    using queued_dpop [of sid "session_queues (the_bus r)"]
    by (auto simp: bus_work_def pop_next_event_def split: option.splits list.splits)
next
  case (pop_event r ws1 sid ws2 e b)
  from pop_event(2) obtain q where "dget (session_queues (the_bus r)) sid = Some (e # q)"
    and "b = (the_bus r)\<lparr>session_queues := dset sid q (session_queues (the_bus r))\<rparr>"
    by (rule pop_event_spec)
  with queued_dset [OF this(1), of q] show ?case by (simp add: bus_work_def pop_event(1))
next
  case (resched r ws1 sid ws2)
  then show ?case
    using queued_dpop [of sid "session_queues (the_bus r)"]
    by (auto simp: bus_work_def reschedule_session_def)
qed (auto simp: bus_work_def)

lemma worker_steps_bounded: "(worker_step ^^ n) r r' \<Longrightarrow> bus_work (the_bus r') + n \<le> bus_work (the_bus r)"
  by (induction n arbitrary: r') (auto dest!: worker_step_work, fastforce dest: worker_step_work)

lemma stuck_workers:
  assumes inv: "bus_inv (the_bus r)" and stuck: "\<And>r'. \<not> worker_step r r'" and w: "w \<in> set (workers (the_bus r))"
  shows "w = WIdle"
proof -
  obtain ws1 ws2 where ws: "workers (the_bus r) = ws1 @ w # ws2" using w by (meson split_list)
  show ?thesis
  proof (cases w)
    case (WGot sid)
    then show ?thesis using ws stuck
      by (cases "pop_next_event sid (the_bus r)"; cases "fst (pop_next_event sid (the_bus r))")
        (auto dest: worker_step.pop_none worker_step.pop_event)
  next
    case (WDispatch e)
    then show ?thesis using ws stuck by (auto dest: worker_step.finish)
  next
    case (WResched sid)
    then show ?thesis using ws stuck by (auto dest: worker_step.resched)
  qed
qed

lemma held_idle: "\<forall>w \<in> set ws. w = WIdle \<Longrightarrow> held ws = []"
  by (induction ws) simp_all

lemma stuck_drained:
  assumes inv: "run_inv r" and run: "bus_running (the_bus r)" and stuck: "\<And>r'. \<not> worker_step r r'"
  shows "of_session k (dispatched r) = of_session k (published r)" and "session_queues (the_bus r) = []"
proof -
  note B = run_inv_bus [OF inv]
  have idle: "w = WIdle" if "w \<in> set (workers (the_bus r))" for w
    using stuck_workers [OF B stuck that] .
  have "workers (the_bus r) \<noteq> []" using B run by (simp add: bus_inv_def)
  then obtain ws2 where "workers (the_bus r) = [] @ WIdle # ws2"
    using idle by (cases "workers (the_bus r)") auto
  then have "ready_sessions (the_bus r) = []"
    using stuck worker_step.take_ready by (cases "ready_sessions (the_bus r)") blast+
  moreover have "held (workers (the_bus r)) = []" using idle by (simp add: held_idle)
  ultimately have s: "dget (session_queues (the_bus r)) k = None" for k
    using bus_invD(3) [OF B] bus_invD(4) [OF B, of k] by (cases "dget (session_queues (the_bus r)) k") auto
  then show "of_session k (dispatched r) = of_session k (published r)"
    using inv by (simp add: run_inv_def pending_def)
  show "session_queues (the_bus r) = []"
    using s [of "fst (hd (session_queues (the_bus r)))"] by (cases "session_queues (the_bus r)") auto
qed

lemma drain_exists: "\<exists>r'. worker_step\<^sup>*\<^sup>* r r' \<and> (\<forall>r''. \<not> worker_step r' r'')"
proof (induction "bus_work (the_bus r)" arbitrary: r rule: less_induct)
  case less
  show ?case
  proof (cases "\<exists>r'. worker_step r r'")
    case True
    then obtain r' where "worker_step r r'" by blast
    with less [OF worker_step_work] show ?thesis by (meson converse_rtranclp_into_rtranclp)
  qed auto
qed

section \<open>The abstract contract\<close>

text \<open>
  What the scheduler relies on: per session, a FIFO of published events and at most one event in
  dispatch. Workers, the ready queue and the scheduled set are invisible.
\<close>

record session_channel =
  ch_queue :: "runtime_event list"
  ch_active :: "runtime_event option"

inductive channel_step :: "(string \<Rightarrow> session_channel) \<Rightarrow> (string \<Rightarrow> session_channel) \<Rightarrow> bool" where
  ch_publish: "channel_step S (S(re_session_id e := (S (re_session_id e))
                 \<lparr>ch_queue := ch_queue (S (re_session_id e)) @ [e]\<rparr>))"
| ch_begin: "S sid = \<lparr>ch_queue = e # q, ch_active = None\<rparr> \<Longrightarrow>
             channel_step S (S(sid := \<lparr>ch_queue = q, ch_active = Some e\<rparr>))"
| ch_end: "ch_active (S sid) = Some e \<Longrightarrow> channel_step S (S(sid := (S sid)\<lparr>ch_active := None\<rparr>))"

fun dispatching :: "worker_state list \<Rightarrow> string \<Rightarrow> runtime_event option" where
  "dispatching [] sid = None"
| "dispatching (WDispatch e # ws) sid = (if re_session_id e = sid then Some e else dispatching ws sid)"
| "dispatching (_ # ws) sid = dispatching ws sid"

definition channels :: "'h bus \<Rightarrow> string \<Rightarrow> session_channel" where
  "channels b sid = \<lparr>ch_queue = pending b sid, ch_active = dispatching (workers b) sid\<rparr>"

lemma dispatching_not_held: "sid \<notin> set (held ws) \<Longrightarrow> dispatching ws sid = None"
  by (induction ws sid rule: dispatching.induct) auto

lemma dispatching_append:
  "dispatching (ws1 @ ws2) sid = (case dispatching ws1 sid of None \<Rightarrow> dispatching ws2 sid | Some e \<Rightarrow> Some e)"
  by (induction ws1 sid rule: dispatching.induct) auto

lemma dispatching_swap:
  assumes "dispatching [w] sid = None" and "dispatching [w'] sid = None"
  shows "dispatching (ws1 @ w # ws2) sid = dispatching (ws1 @ w' # ws2) sid"
  using assms by (cases w; cases w') (auto simp: dispatching_append split: if_splits option.splits)

lemma ch_queue_channels: "ch_queue (channels b sid) = pending b sid"
  by (simp add: channels_def)

lemma channels_publish: "channels (publish e b) = (channels b)(re_session_id e := (channels b (re_session_id e))
    \<lparr>ch_queue := pending b (re_session_id e) @ [e]\<rparr>)"
  by (auto simp: channels_def fun_eq_iff pending_publish)

lemma worker_step_channels:
  assumes "worker_step r r'" and "run_inv r"
  shows "channels (the_bus r') = channels (the_bus r) \<or> channel_step (channels (the_bus r)) (channels (the_bus r'))"
  using assms
proof (induction rule: worker_step.induct)
  case (take_ready r ws1 ws2 sid rest)
  then show ?case
    by (auto simp: channels_def fun_eq_iff intro!: dispatching_swap)
next
  case (pop_none r ws1 sid ws2 b)
  then show ?case using pop_none_impossible [OF run_inv_bus] by blast
next
  case (pop_event r ws1 sid ws2 e b)
  let ?b = "the_bus r"
  note P = pop_event_inv [OF run_inv_bus [OF pop_event(3)] pop_event(1,2)]
  have "distinct (held (workers ?b))" using run_inv_bus [OF pop_event(3)] by (simp add: bus_inv_def)
  then have n: "dispatching ws1 sid = None" "dispatching ws2 sid = None"
    by (auto simp: pop_event(1) dispatching_not_held)
  let ?c = "channels (b\<lparr>workers := ws1 @ WDispatch e # ws2\<rparr>)"
  have "channels ?b sid = \<lparr>ch_queue = e # pending b sid, ch_active = None\<rparr>"
    by (simp add: channels_def P(3) pop_event(1) dispatching_append n)
  moreover have "?c = (channels ?b)(sid := \<lparr>ch_queue = pending b sid, ch_active = Some e\<rparr>)"
    using P(2) P(4) by (auto simp: channels_def fun_eq_iff pop_event(1) dispatching_append n split: option.splits)
  ultimately have "channel_step (channels ?b) ?c" by (metis channel_step.ch_begin)
  then show ?case by simp
next
  case (finish r ws1 e ws2)
  let ?b = "the_bus r" and ?sid = "re_session_id e"
  have "distinct (held (workers ?b))" using run_inv_bus [OF finish(2)] by (simp add: bus_inv_def)
  then have n: "dispatching ws1 ?sid = None" "dispatching ws2 ?sid = None"
    by (auto simp: finish(1) dispatching_not_held)
  let ?c = "channels (?b\<lparr>workers := ws1 @ WResched ?sid # ws2\<rparr>)"
  have "ch_active (channels ?b ?sid) = Some e"
    by (simp add: channels_def finish(1) dispatching_append n)
  moreover have "?c = (channels ?b)(?sid := (channels ?b ?sid)\<lparr>ch_active := None\<rparr>)"
    by (auto simp: channels_def fun_eq_iff finish(1) dispatching_append n split: option.splits)
  ultimately have "channel_step (channels ?b) ?c" by (metis channel_step.ch_end)
  then show ?case by simp
next
  case (resched r ws1 sid ws2)
  then show ?case
    by (auto simp: channels_def fun_eq_iff reschedule_pending [OF run_inv_bus] intro!: dispatching_swap)
qed

lemma bus_step_channels:
  assumes "bus_step r r'" and "run_inv r"
  shows "channels (the_bus r') = channels (the_bus r) \<or> channel_step (channels (the_bus r)) (channels (the_bus r'))"
  using assms
proof (induction rule: bus_step.induct)
  case (work r r')
  then show ?case by (rule worker_step_channels)
next
  case (env_publish r e)
  have "channel_step (channels (the_bus r)) (channels (publish e (the_bus r)))"
    using channel_step.ch_publish [of "channels (the_bus r)" e]
    unfolding channels_publish ch_queue_channels .
  then show ?case by simp
next
  case (env_subscribe r t cb)
  then show ?case by (simp add: channels_def fun_eq_iff)
next
  case (env_start r)
  have "dispatching (replicate n WIdle) k = None" for n k by (induction n) auto
  then show ?case by (auto simp: channels_def fun_eq_iff bus_start_def dispatching_append split: option.splits)
qed

lemma worker_step_frame:
  "worker_step r r' \<Longrightarrow> published r' = published r \<and> (run_inv r \<longrightarrow> bus_running (the_bus r') = bus_running (the_bus r))"
  by (induction rule: worker_step.induct)
    (auto simp: reschedule_session_def pop_next_event_def split: option.splits list.splits)

lemma worker_steps_frame:
  "worker_step\<^sup>*\<^sup>* r r' \<Longrightarrow> run_inv r \<Longrightarrow>
   run_inv r' \<and> published r' = published r \<and> bus_running (the_bus r') = bus_running (the_bus r)"
  by (induction rule: rtranclp_induct) (auto dest: worker_step_frame worker_step_inv)

lemma bus_reachable_inv: "bus_step\<^sup>*\<^sup>* (bus_run_init n) r \<Longrightarrow> run_inv r"
  by (rule bus_runs.reachable_inv) auto

section \<open>Properties\<close>

text \<open>C2. Whatever the workers and publishers do, each session sees its events dispatched in the
  order they were published, none lost and none twice: what was published to it is what was
  dispatched followed by what is still queued.\<close>

theorem bus_fifo:
  assumes "bus_step\<^sup>*\<^sup>* (bus_run_init n) r"
  shows "of_session sid (published r) = of_session sid (dispatched r) @ pending (the_bus r) sid"
  using bus_reachable_inv [OF assms] by (simp add: run_inv_def)

text \<open> No two workers ever hold the same session (between taking it from the ready queue and
  rescheduling it), and a session that is held is not in the ready queue: dispatches of one
  session never overlap. Every session with a queued event is in one of those two places.\<close>

theorem bus_mutual_exclusion:
  assumes "bus_step\<^sup>*\<^sup>* (bus_run_init n) r"
  shows "distinct (ready_sessions (the_bus r) @ held (workers (the_bus r))) \<and>
         (\<forall>sid. pending (the_bus r) sid \<noteq> [] \<longrightarrow>
            sid \<in> set (ready_sessions (the_bus r) @ held (workers (the_bus r))))"
proof -
  note B = run_inv_bus [OF bus_reachable_inv [OF assms]]
  have "pending (the_bus r) sid = []" if "sid \<notin> scheduled_sessions (the_bus r)" for sid
    using bus_invD(4) [OF B, of sid] that by (auto simp: pending_def split: option.splits)
  then show ?thesis using bus_invD(2,3) [OF B] by auto
qed

text \<open>C10. Once the bus is started the workers drain it: without further publishing they take at
  most \<open>bus_work\<close> steps, they can always go on until no step is left, and then every session's
  published events have all been dispatched and no queue is left behind.\<close>

theorem bus_drains:
  assumes "bus_step\<^sup>*\<^sup>* (bus_run_init n) r" and "bus_running (the_bus r)" and "(worker_step ^^ k) r r'"
  shows "k \<le> bus_work (the_bus r) \<and> published r' = published r \<and>
    (\<exists>r''. worker_step\<^sup>*\<^sup>* r' r'' \<and> (\<forall>x. \<not> worker_step r'' x) \<and> session_queues (the_bus r'') = [] \<and>
       (\<forall>sid. of_session sid (dispatched r'') = of_session sid (published r)))"
proof -
  note I = bus_reachable_inv [OF assms(1)]
  have w: "worker_step\<^sup>*\<^sup>* r r'" using assms(3) by (rule relpowp_imp_rtranclp)
  obtain r'' where d: "worker_step\<^sup>*\<^sup>* r' r''" "\<And>x. \<not> worker_step r'' x" using drain_exists by blast
  have "worker_step\<^sup>*\<^sup>* r r''" using w d(1) by simp
  note F = worker_steps_frame [OF this I]
  show ?thesis
    using worker_steps_bounded [OF assms(3)] worker_steps_frame [OF w I] F d
      stuck_drained [of r''] assms(2) by auto
qed

text \<open>C9. The bus refines its contract: every step of workers, publishers and subscribers is a step
  (or no change) of per-session channels that publish to the end, begin the oldest event only when
  none is in dispatch, and end it.\<close>

theorem bus_refines_channels:
  assumes "bus_step\<^sup>*\<^sup>* (bus_run_init n) r" and "bus_step r r'"
  shows "channels (the_bus r') = channels (the_bus r) \<or>
         channel_step (channels (the_bus r)) (channels (the_bus r'))"
  using bus_step_channels [OF assms(2) bus_reachable_inv [OF assms(1)]] .

section \<open>Witnesses\<close>

definition demo_event :: runtime_event where
  "demo_event = \<lparr>re_type = ETEnum WAKEUP_REQUESTED, re_session_id = ''s'', re_payload = JDict [],
                 re_source = ''api'', re_id = ''e1'', re_timestamp = 0\<rparr>"

definition demo_run :: "nat \<Rightarrow> unit bus_run" where
  "demo_run k = (let r0 = bus_run_init 2;
                     r1 = r0\<lparr>the_bus := bus_start (the_bus r0)\<rparr>;
                     r2 = r1\<lparr>the_bus := publish demo_event (the_bus r1), published := [demo_event]\<rparr>;
                     r3 = r2\<lparr>the_bus := (the_bus r2)\<lparr>workers := [WGot ''s'', WIdle], ready_sessions := []\<rparr>\<rparr>;
                     r4 = r3\<lparr>the_bus := (snd (pop_next_event ''s'' (the_bus r3)))\<lparr>workers := [WDispatch demo_event, WIdle]\<rparr>,
                             dispatched := [demo_event]\<rparr>
                 in [r0, r1, r2, r3, r4] ! k)"

lemmas demo_defs = demo_run_def demo_event_def bus_run_init_def bus_init_def bus_start_def publish_def
  Let_def pop_next_event_def

lemma demo_step01: "bus_step (demo_run 0) (demo_run 1)"
  using bus_step.env_start [of "demo_run 0"] by (simp add: demo_run_def Let_def)

lemma demo_step12: "bus_step (demo_run 1) (demo_run 2)"
  using bus_step.env_publish [of "demo_run 1" demo_event]
  by (simp add: demo_run_def Let_def) (simp add: bus_run_init_def)

lemma demo_step23: "worker_step (demo_run 2) (demo_run 3)"
  using worker_step.take_ready [of "demo_run 2" "[]" "[WIdle]" "''s''" "[]"]
  by (simp add: demo_defs numeral_2_eq_2 numeral_3_eq_3)

lemma demo_step34: "worker_step (demo_run 3) (demo_run 4)"
  using worker_step.pop_event [of "demo_run 3" "[]" "''s''" "[WIdle]" demo_event
      "snd (pop_next_event ''s'' (the_bus (demo_run 3)))"]
  by (simp add: demo_defs numeral_2_eq_2 numeral_3_eq_3)

lemma demo_reach: "bus_step\<^sup>*\<^sup>* (bus_run_init 2) (demo_run 2)"
  "bus_step\<^sup>*\<^sup>* (bus_run_init 2) (demo_run 3)" "bus_step\<^sup>*\<^sup>* (bus_run_init 2) (demo_run 4)"
proof -
  have "bus_run_init 2 = demo_run 0" by (simp add: demo_run_def Let_def)
  then show "bus_step\<^sup>*\<^sup>* (bus_run_init 2) (demo_run 2)"
    using demo_step01 demo_step12 by (metis r_into_rtranclp rtranclp.rtrancl_into_rtrancl)
  then show "bus_step\<^sup>*\<^sup>* (bus_run_init 2) (demo_run 3)"
    using demo_step23 by (metis bus_step.work rtranclp.rtrancl_into_rtrancl)
  then show "bus_step\<^sup>*\<^sup>* (bus_run_init 2) (demo_run 4)"
    using demo_step34 by (metis bus_step.work rtranclp.rtrancl_into_rtrancl)
qed

lemma demo_fields: "dispatched (demo_run 4) = [demo_event]" "published (demo_run 4) = [demo_event]"
  "bus_running (the_bus (demo_run 2))" "ready_sessions (the_bus (demo_run 2)) = [''s'']"
  "workers (the_bus (demo_run 3)) = [WGot ''s'', WIdle]" "ready_sessions (the_bus (demo_run 3)) = []"
  by (simp_all add: demo_defs numeral_2_eq_2 numeral_3_eq_3)

theorem bus_fifo_witness:
  "of_session ''s'' (published (demo_run 4)) = of_session ''s'' (dispatched (demo_run 4)) @ pending (the_bus (demo_run 4)) ''s''
   \<and> dispatched (demo_run 4) = [demo_event]"
  using bus_fifo [OF demo_reach(3)] by (simp only: demo_fields simp_thms)

theorem bus_mutual_exclusion_witness:
  "distinct (ready_sessions (the_bus (demo_run 3)) @ held (workers (the_bus (demo_run 3)))) \<and>
   held (workers (the_bus (demo_run 3))) = [''s'']"
  using bus_mutual_exclusion [OF demo_reach(2)] by (simp add: demo_fields)

theorem bus_drains_witness:
  "2 \<le> bus_work (the_bus (demo_run 2)) \<and> published (demo_run 4) = published (demo_run 2)"
proof -
  have "(worker_step ^^ 2) (demo_run 2) (demo_run 4)"
    using demo_step23 demo_step34 by (auto simp: numeral_2_eq_2)
  then show ?thesis using bus_drains [OF demo_reach(1) demo_fields(3)] by blast
qed

theorem bus_refines_channels_witness:
  "channels (the_bus (demo_run 4)) = channels (the_bus (demo_run 3)) \<or>
   channel_step (channels (the_bus (demo_run 3))) (channels (the_bus (demo_run 4)))"
  using bus_refines_channels [OF demo_reach(2) bus_step.work [OF demo_step34]] .

end
