(* ===== verification/History.thy ===== *)
theory History
  imports Prelude "HOL-Library.Multiset"
begin

text \<open>
  Conversation history: content segments (\<^verbatim>\<open>core/domain.py\<close>), the typed history entries
  (\<^verbatim>\<open>core/agent/context/history_ir.py\<close>), their persistence (\<^verbatim>\<open>core/agent/session/memory.py\<close> over
  \<open>EventRepository\<close> of \<^verbatim>\<open>infrastructure/database/repository.py\<close>) and the assembly of provider
  messages (\<^verbatim>\<open>core/agent/context/llm_message_assembler.py\<close>, \<^verbatim>\<open>turn_context_builder.py\<close>).

  Attributes of a segment that was read back from stored JSON are not checked by the code, so they
  are \<open>json\<close> here, and using a non-string as a string is the error Python raises. The table of
  events is the list of its rows; a row's identifier and timestamp come from the caller.
\<close>

section \<open>Segments\<close>

datatype segment_type = SEG_TEXT | SEG_IMAGE_URL | SEG_FILE | SEG_CODE_BLOCK

fun segment_type_str :: "segment_type \<Rightarrow> string" where
  "segment_type_str SEG_TEXT = ''text''"
| "segment_type_str SEG_IMAGE_URL = ''image_url''"
| "segment_type_str SEG_FILE = ''file''"
| "segment_type_str SEG_CODE_BLOCK = ''code_block''"

definition parse_segment_type :: "string \<Rightarrow> segment_type res" where
  "parse_segment_type s =
     (case find (\<lambda>t. segment_type_str t = s) [SEG_TEXT, SEG_IMAGE_URL, SEG_FILE, SEG_CODE_BLOCK] of
        Some t \<Rightarrow> Inr t | None \<Rightarrow> Inl ValueError)"

record content_segment =
  sg_type :: segment_type
  sg_text :: json
  sg_image_url :: json
  sg_file_id :: json
  sg_kind :: json

definition text_segment :: "json \<Rightarrow> content_segment" where
  "text_segment t = \<lparr>sg_type = SEG_TEXT, sg_text = t, sg_image_url = JNull, sg_file_id = JNull, sg_kind = JNull\<rparr>"

definition image_url_segment :: "string \<Rightarrow> content_segment" where
  "image_url_segment url = \<lparr>sg_type = SEG_IMAGE_URL, sg_text = JNull,
     sg_image_url = JDict [(''url'', JStr url)], sg_file_id = JNull, sg_kind = JNull\<rparr>"

definition file_segment :: "string \<Rightarrow> string option \<Rightarrow> content_segment" where
  "file_segment fid kind = \<lparr>sg_type = SEG_FILE, sg_text = JNull, sg_image_url = JNull,
     sg_file_id = JStr fid, sg_kind = json_opt JStr kind\<rparr>"

definition segment_to_dict :: "content_segment \<Rightarrow> json_object" where
  "segment_to_dict s =
     (let put = (\<lambda>k v d. if v \<noteq> JNull then dset k v d else d)
      in put ''file_kind_description'' (sg_kind s)
          (put ''file_id'' (sg_file_id s)
            (put ''image_url'' (sg_image_url s)
              (put ''text'' (sg_text s) [(''type'', JStr (segment_type_str (sg_type s)))]))))"

definition segment_from_dict :: "py_runtime \<Rightarrow> json_object \<Rightarrow> content_segment res" where
  "segment_from_dict rt d =
     res_bind (parse_segment_type (py_str rt (obj_get d ''type''))) (\<lambda>t.
       Inr \<lparr>sg_type = t, sg_text = obj_get d ''text'', sg_image_url = obj_get d ''image_url'',
            sg_file_id = obj_get d ''file_id'', sg_kind = obj_get d ''file_kind_description''\<rparr>)"

lemma parse_segment_type_str [simp]: "parse_segment_type (segment_type_str t) = Inr t"
  by (cases t) (simp_all add: parse_segment_type_def)

interpretation segment_codec: codec segment_to_dict "segment_from_dict rt" "\<lambda>_. True" for rt
  by unfold_locales (simp add: segment_from_dict_def segment_to_dict_def Let_def)

section \<open>History entries\<close>

definition LF :: string where
  "LF = [char_of (10::nat)]"

definition FILE_ATTACH_USAGE :: "string \<Rightarrow> string" where
  "FILE_ATTACH_USAGE fid =
     ''Session file ID (copy exactly, do not truncate or invent): '' @ fid @ LF @
     ''When passing this file to a sub-agent, put this ID unchanged in the delegate_task attachments array. '' @
     ''You can call list_session_files to verify first. Do not use a file_id_ prefix or fabricated IDs.''"

text \<open>\<open>(x or "").strip()\<close>\<close>

definition strip_or_empty :: "json \<Rightarrow> string res" where
  "strip_or_empty v = (case py_or v (JStr []) of JStr s \<Rightarrow> Inr (py_strip s) | _ \<Rightarrow> Inl AttributeError)"

definition file_segment_llm_text :: "content_segment \<Rightarrow> string res" where
  "file_segment_llm_text s =
     res_bind (strip_or_empty (sg_kind s)) (\<lambda>hint.
     res_bind (strip_or_empty (sg_file_id s)) (\<lambda>fid.
       let usage = FILE_ATTACH_USAGE fid
       in Inr (if hint \<noteq> [] then hint @ LF @ LF @ usage
               else ''The user uploaded a session file.'' @ LF @ LF @ usage)))"

definition segments_need_openai_multipart :: "content_segment list \<Rightarrow> bool" where
  "segments_need_openai_multipart ss =
     list_ex (\<lambda>s. sg_type s = SEG_IMAGE_URL \<or> sg_type s \<notin> {SEG_TEXT, SEG_FILE}) ss"

datatype message_role = ROLE_SYSTEM | ROLE_USER | ROLE_ASSISTANT

fun role_str :: "message_role \<Rightarrow> string" where
  "role_str ROLE_SYSTEM = ''system''"
| "role_str ROLE_USER = ''user''"
| "role_str ROLE_ASSISTANT = ''assistant''"

definition role_from_value :: "string \<Rightarrow> message_role" where
  "role_from_value v = (let role = py_lower (py_strip v) in
     if role = ''system'' then ROLE_SYSTEM else if role = ''user'' then ROLE_USER else ROLE_ASSISTANT)"

datatype message_body = TextBody json | SegmentsBody "content_segment list"

text \<open>\<open>sep.join\<close> of values that may not be strings.\<close>

definition join_json :: "string \<Rightarrow> json list \<Rightarrow> string res" where
  "join_json sep vs =
     res_bind (res_map (\<lambda>v. case v of JStr s \<Rightarrow> Inr s | _ \<Rightarrow> Inl TypeError) vs) (\<lambda>ss. Inr (py_join sep ss))"

text \<open>The two loops that turn text and file segments into chunks of text are the same loop.\<close>

fun text_chunks :: "content_segment list \<Rightarrow> json list res" where
  "text_chunks [] = Inr []"
| "text_chunks (s # ss) =
     (if sg_type s = SEG_TEXT \<and> truthy (sg_text s)
      then res_bind (text_chunks ss) (\<lambda>cs. Inr (sg_text s # cs))
      else if sg_type s = SEG_FILE \<and> truthy (sg_file_id s)
      then res_bind (file_segment_llm_text s) (\<lambda>t. res_bind (text_chunks ss) (\<lambda>cs. Inr (JStr t # cs)))
      else text_chunks ss)"

definition segments_plain_text :: "content_segment list \<Rightarrow> string res" where
  "segments_plain_text ss =
     res_bind (text_chunks ss) (\<lambda>cs. res_bind (join_json LF cs) (\<lambda>s. Inr (py_strip s)))"

definition segments_openai_content :: "content_segment list \<Rightarrow> json res" where
  "segments_openai_content ss =
     (if \<not> segments_need_openai_multipart ss
      then res_bind (text_chunks ss) (\<lambda>parts.
             if parts = [] then Inr (JStr [])
             else res_bind (join_json (LF @ LF) parts) (\<lambda>s. Inr (JStr s)))
      else res_bind
             (res_map (\<lambda>s. if sg_type s = SEG_FILE \<and> truthy (sg_file_id s)
                           then res_bind (file_segment_llm_text s) (\<lambda>t.
                                  Inr (JDict [(''type'', JStr ''text''), (''text'', JStr t)]))
                           else Inr (JDict (segment_to_dict s))) ss)
             (\<lambda>items. Inr (JList items)))"

record message_block =
  mb_role :: message_role
  mb_body :: message_body

definition block_plain_text :: "message_block \<Rightarrow> json res" where
  "block_plain_text m = (case mb_body m of
      TextBody t \<Rightarrow> Inr t | SegmentsBody ss \<Rightarrow> res_bind (segments_plain_text ss) (\<lambda>s. Inr (JStr s)))"

definition block_openai_content :: "message_block \<Rightarrow> json res" where
  "block_openai_content m = (case mb_body m of
      TextBody t \<Rightarrow> Inr t | SegmentsBody ss \<Rightarrow> segments_openai_content ss)"

definition block_from_segments :: "message_role \<Rightarrow> content_segment list \<Rightarrow> message_block option" where
  "block_from_segments role ss =
     (case ss of
        [] \<Rightarrow> None
      | [s] \<Rightarrow> Some \<lparr>mb_role = role,
                 mb_body = (if sg_type s = SEG_TEXT then TextBody (py_or (sg_text s) (JStr []))
                            else SegmentsBody [s])\<rparr>
      | _ \<Rightarrow> Some \<lparr>mb_role = role, mb_body = SegmentsBody ss\<rparr>)"

record tool_round =
  tr_name :: string
  tr_call_id :: string
  tr_arguments :: string
  tr_result :: string
  tr_success :: bool

section \<open>json.dumps(..., ensure_ascii=False)\<close>

definition hex_digit :: "nat \<Rightarrow> char" where
  "hex_digit d = (if d < 10 then char_of (48 + d) else char_of (87 + d))"

definition json_escape :: "char \<Rightarrow> string" where
  "json_escape c = (let n = (of_char c :: nat); bs = char_of (92::nat) in
     if n = 34 \<or> n = 92 then [bs, c]
     else if n = 10 then [bs, CHR ''n''] else if n = 13 then [bs, CHR ''r'']
     else if n = 9 then [bs, CHR ''t''] else if n = 12 then [bs, CHR ''f'']
     else if n = 8 then [bs, CHR ''b'']
     else if n < 32 then bs # ''u00'' @ [hex_digit (n div 16), hex_digit (n mod 16)]
     else [c])"

definition json_string :: "string \<Rightarrow> string" where
  "json_string s = char_of (34::nat) # concat (map json_escape s) @ [char_of (34::nat)]"

fun json_dumps :: "py_runtime \<Rightarrow> json \<Rightarrow> string" where
  "json_dumps rt JNull = ''null''"
| "json_dumps rt (JBool b) = (if b then ''true'' else ''false'')"
| "json_dumps rt (JInt i) = show_int i"
| "json_dumps rt (JFloat r) = rt_repr rt (JFloat r)"
| "json_dumps rt (JStr s) = json_string s"
| "json_dumps rt (JList vs) = ''['' @ py_join '', '' (map (json_dumps rt) vs) @ '']''"
| "json_dumps rt (JDict kvs) = ''{'' @ py_join '', '' (map (\<lambda>(k, v). json_string k @ '': '' @ json_dumps rt v) kvs) @ ''}''"

section \<open>Tool rounds\<close>

definition nonblank :: "json \<Rightarrow> bool" where
  "nonblank v = (case v of JStr s \<Rightarrow> py_strip s \<noteq> [] | _ \<Rightarrow> False)"

fun the_str :: "json \<Rightarrow> string" where
  "the_str (JStr s) = s"
| "the_str _ = []"

definition extract_tool_call_id :: "string \<Rightarrow> json \<Rightarrow> string" where
  "extract_tool_call_id eid args =
     (if is_dict args \<and> nonblank (obj_get (dict_of args) ''tool_call_id'')
      then the_str (obj_get (dict_of args) ''tool_call_id'')
      else ''tc_h_'' @ (if eid \<noteq> [] then drop (length eid - 6) eid else ''hist''))"

definition extract_arguments_json :: "py_runtime \<Rightarrow> json \<Rightarrow> string" where
  "extract_arguments_json rt args =
     (case args of
        JDict d \<Rightarrow> (if nonblank (obj_get d ''arguments_json'') then the_str (obj_get d ''arguments_json'')
                   else json_dumps rt args)
      | JStr s \<Rightarrow> (if py_strip s \<noteq> [] then s else ''{}'')
      | _ \<Rightarrow> ''{}'')"

definition round_from_persisted :: "py_runtime \<Rightarrow> string \<Rightarrow> string \<Rightarrow> json \<Rightarrow> json \<Rightarrow> tool_round" where
  "round_from_persisted rt eid name args result =
     \<lparr>tr_name = name, tr_call_id = extract_tool_call_id eid args,
      tr_arguments = extract_arguments_json rt args,
      tr_result = (if result = JNull then [] else py_str rt result), tr_success = True\<rparr>"

datatype history_item = Block message_block | Round tool_round

section \<open>The events table and the memory service\<close>

record usage_tokens =
  use_prompt :: "int option"
  use_completion :: "int option"
  use_total :: "int option"

record event_row =
  ev_id :: string
  ev_session :: string
  ev_type :: string
  ev_time :: int
  ev_role :: "string option"
  ev_content :: json
  ev_tool_name :: "string option"
  ev_tool_args :: json
  ev_tool_result :: json
  ev_usage :: usage_tokens

definition repo_add_session_event ::
  "string \<Rightarrow> int \<Rightarrow> string \<Rightarrow> string \<Rightarrow> json \<Rightarrow> usage_tokens \<Rightarrow> event_row list \<Rightarrow> event_row list" where
  "repo_add_session_event eid now sid role content usage rows =
     rows @ [\<lparr>ev_id = eid, ev_session = sid, ev_type = ''session_event'', ev_time = now,
              ev_role = Some role, ev_content = content, ev_tool_name = None, ev_tool_args = JNull,
              ev_tool_result = JNull, ev_usage = usage\<rparr>]"

definition repo_add_operation_event ::
  "string \<Rightarrow> int \<Rightarrow> string \<Rightarrow> string \<Rightarrow> json \<Rightarrow> json \<Rightarrow> usage_tokens \<Rightarrow> event_row list \<Rightarrow> event_row list" where
  "repo_add_operation_event eid now sid name args result usage rows =
     rows @ [\<lparr>ev_id = eid, ev_session = sid, ev_type = ''operation_event'', ev_time = now,
              ev_role = None, ev_content = JNull, ev_tool_name = Some name, ev_tool_args = args,
              ev_tool_result = result, ev_usage = usage\<rparr>]"

text \<open>
  The newest \<open>limit\<close> rows of a session, oldest first. SQL leaves the order of equal timestamps open;
  the model breaks ties by insertion, and the properties ask for distinct timestamps.
\<close>

definition repo_history :: "string \<Rightarrow> nat \<Rightarrow> event_row list \<Rightarrow> event_row list" where
  "repo_history sid limit rows =
     rev (take limit (sort_key (\<lambda>r. - ev_time r) (filter (\<lambda>r. ev_session r = sid) rows)))"

definition serialize_message_content :: "message_block \<Rightarrow> json res" where
  "serialize_message_content m = (case mb_body m of
      SegmentsBody ss \<Rightarrow> Inr (JList (map (\<lambda>s. JDict (segment_to_dict s)) ss))
    | TextBody _ \<Rightarrow> res_bind (block_plain_text m) (\<lambda>t. Inr (JList [JDict (segment_to_dict (text_segment t))])))"

definition memory_add_session_event ::
  "string \<Rightarrow> int \<Rightarrow> string \<Rightarrow> message_block \<Rightarrow> usage_tokens \<Rightarrow> event_row list \<Rightarrow> event_row list res" where
  "memory_add_session_event eid now sid m usage rows =
     res_bind (serialize_message_content m) (\<lambda>content.
       Inr (repo_add_session_event eid now sid (role_str (mb_role m)) content usage rows))"

definition memory_add_operation_event ::
  "string \<Rightarrow> int \<Rightarrow> string \<Rightarrow> tool_round \<Rightarrow> usage_tokens \<Rightarrow> event_row list \<Rightarrow> event_row list" where
  "memory_add_operation_event eid now sid t usage rows =
     repo_add_operation_event eid now sid (tr_name t)
       (JDict [(''tool_call_id'', JStr (tr_call_id t)), (''arguments_json'', JStr (tr_arguments t))])
       (JStr (tr_result t)) usage rows"

definition items_of_row :: "py_runtime \<Rightarrow> event_row \<Rightarrow> history_item list res" where
  "items_of_row rt r =
     (if ev_type r = ''session_event''
      then (let raw = (case ev_content r of JList vs \<Rightarrow> vs | _ \<Rightarrow> [])
            in res_bind (res_map (segment_from_dict rt) (map dict_of (filter is_dict raw))) (\<lambda>segs.
                 let role = (case ev_role r of Some v \<Rightarrow> if v = [] then ''assistant'' else v | None \<Rightarrow> ''assistant'')
                 in Inr (case block_from_segments (role_from_value role) segs of
                           Some b \<Rightarrow> [Block b] | None \<Rightarrow> [])))
      else if ev_type r = ''operation_event''
      then Inr [Round (round_from_persisted rt (ev_id r)
                  (case ev_tool_name r of Some n \<Rightarrow> n | None \<Rightarrow> [])
                  (py_or (ev_tool_args r) (JDict [])) (ev_tool_result r))]
      else Inr [])"

definition memory_get_history :: "py_runtime \<Rightarrow> string \<Rightarrow> nat \<Rightarrow> event_row list \<Rightarrow> history_item list res" where
  "memory_get_history rt sid limit rows =
     res_bind (res_map (items_of_row rt) (repo_history sid limit rows)) (\<lambda>iss. Inr (concat iss))"

section \<open>Messages for the provider\<close>

record tool_call_request =
  tc_call_id :: string
  tc_name :: string
  tc_arguments :: string

record chat_message =
  cm_role :: string
  cm_content :: json
  cm_tool_calls :: "tool_call_request list option"
  cm_tool_call_id :: "string option"
  cm_name :: "string option"

definition plain_message :: "string \<Rightarrow> json \<Rightarrow> chat_message" where
  "plain_message role content =
     \<lparr>cm_role = role, cm_content = content, cm_tool_calls = None, cm_tool_call_id = None, cm_name = None\<rparr>"

definition is_digit :: "char \<Rightarrow> bool" where
  "is_digit c = (let n = (of_char c :: nat) in 48 \<le> n \<and> n \<le> 57)"

definition nat_of_digits :: "string \<Rightarrow> nat" where
  "nat_of_digits ds = foldl (\<lambda>n c. 10 * n + (of_char c - 48)) 0 ds"

text \<open>
  \<open>re.match(r"^tc_(\d+)(?:_|$)", call_id)\<close>; \<open>$\<close> also matches before a final newline, and
  \<open>int()\<close> refuses more than 4300 digits.
\<close>

definition tool_call_ordinal :: "string \<Rightarrow> nat option" where
  "tool_call_ordinal call_id =
     (if \<not> py_startswith call_id ''tc_'' then None
      else (let rest = drop 3 call_id;
                ds = takeWhile is_digit rest;
                tl = dropWhile is_digit rest
            in if ds = [] \<or> \<not> (tl = [] \<or> tl = LF \<or> hd tl = CHR ''_'') then None
               else if length ds > 4300 then None
               else Some (nat_of_digits ds)))"

text \<open>
  \<open>_collect_consecutive_tool_rounds\<close> from the entries after \<open>start\<close>; \<open>first\<close> says that nothing has
  been collected yet, \<open>expected\<close> is \<open>expected_next_ordinal\<close>.
\<close>

fun collect_rounds :: "bool \<Rightarrow> nat option \<Rightarrow> history_item list \<Rightarrow> tool_round list" where
  "collect_rounds first expected [] = []"
| "collect_rounds first expected (Block _ # es) = []"
| "collect_rounds first expected (Round t # es) =
     (let cur = tool_call_ordinal (tr_call_id t)
      in if \<not> first \<and> (expected = None \<or> cur = None \<or> cur \<noteq> expected) then []
         else t # collect_rounds False (map_option Suc cur) es)"

definition collect_consecutive_tool_rounds :: "history_item list \<Rightarrow> tool_round list" where
  "collect_consecutive_tool_rounds es = collect_rounds True None es"

definition to_tool_call_request :: "tool_round \<Rightarrow> tool_call_request" where
  "to_tool_call_request t = \<lparr>tc_call_id = tr_call_id t, tc_name = tr_name t, tc_arguments = tr_arguments t\<rparr>"

definition tool_result_messages :: "tool_round list \<Rightarrow> chat_message list" where
  "tool_result_messages ts = map (\<lambda>t.
     \<lparr>cm_role = ''tool'', cm_content = JStr (tr_result t), cm_tool_calls = None,
      cm_tool_call_id = Some (tr_call_id t), cm_name = Some (tr_name t)\<rparr>) ts"

definition calls_message :: "json \<Rightarrow> tool_round list \<Rightarrow> chat_message" where
  "calls_message content ts =
     \<lparr>cm_role = ''assistant'', cm_content = content, cm_tool_calls = Some (map to_tool_call_request ts),
      cm_tool_call_id = None, cm_name = None\<rparr>"

lemma collect_first: "collect_consecutive_tool_rounds (Round t # es) =
    t # collect_rounds False (map_option Suc (tool_call_ordinal (tr_call_id t))) es"
  by (simp add: collect_consecutive_tool_rounds_def)

text \<open>The \<open>while index < len(history_entries)\<close> loop, on the entries from \<open>index\<close> on.\<close>

function assemble_entries :: "history_item list \<Rightarrow> chat_message list res" where
  "assemble_entries [] = Inr []"
| "assemble_entries (Block m # es) =
     res_bind (block_openai_content m) (\<lambda>content.
       let ts = (if mb_role m = ROLE_ASSISTANT then collect_consecutive_tool_rounds es else [])
       in if ts \<noteq> []
          then res_bind (assemble_entries (drop (length ts) es)) (\<lambda>ms.
                 Inr (calls_message content ts # tool_result_messages ts @ ms))
          else res_bind (assemble_entries es) (\<lambda>ms. Inr (plain_message (role_str (mb_role m)) content # ms)))"
| "assemble_entries (Round t # es) =
     (let ts = collect_consecutive_tool_rounds (Round t # es)
      in res_bind (assemble_entries (drop (length ts) (Round t # es))) (\<lambda>ms.
           Inr (calls_message (JStr []) ts # tool_result_messages ts @ ms)))"
  by pat_completeness auto

termination
  by (relation "measure length") (auto simp: collect_first)

definition assemble :: "string \<Rightarrow> history_item list \<Rightarrow> message_block option \<Rightarrow> chat_message list res" where
  "assemble system_prompt entries user =
     res_bind (assemble_entries entries) (\<lambda>ms.
       case user of
         None \<Rightarrow> Inr (plain_message ''system'' (JStr system_prompt) # ms)
       | Some u \<Rightarrow> res_bind (block_openai_content u) (\<lambda>c.
           Inr (plain_message ''system'' (JStr system_prompt) # ms @ [plain_message (role_str (mb_role u)) c])))"

definition is_user_message :: "history_item \<Rightarrow> bool" where
  "is_user_message i = (case i of Block m \<Rightarrow> mb_role m = ROLE_USER | Round _ \<Rightarrow> False)"

definition split_current_user_turn ::
  "history_item list \<Rightarrow> message_block option \<Rightarrow> history_item list \<times> message_block option" where
  "split_current_user_turn items explicit =
     (if items = [] then (items, explicit)
      else if \<not> is_user_message (last items) then (items, explicit)
      else case explicit of
             Some u \<Rightarrow> (if last items = Block u then (butlast items, Some u) else (items, Some u))
           | None \<Rightarrow> (case last items of Block m \<Rightarrow> (butlast items, Some m) | Round _ \<Rightarrow> (items, None)))"

definition build_turn_context ::
  "string \<Rightarrow> history_item list \<Rightarrow> content_segment list
   \<Rightarrow> (chat_message list \<times> history_item list \<times> message_block option) res" where
  "build_turn_context system_prompt items user_segments =
     (let (entries, user) = split_current_user_turn items (block_from_segments ROLE_USER user_segments)
      in res_bind (assemble system_prompt entries user) (\<lambda>ms. Inr (ms, entries, user)))"

definition tool_call_to_json :: "tool_call_request \<Rightarrow> json" where
  "tool_call_to_json c = JDict [(''id'', JStr (tc_call_id c)), (''type'', JStr ''function''),
     (''function'', JDict [(''name'', JStr (tc_name c)), (''arguments'', JStr (tc_arguments c))])]"

definition to_openai_message :: "chat_message \<Rightarrow> json_object" where
  "to_openai_message m =
     (let p0 = [(''role'', JStr (cm_role m))];
          p1 = (if cm_content m \<noteq> JNull then dset ''content'' (cm_content m) p0 else p0);
          p2 = (case cm_tool_calls m of
                  Some (c # cs) \<Rightarrow>
                    (let q = dset ''tool_calls'' (JList (map tool_call_to_json (c # cs))) p1
                     in if dget q ''content'' = None then dset ''content'' (JStr []) q else q)
                | _ \<Rightarrow> p1);
          p3 = (case cm_tool_call_id m of Some (c # cs) \<Rightarrow> dset ''tool_call_id'' (JStr (c # cs)) p2 | _ \<Rightarrow> p2)
      in (case cm_name m of Some (c # cs) \<Rightarrow> dset ''name'' (JStr (c # cs)) p3 | _ \<Rightarrow> p3))"

section \<open>Persistence\<close>

definition canonical_block :: "message_block \<Rightarrow> bool" where
  "canonical_block m = (case mb_body m of
      TextBody t \<Rightarrow> truthy t \<or> t = JStr []
    | SegmentsBody ss \<Rightarrow> ss \<noteq> [] \<and> (length ss = 1 \<longrightarrow> sg_type (hd ss) \<noteq> SEG_TEXT))"

fun canonical_item :: "history_item \<Rightarrow> bool" where
  "canonical_item (Block m) = canonical_block m"
| "canonical_item (Round t) = (nonblank (JStr (tr_call_id t)) \<and> nonblank (JStr (tr_arguments t)) \<and> tr_success t)"

lemma block_from_segments_canonical: "block_from_segments r ss = Some m \<Longrightarrow> canonical_block m"
  by (auto simp: block_from_segments_def canonical_block_def py_or_def split: list.splits if_splits)

lemma canonical_segments:
  "canonical_block m \<Longrightarrow> mb_body m = SegmentsBody ss \<Longrightarrow> block_from_segments (mb_role m) ss = Some m"
  by (cases m) (auto simp: canonical_block_def block_from_segments_def split: list.splits)

lemma canonical_text:
  "canonical_block m \<Longrightarrow> mb_body m = TextBody t \<Longrightarrow>
   block_from_segments (mb_role m) [text_segment t] = Some m"
  by (cases m) (auto simp: canonical_block_def block_from_segments_def text_segment_def py_or_def)

record log_entry =
  lg_session :: string
  lg_id :: string
  lg_time :: int
  lg_usage :: usage_tokens
  lg_item :: history_item

definition persist :: "log_entry \<Rightarrow> event_row list \<Rightarrow> event_row list res" where
  "persist e rows = (case lg_item e of
      Block m \<Rightarrow> memory_add_session_event (lg_id e) (lg_time e) (lg_session e) m (lg_usage e) rows
    | Round t \<Rightarrow> Inr (memory_add_operation_event (lg_id e) (lg_time e) (lg_session e) t (lg_usage e) rows))"

fun persist_all :: "log_entry list \<Rightarrow> event_row list \<Rightarrow> event_row list res" where
  "persist_all [] rows = Inr rows"
| "persist_all (e # es) rows = res_bind (persist e rows) (persist_all es)"

lemma role_from_value_str [simp]: "role_from_value (role_str r) = r"
  by (cases r) (simp_all add: role_from_value_def py_strip_id py_lower_def lower_char_def is_space_def Let_def)

lemma role_str_not_Nil [simp]: "role_str r \<noteq> []"
  by (cases r) auto

lemma segment_dec [simp]: "segment_from_dict rt (segment_to_dict s) = Inr s"
  by (rule segment_codec.dec_enc) simp

lemma res_map_segments [simp]:
  "res_map (segment_from_dict rt) (map segment_to_dict ss) = Inr ss"
  by (rule segment_codec.dec_list) (simp add: list_all_iff)

lemma filter_dicts [simp]: "map dict_of (filter is_dict (map (\<lambda>s. JDict (f s)) ss)) = map f ss"
  by (induction ss) auto

lemma dict_of_comp [simp]: "dict_of \<circ> (\<lambda>s. JDict (f s)) = f"
  by (simp add: comp_def)

lemma items_of_row_block:
  assumes "canonical_block m"
  obtains content where "serialize_message_content m = Inr content"
    and "\<And>r. ev_type r = ''session_event'' \<Longrightarrow> ev_role r = Some (role_str (mb_role m)) \<Longrightarrow>
             ev_content r = content \<Longrightarrow> items_of_row rt r = Inr [Block m]"
proof (cases "mb_body m")
  case (TextBody t)
  with canonical_text [OF assms this] show ?thesis
    by (intro that) (auto simp: serialize_message_content_def block_plain_text_def items_of_row_def)
next
  case (SegmentsBody ss)
  with canonical_segments [OF assms this] show ?thesis
    by (intro that) (auto simp: serialize_message_content_def items_of_row_def)
qed

lemma persist_row:
  assumes "canonical_item (lg_item e)"
  obtains r where "\<And>rows. persist e rows = Inr (rows @ [r])"
    and "ev_session r = lg_session e" and "ev_time r = lg_time e" and "items_of_row rt r = Inr [lg_item e]"
proof (cases "lg_item e")
  case (Block m)
  with assms have "canonical_block m" by simp
  then show ?thesis
  proof (rule items_of_row_block [where rt = rt])
    fix content assume c: "serialize_message_content m = Inr content" and
      r: "\<And>r. ev_type r = ''session_event'' \<Longrightarrow> ev_role r = Some (role_str (mb_role m)) \<Longrightarrow>
              ev_content r = content \<Longrightarrow> items_of_row rt r = Inr [Block m]"
    show ?thesis
      by (rule that [of "hd (repo_add_session_event (lg_id e) (lg_time e) (lg_session e)
              (role_str (mb_role m)) content (lg_usage e) [])"])
        (auto simp: persist_def Block c memory_add_session_event_def repo_add_session_event_def intro!: r)
  qed
next
  case (Round t)
  show ?thesis
    by (rule that [of "hd (memory_add_operation_event (lg_id e) (lg_time e) (lg_session e) t (lg_usage e) [])"])
      (use assms in \<open>auto simp: persist_def Round memory_add_operation_event_def repo_add_operation_event_def
        items_of_row_def round_from_persisted_def extract_tool_call_id_def extract_arguments_json_def nonblank_def\<close>)
qed

lemma persist_all_rows:
  assumes "list_all (\<lambda>e. canonical_item (lg_item e)) lg"
  shows "\<exists>rs. (\<forall>rows. persist_all lg rows = Inr (rows @ rs)) \<and>
    map ev_time rs = map lg_time lg \<and> map ev_session rs = map lg_session lg \<and>
    list_all2 (\<lambda>r e. items_of_row rt r = Inr [lg_item e]) rs lg"
  using assms
proof (induction lg)
  case (Cons e lg)
  then obtain rs where rs: "\<forall>rows. persist_all lg rows = Inr (rows @ rs)" "map ev_time rs = map lg_time lg"
    "map ev_session rs = map lg_session lg" "list_all2 (\<lambda>r e. items_of_row rt r = Inr [lg_item e]) rs lg"
    by auto
  from Cons have "canonical_item (lg_item e)" by simp
  then obtain r where "\<And>rows. persist e rows = Inr (rows @ [r])"
    "ev_session r = lg_session e" "ev_time r = lg_time e" "items_of_row rt r = Inr [lg_item e]"
    by (rule persist_row [where rt = rt]) blast
  with rs show ?case by (intro exI [of _ "r # rs"]) auto
qed simp

lemma list_all2_filter:
  "list_all2 (\<lambda>r e. P r e) rs es \<Longrightarrow> map f rs = map g es \<Longrightarrow>
   list_all2 P (filter (\<lambda>r. Q (f r)) rs) (filter (\<lambda>e. Q (g e)) es)"
  by (induction rule: list_all2_induct) auto

lemma repo_history_increasing:
  fixes rows :: "event_row list" and sid :: string
  assumes "sorted_wrt (<) (map ev_time rows)"
  defines "own \<equiv> filter (\<lambda>r. ev_session r = sid) rows"
  shows "repo_history sid n rows = drop (length own - n) own"
proof -
  have s: "sorted_wrt (<) (map ev_time own)"
    using assms(1) unfolding own_def by (induction rows) simp_all
  then have "sorted (map (\<lambda>r. - ev_time r) (rev own))"
    by (induction own) (simp_all add: sorted_append less_imp_le)
  moreover have "inj_on (\<lambda>r. - ev_time r) (set own)"
    using s by (induction own) (simp_all add: inj_on_def, metis order_less_irrefl)
  ultimately have "sort_key (\<lambda>r. - ev_time r) own = rev own"
    by (intro sort_key_inj_key_eq) simp_all
  then show ?thesis by (simp add: repo_history_def own_def [symmetric] take_rev)
qed

lemma row_items:
  "list_all2 (\<lambda>r e. items_of_row rt r = Inr [lg_item e]) rs es \<Longrightarrow>
   res_bind (res_map (items_of_row rt) rs) (\<lambda>iss. Inr (concat iss)) = Inr (map lg_item es)"
proof (induction rule: list_all2_induct)
  case (Cons r rs e es)
  then obtain iss where "res_map (items_of_row rt) rs = Inr iss" "concat iss = map lg_item es"
    by (auto simp: res_bind_Inr_iff)
  with Cons.hyps(1) show ?case by simp
qed simp


definition demo_log :: "log_entry list" where
  "demo_log = (let u = \<lparr>use_prompt = None, use_completion = None, use_total = None\<rparr> in
     [\<lparr>lg_session = ''a'', lg_id = ''e1'', lg_time = 1, lg_usage = u,
       lg_item = Block \<lparr>mb_role = ROLE_USER, mb_body = TextBody (JStr ''hi'')\<rparr>\<rparr>,
      \<lparr>lg_session = ''b'', lg_id = ''e2'', lg_time = 2, lg_usage = u,
       lg_item = Block \<lparr>mb_role = ROLE_USER, mb_body = TextBody (JStr ''other'')\<rparr>\<rparr>,
      \<lparr>lg_session = ''a'', lg_id = ''e3'', lg_time = 3, lg_usage = u,
       lg_item = Round \<lparr>tr_name = ''ls'', tr_call_id = ''tc_1'', tr_arguments = ''{}'', tr_result = ''out'', tr_success = True\<rparr>\<rparr>])"


section \<open>Well-formed conversations\<close>

text \<open>
  What a provider demands: a \<open>tool\<close> message only as the answer to a call, each assistant message
  with calls followed at once by one answer per call, in order and under the call's identifier.
\<close>

definition answers :: "tool_call_request \<Rightarrow> chat_message \<Rightarrow> bool" where
  "answers c m \<longleftrightarrow> cm_role m = ''tool'' \<and> cm_tool_call_id m = Some (tc_call_id c) \<and>
                   cm_name m = Some (tc_name c) \<and> cm_tool_calls m = None"

function wf_chat :: "chat_message list \<Rightarrow> bool" where
  "wf_chat [] = True"
| "wf_chat (m # ms) =
     (cm_role m \<noteq> ''tool'' \<and>
      (case cm_tool_calls m of
         None \<Rightarrow> wf_chat ms
       | Some cs \<Rightarrow> cs \<noteq> [] \<and> cm_role m = ''assistant'' \<and>
           list_all2 answers cs (take (length cs) ms) \<and> wf_chat (drop (length cs) ms)))"
  by pat_completeness auto

termination by (relation "measure length") auto

lemma role_str_not_tool [simp]: "role_str r \<noteq> ''tool''"
  by (cases r) auto

lemma wf_plain [simp]: "wf_chat (plain_message (role_str r) c # ms) = wf_chat ms"
  by (simp add: plain_message_def)

lemma tool_results_length [simp]: "length (tool_result_messages ts) = length ts"
  by (simp add: tool_result_messages_def)

lemma tool_results_answer: "list_all2 answers (map to_tool_call_request ts) (tool_result_messages ts)"
  by (induction ts) (auto simp: tool_result_messages_def answers_def to_tool_call_request_def)

lemma wf_batch [simp]:
  "ts \<noteq> [] \<Longrightarrow> wf_chat (calls_message c ts # tool_result_messages ts @ ms) = wf_chat ms"
  using tool_results_answer [of ts] by (simp add: calls_message_def)

declare wf_chat.simps(2) [simp del]

lemma collect_rounds_prefix:
  "\<exists>es'. es = map Round (collect_rounds f x es) @ es'"
  by (induction f x es rule: collect_rounds.induct) (auto simp: Let_def)

lemma collect_prefix: "es = map Round (collect_consecutive_tool_rounds es) @ drop (length (collect_consecutive_tool_rounds es)) es"
  using collect_rounds_prefix [of es True None]
  unfolding collect_consecutive_tool_rounds_def by (metis append_eq_conv_conj length_map)

lemma assemble_BlockE:
  assumes "assemble_entries (Block m # es) = Inr ms"
  obtains (plain) c ms' where "block_openai_content m = Inr c" "assemble_entries es = Inr ms'"
      "(if mb_role m = ROLE_ASSISTANT then collect_consecutive_tool_rounds es else []) = []"
      "ms = plain_message (role_str (mb_role m)) c # ms'"
  | (calls) c ms' ts where "block_openai_content m = Inr c" "ts = collect_consecutive_tool_rounds es"
      "ts \<noteq> []" "mb_role m = ROLE_ASSISTANT"
      "(if mb_role m = ROLE_ASSISTANT then collect_consecutive_tool_rounds es else []) = ts"
      "assemble_entries (drop (length ts) es) = Inr ms'"
      "ms = calls_message c ts # tool_result_messages ts @ ms'"
  using assms by (cases "(if mb_role m = ROLE_ASSISTANT then collect_consecutive_tool_rounds es else []) = []")
    (auto simp: res_bind_Inr_iff Let_def split: if_splits)

lemma assemble_RoundE:
  assumes "assemble_entries (Round t # es) = Inr ms"
  obtains ms' ts where "ts = collect_consecutive_tool_rounds (Round t # es)" "ts \<noteq> []"
      "assemble_entries (drop (length ts) (Round t # es)) = Inr ms'"
      "ms = calls_message (JStr []) ts # tool_result_messages ts @ ms'"
proof -
  let ?ts = "collect_consecutive_tool_rounds (Round t # es)"
  obtain ms' where "assemble_entries (drop (length ?ts) (Round t # es)) = Inr ms'"
      "ms = calls_message (JStr []) ?ts # tool_result_messages ?ts @ ms'"
    using assms unfolding assemble_entries.simps Let_def res_bind_Inr_iff by blast
  then show ?thesis by (intro that) (simp_all add: collect_first)
qed

lemma assemble_entries_wf: "assemble_entries es = Inr ms \<Longrightarrow> wf_chat ms"
proof (induction es arbitrary: ms rule: assemble_entries.induct)
  case (2 m es)
  from 2(3) show ?case
  proof (cases rule: assemble_BlockE)
    case (plain c ms')
    with 2(2) [OF refl] show ?thesis by simp
  next
    case (calls c ms' ts)
    with 2(1) [OF refl] show ?thesis by simp
  qed
next
  case (3 t es)
  from 3(2) show ?case
    by (rule assemble_RoundE) (use 3(1) [OF refl] in simp)
qed simp

fun rounds_of :: "history_item list \<Rightarrow> tool_round list" where
  "rounds_of [] = []"
| "rounds_of (Block _ # es) = rounds_of es"
| "rounds_of (Round t # es) = t # rounds_of es"

fun blocks_of :: "history_item list \<Rightarrow> message_block list" where
  "blocks_of [] = []"
| "blocks_of (Block m # es) = m # blocks_of es"
| "blocks_of (Round _ # es) = blocks_of es"

lemma items_of_append [simp]:
  "rounds_of (es @ fs) = rounds_of es @ rounds_of fs" "blocks_of (es @ fs) = blocks_of es @ blocks_of fs"
  by (induction es rule: rounds_of.induct) auto

lemma items_of_rounds [simp]: "rounds_of (map Round ts) = ts" "blocks_of (map Round ts) = []"
  by (induction ts) auto

lemma items_split:
  "rounds_of es = collect_consecutive_tool_rounds es @ rounds_of (drop (length (collect_consecutive_tool_rounds es)) es)"
  "blocks_of es = blocks_of (drop (length (collect_consecutive_tool_rounds es)) es)"
  by (subst collect_prefix; simp)+

definition tool_messages :: "chat_message list \<Rightarrow> chat_message list" where
  "tool_messages ms = filter (\<lambda>m. cm_role m = ''tool'') ms"

text \<open>Role and content of the messages that say something; an empty assistant message that only
  carries calls is not one.\<close>

definition spoken :: "chat_message list \<Rightarrow> (string \<times> json) list" where
  "spoken ms = map (\<lambda>m. (cm_role m, cm_content m))
     (filter (\<lambda>m. cm_role m \<noteq> ''tool'' \<and> cm_content m \<noteq> JStr []) ms)"

definition spoken_blocks :: "message_block list \<Rightarrow> (string \<times> json) list" where
  "spoken_blocks bs = filter (\<lambda>p. snd p \<noteq> JStr [])
     (map (\<lambda>m. (role_str (mb_role m), projr (block_openai_content m))) bs)"

lemma assembled_simps [simp]:
  "tool_messages [] = []" "tool_messages (plain_message (role_str r) c # ms) = tool_messages ms"
  "tool_messages (ms @ ms') = tool_messages ms @ tool_messages ms'"
  "tool_messages (calls_message c ts # ms) = tool_messages ms"
  "tool_messages (tool_result_messages ts) = tool_result_messages ts"
  "spoken [] = []" "spoken (tool_result_messages ts) = []" "spoken (ms @ ms') = spoken ms @ spoken ms'"
  "spoken (plain_message (role_str r) c # ms) = (if c = JStr [] then [] else [(role_str r, c)]) @ spoken ms"
  "spoken (calls_message c ts # ms) = (if c = JStr [] then [] else [(''assistant'', c)]) @ spoken ms"
  "spoken_blocks [] = []"
  "spoken_blocks (m # bs) = (if projr (block_openai_content m) = JStr [] then []
      else [(role_str (mb_role m), projr (block_openai_content m))]) @ spoken_blocks bs"
  by (auto simp: tool_messages_def spoken_def spoken_blocks_def plain_message_def calls_message_def
      tool_result_messages_def filter_map comp_def)

lemma tool_results_append [simp]:
  "tool_result_messages (ts @ us) = tool_result_messages ts @ tool_result_messages us"
  "tool_result_messages [] = []"
  by (simp_all add: tool_result_messages_def)

lemma assemble_entries_keeps:
  "assemble_entries es = Inr ms \<Longrightarrow>
   tool_messages ms = tool_result_messages (rounds_of es) \<and> spoken ms = spoken_blocks (blocks_of es)"
proof (induction es arbitrary: ms rule: assemble_entries.induct)
  case (2 m es)
  from 2(3) show ?case
  proof (cases rule: assemble_BlockE)
    case (plain c ms')
    with 2(2) [OF refl] show ?thesis by simp
  next
    case (calls c ms' ts)
    with 2(1) [OF refl] items_split [of es] show ?thesis by simp
  qed
next
  case (3 t es)
  from 3(2) show ?case
    by (rule assemble_RoundE) (use 3(1) [OF refl] items_split [of "Round t # es"] in simp)
qed simp

lemma wf_snoc: "wf_chat xs \<Longrightarrow> wf_chat (xs @ [plain_message (role_str r) c])"
proof (induction xs rule: wf_chat.induct)
  case (2 m ms)
  show ?case
  proof (cases "cm_tool_calls m")
    case (Some cs)
    with 2(3) have "list_all2 answers cs (take (length cs) ms)" by (simp add: wf_chat.simps(2))
    from list_all2_lengthD [OF this] have "length cs \<le> length ms" by simp
    with Some 2 show ?thesis by (simp add: wf_chat.simps(2))
  qed (use 2 in \<open>simp add: wf_chat.simps(2)\<close>)
qed simp

text \<open>C4. Every assembled conversation is one the provider accepts: it opens with the system prompt,
  and tool answers appear only right after the assistant message that made the calls, one per call,
  in order, with matching ids.\<close>

theorem assemble_well_formed:
  assumes "assemble system_prompt entries user = Inr ms"
  shows "wf_chat ms \<and> hd ms = plain_message ''system'' (JStr system_prompt)"
proof -
  have "wf_chat (plain_message ''system'' c # xs) = wf_chat xs" for c xs
    using wf_plain [of ROLE_SYSTEM] by simp
  with assms assemble_entries_wf [of entries] wf_snoc show ?thesis
    by (auto simp: assemble_def res_bind_Inr_iff split: option.splits)
qed

text \<open> Assembly neither loses, repeats nor reorders history: the tool answers are the results of
  the history's tool rounds in order, and the messages with content are the history's session
  messages in order, followed by the user's turn.\<close>

theorem assemble_keeps_history:
  assumes "assemble_entries entries = Inr ms"
  shows "tool_messages ms = tool_result_messages (rounds_of entries) \<and>
         spoken ms = spoken_blocks (blocks_of entries)"
  using assemble_entries_keeps [OF assms] .

fun rejoin :: "history_item list \<times> message_block option \<Rightarrow> history_item list" where
  "rejoin (es, None) = es"
| "rejoin (es, Some u) = es @ [Block u]"

text \<open>The current user turn is used exactly once: splitting it off the history and putting it back
  gives the history itself when it already ends with that turn (or no explicit turn was given),
  and otherwise the history followed by the explicit turn.\<close>

theorem split_user_turn_once:
  "rejoin (split_current_user_turn items explicit) =
     (case explicit of None \<Rightarrow> items
      | Some u \<Rightarrow> if items \<noteq> [] \<and> last items = Block u \<and> mb_role u = ROLE_USER then items else items @ [Block u])"
  by (auto simp: split_current_user_turn_def is_user_message_def 
      split: option.splits history_item.splits) (metis append_butlast_last_id)+

section \<open>Witnesses\<close>

definition demo_user :: message_block where
  "demo_user = \<lparr>mb_role = ROLE_USER, mb_body = TextBody (JStr ''hi'')\<rparr>"

definition demo_round :: "string \<Rightarrow> tool_round" where
  "demo_round cid = \<lparr>tr_name = ''ls'', tr_call_id = cid, tr_arguments = ''{}'', tr_result = ''out'', tr_success = True\<rparr>"

definition demo_items :: "history_item list" where
  "demo_items = [Block demo_user, Round (demo_round ''tc_1_ab''), Round (demo_round ''tc_2''), Round (demo_round ''tc_1'')]"

lemmas history_eval = demo_items_def demo_user_def demo_round_def assemble_def collect_consecutive_tool_rounds_def
  tool_call_ordinal_def is_digit_def nat_of_digits_def py_startswith_def block_openai_content_def LF_def

definition demo_messages :: "chat_message list" where
  "demo_messages = [plain_message ''user'' (JStr ''hi''),
     calls_message (JStr []) [demo_round ''tc_1_ab'', demo_round ''tc_2'']] @
     tool_result_messages [demo_round ''tc_1_ab'', demo_round ''tc_2''] @
     [calls_message (JStr []) [demo_round ''tc_1'']] @ tool_result_messages [demo_round ''tc_1'']"

lemma demo_assemble: "assemble_entries demo_items = Inr demo_messages"
  by (simp add: history_eval demo_messages_def Let_def)

theorem assemble_well_formed_witness:
  "wf_chat (plain_message ''system'' (JStr ''p'') # demo_messages)"
  using assemble_well_formed [of "''p''" demo_items None] by (simp add: assemble_def demo_assemble)

theorem assemble_keeps_history_witness:
  "tool_messages demo_messages = tool_result_messages [demo_round ''tc_1_ab'', demo_round ''tc_2'', demo_round ''tc_1'']"
  using assemble_keeps_history [OF demo_assemble] by (simp add: demo_items_def)

end
