(* ===== verification/Scheduler.thy ===== *)
theory Scheduler
  imports EventBus
begin

text \<open>
  \<open>RuntimeSessionScheduler\<close> of \<^verbatim>\<open>core/events/session_scheduler.py\<close>, over the bus's contract
  (\<open>channels\<close> of \<open>EventBus\<close>: per session a queue of events and at most one in dispatch).

  The scheduler's lock and the bus's lock are never held across a suspension, so what a handler
  does between two awaits of the database or the planner is one atomic function here: enqueueing a
  user message, the debounce task after its sleep, the start and the end of \<open>run_session\<close>, the
  watchdog's scan. \<open>sched_step\<close> interleaves them with arbitrary publishers. A debounce task removes
  its own entry as its last act, so an entry of \<open>debounce_tasks\<close> is a task that is still sleeping.
  Identifiers and times are arguments.
\<close>

section \<open>State\<close>

datatype handler_stage = HIdle | HEntered | HPlanning "envelope list" | HDone

record scheduler =
  session_states :: "(string, session_state) dict"
  debounce_tasks :: "string set"
  sched_bus :: "string \<Rightarrow> session_channel"
  stage :: "string \<Rightarrow> handler_stage"
  enqueued_log :: "string \<Rightarrow> envelope list"
  turns_log :: "string \<Rightarrow> envelope list list"

definition DEFAULT_TASK_TYPE :: string where
  "DEFAULT_TASK_TYPE = ''general''"

definition get_or_create_state :: "string \<Rightarrow> rat \<Rightarrow> scheduler \<Rightarrow> session_state \<times> scheduler" where
  "get_or_create_state sid now S = (case dget (session_states S) sid of
      Some s \<Rightarrow> (s, S)
    | None \<Rightarrow> (new_session_state sid now, S\<lparr>session_states := dset sid (new_session_state sid now) (session_states S)\<rparr>))"

definition put_state :: "string \<Rightarrow> session_state \<Rightarrow> scheduler \<Rightarrow> scheduler" where
  "put_state sid s S = S\<lparr>session_states := dset sid s (session_states S)\<rparr>"

definition channel_publish :: "runtime_event \<Rightarrow> (string \<Rightarrow> session_channel) \<Rightarrow> string \<Rightarrow> session_channel" where
  "channel_publish e C =
     C(re_session_id e := (C (re_session_id e))\<lparr>ch_queue := ch_queue (C (re_session_id e)) @ [e]\<rparr>)"

definition sched_publish :: "runtime_event \<Rightarrow> scheduler \<Rightarrow> scheduler" where
  "sched_publish e S = S\<lparr>sched_bus := channel_publish e (sched_bus S)\<rparr>"

definition wakeup_event :: "string \<Rightarrow> string \<Rightarrow> string \<Rightarrow> string \<Rightarrow> int \<Rightarrow> runtime_event" where
  "wakeup_event sid reason source fresh now =
     \<lparr>re_type = ETEnum WAKEUP_REQUESTED, re_session_id = sid,
      re_payload = JDict [(''reason'', JStr reason)], re_source = source, re_id = fresh, re_timestamp = now\<rparr>"

section \<open>Preferences of a turn\<close>

text \<open>The loop over \<open>reversed(consumed_events)\<close>, carrying the two variables.\<close>

definition event_prefs :: "envelope \<Rightarrow> string \<times> string list option" where
  "event_prefs v =
     (let payload = dict_of (en_payload v);
          groups_raw = groups_value payload
      in ((case nonblank_str (obj_get payload ''task_type'') of Some s \<Rightarrow> py_strip s | None \<Rightarrow> DEFAULT_TASK_TYPE),
          cleaned_groups_opt groups_raw))"

fun prefs_loop :: "envelope list \<Rightarrow> string \<times> string list option \<Rightarrow> string \<times> string list option" where
  "prefs_loop [] acc = acc"
| "prefs_loop (v # vs) acc =
     (if event_type_value (en_event_type v) \<noteq> ''user_message_received'' then prefs_loop vs acc
      else (let acc' = event_prefs v
            in if fst acc' \<noteq> DEFAULT_TASK_TYPE \<or> snd acc' \<noteq> None then acc' else prefs_loop vs acc'))"

definition resolve_runtime_preferences :: "envelope list \<Rightarrow> string \<times> string list option" where
  "resolve_runtime_preferences consumed = prefs_loop (rev consumed) (DEFAULT_TASK_TYPE, None)"

text \<open>
  \<open>resolve_sub_session_groups\<close>. \<open>read\<close> is the database read (\<open>None\<close>: it raised; \<open>Some None\<close>: no such
  session), \<open>route\<close> the router (\<open>None\<close>: it raised), \<open>commit_ok\<close> whether the commit succeeds. The second
  component is the metadata written, if any.
\<close>

definition resolve_sub_session_groups ::
  "py_runtime \<Rightarrow> string list option \<Rightarrow> string list \<Rightarrow> json_object option option \<Rightarrow> (string \<Rightarrow> json option) \<Rightarrow> bool
   \<Rightarrow> string list \<times> json_object option" where
  "resolve_sub_session_groups rt event_groups default_groups read route commit_ok =
     (let fallback = (case event_groups of Some (g # gs) \<Rightarrow> g # gs | _ \<Rightarrow> default_groups)
      in case read of
           None \<Rightarrow> (fallback, None)
         | Some None \<Rightarrow> (fallback, None)
         | Some (Some meta) \<Rightarrow>
             (let persisted = (case list_opt (obj_get meta ''enabled_groups'') of Some xs \<Rightarrow> clean_groups xs | None \<Rightarrow> []);
                  current = (if persisted \<noteq> [] then persisted else fallback)
              in if \<not> truthy (obj_get meta ''routing_pending'') then (current, None)
                 else (let route_input = py_strip (py_str rt (py_or (obj_get meta ''route_input'') (JStr [])));
                           resolved = (if route_input = [] then current
                                       else (case route route_input of
                                               Some (JList xs) \<Rightarrow> (if clean_groups xs \<noteq> [] then clean_groups xs else current)
                                             | _ \<Rightarrow> current))
                       in if commit_ok
                          then (resolved, Some (dpop ''route_input''
                                  (dset ''routing_pending'' (JBool False)
                                    (dset ''enabled_groups'' (JList (map JStr resolved)) meta))))
                          else (fallback, None))))"

section \<open>Wakeups\<close>

definition request_wakeup_if_needed ::
  "string \<Rightarrow> string \<Rightarrow> string \<Rightarrow> string \<Rightarrow> int \<Rightarrow> scheduler \<Rightarrow> scheduler" where
  "request_wakeup_if_needed sid reason source fresh now S = (case dget (session_states S) sid of
      None \<Rightarrow> S
    | Some s \<Rightarrow>
        (if \<not> has_mailbox_events s \<or> \<not> has_triggerable_mailbox_events s then S
         else if ss_inflight s \<or> ss_wakeup_queued s then S
         else sched_publish (wakeup_event sid reason source fresh now)
                (put_state sid (s\<lparr>ss_wakeup_queued := True\<rparr>) S)))"

text \<open>\<open>run_user_message_debounce\<close> once its sleep is over.\<close>

definition debounce_fire :: "string \<Rightarrow> string \<Rightarrow> int \<Rightarrow> scheduler \<Rightarrow> scheduler" where
  "debounce_fire sid fresh now S =
     (let S1 = request_wakeup_if_needed sid (wakeup_reason_str WR_USER_MESSAGE) ''debounce_timer'' fresh now S
      in S1\<lparr>debounce_tasks := debounce_tasks S1 - {sid}\<rparr>)"

section \<open>Handlers\<close>

text \<open>
  \<open>_handle_user_message\<close> after the payload is parsed and the internal text, if any, is stored (a
  failure to store it is only logged).
\<close>

definition enqueue_in_state :: "runtime_event \<Rightarrow> rat \<Rightarrow> scheduler \<Rightarrow> scheduler res" where
  "enqueue_in_state e now S =
     (let (s, S1) = get_or_create_state (re_session_id e) now S
      in res_bind (enqueue_event now e s) (\<lambda>s'. Inr (put_state (re_session_id e) s' S1)))"

definition internal_user_text :: "runtime_event \<Rightarrow> string option" where
  "internal_user_text e =
     (case nonblank_str (obj_get (dict_of (re_payload e)) ''internal_user_text'') of
        Some s \<Rightarrow> Some (py_strip s) | None \<Rightarrow> None)"

definition handle_user_message :: "runtime_event \<Rightarrow> rat \<Rightarrow> scheduler \<Rightarrow> scheduler res" where
  "handle_user_message e now S =
     res_bind (user_message_from_event e) (\<lambda>parsed.
     res_bind (enqueue_in_state e now S) (\<lambda>S1.
       Inr (if um_trigger_turn parsed \<and> re_session_id e \<notin> debounce_tasks S1
            then S1\<lparr>debounce_tasks := insert (re_session_id e) (debounce_tasks S1)\<rparr> else S1)))"

definition handle_subtask_completed :: "runtime_event \<Rightarrow> rat \<Rightarrow> string \<Rightarrow> int \<Rightarrow> scheduler \<Rightarrow> scheduler res" where
  "handle_subtask_completed e now fresh now_ms S =
     res_bind (subtask_completed_from_event e) (\<lambda>parsed.
     res_bind (enqueue_in_state e now S) (\<lambda>S1.
       let has_active_debounce = (re_session_id e \<in> debounce_tasks S1)
       in Inr (if sc_trigger_turn parsed \<and> \<not> has_active_debounce
               then request_wakeup_if_needed (re_session_id e) (wakeup_reason_str WR_SUBTASK_COMPLETED)
                      ''subtask_completed'' fresh now_ms S1
               else S1)))"

text \<open>
  \<open>run_session\<close> up to its first await: the consumed events, or \<open>None\<close> when no turn is started.
\<close>

definition run_session_begin :: "string \<Rightarrow> string \<Rightarrow> rat \<Rightarrow> scheduler \<Rightarrow> envelope list option \<times> scheduler" where
  "run_session_begin sid wakeup_source now S = (case dget (session_states S) sid of
      None \<Rightarrow> (None, S)
    | Some s \<Rightarrow>
        (let s1 = s\<lparr>ss_wakeup_queued := False\<rparr>;
             allow_empty = (wakeup_source \<notin> {''event_bus'', ''heartbeat_watchdog'', ''debounce_timer'', ''subtask_completed''})
         in if ss_inflight s1 then (None, put_state sid s1 S)
            else if \<not> has_mailbox_events s1 \<and> \<not> allow_empty then (None, put_state sid s1 S)
            else if has_mailbox_events s1 \<and> \<not> has_triggerable_mailbox_events s1
            then (None, put_state sid (touch now s1) S)
            else (let s2 = s1\<lparr>ss_inflight := True\<rparr>;
                      (consumed, s3) = (if has_mailbox_events s2 then consume_mailbox s2 else ([], s2))
                  in (Some consumed, put_state sid s3 S))))"

text \<open>
  Its end: the \<open>finally\<close> block, which runs whatever the turn does (\<open>process_background_turn\<close>
  swallows every exception of the planner).
\<close>

definition run_session_end :: "string \<Rightarrow> rat \<Rightarrow> string \<Rightarrow> int \<Rightarrow> scheduler \<Rightarrow> scheduler" where
  "run_session_end sid now fresh now_ms S = (case dget (session_states S) sid of
      None \<Rightarrow> S
    | Some s \<Rightarrow>
        (let s1 = touch now (s\<lparr>ss_inflight := False\<rparr>)
         in if has_mailbox_events s1 \<and> has_triggerable_mailbox_events s1
            then (if \<not> ss_wakeup_queued s1
                  then sched_publish (wakeup_event sid (wakeup_reason_str WR_SYSTEM) ''event_bus'' fresh now_ms)
                         (put_state sid (s1\<lparr>ss_wakeup_queued := True\<rparr>) S)
                  else put_state sid s1 S)
            else if \<not> has_mailbox_events s1
            then S\<lparr>session_states := dpop sid (session_states S)\<rparr>
            else put_state sid s1 S))"

text \<open>One heartbeat of a running turn (\<open>beat\<close>).\<close>

definition beat :: "string \<Rightarrow> rat \<Rightarrow> scheduler \<Rightarrow> scheduler" where
  "beat sid now S = (let (s, S1) = get_or_create_state sid now S in put_state sid (touch now s) S1)"

text \<open>One round of \<open>heartbeat_watchdog\<close>: mark under the lock, then publish.\<close>

definition needs_wakeup :: "session_state \<Rightarrow> bool" where
  "needs_wakeup s \<longleftrightarrow> has_mailbox_events s \<and> has_triggerable_mailbox_events s \<and>
                     \<not> ss_inflight s \<and> \<not> ss_wakeup_queued s"

definition heartbeat_scan :: "(string \<Rightarrow> string) \<Rightarrow> int \<Rightarrow> scheduler \<Rightarrow> scheduler" where
  "heartbeat_scan fresh now S =
     (let sids = map ss_session_id (filter needs_wakeup (dvalues (session_states S)));
          S1 = S\<lparr>session_states := map (\<lambda>(k, s). (k, if needs_wakeup s then s\<lparr>ss_wakeup_queued := True\<rparr> else s))
                                    (session_states S)\<rparr>
      in fold (\<lambda>sid. sched_publish (wakeup_event sid (wakeup_reason_str WR_SYSTEM) ''heartbeat_watchdog'' (fresh sid) now))
           sids S1)"

text \<open>\<open>on_event\<close>: which handler an event goes to. Every other type goes to the plugin dispatcher.\<close>

datatype route = ToUserMessage | ToSubtaskCompleted | ToWakeup | ToPlugins

definition on_event :: "runtime_event \<Rightarrow> route" where
  "on_event e =
     (let t = event_type_value (re_type e)
      in if t = ''user_message_received'' then ToUserMessage
         else if t = ''subtask_completed'' then ToSubtaskCompleted
         else if t = ''wakeup_requested'' then ToWakeup else ToPlugins)"

section \<open>Steps\<close>

definition set_stage :: "string \<Rightarrow> handler_stage \<Rightarrow> scheduler \<Rightarrow> scheduler" where
  "set_stage sid h S = S\<lparr>stage := (stage S)(sid := h)\<rparr>"

definition entered :: "scheduler \<Rightarrow> string \<Rightarrow> runtime_event \<Rightarrow> bool" where
  "entered S sid e \<longleftrightarrow> ch_active (sched_bus S sid) = Some e \<and> stage S sid = HEntered"

definition log_enqueued :: "runtime_event \<Rightarrow> scheduler \<Rightarrow> scheduler" where
  "log_enqueued e S = (case envelope_from_runtime_event e of
      Inl _ \<Rightarrow> S
    | Inr v \<Rightarrow> S\<lparr>enqueued_log := (enqueued_log S)(re_session_id e := enqueued_log S (re_session_id e) @ [v])\<rparr>)"

definition log_turn :: "string \<Rightarrow> envelope list \<Rightarrow> scheduler \<Rightarrow> scheduler" where
  "log_turn sid vs S = S\<lparr>turns_log := (turns_log S)(sid := turns_log S sid @ [vs])\<rparr>"

text \<open>
  A handler that raises ends its dispatch without further effect: the bus keeps the exception. The
  two logs record the envelopes put into a mailbox and the batches handed to planner turns.
\<close>

inductive sched_step :: "scheduler \<Rightarrow> scheduler \<Rightarrow> bool" where
  env_publish: "sched_step S (sched_publish e S)"
| begin_dispatch: "sched_bus S sid = \<lparr>ch_queue = e # q, ch_active = None\<rparr> \<Longrightarrow>
    sched_step S (set_stage sid HEntered (S\<lparr>sched_bus := (sched_bus S)(sid := \<lparr>ch_queue = q, ch_active = Some e\<rparr>)\<rparr>))"
| user_message: "entered S sid e \<Longrightarrow> on_event e = ToUserMessage \<Longrightarrow> handle_user_message e now S = Inr S' \<Longrightarrow>
    sched_step S (set_stage sid HDone (log_enqueued e S'))"
| user_message_error: "entered S sid e \<Longrightarrow> on_event e = ToUserMessage \<Longrightarrow> handle_user_message e now S = Inl err \<Longrightarrow>
    sched_step S (set_stage sid HDone S)"
| subtask: "entered S sid e \<Longrightarrow> on_event e = ToSubtaskCompleted \<Longrightarrow>
    handle_subtask_completed e now fresh now_ms S = Inr S' \<Longrightarrow>
    sched_step S (set_stage sid HDone (log_enqueued e S'))"
| subtask_error: "entered S sid e \<Longrightarrow> on_event e = ToSubtaskCompleted \<Longrightarrow>
    handle_subtask_completed e now fresh now_ms S = Inl err \<Longrightarrow>
    sched_step S (set_stage sid HDone S)"
| wakeup_none: "entered S sid e \<Longrightarrow> on_event e = ToWakeup \<Longrightarrow> wakeup_from_event e = Inr p \<Longrightarrow>
    run_session_begin sid (re_source e) now S = (None, S') \<Longrightarrow> sched_step S (set_stage sid HDone S')"
| wakeup_turn: "entered S sid e \<Longrightarrow> on_event e = ToWakeup \<Longrightarrow> wakeup_from_event e = Inr p \<Longrightarrow>
    run_session_begin sid (re_source e) now S = (Some vs, S') \<Longrightarrow>
    sched_step S (set_stage sid (HPlanning vs) (log_turn sid vs S'))"
| wakeup_error: "entered S sid e \<Longrightarrow> on_event e = ToWakeup \<Longrightarrow> wakeup_from_event e = Inl err \<Longrightarrow>
    sched_step S (set_stage sid HDone S)"
| plugin: "entered S sid e \<Longrightarrow> on_event e = ToPlugins \<Longrightarrow> sched_step S (set_stage sid HDone S)"
| beat_tick: "stage S sid = HPlanning vs \<Longrightarrow> sched_step S (beat sid now S)"
| turn_end: "stage S sid = HPlanning vs \<Longrightarrow>
    sched_step S (set_stage sid HDone (run_session_end sid now fresh now_ms S))"
| end_dispatch: "stage S sid = HDone \<Longrightarrow>
    sched_step S (set_stage sid HIdle (S\<lparr>sched_bus := (sched_bus S)(sid := (sched_bus S sid)\<lparr>ch_active := None\<rparr>)\<rparr>))"
| debounce: "sid \<in> debounce_tasks S \<Longrightarrow> sched_step S (debounce_fire sid fresh now S)"
| heartbeat: "sched_step S (heartbeat_scan fresh now S)"

definition sched_init :: scheduler where
  "sched_init = \<lparr>session_states = [], debounce_tasks = {}, sched_bus = (\<lambda>_. \<lparr>ch_queue = [], ch_active = None\<rparr>),
     stage = (\<lambda>_. HIdle), enqueued_log = (\<lambda>_. []), turns_log = (\<lambda>_. [])\<rparr>"

section \<open>Interface: publishing to a per-session FIFO\<close>

locale session_fifo =
  fixes publish :: "runtime_event \<Rightarrow> 'b \<Rightarrow> 'b"
    and queue :: "'b \<Rightarrow> string \<Rightarrow> runtime_event list"
  assumes queue_publish: "queue (publish e b) sid =
    (if re_session_id e = sid then queue b sid @ [e] else queue b sid)"
begin

lemma queued_publish:
  "(\<exists>x \<in> set (queue (publish e b) sid). P x) \<longleftrightarrow>
   re_session_id e = sid \<and> P e \<or> (\<exists>x \<in> set (queue b sid). P x)"
  by (auto simp: queue_publish)

lemma owned_publish:
  "(\<And>sid x. x \<in> set (queue b sid) \<Longrightarrow> re_session_id x = sid) \<Longrightarrow>
   x \<in> set (queue (publish e b) sid) \<Longrightarrow> re_session_id x = sid"
  by (auto simp: queue_publish split: if_splits)

lemma queue_publish_fold:
  "distinct sids \<Longrightarrow> (\<And>k. re_session_id (f k) = k) \<Longrightarrow>
   queue (fold (\<lambda>k. publish (f k)) sids b) sid = queue b sid @ (if sid \<in> set sids then [f sid] else [])"
  by (induction sids arbitrary: b) (auto simp: queue_publish)

end

interpretation bus_fifo_ops: session_fifo publish pending
  by unfold_locales (rule pending_publish)

interpretation channel_fifo: session_fifo channel_publish "\<lambda>C sid. ch_queue (C sid)"
  by unfold_locales (simp add: channel_publish_def)

section \<open>One session's view of the scheduler\<close>

record session_view =
  v_state :: "session_state option"
  v_debounce :: bool
  v_channel :: session_channel
  v_stage :: handler_stage
  v_enqueued :: "envelope list"
  v_turns :: "envelope list list"

definition view :: "scheduler \<Rightarrow> string \<Rightarrow> session_view" where
  "view S k = \<lparr>v_state = dget (session_states S) k, v_debounce = (k \<in> debounce_tasks S),
     v_channel = sched_bus S k, v_stage = stage S k, v_enqueued = enqueued_log S k, v_turns = turns_log S k\<rparr>"

definition good_wakeup :: "runtime_event \<Rightarrow> bool" where
  "good_wakeup e \<longleftrightarrow> on_event e = ToWakeup \<and> \<not> isl (wakeup_from_event e)"

definition wakeup_coming :: "session_view \<Rightarrow> bool" where
  "wakeup_coming v \<longleftrightarrow> (\<exists>e \<in> set (ch_queue (v_channel v)). good_wakeup e) \<or>
     (v_stage v = HEntered \<and> (\<exists>e. ch_active (v_channel v) = Some e \<and> good_wakeup e))"

fun planning :: "handler_stage \<Rightarrow> bool" where
  "planning (HPlanning _) = True"
| "planning _ = False"

definition mailbox_of :: "session_view \<Rightarrow> envelope list" where
  "mailbox_of v = (case v_state v of None \<Rightarrow> [] | Some s \<Rightarrow> ss_mailbox s)"

text \<open>
  A session without a state is not in a turn. With one: it is marked in flight exactly during its
  turn; a queued wakeup is really on its way; a triggering event that no turn is working on has a
  debounce task or a wakeup to bring it to one; the mailbox is empty during a turn and non-empty
  otherwise.
\<close>

definition state_inv :: "string \<Rightarrow> session_view \<Rightarrow> bool" where
  "state_inv sid v = (case v_state v of
      None \<Rightarrow> \<not> planning (v_stage v)
    | Some s \<Rightarrow> ss_session_id s = sid \<and>
        (ss_inflight s \<longleftrightarrow> planning (v_stage v)) \<and>
        (ss_wakeup_queued s \<longrightarrow> wakeup_coming v) \<and>
        (\<not> ss_inflight s \<longrightarrow> has_triggerable_mailbox_events s \<longrightarrow> v_debounce v \<or> ss_wakeup_queued s) \<and>
        (ss_inflight s \<longrightarrow> ss_mailbox s = []) \<and> (\<not> ss_inflight s \<longrightarrow> ss_mailbox s \<noteq> []))"

definition view_inv :: "string \<Rightarrow> session_view \<Rightarrow> bool" where
  "view_inv sid v \<longleftrightarrow>
     state_inv sid v \<and>
     (v_stage v = HIdle \<longleftrightarrow> ch_active (v_channel v) = None) \<and>
     (\<forall>e \<in> set (ch_queue (v_channel v)). re_session_id e = sid) \<and>
     (\<forall>e. ch_active (v_channel v) = Some e \<longrightarrow> re_session_id e = sid) \<and>
     v_enqueued v = concat (v_turns v) @ mailbox_of v \<and>
     (\<forall>vs \<in> set (v_turns v). list_ex en_trigger_turn vs)"

definition sched_inv :: "scheduler \<Rightarrow> bool" where
  "sched_inv S \<longleftrightarrow> dict_ok (session_states S) \<and> (\<forall>sid. view_inv sid (view S sid))"

lemma sched_init_inv: "sched_inv sched_init"
  by (simp add: sched_inv_def sched_init_def view_inv_def view_def state_inv_def mailbox_of_def)

named_theorems view_simps "how each operation changes a session's view"

lemma view_put_state [view_simps]:
  "view (put_state sid s S) k = (if k = sid then (view S k)\<lparr>v_state := Some s\<rparr> else view S k)"
  by (simp add: view_def put_state_def)

lemma view_stage [view_simps]:
  "view (set_stage sid h S) k = (if k = sid then (view S k)\<lparr>v_stage := h\<rparr> else view S k)"
  by (simp add: view_def set_stage_def)

lemma view_log_turn [view_simps]:
  "view (log_turn sid vs S) k = (if k = sid then (view S k)\<lparr>v_turns := turns_log S k @ [vs]\<rparr> else view S k)"
  by (simp add: view_def log_turn_def)

lemma view_fields [simp]:
  "v_state (view S k) = dget (session_states S) k" "v_debounce (view S k) = (k \<in> debounce_tasks S)"
  "v_channel (view S k) = sched_bus S k" "v_stage (view S k) = stage S k"
  "v_enqueued (view S k) = enqueued_log S k" "v_turns (view S k) = turns_log S k"
  by (simp_all add: view_def)

lemma states_ok [simp]:
  "dict_ok (session_states S) \<Longrightarrow> dict_ok (session_states (put_state sid s S))"
  "session_states (sched_publish e S) = session_states S"
  "session_states (set_stage sid h S) = session_states S"
  "session_states (log_turn sid vs S) = session_states S"
  "session_states (log_enqueued e S) = session_states S"
  by (auto simp: put_state_def sched_publish_def set_stage_def log_turn_def log_enqueued_def split: sum.splits)

text \<open>It is enough to look at the session an operation works on.\<close>

lemma sched_inv_local:
  assumes "sched_inv S" and "dict_ok (session_states S')"
    and "\<And>k. k \<noteq> sid \<Longrightarrow> view S' k = view S k" and "view_inv sid (view S' sid)"
  shows "sched_inv S'"
  using assms unfolding sched_inv_def by metis

lemma sched_inv_view: "sched_inv S \<Longrightarrow> view_inv sid (view S sid)"
  by (simp add: sched_inv_def)

lemma sched_inv_ok: "sched_inv S \<Longrightarrow> dict_ok (session_states S)"
  by (simp add: sched_inv_def)

lemma view_invD:
  assumes "view_inv sid v"
  shows "state_inv sid v" and "v_stage v = HIdle \<longleftrightarrow> ch_active (v_channel v) = None"
    and "e \<in> set (ch_queue (v_channel v)) \<Longrightarrow> re_session_id e = sid"
    and "ch_active (v_channel v) = Some e \<Longrightarrow> re_session_id e = sid"
    and "v_enqueued v = concat (v_turns v) @ mailbox_of v"
    and "vs \<in> set (v_turns v) \<Longrightarrow> list_ex en_trigger_turn vs"
  using assms unfolding view_inv_def by blast+

lemma wakeup_event_simps [simp]:
  "re_session_id (wakeup_event sid r s f n) = sid" "good_wakeup (wakeup_event sid r s f n)"
  by (simp_all add: wakeup_event_def good_wakeup_def on_event_def wakeup_from_event_def event_payload_obj_def py_or_def)

lemma state_inv_mono:
  assumes "state_inv sid v" and "v_state v' = v_state v" and "v_debounce v' = v_debounce v"
    and "planning (v_stage v') = planning (v_stage v)" and "wakeup_coming v \<Longrightarrow> wakeup_coming v'"
  shows "state_inv sid v'"
  using assms by (auto simp: state_inv_def split: option.splits)

definition view_push :: "runtime_event \<Rightarrow> session_view \<Rightarrow> session_view" where
  "view_push e v = v\<lparr>v_channel := (v_channel v)\<lparr>ch_queue := ch_queue (v_channel v) @ [e]\<rparr>\<rparr>"

lemma view_push_simps [simp]:
  "v_state (view_push e v) = v_state v" "v_debounce (view_push e v) = v_debounce v"
  "v_stage (view_push e v) = v_stage v" "v_enqueued (view_push e v) = v_enqueued v"
  "v_turns (view_push e v) = v_turns v" "mailbox_of (view_push e v) = mailbox_of v"
  "ch_active (v_channel (view_push e v)) = ch_active (v_channel v)"
  "ch_queue (v_channel (view_push e v)) = ch_queue (v_channel v) @ [e]"
  "wakeup_coming (view_push e v) \<longleftrightarrow> wakeup_coming v \<or> good_wakeup e"
  by (auto simp: view_push_def mailbox_of_def wakeup_coming_def)

lemma view_push_inv:
  assumes "view_inv sid v" and "re_session_id e = sid"
  shows "view_inv sid (view_push e v)"
  unfolding view_inv_def view_push_simps
  using assms(2) view_invD [OF assms(1)] state_inv_mono [OF view_invD(1) [OF assms(1)], of "view_push e v"]
  by simp

lemma view_publish [view_simps]:
  "view (sched_publish e S) k = (if k = re_session_id e then view_push e (view S k) else view S k)"
  by (simp add: view_def sched_publish_def channel_publish_def view_push_def)

lemma publish_step_inv: "sched_inv S \<Longrightarrow> sched_inv (sched_publish e S)"
  by (simp add: sched_inv_def view_simps view_push_inv)

lemma begin_step_inv:
  assumes "sched_inv S" and "sched_bus S sid = \<lparr>ch_queue = e # q, ch_active = None\<rparr>"
  shows "sched_inv (set_stage sid HEntered (S\<lparr>sched_bus := (sched_bus S)(sid := \<lparr>ch_queue = q, ch_active = Some e\<rparr>)\<rparr>))"
  using assms(2) sched_inv_view [OF assms(1), of sid] sched_inv_ok [OF assms(1)]
  by (intro sched_inv_local [OF assms(1), where sid = sid])
    (auto simp: view_def set_stage_def view_inv_def state_inv_def wakeup_coming_def mailbox_of_def split: option.splits)

lemma end_step_inv:
  assumes "sched_inv S" and "stage S sid = HDone"
  shows "sched_inv (set_stage sid HIdle (S\<lparr>sched_bus := (sched_bus S)(sid := (sched_bus S sid)\<lparr>ch_active := None\<rparr>)\<rparr>))"
  using assms(2) sched_inv_view [OF assms(1), of sid] sched_inv_ok [OF assms(1)]
  by (intro sched_inv_local [OF assms(1), where sid = sid])
    (auto simp: view_def set_stage_def view_inv_def state_inv_def wakeup_coming_def mailbox_of_def split: option.splits)

section \<open>The handlers keep the invariant\<close>

definition enqueued_state :: "string \<Rightarrow> rat \<Rightarrow> envelope \<Rightarrow> session_state option \<Rightarrow> session_state" where
  "enqueued_state sid now x so =
     (let s = (case so of None \<Rightarrow> new_session_state sid now | Some s \<Rightarrow> s)
      in touch now (s\<lparr>ss_mailbox := ss_mailbox s @ [x]\<rparr>))"

lemma enqueue_in_state_Inr:
  "enqueue_in_state e now S = Inr S1 \<longleftrightarrow> (\<exists>x. envelope_from_runtime_event e = Inr x \<and>
     S1 = put_state (re_session_id e) (enqueued_state (re_session_id e) now x (dget (session_states S) (re_session_id e))) S)"
  by (cases "dget (session_states S) (re_session_id e)")
    (auto simp: enqueue_in_state_def get_or_create_state_def enqueue_event_def res_bind_Inr_iff put_state_def
      enqueued_state_def Let_def update_last)

lemma mailbox_simps [simp]: "mailbox_of (v\<lparr>v_state := Some s\<rparr>) = ss_mailbox s"
  "mailbox_of (v\<lparr>v_state := None\<rparr>) = []" "mailbox_of (v\<lparr>v_stage := h\<rparr>) = mailbox_of v"
  "mailbox_of (v\<lparr>v_debounce := d\<rparr>) = mailbox_of v" "mailbox_of (v\<lparr>v_enqueued := es\<rparr>) = mailbox_of v"
  "mailbox_of (v\<lparr>v_turns := ts\<rparr>) = mailbox_of v"
  by (simp_all add: mailbox_of_def)

lemma wakeup_coming_simps [simp]:
  "wakeup_coming (v\<lparr>v_state := so\<rparr>) = wakeup_coming v"
  "wakeup_coming (v\<lparr>v_debounce := d\<rparr>) = wakeup_coming v" "wakeup_coming (v\<lparr>v_enqueued := es\<rparr>) = wakeup_coming v"
  "wakeup_coming (v\<lparr>v_turns := ts\<rparr>) = wakeup_coming v"
  by (simp_all add: wakeup_coming_def)

lemma wakeup_coming_done:
  "ch_active (v_channel v) = Some e \<Longrightarrow> \<not> good_wakeup e \<Longrightarrow> wakeup_coming (v\<lparr>v_stage := HDone\<rparr>) = wakeup_coming v"
  "wakeup_coming (v\<lparr>v_stage := HDone\<rparr>) \<Longrightarrow> wakeup_coming v"
  by (auto simp: wakeup_coming_def)

definition after_enqueue :: "string \<Rightarrow> rat \<Rightarrow> envelope \<Rightarrow> session_view \<Rightarrow> session_view" where
  "after_enqueue sid now x v = v\<lparr>v_state := Some (enqueued_state sid now x (v_state v)), v_stage := HDone,
     v_enqueued := v_enqueued v @ [x]\<rparr>"

lemma enqueued_state_fields [simp]:
  "ss_mailbox (enqueued_state sid now x so) = (case so of None \<Rightarrow> [] | Some s \<Rightarrow> ss_mailbox s) @ [x]"
  "ss_inflight (enqueued_state sid now x so) = (case so of None \<Rightarrow> False | Some s \<Rightarrow> ss_inflight s)"
  "ss_wakeup_queued (enqueued_state sid now x so) = (case so of None \<Rightarrow> False | Some s \<Rightarrow> ss_wakeup_queued s)"
  "ss_session_id (enqueued_state sid now x so) = (case so of None \<Rightarrow> sid | Some s \<Rightarrow> ss_session_id s)"
  by (auto simp: enqueued_state_def touch_def new_session_state_def Let_def split: option.splits)

text \<open>A handler enqueues \<open>x\<close> and, if \<open>x\<close> triggers a turn, leaves a debounce task or a queued wakeup.\<close>

lemma enqueue_inv:
  assumes inv: "view_inv sid v" and h: "v_stage v = HEntered" "ch_active (v_channel v) = Some e" "\<not> good_wakeup e"
    and w: "w = after_enqueue sid now x v"
    and w': "w' = w \<or> w' = w\<lparr>v_debounce := True\<rparr> \<or>
             w' = view_push e' (w\<lparr>v_state := Some ((the (v_state w))\<lparr>ss_wakeup_queued := True\<rparr>)\<rparr>)"
    and e': "re_session_id e' = sid" "good_wakeup e'"
    and trig: "en_trigger_turn x \<Longrightarrow> v_debounce w' \<or> ss_wakeup_queued (the (v_state w'))"
  shows "view_inv sid w'"
proof -
  note I = view_invD [OF inv]
  have st: "ss_session_id s = sid" "\<not> ss_inflight s" "ss_wakeup_queued s \<Longrightarrow> wakeup_coming v"
    "has_triggerable_mailbox_events s \<Longrightarrow> v_debounce v \<or> ss_wakeup_queued s" if "v_state v = Some s" for s
    using I(1) that h(1) by (auto simp: state_inv_def)
  have wc: "wakeup_coming w = wakeup_coming v"
    unfolding w after_enqueue_def wakeup_coming_def using h by simp
  have f: "v_debounce w = v_debounce v" "v_stage w = HDone" "v_channel w = v_channel v"
    "v_enqueued w = v_enqueued v @ [x]" "v_turns w = v_turns v"
    "v_state w = Some (enqueued_state sid now x (v_state v))"
    "mailbox_of w = mailbox_of v @ [x]"
    unfolding w after_enqueue_def by (simp_all add: mailbox_of_def)
  have "state_inv sid w'"
    using w' trig st e'(2) wc
    by (cases "v_state v") (auto simp: state_inv_def f has_triggerable_mailbox_events_def)
  then show ?thesis
    using w' I(3-6) h(2) e'(1) f unfolding view_inv_def by (auto simp: mailbox_of_def)
qed

lemma has_triggerable_enqueued [simp]:
  "has_triggerable_mailbox_events (enqueued_state sid now x so) \<longleftrightarrow>
     en_trigger_turn x \<or> (\<exists>s. so = Some s \<and> has_triggerable_mailbox_events s)"
  by (auto simp: has_triggerable_mailbox_events_def split: option.splits)

lemma log_enqueued_view:
  "envelope_from_runtime_event e = Inr x \<Longrightarrow>
   view (log_enqueued e S) k = (if k = re_session_id e then (view S k)\<lparr>v_enqueued := enqueued_log S k @ [x]\<rparr> else view S k)"
  by (simp add: log_enqueued_def view_def)

lemma view_set_debounce [view_simps]:
  "view (S\<lparr>debounce_tasks := D\<rparr>) k = (view S k)\<lparr>v_debounce := k \<in> D\<rparr>"
  by (simp add: view_def)

lemma enteredD:
  assumes "sched_inv S" and "entered S sid e"
  shows "re_session_id e = sid" and "v_stage (view S sid) = HEntered"
    and "ch_active (v_channel (view S sid)) = Some e"
  using assms(2) view_invD(4) [OF sched_inv_view [OF assms(1)], of sid e] by (auto simp: entered_def)

lemma on_event_type:
  "on_event e = ToUserMessage \<Longrightarrow> type_value e = ''user_message_received''"
  "on_event e = ToSubtaskCompleted \<Longrightarrow> type_value e = ''subtask_completed''"
  "on_event e = ToWakeup \<Longrightarrow> type_value e = ''wakeup_requested''"
  "on_event e \<noteq> ToWakeup \<Longrightarrow> \<not> good_wakeup e"
  by (auto simp: on_event_def type_value_def good_wakeup_def Let_def split: if_splits)

lemma frame_simps [simp]:
  "debounce_tasks (put_state sid s S) = debounce_tasks S" "debounce_tasks (sched_publish e S) = debounce_tasks S"
  "enqueued_log (put_state sid s S) = enqueued_log S" "enqueued_log (sched_publish e S) = enqueued_log S"
  "dget (session_states (put_state sid s S)) k = (if k = sid then Some s else dget (session_states S) k)"
  "session_states (S\<lparr>debounce_tasks := D\<rparr>) = session_states S"
  "sched_bus (put_state sid s S) = sched_bus S" "stage (put_state sid s S) = stage S"
  "turns_log (put_state sid s S) = turns_log S"
  by (simp_all add: put_state_def sched_publish_def)

lemma user_step_inv:
  assumes inv: "sched_inv S" and ent: "entered S sid e" and r: "on_event e = ToUserMessage"
    and h: "handle_user_message e now S = Inr S'"
  shows "sched_inv (set_stage sid HDone (log_enqueued e S'))"
proof -
  note E = enteredD [OF inv ent]
  obtain p x where p: "user_message_from_event e = Inr p" and x: "envelope_from_runtime_event e = Inr x"
    and S': "S' = (let S1 = put_state sid (enqueued_state sid now x (dget (session_states S) sid)) S in
        if um_trigger_turn p \<and> sid \<notin> debounce_tasks S then S1\<lparr>debounce_tasks := insert sid (debounce_tasks S1)\<rparr> else S1)"
    using h by (auto simp: handle_user_message_def res_bind_Inr_iff enqueue_in_state_Inr E(1) Let_def)
  have t: "en_trigger_turn x = um_trigger_turn p"
    using trigger_turn_user_message [OF on_event_type(1) [OF r] x p] .
  let ?w = "after_enqueue sid now x (view S sid)"
  have v: "view (set_stage sid HDone (log_enqueued e S')) sid =
      (if um_trigger_turn p \<and> sid \<notin> debounce_tasks S then ?w\<lparr>v_debounce := True\<rparr> else ?w)"
    by (simp add: S' Let_def view_simps log_enqueued_view [OF x] E(1) after_enqueue_def)
  show ?thesis
  proof (rule sched_inv_local [OF inv, where sid = sid])
    show "view_inv sid (view (set_stage sid HDone (log_enqueued e S')) sid)"
      using enqueue_inv [where now = now and x = x and e' = "wakeup_event sid [] [] [] 0", OF sched_inv_view [OF inv] E(2,3) on_event_type(4) refl] r t
      unfolding v by (auto simp: after_enqueue_def)
  qed (use sched_inv_ok [OF inv] in \<open>auto simp: S' Let_def view_simps log_enqueued_view [OF x] E(1)\<close>)
qed

lemma request_wakeup_eq:
  "request_wakeup_if_needed sid reason source fresh now S =
     (case dget (session_states S) sid of
        Some s \<Rightarrow> if needs_wakeup s
                  then sched_publish (wakeup_event sid reason source fresh now) (put_state sid (s\<lparr>ss_wakeup_queued := True\<rparr>) S)
                  else S
      | None \<Rightarrow> S)"
  by (auto simp: request_wakeup_if_needed_def needs_wakeup_def split: option.splits)

lemma needs_wakeup_simps: "needs_wakeup s \<longleftrightarrow> has_triggerable_mailbox_events s \<and> \<not> ss_inflight s \<and> \<not> ss_wakeup_queued s"
  by (cases "ss_mailbox s") (auto simp: needs_wakeup_def has_mailbox_events_def has_triggerable_mailbox_events_def)

lemma subtask_event_inv:
  assumes inv: "sched_inv S" and ent: "entered S sid e" and r: "on_event e = ToSubtaskCompleted"
    and h: "handle_subtask_completed e now fresh now_ms S = Inr S'"
  shows "sched_inv (set_stage sid HDone (log_enqueued e S'))"
proof -
  note E = enteredD [OF inv ent]
  let ?s = "\<lambda>x. enqueued_state sid now x (dget (session_states S) sid)"
  let ?we = "wakeup_event sid (wakeup_reason_str WR_SUBTASK_COMPLETED) ''subtask_completed'' fresh now_ms"
  obtain p x where p: "subtask_completed_from_event e = Inr p" and x: "envelope_from_runtime_event e = Inr x"
    and S1: "S' = (let S1 = put_state sid (?s x) S in
        if sc_trigger_turn p \<and> sid \<notin> debounce_tasks S
        then request_wakeup_if_needed sid (wakeup_reason_str WR_SUBTASK_COMPLETED) ''subtask_completed'' fresh now_ms S1
        else S1)"
    using h by (auto simp: handle_subtask_completed_def res_bind_Inr_iff enqueue_in_state_Inr E(1) Let_def)
  have S': "S' = (let S1 = put_state sid (?s x) S in
        if sc_trigger_turn p \<and> sid \<notin> debounce_tasks S \<and> needs_wakeup (?s x)
        then sched_publish ?we (put_state sid ((?s x)\<lparr>ss_wakeup_queued := True\<rparr>) S1) else S1)"
    by (simp add: S1 Let_def request_wakeup_eq)
  have t: "en_trigger_turn x = sc_trigger_turn p"
    using trigger_turn_subtask_completed [OF on_event_type(2) [OF r] x p] .
  let ?w = "after_enqueue sid now x (view S sid)"
  have v: "view (set_stage sid HDone (log_enqueued e S')) sid =
      (if sc_trigger_turn p \<and> sid \<notin> debounce_tasks S \<and> needs_wakeup (?s x)
       then view_push ?we (?w\<lparr>v_state := Some ((the (v_state ?w))\<lparr>ss_wakeup_queued := True\<rparr>)\<rparr>) else ?w)"
    by (simp add: S' Let_def view_simps log_enqueued_view [OF x] E(1) after_enqueue_def view_push_def)
  have fly: "\<not> ss_inflight (?s x)"
    using view_invD(1) [OF sched_inv_view [OF inv, of sid]] E(2)
    by (auto simp: state_inv_def split: option.splits)
  show ?thesis
  proof (rule sched_inv_local [OF inv, where sid = sid])
    show "view_inv sid (view (set_stage sid HDone (log_enqueued e S')) sid)"
      using enqueue_inv [where now = now and x = x and e' = ?we, OF sched_inv_view [OF inv] E(2,3) on_event_type(4) refl] r t fly
      unfolding v by (auto simp: after_enqueue_def needs_wakeup_simps)
  qed (use sched_inv_ok [OF inv] in \<open>auto simp: S' Let_def view_simps log_enqueued_view [OF x] E(1)\<close>)
qed

lemma skip_step_inv:
  assumes inv: "sched_inv S" and ent: "entered S sid e" and bad: "\<not> good_wakeup e"
  shows "sched_inv (set_stage sid HDone S)"
proof (rule sched_inv_local [OF inv, where sid = sid])
  note E = enteredD [OF inv ent] and I = view_invD [OF sched_inv_view [OF inv, of sid]]
  have "state_inv sid ((view S sid)\<lparr>v_stage := HDone\<rparr>)"
    by (rule state_inv_mono [OF I(1)]) (use E(2) wakeup_coming_done(1) [OF E(3) bad] in auto)
  then show "view_inv sid (view (set_stage sid HDone S) sid)"
    using I E(1,3) by (auto simp: view_simps view_inv_def)
qed (use sched_inv_ok [OF inv] in \<open>auto simp: view_simps\<close>)

lemma inv_state:
  assumes "sched_inv S" and "dget (session_states S) sid = Some s"
  shows "ss_session_id s = sid" and "ss_inflight s \<longleftrightarrow> planning (stage S sid)"
    and "ss_wakeup_queued s \<Longrightarrow> wakeup_coming (view S sid)"
    and "\<not> ss_inflight s \<Longrightarrow> has_triggerable_mailbox_events s \<Longrightarrow> sid \<in> debounce_tasks S \<or> ss_wakeup_queued s"
    and "ss_inflight s \<Longrightarrow> ss_mailbox s = []" and "\<not> ss_inflight s \<Longrightarrow> ss_mailbox s \<noteq> []"
  using view_invD(1) [OF sched_inv_view [OF assms(1)], of sid] assms(2) by (auto simp: state_inv_def)

lemma run_session_begin_cases:
  assumes inv: "sched_inv S" and ent: "entered S sid e"
  obtains "dget (session_states S) sid = None" "run_session_begin sid src now S = (None, S)"
  | s where "dget (session_states S) sid = Some s" "\<not> has_triggerable_mailbox_events s"
      "run_session_begin sid src now S = (None, put_state sid (touch now (s\<lparr>ss_wakeup_queued := False\<rparr>)) S)"
  | s where "dget (session_states S) sid = Some s" "has_triggerable_mailbox_events s"
      "run_session_begin sid src now S =
         (Some (ss_mailbox s), put_state sid (s\<lparr>ss_wakeup_queued := False, ss_inflight := True, ss_mailbox := []\<rparr>) S)"
proof (cases "dget (session_states S) sid")
  case None
  then show ?thesis by (intro that(1)) (simp_all add: run_session_begin_def)
next
  case (Some s)
  have "\<not> ss_inflight s" using inv_state(2) [OF inv Some] ent by (simp add: entered_def)
  moreover have "ss_mailbox s \<noteq> []" using inv_state(6) [OF inv Some] calculation by blast
  ultimately show ?thesis
    using Some by (cases "has_triggerable_mailbox_events s")
      (auto simp: run_session_begin_def Let_def has_mailbox_events_def has_triggerable_mailbox_events_def
        consume_mailbox_def intro: that)
qed

lemma wakeup_none_inv:
  assumes inv: "sched_inv S" and ent: "entered S sid e" and r: "run_session_begin sid src now S = (None, S')"
  shows "sched_inv (set_stage sid HDone S')"
proof (rule sched_inv_local [OF inv, where sid = sid])
  note E = enteredD [OF inv ent] and I = view_invD [OF sched_inv_view [OF inv, of sid]]
  show "view_inv sid (view (set_stage sid HDone S') sid)"
    using inv ent
  proof (cases rule: run_session_begin_cases [where src = src and now = now])
    case 1
    with I E r show ?thesis by (auto simp: view_simps view_inv_def state_inv_def)
  next
    case (2 s)
    with I E r inv_state [OF inv 2(1)] show ?thesis
      by (auto simp: view_simps view_inv_def state_inv_def touch_def has_triggerable_mailbox_events_def mailbox_of_def)
  next
    case (3 s)
    with r show ?thesis by simp
  qed
  show "dict_ok (session_states (set_stage sid HDone S'))" and "k \<noteq> sid \<Longrightarrow> view (set_stage sid HDone S') k = view S k" for k
    using inv ent r sched_inv_ok [OF inv]
    by (cases rule: run_session_begin_cases [where src = src and now = now]; auto simp: view_simps)+
qed

lemma wakeup_turn_inv:
  assumes inv: "sched_inv S" and ent: "entered S sid e" and r: "run_session_begin sid src now S = (Some vs, S')"
  shows "sched_inv (set_stage sid (HPlanning vs) (log_turn sid vs S'))"
  using inv ent
proof (cases rule: run_session_begin_cases [where src = src and now = now])
  case (3 s)
  note E = enteredD [OF inv ent] and I = view_invD [OF sched_inv_view [OF inv, of sid]]
  have S': "S' = put_state sid (s\<lparr>ss_wakeup_queued := False, ss_inflight := True, ss_mailbox := []\<rparr>) S"
    and vs: "vs = ss_mailbox s" using 3(3) r by auto
  show ?thesis
  proof (rule sched_inv_local [OF inv, where sid = sid])
    show "view_inv sid (view (set_stage sid (HPlanning vs) (log_turn sid vs S')) sid)"
      using I E 3(1,2) inv_state [OF inv 3(1)]
      by (auto simp: view_simps view_inv_def state_inv_def S' vs has_triggerable_mailbox_events_def mailbox_of_def
          put_state_def)
  qed (use sched_inv_ok [OF inv] in \<open>auto simp: S' view_simps\<close>)
qed (use r in simp_all)

lemma beat_inv:
  assumes inv: "sched_inv S" and h: "stage S sid = HPlanning vs"
  shows "sched_inv (beat sid now S)"
proof -
  have "dget (session_states S) sid \<noteq> None"
    using view_invD(1) [OF sched_inv_view [OF inv, of sid]] h by (auto simp: state_inv_def split: option.splits)
  then obtain s where s: "dget (session_states S) sid = Some s" by blast
  then have b: "beat sid now S = put_state sid (touch now s) S" by (simp add: beat_def get_or_create_state_def)
  show ?thesis
  proof (rule sched_inv_local [OF inv, where sid = sid])
    show "view_inv sid (view (beat sid now S) sid)"
      using view_invD [OF sched_inv_view [OF inv, of sid]] s inv_state [OF inv s]
      by (auto simp: b view_simps view_inv_def state_inv_def touch_def has_triggerable_mailbox_events_def mailbox_of_def)
  qed (use sched_inv_ok [OF inv] in \<open>auto simp: b view_simps\<close>)
qed

lemma turn_end_eq:
  assumes inv: "sched_inv S" and h: "stage S sid = HPlanning vs"
  shows "run_session_end sid now fresh now_ms S = S\<lparr>session_states := dpop sid (session_states S)\<rparr>"
proof -
  have "dget (session_states S) sid \<noteq> None"
    using view_invD(1) [OF sched_inv_view [OF inv, of sid]] h by (auto simp: state_inv_def split: option.splits)
  then obtain s where s: "dget (session_states S) sid = Some s" by blast
  have "ss_mailbox s = []" using inv_state(2,5) [OF inv s] h by simp
  with s show ?thesis by (simp add: run_session_end_def has_mailbox_events_def touch_def Let_def)
qed

lemma turn_end_inv:
  assumes inv: "sched_inv S" and h: "stage S sid = HPlanning vs"
  shows "sched_inv (set_stage sid HDone (run_session_end sid now fresh now_ms S))"
  unfolding turn_end_eq [OF assms]
proof (rule sched_inv_local [OF inv, where sid = sid])
  have m: "mailbox_of (view S sid) = []"
    using inv_state(2,5) [OF inv, of sid] h by (auto simp: mailbox_of_def split: option.splits)
  show "view_inv sid (view (set_stage sid HDone (S\<lparr>session_states := dpop sid (session_states S)\<rparr>)) sid)"
    using view_invD [OF sched_inv_view [OF inv, of sid]] h m
    by (auto simp: view_def set_stage_def view_inv_def state_inv_def mailbox_of_def)
qed (use sched_inv_ok [OF inv] in \<open>auto simp: view_def set_stage_def\<close>)

text \<open>Marking a wakeup as queued and publishing it, from any source.\<close>

lemma mark_and_publish_inv:
  assumes v: "view_inv sid v" and s: "v_state v = Some s" and n: "needs_wakeup s"
    and e: "re_session_id e = sid" "good_wakeup e"
  shows "view_inv sid ((view_push e (v\<lparr>v_state := Some (s\<lparr>ss_wakeup_queued := True\<rparr>)\<rparr>))\<lparr>v_debounce := d\<rparr>)"
  using view_invD [OF v] s n e
  by (auto simp: view_inv_def state_inv_def needs_wakeup_def has_triggerable_mailbox_events_def mailbox_of_def)

lemma mark_and_publish_keep_inv:
  assumes "view_inv sid v" and "v_state v = Some s" and "needs_wakeup s"
    and "re_session_id e = sid" and "good_wakeup e"
  shows "view_inv sid (view_push e (v\<lparr>v_state := Some (s\<lparr>ss_wakeup_queued := True\<rparr>)\<rparr>))"
  using mark_and_publish_inv [OF assms, of "v_debounce v"] by (simp add: view_push_def)

lemma no_wakeup_needed_inv:
  assumes v: "view_inv sid v" and n: "\<And>s. v_state v = Some s \<Longrightarrow> \<not> needs_wakeup s"
  shows "view_inv sid (v\<lparr>v_debounce := d\<rparr>)"
  using view_invD [OF v] n
  by (auto simp: view_inv_def state_inv_def needs_wakeup_simps split: option.splits)

lemma debounce_inv:
  assumes inv: "sched_inv S" shows "sched_inv (debounce_fire sid fresh now S)"
proof (rule sched_inv_local [OF inv, where sid = sid])
  let ?e = "wakeup_event sid (wakeup_reason_str WR_USER_MESSAGE) ''debounce_timer'' fresh now"
  note V = sched_inv_view [OF inv, of sid]
  show "view_inv sid (view (debounce_fire sid fresh now S) sid)"
  proof (cases "\<exists>s. dget (session_states S) sid = Some s \<and> needs_wakeup s")
    case True
    then obtain s where s: "dget (session_states S) sid = Some s" "needs_wakeup s" by blast
    then have "view (debounce_fire sid fresh now S) sid =
        (view_push ?e ((view S sid)\<lparr>v_state := Some (s\<lparr>ss_wakeup_queued := True\<rparr>)\<rparr>))\<lparr>v_debounce := False\<rparr>"
      by (simp add: debounce_fire_def request_wakeup_eq view_simps Let_def)
    with mark_and_publish_inv [OF V _ s(2), of ?e False] s(1) show ?thesis by simp
  next
    case False
    then have "view (debounce_fire sid fresh now S) sid = (view S sid)\<lparr>v_debounce := False\<rparr>"
      by (auto simp: debounce_fire_def request_wakeup_eq view_simps Let_def split: option.splits)
    with no_wakeup_needed_inv [OF V, of False] False show ?thesis by simp
  qed
qed (use sched_inv_ok [OF inv] in \<open>auto simp: debounce_fire_def request_wakeup_eq view_simps Let_def split: option.splits\<close>)

lemma fold_publish:
  "fold (\<lambda>k. sched_publish (f k)) sids S = S\<lparr>sched_bus := fold (\<lambda>k. channel_publish (f k)) sids (sched_bus S)\<rparr>"
  by (induction sids arbitrary: S) (simp_all add: sched_publish_def)

lemma fold_channel_active: "ch_active (fold (\<lambda>k. channel_publish (f k)) sids C sid) = ch_active (C sid)"
  by (induction sids arbitrary: C) (simp_all add: channel_publish_def)

lemma fold_channel:
  assumes "distinct sids" and "\<And>k. re_session_id (f k) = k"
  shows "fold (\<lambda>k. channel_publish (f k)) sids C sid =
    (if sid \<in> set sids then (C sid)\<lparr>ch_queue := ch_queue (C sid) @ [f sid]\<rparr> else C sid)"
  using channel_fifo.queue_publish_fold [OF assms, of C sid] fold_channel_active [of f sids C sid]
  by (intro session_channel.equality) simp_all

lemma dget_map_values: "dget (map (\<lambda>(k, s). (k, g s)) d) k = map_option g (dget d k)"
  by (induction d) auto

lemma dkeys_map_values: "dkeys (map (\<lambda>(k, s). (k, g s)) d) = dkeys d"
  by (induction d) auto

lemma heartbeat_sids:
  assumes inv: "sched_inv S"
  defines "sids \<equiv> map ss_session_id (filter needs_wakeup (dvalues (session_states S)))"
  shows "distinct sids" and "k \<in> set sids \<longleftrightarrow> (\<exists>s. dget (session_states S) k = Some s \<and> needs_wakeup s)"
proof -
  note ok = sched_inv_ok [OF inv]
  have ids: "ss_session_id s = k" if "(k, s) \<in> set (session_states S)" for k s
    using inv_state(1) [OF inv, of k s] that ok by (simp add: dget_Some_set)
  have "map ss_session_id (dvalues (session_states S)) = dkeys (session_states S)"
    using ids by auto
  then have "distinct (map ss_session_id (dvalues (session_states S)))"
    using ok by (simp only: dict_ok_def)
  then show "distinct sids" unfolding sids_def by (rule distinct_map_filter)
  show "k \<in> set sids \<longleftrightarrow> (\<exists>s. dget (session_states S) k = Some s \<and> needs_wakeup s)"
    using ids unfolding sids_def dget_Some_set [OF ok] by force
qed

lemma heartbeat_inv:
  assumes inv: "sched_inv S" shows "sched_inv (heartbeat_scan fresh now S)"
proof -
  let ?e = "\<lambda>k. wakeup_event k (wakeup_reason_str WR_SYSTEM) ''heartbeat_watchdog'' (fresh k) now"
  note H = heartbeat_sids [OF inv]
  have states: "session_states (heartbeat_scan fresh now S) =
      map (\<lambda>(k, s). (k, if needs_wakeup s then s\<lparr>ss_wakeup_queued := True\<rparr> else s)) (session_states S)"
    by (simp add: heartbeat_scan_def Let_def fold_publish)
  have view: "view (heartbeat_scan fresh now S) k = (case dget (session_states S) k of
      Some s \<Rightarrow> if needs_wakeup s then view_push (?e k) ((view S k)\<lparr>v_state := Some (s\<lparr>ss_wakeup_queued := True\<rparr>)\<rparr>) else view S k
    | None \<Rightarrow> view S k)" for k
    using H(2) [of k]
    by (simp add: heartbeat_scan_def Let_def fold_publish view_def fold_channel [OF H(1)] dget_map_values
        view_push_def split: option.splits)
  have "view_inv k (view (heartbeat_scan fresh now S) k)" for k
    using sched_inv_view [OF inv, of k] mark_and_publish_keep_inv [OF sched_inv_view [OF inv, of k], of _ "?e k"]
    unfolding view by (simp split: option.splits)
  moreover have "dict_ok (session_states (heartbeat_scan fresh now S))"
    using sched_inv_ok [OF inv] unfolding dict_ok_def states dkeys_map_values .
  ultimately show ?thesis by (simp add: sched_inv_def)
qed

lemma sched_step_inv: "sched_step S S' \<Longrightarrow> sched_inv S \<Longrightarrow> sched_inv S'"
proof (induction rule: sched_step.induct)
  case (wakeup_error S sid e err)
  then show ?case by (intro skip_step_inv) (auto simp: good_wakeup_def)
next
  case (user_message_error S sid e)
  then show ?case by (intro skip_step_inv) (auto simp: good_wakeup_def)
next
  case (subtask_error S sid e)
  then show ?case by (intro skip_step_inv) (auto simp: good_wakeup_def)
next
  case (plugin S sid e)
  then show ?case by (intro skip_step_inv) (auto simp: good_wakeup_def)
qed (auto intro: publish_step_inv begin_step_inv user_step_inv subtask_event_inv wakeup_none_inv wakeup_turn_inv
    beat_inv turn_end_inv end_step_inv debounce_inv heartbeat_inv)

interpretation sched: step_system "\<lambda>S. S = sched_init" sched_step sched_inv
  by unfold_locales (auto simp: sched_init_inv intro: sched_step_inv)

section \<open>Properties\<close>

lemma sched_reachable_inv: "sched_step\<^sup>*\<^sup>* sched_init S \<Longrightarrow> sched_inv S"
  by (rule sched.reachable_inv) auto

text \<open>C1. No wakeup is lost. In every reachable state, a session whose mailbox holds an event that asks
  for a turn is either in a turn, or a debounce task is running for it, or a well-formed wakeup
  event is queued for it (or just being handled).\<close>

theorem no_lost_wakeup:
  assumes "sched_step\<^sup>*\<^sup>* sched_init S" and "dget (session_states S) sid = Some s"
    and "has_triggerable_mailbox_events s"
  shows "planning (stage S sid) \<or> sid \<in> debounce_tasks S \<or> wakeup_coming (view S sid)"
  using inv_state(2-4) [OF sched_reachable_inv [OF assms(1)] assms(2)] assms(3) by blast

text \<open>C5. Each event put into a mailbox reaches exactly one planner turn, in order: what was enqueued for
  a session is what its turns consumed, batch after batch, followed by its mailbox; and no turn is
  started without an event that asks for one.\<close>

theorem mailbox_exactly_once:
  assumes "sched_step\<^sup>*\<^sup>* sched_init S"
  shows "enqueued_log S sid = concat (turns_log S sid) @ mailbox_of (view S sid) \<and>
         (\<forall>vs \<in> set (turns_log S sid). list_ex en_trigger_turn vs)"
  using view_invD(5,6) [OF sched_inv_view [OF sched_reachable_inv [OF assms], of sid]] by simp

text \<open> While a session's turn runs its state says so, its mailbox is empty (its events wait on the
  bus), and it has no debounced work to requeue: the end of the turn just drops the state.\<close>

theorem turn_end_drops_state:
  assumes "sched_step\<^sup>*\<^sup>* sched_init S" and "stage S sid = HPlanning vs"
  shows "(\<exists>s. dget (session_states S) sid = Some s \<and> ss_inflight s \<and> ss_mailbox s = []) \<and>
         run_session_end sid now fresh now_ms S = S\<lparr>session_states := dpop sid (session_states S)\<rparr>"
proof -
  note inv = sched_reachable_inv [OF assms(1)]
  have "dget (session_states S) sid \<noteq> None"
    using view_invD(1) [OF sched_inv_view [OF inv, of sid]] assms(2) by (auto simp: state_inv_def split: option.splits)
  then show ?thesis
    using turn_end_eq [OF inv assms(2)] inv_state(2,5) [OF inv, of sid] assms(2) by auto
qed

text \<open> A wakeup starts a turn exactly when the session has a state and an event in its mailbox asks
  for one, and the turn then gets the whole mailbox. In particular a wakeup for an idle session
  does nothing, whatever its source.\<close>

theorem wakeup_starts_turn_iff:
  assumes "sched_step\<^sup>*\<^sup>* sched_init S" and "entered S sid e"
  shows "fst (run_session_begin sid source now S) =
    (case dget (session_states S) sid of
       None \<Rightarrow> None
     | Some s \<Rightarrow> if has_triggerable_mailbox_events s then Some (ss_mailbox s) else None)"
  using sched_reachable_inv [OF assms(1)] assms(2)
  by (cases rule: run_session_begin_cases [where src = source and now = now]) auto


lemma prefs_loop_scan:
  "prefs_loop vs acc =
    (case find (\<lambda>v. event_type_value (en_event_type v) = ''user_message_received'' \<and> event_prefs v \<noteq> (DEFAULT_TASK_TYPE, None)) vs of
       Some v \<Rightarrow> event_prefs v
     | None \<Rightarrow> if list_ex (\<lambda>v. event_type_value (en_event_type v) = ''user_message_received'') vs
               then (DEFAULT_TASK_TYPE, None) else acc)"
  by (induction vs arbitrary: acc) (auto simp: Let_def prod_eq_iff split: option.splits)

text \<open>A turn's preferences are those of the newest user message in its batch that sets any; a batch
  without one runs as a general turn with the default groups.\<close>

theorem prefs_newest_explicit:
  "resolve_runtime_preferences vs =
    (case find (\<lambda>v. event_type_value (en_event_type v) = ''user_message_received'' \<and> event_prefs v \<noteq> (''general'', None)) (rev vs) of
       Some v \<Rightarrow> event_prefs v | None \<Rightarrow> (''general'', None))"
  by (simp add: resolve_runtime_preferences_def prefs_loop_scan DEFAULT_TASK_TYPE_def split: option.splits)

lemma clean_groups_JStr: "(\<forall>g \<in> set gs. py_strip g \<noteq> []) \<Longrightarrow> clean_groups (map JStr gs) = gs"
  by (induction gs) (auto simp: clean_groups_def map_filter_simps)

lemma clean_groups_nonblank: "g \<in> set (clean_groups xs) \<Longrightarrow> py_strip g \<noteq> []"
  by (induction xs) (auto simp: clean_groups_def map_filter_simps split: option.splits if_splits elim!: nonblank_str.elims)

text \<open> Deferred routing of a sub-session happens once: after it has been stored, resolving again reads
  the stored groups, calls no router and writes nothing.\<close>

theorem routing_once:
  assumes "resolve_sub_session_groups rt eg dg (Some (Some meta)) route ok = (gs, Some meta')"
    and "\<forall>g \<in> set gs. py_strip g \<noteq> []" and "gs \<noteq> []"
  shows "resolve_sub_session_groups rt eg' dg' (Some (Some meta')) route' ok' = (gs, None)"
proof -
  have "meta' = dpop ''route_input'' (dset ''routing_pending'' (JBool False)
      (dset ''enabled_groups'' (JList (map JStr gs)) meta))"
    using assms(1) unfolding resolve_sub_session_groups_def option.case Let_def by (auto split: if_splits)
  then have g: "obj_get meta' ''enabled_groups'' = JList (map JStr gs)" and p: "obj_get meta' ''routing_pending'' = JBool False"
    by (simp_all add: obj_get_def)
  show ?thesis
    using assms(3) clean_groups_JStr [OF assms(2)]
    by (simp add: resolve_sub_session_groups_def Let_def g p)
qed

section \<open>Witnesses\<close>

text \<open>A user message, its debounce, the wakeup it leads to and the planner turn.\<close>

definition demo_message :: runtime_event where
  "demo_message = \<lparr>re_type = ETEnum USER_MESSAGE_RECEIVED, re_session_id = ''s'', re_payload = JDict [(''task_type'', JStr ''code'')],
     re_source = ''api'', re_id = ''e1'', re_timestamp = 5\<rparr>"

definition demo_envelope :: envelope where
  "demo_envelope = \<lparr>en_event_id = ''e1'', en_event_type = ETEnum USER_MESSAGE_RECEIVED,
     en_payload = JDict [(''task_type'', JStr ''code'')], en_source = ''api'', en_timestamp = 5, en_trigger_turn = True\<rparr>"

definition demo_wakeup :: runtime_event where
  "demo_wakeup = wakeup_event ''s'' ''user_message'' ''debounce_timer'' ''w1'' 6"

definition demo_state :: "bool \<Rightarrow> bool \<Rightarrow> envelope list \<Rightarrow> session_state" where
  "demo_state fly wq mb = \<lparr>ss_session_id = ''s'', ss_inflight = fly, ss_wakeup_queued = wq, ss_heartbeat_at = 0, ss_mailbox = mb\<rparr>"

definition demo_sched :: "(string, session_state) dict \<Rightarrow> string set \<Rightarrow> runtime_event list \<Rightarrow> runtime_event option \<Rightarrow>
   handler_stage \<Rightarrow> envelope list \<Rightarrow> envelope list list \<Rightarrow> scheduler" where
  "demo_sched states db q act h enq turns = \<lparr>session_states = states, debounce_tasks = db,
     sched_bus = (\<lambda>_. \<lparr>ch_queue = [], ch_active = None\<rparr>)(''s'' := \<lparr>ch_queue = q, ch_active = act\<rparr>),
     stage = (\<lambda>_. HIdle)(''s'' := h), enqueued_log = (\<lambda>_. [])(''s'' := enq), turns_log = (\<lambda>_. [])(''s'' := turns)\<rparr>"

lemma fun_upd_same_value: "(\<lambda>_. c)(k := c) = (\<lambda>_. c)"
  by auto

lemma demo_env: "envelope_from_runtime_event demo_message = Inr demo_envelope"
  by (simp add: envelope_Inr_iff demo_message_def demo_envelope_def event_payload_obj_def py_or_def
      normalize_trigger_turn_def type_value_def obj_get_def)

lemma demo_1: "sched_step sched_init (demo_sched [] {} [demo_message] None HIdle [] [])"
  using sched_step.env_publish [of sched_init demo_message]
  by (simp add: demo_sched_def sched_init_def sched_publish_def channel_publish_def demo_message_def fun_upd_same_value)

lemma demo_2: "sched_step (demo_sched [] {} [demo_message] None HIdle [] []) (demo_sched [] {} [] (Some demo_message) HEntered [] [])"
  using sched_step.begin_dispatch [of "demo_sched [] {} [demo_message] None HIdle [] []" "''s''" demo_message "[]"]
  by (simp add: demo_sched_def set_stage_def)

abbreviation demo_pending :: scheduler where
  "demo_pending \<equiv> demo_sched [(''s'', demo_state False False [demo_envelope])] {''s''} [] (Some demo_message) HDone [demo_envelope] []"

lemma demo_3: "sched_step (demo_sched [] {} [] (Some demo_message) HEntered [] []) demo_pending"
proof -
  let ?S = "demo_sched [] {} [] (Some demo_message) HEntered [] []"
  let ?S' = "demo_sched [(''s'', demo_state False False [demo_envelope])] {''s''} [] (Some demo_message) HEntered [] []"
  have sid: "re_session_id demo_message = ''s''" by (simp add: demo_message_def)
  have "enqueue_in_state demo_message 0 ?S = Inr (demo_sched [(''s'', demo_state False False [demo_envelope])] {} [] (Some demo_message) HEntered [] [])"
    by (simp add: enqueue_in_state_Inr demo_env sid put_state_def demo_sched_def enqueued_state_def demo_state_def new_session_state_def touch_def Let_def)
  moreover obtain p where "user_message_from_event demo_message = Inr p" "um_trigger_turn p"
    by (simp add: user_message_from_event_def demo_message_def event_payload_obj_def py_or_def obj_get_def)
  ultimately have h: "handle_user_message demo_message 0 ?S = Inr ?S'"
    by (simp add: handle_user_message_def sid) (simp add: demo_sched_def)
  have "sched_step ?S (set_stage ''s'' HDone (log_enqueued demo_message ?S'))"
    by (rule sched_step.user_message [OF _ _ h]) (auto simp: entered_def demo_sched_def on_event_def demo_message_def)
  then show ?thesis by (simp add: log_enqueued_def demo_env sid set_stage_def) (simp add: demo_sched_def)
qed

lemma demo_4: "sched_step demo_pending (demo_sched [(''s'', demo_state False False [demo_envelope])] {''s''} [] None HIdle [demo_envelope] [])"
  using sched_step.end_dispatch [of demo_pending "''s''"] by (simp add: demo_sched_def set_stage_def)

lemma demo_5: "sched_step (demo_sched [(''s'', demo_state False False [demo_envelope])] {''s''} [] None HIdle [demo_envelope] [])
    (demo_sched [(''s'', demo_state False True [demo_envelope])] {} [demo_wakeup] None HIdle [demo_envelope] [])"
  using sched_step.debounce [of "''s''" "demo_sched [(''s'', demo_state False False [demo_envelope])] {''s''} [] None HIdle [demo_envelope] []" "''w1''" 6]
  by (simp add: demo_sched_def debounce_fire_def request_wakeup_if_needed_def has_mailbox_events_def has_triggerable_mailbox_events_def
      demo_state_def demo_envelope_def put_state_def sched_publish_def channel_publish_def demo_wakeup_def Let_def)

abbreviation demo_waking :: scheduler where
  "demo_waking \<equiv> demo_sched [(''s'', demo_state False True [demo_envelope])] {} [] (Some demo_wakeup) HEntered [demo_envelope] []"

lemma demo_6: "sched_step (demo_sched [(''s'', demo_state False True [demo_envelope])] {} [demo_wakeup] None HIdle [demo_envelope] []) demo_waking"
  using sched_step.begin_dispatch [of "demo_sched [(''s'', demo_state False True [demo_envelope])] {} [demo_wakeup] None HIdle [demo_envelope] []" "''s''" demo_wakeup "[]"]
  by (simp add: demo_sched_def set_stage_def)

abbreviation demo_planning :: scheduler where
  "demo_planning \<equiv> demo_sched [(''s'', demo_state True False [])] {} [] (Some demo_wakeup) (HPlanning [demo_envelope]) [demo_envelope] [[demo_envelope]]"

lemma demo_entered: "entered demo_waking ''s'' demo_wakeup"
  by (simp add: entered_def demo_sched_def)

lemma demo_7: "sched_step demo_waking demo_planning"
proof -
  have r: "run_session_begin ''s'' (re_source demo_wakeup) 0 demo_waking =
      (Some [demo_envelope], demo_sched [(''s'', demo_state True False [])] {} [] (Some demo_wakeup) HEntered [demo_envelope] [])"
    by (simp add: run_session_begin_def demo_sched_def demo_state_def has_mailbox_events_def has_triggerable_mailbox_events_def
        consume_mailbox_def put_state_def demo_envelope_def Let_def)
  obtain p where p: "wakeup_from_event demo_wakeup = Inr p"
    by (simp add: demo_wakeup_def wakeup_event_def wakeup_from_event_def event_payload_obj_def py_or_def)
  have "sched_step demo_waking (set_stage ''s'' (HPlanning [demo_envelope]) (log_turn ''s'' [demo_envelope]
      (demo_sched [(''s'', demo_state True False [])] {} [] (Some demo_wakeup) HEntered [demo_envelope] [])))"
    by (rule sched_step.wakeup_turn [OF demo_entered _ p r]) (simp add: demo_wakeup_def wakeup_event_def on_event_def)
  then show ?thesis by (simp add: set_stage_def log_turn_def demo_sched_def)
qed

lemma demo_8: "sched_step demo_planning (demo_sched [] {} [] (Some demo_wakeup) HDone [demo_envelope] [[demo_envelope]])"
  using sched_step.turn_end [of demo_planning "''s''" "[demo_envelope]" 0 "[]" 0]
  by (simp add: demo_sched_def run_session_end_def demo_state_def has_mailbox_events_def touch_def set_stage_def Let_def)

abbreviation demo_rest :: scheduler where
  "demo_rest \<equiv> demo_sched [] {} [] None HIdle [demo_envelope] [[demo_envelope]]"

lemma demo_9: "sched_step (demo_sched [] {} [] (Some demo_wakeup) HDone [demo_envelope] [[demo_envelope]]) demo_rest"
  using sched_step.end_dispatch [of "demo_sched [] {} [] (Some demo_wakeup) HDone [demo_envelope] [[demo_envelope]]" "''s''"]
  by (simp add: demo_sched_def set_stage_def)

lemma demo_reach_pending: "sched_step\<^sup>*\<^sup>* sched_init demo_pending"
  using demo_1 demo_2 demo_3 by (meson rtranclp.rtrancl_into_rtrancl rtranclp.rtrancl_refl)

lemma demo_reach_waking: "sched_step\<^sup>*\<^sup>* sched_init demo_waking"
  using demo_reach_pending demo_4 demo_5 demo_6 by (meson rtranclp.rtrancl_into_rtrancl)

lemma demo_reach_planning: "sched_step\<^sup>*\<^sup>* sched_init demo_planning"
  using demo_reach_waking demo_7 by (rule rtranclp.rtrancl_into_rtrancl)

lemma demo_reach_rest: "sched_step\<^sup>*\<^sup>* sched_init demo_rest"
  using demo_reach_planning demo_8 demo_9 by (meson rtranclp.rtrancl_into_rtrancl)

theorem no_lost_wakeup_witness:
  "planning (stage demo_pending ''s'') \<or> ''s'' \<in> debounce_tasks demo_pending \<or> wakeup_coming (view demo_pending ''s'')"
  by (rule no_lost_wakeup [OF demo_reach_pending, of "''s''" "demo_state False False [demo_envelope]"])
    (simp_all add: demo_sched_def demo_state_def has_triggerable_mailbox_events_def demo_envelope_def)

theorem mailbox_exactly_once_witness:
  "enqueued_log demo_planning ''s'' = concat (turns_log demo_planning ''s'') @ mailbox_of (view demo_planning ''s'')
   \<and> turns_log demo_planning ''s'' = [[demo_envelope]]"
  using mailbox_exactly_once [OF demo_reach_planning, of "''s''"] by (simp add: demo_sched_def)

theorem turn_end_drops_state_witness:
  "run_session_end ''s'' 1 ''x'' 2 demo_planning = demo_planning\<lparr>session_states := []\<rparr>"
  using turn_end_drops_state [OF demo_reach_planning, of "''s''" "[demo_envelope]" 1 "''x''" 2]
  by (simp add: demo_sched_def)

theorem wakeup_starts_turn_iff_witness:
  "fst (run_session_begin ''s'' ''debounce_timer'' 0 demo_waking) = Some [demo_envelope]"
  using wakeup_starts_turn_iff [OF demo_reach_waking demo_entered, of "''debounce_timer''" 0]
  by (simp add: demo_sched_def demo_state_def has_triggerable_mailbox_events_def demo_envelope_def)


theorem routing_once_witness:
  "resolve_sub_session_groups null_runtime None [''x'']
     (Some (Some [(''routing_pending'', JBool False), (''enabled_groups'', JList [JStr ''core''])])) (\<lambda>_. None) True = ([''core''], None)"
proof -
  have r: "resolve_sub_session_groups null_runtime None [''core''] (Some (Some [(''routing_pending'', JBool True)])) (\<lambda>_. None) True =
      ([''core''], Some [(''routing_pending'', JBool False), (''enabled_groups'', JList [JStr ''core''])])"
    by (simp add: resolve_sub_session_groups_def obj_get_def)
  show ?thesis by (rule routing_once [OF r]) (simp_all add: py_strip_id is_space_def)
qed

end
