(* ===== verification/Coordinator.thy ===== *)
theory Coordinator
  imports Subtasks History EventBus "HOL-Library.List_Lexorder" "HOL-Library.Char_ord"
begin

text \<open>
  \<open>SubtaskCoordinator\<close> (\<^verbatim>\<open>core/agent/planning/subtask_coordinator.py\<close>), the turn policies that drive it
  (\<^verbatim>\<open>core/agent/planning/turn_policy.py\<close>) and the tools that manage subtasks
  (\<^verbatim>\<open>capabilities/agent_tools/scripts\<close>: \<open>message_subtask\<close>, \<open>kill_subtask\<close>,
  \<open>get_subtask_status\<close>; \<^verbatim>\<open>capabilities/sub_agent_tools/scripts/report_subtask_done.py\<close>).

  What they do outside the process-wide registries is a log of actions. Whether a database block or
  the runtime bus works is an argument. The barrier is also given as its three atomic parts
  (check, store the message, publish and mark), between which other sessions run.
\<close>

section \<open>World and actions\<close>

datatype action =
    StoreMessage string message_block
  | PublishEvent event_type string "(string, json) dict" string
  | StoreStatus string string
  | EmitSnapshot string
  | StoreAssistant string message_block usage_tokens
  | StoreRound string tool_round usage_tokens
  | EmitText string string
  | EmitToolCall string string string string
  | EmitToolResult string tool_round
  | StoreSession string "(string, json) dict"
  | UpdateMeta string "(string, json) dict"

record world =
  w_globals :: subtask_globals
  w_log :: "action list"

definition act :: "action \<Rightarrow> world \<Rightarrow> world" where
  "act a W = W\<lparr>w_log := w_log W @ [a]\<rparr>"

definition the_state :: "string \<Rightarrow> world \<Rightarrow> subtask_state" where
  "the_state main W = fst (get_or_create_subtask_state main (w_globals W))"

definition with_state :: "string \<Rightarrow> (subtask_state \<Rightarrow> subtask_state) \<Rightarrow> world \<Rightarrow> world" where
  "with_state main f W = W\<lparr>w_globals := put_subtask_state main (f (the_state main W)) (w_globals W)\<rparr>"

text \<open>\<open>main_session_id = get_main_session_by_sub_session(...)\<close> with \<open>if not main_session_id: return\<close>.\<close>

definition main_of :: "world \<Rightarrow> string \<Rightarrow> string option" where
  "main_of W sub = (case get_main_session_by_sub_session (w_globals W) sub of
      None \<Rightarrow> None | Some m \<Rightarrow> if m = [] then None else Some m)"

definition user_text_block :: "string \<Rightarrow> message_block option" where
  "user_text_block t = block_from_segments ROLE_USER [text_segment (JStr t)]"

section \<open>The coordinator\<close>

definition is_sub_session_terminal :: "world \<Rightarrow> string \<Rightarrow> bool" where
  "is_sub_session_terminal W sub = (case main_of W sub of
      None \<Rightarrow> False | Some main \<Rightarrow> is_terminal (the_state main W) sub)"

text \<open>The persisted status is best effort: \<open>db_ok\<close> says whether the row exists and is written.\<close>

definition mark_subtask_if_non_terminal :: "bool \<Rightarrow> string \<Rightarrow> string \<Rightarrow> string \<Rightarrow> world \<Rightarrow> world" where
  "mark_subtask_if_non_terminal db_ok sub status summary W = (case main_of W sub of
      None \<Rightarrow> W
    | Some main \<Rightarrow>
        (if is_terminal (the_state main W) sub then W
         else let W1 = with_state main (\<lambda>s. snd (mark_terminal sub status summary s)) W;
                  st = py_lower (py_strip status)
              in if db_ok then act (StoreStatus sub (if st = [] then ''completed'' else st)) W1 else W1))"

definition lookup_subtask_status :: "world \<Rightarrow> string \<Rightarrow> string option" where
  "lookup_subtask_status W sub = (case main_of W sub of
      None \<Rightarrow> None
    | Some main \<Rightarrow> map_option st_status (find (\<lambda>r. st_sub_session_id r = sub) (list_records (the_state main W) None)))"

definition aggregate_json :: "aggregate \<Rightarrow> json" where
  "aggregate_json a = JDict
     [(''total'', JInt (int (ag_total a))), (''completed'', JInt (int (ag_completed a))),
      (''failed'', JInt (int (ag_failed a))), (''cancelled'', JInt (int (ag_cancelled a))),
      (''summaries'', JDict (map (\<lambda>(k, v). (k, JStr v)) (ag_summaries a)))]"

definition barrier_blocks :: "subtask_state \<Rightarrow> string list" where
  "barrier_blocks s =
     (let summaries = ag_summaries (get_aggregated_subtask_results s None)
      in List.map_filter (\<lambda>r. case dget summaries (st_sub_session_id r) of
            None \<Rightarrow> None
          | Some payload \<Rightarrow> (if payload = [] then None
              else Some (''Sub-agent ('' @ st_sub_session_id r @ '') ['' @ st_status r @ '']:'' @ newline @ payload)))
          (get_current_batch_records s))"

text \<open>Up to the first await: the main session, the message and the aggregate, or nothing to do.\<close>

definition barrier_check :: "string \<Rightarrow> world \<Rightarrow> (string \<times> message_block \<times> json) option" where
  "barrier_check sub W = (case main_of W sub of
      None \<Rightarrow> None
    | Some main \<Rightarrow>
        (let s = the_state main W
         in if \<not> is_all_subtasks_terminal s then None
            else if has_aggregation_emitted s then None
            else if barrier_blocks s = [] then None
            else (case user_text_block (SYSTEM_NOTIFICATION_COMPLETED_PREFIX @ py_join block_separator (barrier_blocks s)) of
                    None \<Rightarrow> None
                  | Some m \<Rightarrow> Some (main, m, aggregate_json (get_aggregated_subtask_results s None)))))"

definition barrier_store :: "string \<Rightarrow> message_block \<Rightarrow> world \<Rightarrow> world" where
  "barrier_store main m W = act (StoreMessage main m) W"

definition barrier_finish :: "string \<Rightarrow> string \<Rightarrow> json \<Rightarrow> world \<Rightarrow> world" where
  "barrier_finish main sub agg W =
     with_state main mark_aggregation_emitted
       (act (PublishEvent SUBTASK_COMPLETED main
              [(''sub_session_id'', JStr sub), (''aggregated'', agg), (''trigger_turn'', JBool True)] ''subtask_barrier'') W)"

definition publish_subtask_barrier_if_ready :: "bool \<Rightarrow> string \<Rightarrow> world \<Rightarrow> world" where
  "publish_subtask_barrier_if_ready db_ok sub W = (case barrier_check sub W of
      None \<Rightarrow> W
    | Some (main, m, agg) \<Rightarrow> if db_ok then barrier_finish main sub agg (barrier_store main m W) else W)"

definition notify_main_session_subtask_failure :: "bool \<Rightarrow> string \<Rightarrow> string \<Rightarrow> string \<Rightarrow> world \<Rightarrow> world" where
  "notify_main_session_subtask_failure db_ok sub summary status W = (case main_of W sub of
      None \<Rightarrow> W
    | Some main \<Rightarrow>
        (if status \<in> {''cancelled'', ''completed''} then W
         else if has_immediate_failure_notified (the_state main W) sub then W
         else let stripped = py_strip summary;
                  failure_summary = (if stripped \<noteq> [] then stripped else ''Sub-agent exited with an unknown error.'');
                  text = SYSTEM_NOTIFICATION_FAILED_PREFIX @ ''Sub-agent ('' @ sub @ '') [failed]:'' @ newline @ failure_summary
              in (case user_text_block text of
                    None \<Rightarrow> W
                  | Some m \<Rightarrow>
                      if db_ok
                      then with_state main (mark_immediate_failure_notified sub)
                             (act (PublishEvent SUBTASK_COMPLETED main
                                [(''sub_session_id'', JStr sub), (''status'', JStr ''failed''),
                                 (''immediate'', JBool True), (''trigger_turn'', JBool True)] ''subtask_failed'')
                               (act (StoreMessage main m) W))
                      else W)))"

section \<open>Turn policies\<close>

datatype session_kind = KIND_MAIN | KIND_SUB

definition should_publish_follow_up :: "string list \<Rightarrow> bool" where
  "should_publish_follow_up called = (length called > 0)"

text \<open>
  \<open>Planner._handle_text_fallback\<close> and \<open>_publish_follow_up_event\<close>. A turn has a memory service or not,
  and the process a gateway or not.
\<close>

record turn_services =
  sv_memory :: bool
  sv_gateway :: bool

definition handle_text_fallback :: "turn_services \<Rightarrow> usage_tokens \<Rightarrow> string \<Rightarrow> string \<Rightarrow> world \<Rightarrow> world" where
  "handle_text_fallback sv usage sid content W =
     (if \<not> sv_memory sv then W
      else case block_from_segments ROLE_ASSISTANT [text_segment (JStr content)] of
        None \<Rightarrow> W
      | Some m \<Rightarrow> (let W1 = act (StoreAssistant sid m usage) W
                  in if sv_gateway sv then act (EmitText sid content) W1 else W1))"

definition publish_follow_up_event :: "string \<Rightarrow> string \<Rightarrow> string list \<Rightarrow> world \<Rightarrow> world" where
  "publish_follow_up_event sid task_type groups W =
     act (PublishEvent USER_MESSAGE_RECEIVED sid
       [(''internal_followup'', JBool True), (''trigger_turn'', JBool True), (''task_type'', JStr task_type),
        (''enabled_groups'', JList (map JStr groups))] ''planner_followup'') W"

fun should_skip :: "session_kind \<Rightarrow> string \<Rightarrow> world \<Rightarrow> bool" where
  "should_skip KIND_MAIN sid W = False"
| "should_skip KIND_SUB sid W = is_sub_session_terminal W sid"

fun handle_text_response :: "session_kind \<Rightarrow> turn_services \<Rightarrow> usage_tokens \<Rightarrow> bool \<Rightarrow> string \<Rightarrow> string option \<Rightarrow> world \<Rightarrow> world" where
  "handle_text_response KIND_MAIN sv usage db_ok sid text W =
     (case text of Some (c # cs) \<Rightarrow> handle_text_fallback sv usage sid (c # cs) W | _ \<Rightarrow> W)"
| "handle_text_response KIND_SUB sv usage db_ok sid text W =
     (case text of
        Some (c # cs) \<Rightarrow>
          (let W1 = handle_text_fallback sv usage sid (c # cs) W
           in if should_auto_mark_terminal_on_text (resolve_session_role_policy sid)
              then publish_subtask_barrier_if_ready db_ok sid
                     (mark_subtask_if_non_terminal db_ok sid ''completed'' (c # cs) W1)
              else W1)
      | _ \<Rightarrow> W)"

fun handle_tool_follow_up ::
  "session_kind \<Rightarrow> bool \<Rightarrow> string \<Rightarrow> string \<Rightarrow> string list \<Rightarrow> string list \<Rightarrow> world \<Rightarrow> world" where
  "handle_tool_follow_up KIND_MAIN db_ok sid task_type groups called W =
     (if should_publish_follow_up called then publish_follow_up_event sid task_type groups W else W)"
| "handle_tool_follow_up KIND_SUB db_ok sid task_type groups called W =
     (if is_sub_session_terminal W sid then publish_subtask_barrier_if_ready db_ok sid W
      else if should_publish_follow_up called then publish_follow_up_event sid task_type groups W else W)"

fun handle_failure :: "session_kind \<Rightarrow> bool \<Rightarrow> string \<Rightarrow> string \<Rightarrow> world \<Rightarrow> world" where
  "handle_failure KIND_MAIN db_ok sid err W = W"
| "handle_failure KIND_SUB db_ok sid err W =
     (let W1 = mark_subtask_if_non_terminal db_ok sid ''failed'' err W;
          W2 = (case lookup_subtask_status W1 sid of
                  Some st \<Rightarrow> if st = ''failed'' then notify_main_session_subtask_failure db_ok sid err st W1 else W1
                | None \<Rightarrow> W1)
      in publish_subtask_barrier_if_ready db_ok sid W2)"

section \<open>Tools\<close>

definition str_arg :: "py_runtime \<Rightarrow> json_object \<Rightarrow> string \<Rightarrow> string" where
  "str_arg rt args k = py_strip (py_str rt (py_or (obj_get args k) (JStr [])))"

definition snapshot :: "bool \<Rightarrow> string \<Rightarrow> world \<Rightarrow> world" where
  "snapshot has_gateway main W = (if has_gateway then act (EmitSnapshot main) W else W)"

definition ambiguous_text :: "string \<Rightarrow> string list \<Rightarrow> string" where
  "ambiguous_text p ms = ''Task ID '' @ [char_of (39::nat)] @ p @ [char_of (39::nat)] @
     '' is ambiguous. Matching tasks: '' @ py_join '', '' ms"

text \<open>\<open>sorted(matches)\<close>: strings by code points, the order of \<open>Char_ord\<close> and \<open>List_Lexorder\<close>.\<close>

definition unresolved_text :: "subtask_state \<Rightarrow> string \<Rightarrow> string \<Rightarrow> string" where
  "unresolved_text s p otherwise =
     (let ms = find_matching_task_ids s p
      in if length ms > 1 then ambiguous_text p (sort ms) else otherwise)"

definition kill_subtask ::
  "py_runtime \<Rightarrow> json_object \<Rightarrow> string \<Rightarrow> bool \<Rightarrow> bool \<Rightarrow> bool \<Rightarrow> world \<Rightarrow> string \<times> world" where
  "kill_subtask rt args main db_ok has_gateway has_planner W =
     (let p = str_arg rt args ''sub_session_id'';
          not_running = '' is not currently running. It may have already completed, failed, or the ID is invalid.''
      in if p = [] then (''Error: sub_session_id is required.'', W)
         else (let s = the_state main W in
           case resolve_task_id s p of
             None \<Rightarrow> (unresolved_text s p (''Task '' @ p @ not_running), W)
           | Some k \<Rightarrow>
               (if k = [] then (unresolved_text s p (''Task '' @ p @ not_running), W)
                else case get_record s k of
                  None \<Rightarrow> (''Task '' @ k @ not_running, W)
                | Some r \<Rightarrow>
                    (if \<not> py_startswith (st_status r) ''running''
                     then (''Task '' @ k @ '' is not currently running. Current status: '' @ st_status r @ ''.'', W)
                     else (let W1 = W\<lparr>w_globals := request_sub_session_cancel k (w_globals W)\<rparr>;
                               W2 = with_state main (\<lambda>s. snd (mark_terminal k ''cancelled'' ''Cancelled by user request.'' s)) W1;
                               W3 = (if db_ok then act (StoreStatus k ''cancelled'') W2 else W2);
                               W4 = snapshot has_gateway main W3;
                               W5 = (if has_planner then publish_subtask_barrier_if_ready db_ok k W4 else W4)
                           in (''Task '' @ k @ '' has been marked as cancelled. There are '' @
                               show_nat (active_count (the_state main W5)) @
                               '' other sub-tasks still running in the background.'', W5))))))"

definition get_subtask_status :: "string \<Rightarrow> world \<Rightarrow> string" where
  "get_subtask_status main W =
     (let rs = list_records (the_state main W) None
      in if rs = [] then ''No sub-tasks have been delegated in this session yet.''
         else ''Current Sub-Task Statuses:'' @ newline @ py_join (newline @ newline)
           (map (\<lambda>r. ''- Task ID: '' @ st_sub_session_id r @ newline @ ''  Instruction: '' @ st_instruction r @
                     newline @ ''  Status: '' @ st_status r) rs))"

definition normalize_task_type :: "string \<Rightarrow> string" where
  "normalize_task_type v =
     (let n = py_lower (py_strip v) in if n \<in> {''image'', ''code'', ''general''} then n else ''general'')"

definition infer_task_type_from_status :: "string \<Rightarrow> string" where
  "infer_task_type_from_status status =
     (if CHR '':'' \<notin> set status then ''general''
      else (let (prefix, suffix) = py_split1 CHR '':'' status
            in if prefix \<noteq> ''running'' then ''general'' else normalize_task_type suffix))"

text \<open>
  \<open>groups\<close> are the sub-session's persisted groups (\<open>None\<close>: no such session or no dictionary),
  \<open>bus_ok\<close> whether a runtime bus is registered.
\<close>

definition message_subtask ::
  "py_runtime \<Rightarrow> json_object \<Rightarrow> string \<Rightarrow> bool \<Rightarrow> json option \<Rightarrow> bool \<Rightarrow> bool \<Rightarrow> world \<Rightarrow> string \<times> world" where
  "message_subtask rt args main db_ok groups has_gateway bus_ok W =
     (let p = str_arg rt args ''sub_session_id''; message = str_arg rt args ''message''
      in if p = [] then (''Error: sub_session_id is required.'', W)
         else if message = [] then (''Error: message is required.'', W)
         else (let s = the_state main W in
           case resolve_task_id s p of
             None \<Rightarrow> (unresolved_text s p (''Task '' @ p @ '' is not found in this session.''), W)
           | Some k \<Rightarrow>
               (if k = [] then (unresolved_text s p (''Task '' @ p @ '' is not found in this session.''), W)
                else case get_record s k of
                  None \<Rightarrow> (''Task '' @ k @ '' is not found in this session.'', W)
                | Some r \<Rightarrow>
                    (let arg = py_lower (str_arg rt args ''task_type'');
                         task_type = (if arg \<noteq> [] then normalize_task_type arg else infer_task_type_from_status (st_status r));
                         running = ''running:'' @ task_type;
                         was_terminal = is_terminal s k;
                         W1 = (if was_terminal then with_state main (\<lambda>s. snd (reopen_task k running [] s)) W
                               else with_state main (update_status k running []) W);
                         W2 = W1\<lparr>w_globals := clear_sub_session_cancel k (w_globals W1)\<rparr>;
                         W3 = snapshot has_gateway main W2
                     in case user_text_block message of
                          None \<Rightarrow> (''Error: Failed to construct sub-task message.'', W3)
                        | Some m \<Rightarrow>
                            (if \<not> db_ok then (''Error: Failed to append message to sub-session history: '', W3)
                             else (let W4 = act (StoreMessage k m) W3;
                                       W5 = (if groups \<noteq> None then act (StoreStatus k running) W4 else W4);
                                       gs = (case groups of Some j \<Rightarrow> (case list_opt j of Some xs \<Rightarrow> clean_groups xs | None \<Rightarrow> []) | None \<Rightarrow> []);
                                       payload = [(''segment_count'', JInt 1), (''trigger_turn'', JBool True),
                                                  (''task_type'', JStr task_type), (''parent_session_id'', JStr main),
                                                  (''resumed_from_terminal'', JBool was_terminal)] @
                                                 (if gs \<noteq> [] then [(''enabled_groups'', JList (map JStr gs))] else [])
                                   in if \<not> bus_ok
                                      then (''Message appended but failed to enqueue sub-session event for '' @ k @
                                            '' because runtime bus is unavailable.'', W5)
                                      else (''Message sent to sub-task '' @ k @
                                            (if was_terminal then ''. Task was terminal and is now resumed as running:''
                                             else ''. Task remains active as running:'') @ task_type @ ''.'',
                                            act (PublishEvent USER_MESSAGE_RECEIVED k payload ''message_subtask'') W5)))))))"

definition report_payload :: "py_runtime \<Rightarrow> json_object \<Rightarrow> string \<Rightarrow> string" where
  "report_payload rt args summary =
     (let artifacts = py_or (obj_get args ''artifacts'') (JList []);
          artifact_lines = (case artifacts of
             JList xs \<Rightarrow> map (\<lambda>s. ''- '' @ py_strip s) (List.map_filter nonblank_str xs) | _ \<Rightarrow> []);
          followup = truthy (obj_get_or args ''needs_followup'' (JBool False))
      in py_join newline ([summary] @ (if artifact_lines \<noteq> [] then ''Artifacts:'' # artifact_lines else []) @
           [''Needs follow-up: '' @ (if followup then ''yes'' else ''no'')]))"

definition report_subtask_done ::
  "py_runtime \<Rightarrow> json_object \<Rightarrow> string \<Rightarrow> bool \<Rightarrow> bool \<Rightarrow> bool \<Rightarrow> world \<Rightarrow> string \<times> world" where
  "report_subtask_done rt args sub db_ok has_gateway has_planner W = (case main_of W sub of
      None \<Rightarrow> (''Error: current session is not a registered sub-task.'', W)
    | Some main \<Rightarrow>
        (let status = py_lower (py_strip (py_str rt (py_or (obj_get args ''status'') (JStr ''completed''))));
             summary = str_arg rt args ''summary''
         in if summary = [] then (''Error: summary is required.'', W)
            else (let payload = report_payload rt args summary;
                      changed = fst (mark_terminal sub status payload (the_state main W));
                      W1 = with_state main (\<lambda>s. snd (mark_terminal sub status payload s)) W
                  in if \<not> changed then (''Sub-task '' @ sub @ '' already in terminal state.'', W1)
                     else (let W2 = W1\<lparr>w_globals := clear_sub_session_cancel sub (w_globals W1)\<rparr>;
                               W3 = (if db_ok then act (StoreStatus sub status) W2 else W2);
                               W4 = snapshot has_gateway main W3;
                               W5 = (if has_planner then publish_subtask_barrier_if_ready db_ok sub W4 else W4)
                           in (''Sub-task '' @ sub @ '' reported as '' @ status @ ''.'', W5)))))"

section \<open>Facts about the world\<close>

lemma the_state_simps [simp]:
  "the_state main (act a W) = the_state main W"
  "the_state k (with_state main f W) = (if k = main then f (the_state main W) else the_state k W)"
  "the_state main (W\<lparr>w_log := l\<rparr>) = the_state main W"
  "the_state main (W\<lparr>w_globals := request_sub_session_cancel j (w_globals W)\<rparr>) = the_state main W"
  "the_state main (W\<lparr>w_globals := clear_sub_session_cancel j (w_globals W)\<rparr>) = the_state main W"
  "the_state main (W\<lparr>w_globals := bind_sub_session m j (w_globals W)\<rparr>) = the_state main W"
  "the_state main (snapshot g m W) = the_state main W"
  by (auto simp: the_state_def act_def with_state_def get_or_create_subtask_state_def put_subtask_state_def
      request_sub_session_cancel_def clear_sub_session_cancel_def bind_sub_session_def snapshot_def split: option.splits)

lemma main_of_simps [simp]:
  "main_of (act a W) j = main_of W j" "main_of (with_state main f W) j = main_of W j"
  "main_of (W\<lparr>w_globals := request_sub_session_cancel i (w_globals W)\<rparr>) j = main_of W j"
  "main_of (W\<lparr>w_globals := clear_sub_session_cancel i (w_globals W)\<rparr>) j = main_of W j"
  "main_of (W\<lparr>w_globals := bind_sub_session m i (w_globals W)\<rparr>) j =
     (if j = i then (if m = [] then None else Some m) else main_of W j)"
  "main_of (snapshot g m W) j = main_of W j"
  by (auto simp: main_of_def act_def with_state_def get_main_session_by_sub_session_def put_subtask_state_def
      request_sub_session_cancel_def clear_sub_session_cancel_def bind_sub_session_def snapshot_def split: option.splits)

lemma log_simps [simp]:
  "w_log (act a W) = w_log W @ [a]" "w_log (with_state main f W) = w_log W"
  "w_log (barrier_finish main sub agg W) = w_log W @ [PublishEvent SUBTASK_COMPLETED main
     [(''sub_session_id'', JStr sub), (''aggregated'', agg), (''trigger_turn'', JBool True)] ''subtask_barrier'']"
  by (simp_all add: act_def with_state_def barrier_finish_def)

lemma finish_state [simp]:
  "the_state k (barrier_finish main sub agg W) =
     (if k = main then mark_aggregation_emitted (the_state main W) else the_state k W)"
  "main_of (barrier_finish main sub agg W) j = main_of W j"
  "the_state k (barrier_store main m W) = the_state k W" "main_of (barrier_store main m W) j = main_of W j"
  by (simp_all add: barrier_finish_def barrier_store_def)

lemma emitted_mark [simp]: "has_aggregation_emitted (mark_aggregation_emitted s)"
  by (simp add: has_aggregation_emitted_def mark_aggregation_emitted_def)

lemma user_text_block_Some [simp]: "user_text_block t = Some \<lparr>mb_role = ROLE_USER, mb_body = TextBody (JStr t)\<rparr>"
  by (cases t) (simp_all add: user_text_block_def block_from_segments_def text_segment_def py_or_def)

lemma barrier_check_emitted: "main_of W sub = Some main \<Longrightarrow> has_aggregation_emitted (the_state main W) \<Longrightarrow> barrier_check sub W = None"
  by (simp add: barrier_check_def Let_def)

lemma barrier_check_Some:
  "barrier_check sub W = Some (main, m, agg) \<Longrightarrow>
   main_of W sub = Some main \<and> is_all_subtasks_terminal (the_state main W) \<and>
   \<not> has_aggregation_emitted (the_state main W) \<and> barrier_blocks (the_state main W) \<noteq> []"
  by (auto simp: barrier_check_def Let_def split: option.splits if_splits)

lemma map_filter_Nil: "List.map_filter f xs = [] \<longleftrightarrow> (\<forall>x \<in> set xs. f x = None)"
  by (induction xs) (auto simp: map_filter_simps split: option.splits)

lemma mark_terminal_batch: "current_batch_id (snd (mark_terminal sid st sm s)) = current_batch_id s"
  "emitted_batch_ids (snd (mark_terminal sid st sm s)) = emitted_batch_ids s"
  by (auto simp: mark_terminal_def split: option.splits)

section \<open>Properties\<close>


text \<open> A batch is reported as soon as it is complete unless every one of its subtasks has an empty
  summary: then no completion message is ever due.\<close>

theorem barrier_silent_iff:
  assumes "subtask_step\<^sup>*\<^sup>* new_subtask_state s"
  shows "barrier_blocks s = [] \<longleftrightarrow> (\<forall>r \<in> set (get_current_batch_records s). st_summary r = [])"
proof -
  note inv = subtask_reachable_inv [OF assms]
  note I = subtask_invD [OF inv]
  let ?rs = "list_records s (Some (current_batch_id s))"
  have "map st_sub_session_id (dvalues (records s)) = dkeys (records s)"
    using I(1,2) by (auto simp: dget_Some_set)
  then have "distinct (map st_sub_session_id ?rs)"
    using I(1) unfolding list_records_def option.case dict_ok_def by (metis distinct_map_filter)
  then have "dget (ag_summaries (get_aggregated_subtask_results s None)) (st_sub_session_id r) = Some (st_summary r)"
    if "r \<in> set ?rs" for r
    using that foldl_aggregate_summaries [of ?rs _ "st_sub_session_id r"]
    by (auto simp: get_aggregated_subtask_results_def Let_def find_Some_iff find_None_iff distinct_map inj_on_def
        split: option.splits)
  then show ?thesis
    by (auto simp: barrier_blocks_def map_filter_Nil get_current_batch_records_def Let_def)
qed

text \<open>C14. The check of the barrier and its mark are separated by awaits. If another task is delegated in
  between, the mark hits the new batch: it counts as reported while its task is still running, and
  when that task completes its own completion message is never sent.\<close>

theorem barrier_race_loses_batch:
  assumes "barrier_check sub W = Some (main, m, agg)"
    and "W2 = barrier_finish main sub agg (with_state main (register_task new instr t) (barrier_store main m W))"
    and "main_of W2 j = Some main"
  shows "has_aggregation_emitted (the_state main W2) \<and> \<not> is_terminal (the_state main W2) new \<and>
         barrier_check j (with_state main (\<lambda>s. snd (mark_terminal new st sm s)) W2) = None"
proof -
  have "has_aggregation_emitted (the_state main W2)" by (simp add: assms(2))
  moreover have "\<not> is_terminal (the_state main W2) new"
    by (simp add: assms(2) is_terminal_def register_task_def mark_aggregation_emitted_def Let_def)
  moreover have "has_aggregation_emitted (snd (mark_terminal new st sm (the_state main W2)))"
    using calculation(1) by (simp add: has_aggregation_emitted_def mark_terminal_batch)
  ultimately show ?thesis using assms(3) by (auto intro!: barrier_check_emitted)
qed

text \<open>Two subtasks whose checks both run before the first mark report the same batch twice.\<close>

theorem barrier_race_duplicates:
  assumes "barrier_check sub W = Some (main, m, agg)" and "barrier_check sub' W = Some (main, m', agg')"
  shows "m' = m \<and> agg' = agg \<and>
    w_log (barrier_finish main sub' agg' (barrier_store main m' (barrier_finish main sub agg (barrier_store main m W)))) =
    w_log W @ [StoreMessage main m,
      PublishEvent SUBTASK_COMPLETED main [(''sub_session_id'', JStr sub), (''aggregated'', agg), (''trigger_turn'', JBool True)] ''subtask_barrier'',
      StoreMessage main m,
      PublishEvent SUBTASK_COMPLETED main [(''sub_session_id'', JStr sub'), (''aggregated'', agg), (''trigger_turn'', JBool True)] ''subtask_barrier'']"
proof -
  have "main_of W sub = Some main" "main_of W sub' = Some main" using assms by (auto dest: barrier_check_Some)
  with assms have "m' = m \<and> agg' = agg"
    by (auto simp: barrier_check_def Let_def split: if_splits)
  then show ?thesis by (simp add: barrier_store_def)
qed

text \<open> The early-failure notification of a subtask is sent once: repeating the call changes nothing.\<close>

theorem failure_notified_once:
  assumes "sub \<noteq> []" and "st \<notin> {''cancelled'', ''completed''}"
  shows "notify_main_session_subtask_failure True sub sm' st' (notify_main_session_subtask_failure True sub sm st W) =
         notify_main_session_subtask_failure True sub sm st W"
  using assms
  by (auto simp: notify_main_session_subtask_failure_def Let_def has_immediate_failure_notified_def
      mark_immediate_failure_notified_def split: option.splits)

lemma mark_terminal_fst: "fst (mark_terminal k st sm s) \<longleftrightarrow> (\<exists>r. dget (records s) k = Some r \<and> \<not> is_terminal_status (st_status r))"
  by (auto simp: mark_terminal_def split: option.splits)

lemma running_not_terminal: "py_startswith st ''running'' \<Longrightarrow> \<not> is_terminal_status st"
  by (auto simp: py_startswith_def is_terminal_status_def TERMINAL_STATUSES_def)

text \<open> A finished subtask cannot be finished again: for a sub-session that is terminal, a report only
  says so, changes no task state, sends nothing and stores nothing; the planner skips its turns and
  publishes no follow-up for it.\<close>

theorem terminal_subtask_is_final:
  assumes "is_sub_session_terminal W sub" and "main_of W sub = Some main" and "str_arg rt args ''summary'' \<noteq> []"
    and "r = report_subtask_done rt args sub db_ok has_gateway has_planner W"
  shows "fst r = ''Sub-task '' @ sub @ '' already in terminal state.'' \<and>
         the_state k (snd r) = the_state k W \<and> w_log (snd r) = w_log W \<and>
         should_skip KIND_SUB sub W \<and>
         PublishEvent USER_MESSAGE_RECEIVED sid p src \<notin> set (drop (length (w_log W)) (w_log (handle_tool_follow_up KIND_SUB ok sub task_type groups called W)))"
proof -
  have t: "is_terminal (the_state main W) sub" using assms(1,2) by (simp add: is_sub_session_terminal_def)
  have m: "mark_terminal sub st p (the_state main W) = (False, the_state main W)" for st p
    using t by (rule mark_terminal_stays)
  have "w_log (publish_subtask_barrier_if_ready ok sub W) = w_log W \<or>
        (\<exists>x y. w_log (publish_subtask_barrier_if_ready ok sub W) = w_log W @ [StoreMessage main x, PublishEvent SUBTASK_COMPLETED main y ''subtask_barrier''])"
    using assms(2) by (auto simp: publish_subtask_barrier_if_ready_def barrier_store_def dest!: barrier_check_Some split: option.splits)
  then have "PublishEvent USER_MESSAGE_RECEIVED sid p src \<notin> set (drop (length (w_log W)) (w_log (publish_subtask_barrier_if_ready ok sub W)))"
    by auto
  then show ?thesis
    using assms(1-3) m by (simp add: assms(4) report_subtask_done_def Let_def)
qed

lemma publish_keeps [simp]:
  "records (the_state k (publish_subtask_barrier_if_ready ok sub W)) = records (the_state k W)"
  "sub_session_cancel_requested (w_globals (publish_subtask_barrier_if_ready ok sub W)) = sub_session_cancel_requested (w_globals W)"
  "is_terminal (the_state k (publish_subtask_barrier_if_ready ok sub W)) j = is_terminal (the_state k W) j"
  by (auto simp: publish_subtask_barrier_if_ready_def is_terminal_def barrier_finish_def barrier_store_def
      with_state_def act_def put_subtask_state_def the_state_def get_or_create_subtask_state_def
      split: option.splits)

lemma cancel_keeps [simp]:
  "sub_session_cancel_requested (w_globals (act a W)) = sub_session_cancel_requested (w_globals W)"
  "sub_session_cancel_requested (w_globals (with_state m f W)) = sub_session_cancel_requested (w_globals W)"
  "sub_session_cancel_requested (w_globals (snapshot g m W)) = sub_session_cancel_requested (w_globals W)"
  by (simp_all add: act_def with_state_def put_subtask_state_def snapshot_def)

text \<open> Killing is precise: \<open>kill_subtask\<close> changes anything only when its argument names, exactly or by
  unique prefix, a task of this main session that is running; then that task is cancelled, its
  cancellation is requested, and the other tasks keep their records.\<close>

theorem kill_subtask_precise:
  "snd (kill_subtask rt args main db_ok has_gateway has_planner W) = W \<or>
   (\<exists>k r. resolve_task_id (the_state main W) (str_arg rt args ''sub_session_id'') = Some k \<and>
      dget (records (the_state main W)) k = Some r \<and> py_startswith (st_status r) ''running'' \<and>
      (let W' = snd (kill_subtask rt args main db_ok has_gateway has_planner W) in
       is_terminal (the_state main W') k \<and>
       is_sub_session_cancel_requested (w_globals W') k \<and>
       (\<forall>j. j \<noteq> k \<longrightarrow> dget (records (the_state main W')) j = dget (records (the_state main W)) j)))"
proof -
  let ?W' = "snd (kill_subtask rt args main db_ok has_gateway has_planner W)"
  let ?p = "str_arg rt args ''sub_session_id''" and ?s = "the_state main W"
  let ?hit = "\<lambda>k r. resolve_task_id ?s ?p = Some k \<and> k \<noteq> [] \<and> dget (records ?s) k = Some r \<and>
      py_startswith (st_status r) ''running'' \<and> ?p \<noteq> []"
  have miss: "?W' = W" if "\<nexists>k r. ?hit k r"
    using that unfolding kill_subtask_def Let_def get_record_def by (auto split: option.splits)
  show ?thesis
  proof (cases "\<exists>k r. ?hit k r")
    case True
    then obtain k r where 2: "resolve_task_id ?s ?p = Some k" "k \<noteq> []" "dget (records ?s) k = Some r"
      "py_startswith (st_status r) ''running''" "?p \<noteq> []" by blast
    let ?W2 = "with_state main (\<lambda>s. snd (mark_terminal k ''cancelled'' ''Cancelled by user request.'' s))
        (W\<lparr>w_globals := request_sub_session_cancel k (w_globals W)\<rparr>)"
    have "\<not> is_terminal_status (st_status r)" using 2(4) by (rule running_not_terminal)
    then have mt: "is_terminal (snd (mark_terminal k ''cancelled'' ''Cancelled by user request.'' ?s)) k"
      using 2(3) by (simp add: mark_terminal_def is_terminal_def)
    have c: "k \<in> sub_session_cancel_requested (request_sub_session_cancel k (w_globals W))"
      using 2(2) by (simp add: request_sub_session_cancel_def)
    have W': "\<exists>W3. records (the_state main W3) = records (the_state main ?W2) \<and>
        sub_session_cancel_requested (w_globals W3) = sub_session_cancel_requested (w_globals ?W2) \<and>
        ?W' = (if has_planner then publish_subtask_barrier_if_ready db_ok k W3 else W3)"
      using 2 by (intro exI [of _ "snapshot has_gateway main (if db_ok then act (StoreStatus k ''cancelled'') ?W2 else ?W2)"])
        (simp add: kill_subtask_def Let_def get_record_def)
    then obtain W3 where W3: "records (the_state main W3) = records (the_state main ?W2)"
      "sub_session_cancel_requested (w_globals W3) = sub_session_cancel_requested (w_globals ?W2)"
      "?W' = (if has_planner then publish_subtask_barrier_if_ready db_ok k W3 else W3)" by blast
    have r': "records (the_state main ?W') = records (snd (mark_terminal k ''cancelled'' ''Cancelled by user request.'' ?s))"
      using W3(1) by (simp add: W3(3))
    have "is_terminal (the_state main ?W') k" using mt r' by (simp add: is_terminal_def)
    moreover have "is_sub_session_cancel_requested (w_globals ?W') k"
      using W3(2) c 2(2) by (simp add: W3(3) is_sub_session_cancel_requested_def)
    ultimately show ?thesis using 2 r' mark_terminal_other [of _ k "''cancelled''" _ ?s] by (auto simp: Let_def)
  qed (use miss in blast)
qed


section \<open>Witnesses\<close>

definition demo_world :: "subtask_state \<Rightarrow> world" where
  "demo_world s = \<lparr>w_globals = \<lparr>session_locks = {}, subtask_states = [(''m'', s)],
      sub_session_to_main = [(''a1'', ''m''), (''b2'', ''m'')], sub_session_cancel_requested = {}\<rparr>, w_log = []\<rparr>"

lemma demo_world_simps [simp]:
  "the_state ''m'' (demo_world s) = s" "main_of (demo_world s) ''a1'' = Some ''m''" "main_of (demo_world s) ''b2'' = Some ''m''"
  "w_log (demo_world s) = []"
  by (simp_all add: demo_world_def the_state_def get_or_create_subtask_state_def main_of_def get_main_session_by_sub_session_def)

lemma demo_due: "is_all_subtasks_terminal demo_subtasks" "\<not> has_aggregation_emitted demo_subtasks"
  "barrier_blocks demo_subtasks \<noteq> []"
proof -
  show "is_all_subtasks_terminal demo_subtasks"
    using demo_subtasks_eval by (simp add: is_all_subtasks_terminal_def all_terminal_def list_records_def is_terminal_status_def TERMINAL_STATUSES_def)
  show "\<not> has_aggregation_emitted demo_subtasks"
    by (simp add: has_aggregation_emitted_def subtask_eval)
  show "barrier_blocks demo_subtasks \<noteq> []"
    using demo_subtasks_eval
    by (simp add: barrier_blocks_def get_aggregated_subtask_results_def get_current_batch_records_def list_records_def
        aggregate_step_def map_filter_simps Let_def)
qed


theorem barrier_silent_iff_witness:
  "\<exists>r \<in> set (get_current_batch_records demo_subtasks). st_summary r \<noteq> []"
  using barrier_silent_iff [OF demo_subtasks_reachable] demo_due(3) by blast

lemma demo_check: "\<exists>m agg. barrier_check ''a1'' (demo_world demo_subtasks) = Some (''m'', m, agg) \<and>
    barrier_check ''b2'' (demo_world demo_subtasks) = Some (''m'', m, agg)"
  using demo_due by (simp add: barrier_check_def)

theorem barrier_race_loses_batch_witness:
  "\<exists>m agg. barrier_check ''a1'' (demo_world demo_subtasks) = Some (''m'', m, agg) \<and>
     (let W2 = barrier_finish ''m'' ''a1'' agg (with_state ''m'' (register_task ''c3'' ''i'' 9) (barrier_store ''m'' m (demo_world demo_subtasks)))
      in has_aggregation_emitted (the_state ''m'' W2) \<and> \<not> is_terminal (the_state ''m'' W2) ''c3'')"
proof -
  obtain m agg where c: "barrier_check ''a1'' (demo_world demo_subtasks) = Some (''m'', m, agg)" using demo_check by blast
  then show ?thesis
    using barrier_race_loses_batch [OF c refl, of "''c3''" "''i''" 9 "''a1''"] by (auto simp: Let_def)
qed

theorem barrier_race_duplicates_witness:
  "\<exists>m agg W'. barrier_check ''a1'' (demo_world demo_subtasks) = Some (''m'', m, agg) \<and>
     W' = barrier_finish ''m'' ''b2'' agg (barrier_store ''m'' m (barrier_finish ''m'' ''a1'' agg (barrier_store ''m'' m (demo_world demo_subtasks)))) \<and>
     length (filter (\<lambda>a. a = StoreMessage ''m'' m) (w_log W')) = 2"
proof -
  obtain m agg where c: "barrier_check ''a1'' (demo_world demo_subtasks) = Some (''m'', m, agg)"
    "barrier_check ''b2'' (demo_world demo_subtasks) = Some (''m'', m, agg)" using demo_check by blast
  have "w_log (demo_world demo_subtasks) = []" by (simp add: demo_world_def)
  with c(1) barrier_race_duplicates [OF c] show ?thesis by auto
qed

theorem failure_notified_once_witness:
  "length (w_log (notify_main_session_subtask_failure True ''a1'' ''x'' ''failed''
     (notify_main_session_subtask_failure True ''a1'' ''boom'' ''failed'' (demo_world new_subtask_state)))) = 2"
  unfolding failure_notified_once [of "''a1''" "''failed''", simplified]
  by (simp add: notify_main_session_subtask_failure_def has_immediate_failure_notified_def new_subtask_state_def Let_def)

theorem terminal_subtask_is_final_witness:
  "fst (report_subtask_done null_runtime [(''summary'', JStr ''late'')] ''a1'' True True True (demo_world demo_subtasks))
     = ''Sub-task a1 already in terminal state.''"
proof -
  have t: "is_sub_session_terminal (demo_world demo_subtasks) ''a1''"
    using demo_subtasks_eval by (simp add: is_sub_session_terminal_def is_terminal_def is_terminal_status_def TERMINAL_STATUSES_def)
  have a: "str_arg null_runtime [(''summary'', JStr ''late'')] ''summary'' \<noteq> []"
    by (simp add: str_arg_def py_strip_id is_space_def)
  show ?thesis using terminal_subtask_is_final [OF t _ a refl] by simp
qed

theorem kill_subtask_precise_witness:
  "is_terminal (the_state ''m'' (snd (kill_subtask null_runtime [(''sub_session_id'', JStr ''a1'')] ''m'' False False False
     (demo_world (register_task ''a1'' ''i'' 0 new_subtask_state))))) ''a1''"
proof -
  let ?s = "register_task ''a1'' ''i'' 0 new_subtask_state"
  let ?W' = "snd (kill_subtask null_runtime [(''sub_session_id'', JStr ''a1'')] ''m'' False False False (demo_world ?s))"
  have p: "str_arg null_runtime [(''sub_session_id'', JStr ''a1'')] ''sub_session_id'' = ''a1''" by code_simp
  have r: "resolve_task_id ?s ''a1'' = Some ''a1'' \<and> map_option st_status (get_record ?s ''a1'') = Some ''running''" by code_simp
  then have "''a1'' \<in> sub_session_cancel_requested (w_globals ?W')"
    by (auto simp: kill_subtask_def p Let_def request_sub_session_cancel_def py_startswith_def)
  then have "?W' \<noteq> demo_world ?s" by (auto simp: demo_world_def)
  with kill_subtask_precise [of null_runtime "[(''sub_session_id'', JStr ''a1'')]" "''m''" False False False "demo_world ?s"] p r
  show ?thesis by (auto simp: Let_def)
qed

end
