(* ===== verification/Timers.thy ===== *)
theory Timers
  imports Prelude "HOL-Library.Multiset"
begin

text \<open>
  Timer jobs: the cron expressions of \<^verbatim>\<open>core/runtime/timer_models.py\<close>, the store of
  \<^verbatim>\<open>core/runtime/timer_runtime_store.py\<close> and \<open>TimerJobRepository\<close> of
  \<^verbatim>\<open>infrastructure/database/repository.py\<close>.

  Times are milliseconds since the epoch. \<open>system_timezone()\<close> is a fixed offset in seconds, an
  argument. The calendar (\<open>datetime.day\<close>, \<open>month\<close>, \<open>weekday()\<close>) is written out on days since the
  epoch. The table of jobs is the list of its rows in insertion order; a row's key comes from the
  caller.
\<close>

section \<open>Digits\<close>

text \<open>
  \<open>str.isdigit\<close> accepts the superscripts (178, 179 and 185 in Latin-1) as well, and \<open>int()\<close> then
  raises \<open>ValueError\<close>, as it does for more than 4300 digits.
\<close>

definition py_is_digit_char :: "char \<Rightarrow> bool" where
  "py_is_digit_char c = (let n = (of_char c :: nat) in 48 \<le> n \<and> n \<le> 57 \<or> n \<in> {178, 179, 185})"

definition py_isdigit :: "string \<Rightarrow> bool" where
  "py_isdigit s \<longleftrightarrow> s \<noteq> [] \<and> list_all py_is_digit_char s"

definition ascii_digit :: "char \<Rightarrow> bool" where
  "ascii_digit c = (let n = (of_char c :: nat) in 48 \<le> n \<and> n \<le> 57)"

definition int_of_digits :: "string \<Rightarrow> int" where
  "int_of_digits s = foldl (\<lambda>n c. 10 * n + (int (of_char c) - 48)) 0 s"

definition py_int_digits :: "string \<Rightarrow> int res" where
  "py_int_digits s = (if s \<noteq> [] \<and> list_all ascii_digit s \<and> length s \<le> 4300 then Inr (int_of_digits s) else Inl ValueError)"

section \<open>Cron expressions\<close>

definition is_int_in_range :: "string \<Rightarrow> int \<Rightarrow> int \<Rightarrow> bool res" where
  "is_int_in_range v lo hi =
     (if \<not> py_isdigit v then Inr False else res_bind (py_int_digits v) (\<lambda>iv. Inr (lo \<le> iv \<and> iv \<le> hi)))"

definition parse_range :: "string \<Rightarrow> int \<Rightarrow> int \<Rightarrow> (int \<times> int) option res" where
  "parse_range v lo hi =
     (let (left, right) = py_split1 CHR ''-'' v
      in res_bind (is_int_in_range left lo hi) (\<lambda>l.
         if \<not> l then Inr None
         else res_bind (is_int_in_range right lo hi) (\<lambda>r.
           if \<not> r then Inr None
           else res_bind (py_int_digits left) (\<lambda>a. res_bind (py_int_digits right) (\<lambda>b.
             Inr (if a > b then None else Some (a, b)))))))"

text \<open>A field's verdict is \<open>None\<close> when it is valid and the error text otherwise.\<close>

definition validate_chunk :: "int \<Rightarrow> int \<Rightarrow> string \<Rightarrow> string \<Rightarrow> string option res" where
  "validate_chunk lo hi field chunk =
     (if chunk = [] then Inr (Some (field @ '' field has empty chunk.''))
      else if chunk = ''*'' then Inr None
      else if CHR ''/'' \<in> set chunk then
        (let (base, step_text) = py_split1 CHR ''/'' chunk;
             bad_step = Inr (Some (field @ '' step must be a positive integer.''))
         in if \<not> py_isdigit step_text then bad_step
            else res_bind (py_int_digits step_text) (\<lambda>step.
              if step \<le> 0 then bad_step
              else if base = ''*'' then Inr None
              else if CHR ''-'' \<in> set base
              then res_bind (parse_range base lo hi) (\<lambda>r.
                     Inr (if r = None then Some (field @ '' range is invalid: '' @ base) else None))
              else res_bind (is_int_in_range base lo hi) (\<lambda>ok.
                     Inr (if ok then None else Some (field @ '' value out of range: '' @ base)))))
      else if CHR ''-'' \<in> set chunk
      then res_bind (parse_range chunk lo hi) (\<lambda>r.
             Inr (if r = None then Some (field @ '' range is invalid: '' @ chunk) else None))
      else res_bind (is_int_in_range chunk lo hi) (\<lambda>ok.
             Inr (if ok then None else Some (field @ '' value out of range: '' @ chunk))))"

fun validate_chunks :: "int \<Rightarrow> int \<Rightarrow> string \<Rightarrow> string list \<Rightarrow> string option res" where
  "validate_chunks lo hi field [] = Inr None"
| "validate_chunks lo hi field (c # cs) =
     res_bind (validate_chunk lo hi field (py_strip c)) (\<lambda>e.
       case e of Some err \<Rightarrow> Inr (Some err) | None \<Rightarrow> validate_chunks lo hi field cs)"

definition validate_field :: "string \<Rightarrow> int \<Rightarrow> int \<Rightarrow> string \<Rightarrow> string option res" where
  "validate_field token lo hi field =
     (let normalized = py_strip token
      in if normalized = [] then Inr (Some (field @ '' field is empty.''))
         else validate_chunks lo hi field (py_split CHR '','' normalized))"

text \<open>One round of the loop of \<open>_matches_field\<close>: does this chunk match?\<close>

definition matches_chunk :: "int \<Rightarrow> int \<Rightarrow> int \<Rightarrow> string \<Rightarrow> bool res" where
  "matches_chunk value lo hi chunk =
     (if chunk = ''*'' then Inr True
      else if CHR ''/'' \<in> set chunk then
        (let (base, step_text) = py_split1 CHR ''/'' chunk
         in res_bind (py_int_digits step_text) (\<lambda>step.
              let divides = (\<lambda>x. if step = 0 then Inl ZeroDivisionError else Inr (x mod step = 0))
              in if base = ''*'' then divides (value - lo)
                 else if CHR ''-'' \<in> set base
                 then res_bind (parse_range base lo hi) (\<lambda>r. case r of
                        None \<Rightarrow> Inr False
                      | Some (a, b) \<Rightarrow> if a \<le> value \<and> value \<le> b then divides (value - a) else Inr False)
                 else res_bind (is_int_in_range base lo hi) (\<lambda>ok.
                        if ok then res_bind (py_int_digits base) (\<lambda>v. if value \<ge> v then divides (value - v) else Inr False)
                        else Inr False)))
      else if CHR ''-'' \<in> set chunk
      then res_bind (parse_range chunk lo hi) (\<lambda>r. case r of
             None \<Rightarrow> Inr False | Some (a, b) \<Rightarrow> Inr (a \<le> value \<and> value \<le> b))
      else res_bind (is_int_in_range chunk lo hi) (\<lambda>ok.
             if ok then res_bind (py_int_digits chunk) (\<lambda>v. Inr (v = value)) else Inr False))"

fun matches_chunks :: "int \<Rightarrow> int \<Rightarrow> int \<Rightarrow> string list \<Rightarrow> bool res" where
  "matches_chunks value lo hi [] = Inr False"
| "matches_chunks value lo hi (c # cs) =
     res_bind (matches_chunk value lo hi (py_strip c)) (\<lambda>m. if m then Inr True else matches_chunks value lo hi cs)"

definition matches_field :: "int \<Rightarrow> string \<Rightarrow> int \<Rightarrow> int \<Rightarrow> bool res" where
  "matches_field value token lo hi = matches_chunks value lo hi (py_split CHR '','' token)"

definition cron_fields :: "string \<Rightarrow> string list" where
  "cron_fields expr = map py_strip (py_split_ws (py_strip expr))"

definition parse_cron_5 :: "string \<Rightarrow> string option res" where
  "parse_cron_5 expr = (case cron_fields expr of
      [mi, h, d, mo, w] \<Rightarrow>
        res_bind (validate_field mi 0 59 ''minute'') (\<lambda>e1. if e1 \<noteq> None then Inr e1 else
        res_bind (validate_field h 0 23 ''hour'') (\<lambda>e2. if e2 \<noteq> None then Inr e2 else
        res_bind (validate_field d 1 31 ''day'') (\<lambda>e3. if e3 \<noteq> None then Inr e3 else
        res_bind (validate_field mo 1 12 ''month'') (\<lambda>e4. if e4 \<noteq> None then Inr e4 else
        validate_field w 0 6 ''weekday''))))
    | _ \<Rightarrow> Inr (Some ''cron_expr must contain exactly 5 fields: minute hour day month weekday.''))"

section \<open>Calendar\<close>

text \<open>Month and day of a day count since 1970-01-01 in the proleptic Gregorian calendar.\<close>

definition civil_of_days :: "int \<Rightarrow> int \<times> int" where
  "civil_of_days d =
     (let doe = (d + 719468) mod 146097;
          yoe = (doe - doe div 1460 + doe div 36524 - doe div 146096) div 365;
          doy = doe - (365 * yoe + yoe div 4 - yoe div 100);
          mp = (5 * doy + 2) div 153
      in (if mp < 10 then mp + 3 else mp - 9, doy - (153 * mp + 2) div 5 + 1))"

definition py_weekday :: "int \<Rightarrow> int" where
  "py_weekday d = (d + 3) mod 7"

text \<open>The cursor is a minute count since the epoch, in local time.\<close>

definition cursor_matches :: "string list \<Rightarrow> int \<Rightarrow> bool res" where
  "cursor_matches toks cursor =
     (let day_index = cursor div 1440; (month, day) = civil_of_days day_index
      in case toks of
           [mi, h, d, mo, w] \<Rightarrow>
             res_bind (matches_field (cursor mod 60) mi 0 59) (\<lambda>b1. if \<not> b1 then Inr False else
             res_bind (matches_field ((cursor div 60) mod 24) h 0 23) (\<lambda>b2. if \<not> b2 then Inr False else
             res_bind (matches_field day d 1 31) (\<lambda>b3. if \<not> b3 then Inr False else
             res_bind (matches_field month mo 1 12) (\<lambda>b4. if \<not> b4 then Inr False else
             matches_field (py_weekday day_index) w 0 6))))
         | _ \<Rightarrow> Inr False)"

fun scan :: "nat \<Rightarrow> (int \<Rightarrow> bool res) \<Rightarrow> int \<Rightarrow> int option res" where
  "scan 0 p cursor = Inr None"
| "scan (Suc n) p cursor = res_bind (p cursor) (\<lambda>b. if b then Inr (Some cursor) else scan n p (cursor + 1))"

definition MAX_MINUTES_SCAN :: int where
  "MAX_MINUTES_SCAN = 60 * 24 * 366"

definition start_cursor :: "int \<Rightarrow> int \<Rightarrow> int" where
  "start_cursor off now = (now + off * 1000) div 60000 + 1"

definition cursor_time :: "int \<Rightarrow> int \<Rightarrow> int" where
  "cursor_time off cursor = cursor * 60000 - off * 1000"

definition next_fire_at_for_cron :: "int \<Rightarrow> string \<Rightarrow> int \<Rightarrow> int \<Rightarrow> int option res" where
  "next_fire_at_for_cron off expr now max_minutes_scan =
     (let toks = cron_fields expr
      in if length toks \<noteq> 5 then Inr None
         else res_bind (scan (nat (max 1 max_minutes_scan)) (cursor_matches toks) (start_cursor off now))
                (\<lambda>r. Inr (map_option (cursor_time off) r)))"

section \<open>Jobs\<close>

record timer_job =
  tj_id :: string
  tj_owner :: string
  tj_creator :: string
  tj_mode :: string
  tj_cron :: "string option"
  tj_interval :: "int option"
  tj_payload :: string
  tj_status :: string
  tj_next_fire :: int
  tj_deadline :: "int option"
  tj_max_runs :: "int option"
  tj_run_count :: int
  tj_failure_count :: int
  tj_last_error :: "string option"
  tj_claimed_by :: "string option"
  tj_claimed_at :: "int option"
  tj_active :: bool
  tj_created :: int
  tj_updated :: int

type_synonym job_table = "timer_job list"

definition repo_get :: "string \<Rightarrow> job_table \<Rightarrow> timer_job option" where
  "repo_get job_id tbl = find (\<lambda>r. tj_id r = job_id) tbl"

definition repo_update :: "string \<Rightarrow> (timer_job \<Rightarrow> timer_job) \<Rightarrow> job_table \<Rightarrow> job_table" where
  "repo_update job_id f tbl = map (\<lambda>r. if tj_id r = job_id then f r else r) tbl"

definition repo_create ::
  "string \<Rightarrow> string \<Rightarrow> string \<Rightarrow> string \<Rightarrow> int \<Rightarrow> string \<Rightarrow> string option \<Rightarrow> int option \<Rightarrow> int option \<Rightarrow> int option \<Rightarrow> int
   \<Rightarrow> job_table \<Rightarrow> timer_job \<times> job_table" where
  "repo_create job_id owner creator mode next_fire payload cron interval deadline max_runs now tbl =
     (let r = \<lparr>tj_id = job_id, tj_owner = owner, tj_creator = creator, tj_mode = mode, tj_cron = cron,
               tj_interval = interval, tj_payload = payload, tj_status = ''pending'', tj_next_fire = next_fire,
               tj_deadline = deadline, tj_max_runs = max_runs, tj_run_count = 0, tj_failure_count = 0,
               tj_last_error = None, tj_claimed_by = None, tj_claimed_at = None, tj_active = True,
               tj_created = now, tj_updated = now\<rparr>
      in (r, tbl @ [r]))"

definition repo_list_jobs :: "string \<Rightarrow> string option \<Rightarrow> string list option \<Rightarrow> int \<Rightarrow> job_table \<Rightarrow> job_table" where
  "repo_list_jobs owner creator statuses limit tbl =
     (let t1 = filter (\<lambda>r. tj_owner r = owner) tbl;
          t2 = (case creator of Some (c # cs) \<Rightarrow> filter (\<lambda>r. tj_creator r = c # cs) t1 | _ \<Rightarrow> t1);
          t3 = (case statuses of
                  None \<Rightarrow> t2
                | Some ss \<Rightarrow> (let ns = filter (\<lambda>s. py_strip s \<noteq> []) ss
                             in if ns = [] then t2 else filter (\<lambda>r. tj_status r \<in> set ns) t2))
      in take (nat (max 1 limit)) (sort_key (\<lambda>r. - tj_created r) t3))"

definition claimable :: "int \<Rightarrow> int \<Rightarrow> timer_job \<Rightarrow> bool" where
  "claimable now stale_at r \<longleftrightarrow>
     tj_active r \<and> tj_status r \<in> {''pending'', ''running''} \<and> tj_next_fire r \<le> now \<and>
     (case tj_claimed_at r of None \<Rightarrow> True | Some c \<Rightarrow> c \<le> stale_at)"

definition claim :: "int \<Rightarrow> string \<Rightarrow> timer_job \<Rightarrow> timer_job" where
  "claim now worker r = r\<lparr>tj_claimed_by := Some worker, tj_claimed_at := Some now,
     tj_status := (if tj_status r = ''pending'' then ''running'' else tj_status r), tj_updated := now\<rparr>"

definition repo_claim_due_jobs :: "int \<Rightarrow> string \<Rightarrow> int \<Rightarrow> int \<Rightarrow> job_table \<Rightarrow> job_table \<times> job_table" where
  "repo_claim_due_jobs now worker limit stale_after tbl =
     (let stale_at = now - max 1 stale_after * 1000;
          rows = take (nat (max 1 limit)) (sort_key tj_next_fire (filter (claimable now stale_at) tbl));
          ids = map tj_id rows
      in (map (claim now worker) rows, map (\<lambda>r. if tj_id r \<in> set ids then claim now worker r else r) tbl))"

definition after_run :: "int \<Rightarrow> int option \<Rightarrow> bool \<Rightarrow> string option \<Rightarrow> string option \<Rightarrow> timer_job \<Rightarrow> timer_job" where
  "after_run now next_fire success terminal_status last_error r =
     (let err = (case last_error of None \<Rightarrow> [] | Some e \<Rightarrow> py_strip e);
          r1 = r\<lparr>tj_run_count := tj_run_count r + 1,
                 tj_failure_count := (if success then 0 else tj_failure_count r + 1),
                 tj_last_error := (if err = [] then None else Some err),
                 tj_claimed_by := None, tj_claimed_at := None\<rparr>;
          r2 = (case terminal_status of
                  Some st \<Rightarrow> r1\<lparr>tj_status := st, tj_active := False\<rparr>
                | None \<Rightarrow> (case next_fire of
                             None \<Rightarrow> r1\<lparr>tj_status := ''completed'', tj_active := False\<rparr>
                           | Some t \<Rightarrow> r1\<lparr>tj_status := ''running'', tj_next_fire := t\<rparr>));
          past_deadline = (case tj_deadline r2 of None \<Rightarrow> False | Some d \<Rightarrow> d \<le> now);
          r3 = (if past_deadline \<and> tj_active r2 then r2\<lparr>tj_status := ''completed'', tj_active := False\<rparr> else r2);
          exhausted = (case tj_max_runs r3 of None \<Rightarrow> False | Some m \<Rightarrow> tj_run_count r3 \<ge> m);
          r4 = (if exhausted \<and> tj_active r3 then r3\<lparr>tj_status := ''completed'', tj_active := False\<rparr> else r3)
      in r4\<lparr>tj_updated := now\<rparr>)"

definition repo_update_after_run ::
  "string \<Rightarrow> int \<Rightarrow> int option \<Rightarrow> bool \<Rightarrow> string option \<Rightarrow> string option \<Rightarrow> job_table \<Rightarrow> timer_job option \<times> job_table" where
  "repo_update_after_run job_id now next_fire success terminal_status last_error tbl =
     (case repo_get job_id tbl of
        None \<Rightarrow> (None, tbl)
      | Some r \<Rightarrow> (let f = after_run now next_fire success terminal_status last_error
                  in (Some (f r), repo_update job_id f tbl)))"

definition cancelled :: "int \<Rightarrow> timer_job \<Rightarrow> timer_job" where
  "cancelled now r = r\<lparr>tj_status := ''cancelled'', tj_active := False, tj_claimed_by := None,
     tj_claimed_at := None, tj_updated := now\<rparr>"

definition repo_cancel :: "string \<Rightarrow> int \<Rightarrow> job_table \<Rightarrow> timer_job option \<times> job_table" where
  "repo_cancel job_id now tbl = (case repo_get job_id tbl of
      None \<Rightarrow> (None, tbl)
    | Some r \<Rightarrow> (Some (cancelled now r), repo_update job_id (cancelled now) tbl))"

section \<open>The store\<close>

text \<open>\<open>resolve_owner_session_id\<close>, on the session's metadata and its route's parent.\<close>

definition resolve_owner_session_id :: "py_runtime \<Rightarrow> json_object option \<Rightarrow> string option \<Rightarrow> string \<Rightarrow> string" where
  "resolve_owner_session_id rt meta route_parent creator = (case meta of
      None \<Rightarrow> creator
    | Some m \<Rightarrow>
        (let p = py_strip (py_str rt (py_or (obj_get m ''parent_session_id'') (JStr [])))
         in if p \<noteq> [] then p
            else (case route_parent of Some (c # cs) \<Rightarrow> c # cs | _ \<Rightarrow> creator)))"

text \<open>The outcome of \<open>create_job\<close>: an exception, a refusal with its text, or the job.\<close>

definition create_job ::
  "int \<Rightarrow> string \<Rightarrow> string \<Rightarrow> string \<Rightarrow> string \<Rightarrow> string option \<Rightarrow> string option \<Rightarrow> int option \<Rightarrow> int option \<Rightarrow> int option
   \<Rightarrow> int option \<Rightarrow> int \<Rightarrow> job_table \<Rightarrow> (string + timer_job \<times> job_table) res" where
  "create_job off job_id owner creator mode payload cron_expr interval start_delay deadline max_runs now tbl =
     (let m = py_lower (py_strip mode);
          delay = max 0 (case start_delay of None \<Rightarrow> 0 | Some d \<Rightarrow> d);
          deadline_at = map_option (\<lambda>d. now + d * 1000) deadline;
          payload' = (case payload of None \<Rightarrow> [] | Some p \<Rightarrow> p)
      in if m \<notin> {''heartbeat'', ''cron''} then Inr (Inl ''mode must be heartbeat or cron.'')
         else if owner = [] then Inr (Inl (''Cannot resolve owner session for creator session '' @ replicate 2 (char_of (39::nat)) @ ''.''))
         else if (case deadline of Some d \<Rightarrow> d \<le> 0 | None \<Rightarrow> False) then Inr (Inl ''deadline_seconds must be > 0 when provided.'')
         else if (case max_runs of Some n \<Rightarrow> n \<le> 0 | None \<Rightarrow> False) then Inr (Inl ''max_runs must be > 0 when provided.'')
         else if m = ''heartbeat'' then
           (let iv = (case interval of None \<Rightarrow> 0 | Some i \<Rightarrow> i)
            in if iv < 2 then Inr (Inl ''heartbeat interval_seconds must be >= 2.'')
               else Inr (Inr (repo_create job_id owner creator m
                      (now + max 1 (if delay \<noteq> 0 then delay else iv) * 1000) payload' None (Some iv) deadline_at max_runs now tbl)))
         else
           (let cron = py_strip (case cron_expr of None \<Rightarrow> [] | Some c \<Rightarrow> c)
            in res_bind (parse_cron_5 cron) (\<lambda>err. case err of
                 Some e \<Rightarrow> Inr (Inl (if e = [] then ''invalid cron expression.'' else e))
               | None \<Rightarrow> res_bind (next_fire_at_for_cron off cron (now + delay * 1000) MAX_MINUTES_SCAN) (\<lambda>nf. case nf of
                   None \<Rightarrow> Inr (Inl ''cron expression has no upcoming fire time in scan window.'')
                 | Some t \<Rightarrow> Inr (Inr (repo_create job_id owner creator m t payload' (Some cron) None deadline_at max_runs now tbl))))))"

definition store_claim_due_jobs :: "int \<Rightarrow> string \<Rightarrow> int \<Rightarrow> job_table \<Rightarrow> job_table \<times> job_table" where
  "store_claim_due_jobs now worker limit tbl = repo_claim_due_jobs now worker limit 120 tbl"

definition terminal_after_run :: "int \<Rightarrow> bool \<Rightarrow> timer_job \<Rightarrow> string option" where
  "terminal_after_run now success r =
     (let t0 = (if (case tj_deadline r of None \<Rightarrow> False | Some d \<Rightarrow> d \<le> now) then Some ''completed'' else None);
          t1 = (if (case tj_max_runs r of None \<Rightarrow> False | Some m \<Rightarrow> tj_run_count r + 1 \<ge> m) then Some ''completed'' else t0)
      in if \<not> success \<and> tj_failure_count r + 1 \<ge> 3 then Some ''failed'' else t1)"

definition mark_job_result ::
  "int \<Rightarrow> string \<Rightarrow> bool \<Rightarrow> string option \<Rightarrow> int \<Rightarrow> job_table \<Rightarrow> (timer_job option \<times> job_table) res" where
  "mark_job_result off job_id success error_message now tbl = (case repo_get job_id tbl of
      None \<Rightarrow> Inr (None, tbl)
    | Some r \<Rightarrow> (case terminal_after_run now success r of
        Some st \<Rightarrow> Inr (repo_update_after_run job_id now None success (Some st) error_message tbl)
      | None \<Rightarrow>
          (if tj_mode r = ''heartbeat''
           then (let iv = max 2 (case tj_interval r of None \<Rightarrow> 2 | Some i \<Rightarrow> if i = 0 then 2 else i)
                 in Inr (repo_update_after_run job_id now (Some (now + iv * 1000)) success None error_message tbl))
           else res_bind (next_fire_at_for_cron off (py_strip (case tj_cron r of None \<Rightarrow> [] | Some c \<Rightarrow> c)) now MAX_MINUTES_SCAN) (\<lambda>nf.
             case nf of
               Some t \<Rightarrow> Inr (repo_update_after_run job_id now (Some t) success None error_message tbl)
             | None \<Rightarrow> Inr (repo_update_after_run job_id now None success (Some ''failed'')
                 (case error_message of Some (c # cs) \<Rightarrow> Some (c # cs) | _ \<Rightarrow> Some ''cron expression has no upcoming fire time.'') tbl)))))"

section \<open>What a field means\<close>

text \<open>The reference semantics of a cron field: a list of constraints on the value.\<close>

datatype cron_item =
    Any
  | Every int
  | Between int int
  | BetweenEvery int int int
  | Exactly int
  | FromEvery int int

definition number_in :: "int \<Rightarrow> int \<Rightarrow> string \<Rightarrow> int option" where
  "number_in lo hi s =
     (if s \<noteq> [] \<and> list_all ascii_digit s \<and> length s \<le> 4300 \<and> lo \<le> int_of_digits s \<and> int_of_digits s \<le> hi
      then Some (int_of_digits s) else None)"

definition range_in :: "int \<Rightarrow> int \<Rightarrow> string \<Rightarrow> (int \<times> int) option" where
  "range_in lo hi s =
     (let (l, r) = py_split1 CHR ''-'' s
      in case (number_in lo hi l, number_in lo hi r) of
           (Some a, Some b) \<Rightarrow> if a \<le> b then Some (a, b) else None
         | _ \<Rightarrow> None)"

definition parse_item :: "int \<Rightarrow> int \<Rightarrow> string \<Rightarrow> cron_item option" where
  "parse_item lo hi s =
     (if s = ''*'' then Some Any
      else if CHR ''/'' \<in> set s then
        (let (base, st) = py_split1 CHR ''/'' s
         in if st \<noteq> [] \<and> list_all ascii_digit st \<and> length st \<le> 4300 \<and> int_of_digits st > 0
            then (if base = ''*'' then Some (Every (int_of_digits st))
                  else if CHR ''-'' \<in> set base
                  then map_option (\<lambda>(a, b). BetweenEvery a b (int_of_digits st)) (range_in lo hi base)
                  else map_option (\<lambda>v. FromEvery v (int_of_digits st)) (number_in lo hi base))
            else None)
      else if CHR ''-'' \<in> set s then map_option (\<lambda>(a, b). Between a b) (range_in lo hi s)
      else map_option Exactly (number_in lo hi s))"

fun item_holds :: "int \<Rightarrow> int \<Rightarrow> cron_item \<Rightarrow> bool" where
  "item_holds lo v Any = True"
| "item_holds lo v (Every n) = ((v - lo) mod n = 0)"
| "item_holds lo v (Between a b) = (a \<le> v \<and> v \<le> b)"
| "item_holds lo v (BetweenEvery a b n) = (a \<le> v \<and> v \<le> b \<and> (v - a) mod n = 0)"
| "item_holds lo v (Exactly a) = (v = a)"
| "item_holds lo v (FromEvery a n) = (a \<le> v \<and> (v - a) mod n = 0)"

definition field_items :: "int \<Rightarrow> int \<Rightarrow> string \<Rightarrow> cron_item option list" where
  "field_items lo hi token = map (\<lambda>c. parse_item lo hi (py_strip c)) (py_split CHR '','' token)"

definition field_holds :: "int \<Rightarrow> int \<Rightarrow> int \<Rightarrow> string \<Rightarrow> bool" where
  "field_holds lo hi v token = list_ex (\<lambda>i. case i of Some c \<Rightarrow> item_holds lo v c | None \<Rightarrow> False) (field_items lo hi token)"

definition field_valid :: "int \<Rightarrow> int \<Rightarrow> string \<Rightarrow> bool" where
  "field_valid lo hi token \<longleftrightarrow> token \<noteq> [] \<and> list_all (\<lambda>i. i \<noteq> None) (field_items lo hi token)"

lemma ascii_isdigit: "list_all ascii_digit s \<Longrightarrow> list_all py_is_digit_char s"
  by (induction s) (auto simp: ascii_digit_def py_is_digit_char_def Let_def)

lemma digits_py_int: "s \<noteq> [] \<Longrightarrow> list_all ascii_digit s \<Longrightarrow> length s \<le> 4300 \<Longrightarrow>
    py_isdigit s \<and> py_int_digits s = Inr (int_of_digits s)"
  by (simp add: py_isdigit_def ascii_isdigit py_int_digits_def)

lemma py_int_digits_Inr:
  "py_int_digits s = Inr i \<Longrightarrow> s \<noteq> [] \<and> list_all ascii_digit s \<and> length s \<le> 4300 \<and> i = int_of_digits s"
  by (simp add: py_int_digits_def split: if_splits)

lemma number_in_forward:
  assumes "number_in lo hi v = Some i"
  shows "is_int_in_range v lo hi = Inr True" and "py_int_digits v = Inr i"
  using assms digits_py_int [of v] by (auto simp: number_in_def is_int_in_range_def split: if_splits)

lemma is_int_in_range_back:
  assumes "is_int_in_range v lo hi = Inr b" shows "b \<longleftrightarrow> number_in lo hi v \<noteq> None"
proof (cases "py_isdigit v")
  case True
  then show ?thesis using assms by (auto simp: is_int_in_range_def number_in_def res_bind_Inr_iff dest!: py_int_digits_Inr)
next
  case False
  then have "number_in lo hi v = None" using digits_py_int [of v] by (auto simp: number_in_def)
  then show ?thesis using assms False by (simp add: is_int_in_range_def)
qed

lemma range_in_forward:
  assumes "range_in lo hi v = Some r" shows "parse_range v lo hi = Inr (Some r)"
proof -
  obtain l rt where s: "py_split1 CHR ''-'' v = (l, rt)" by fastforce
  obtain a b where "number_in lo hi l = Some a" "number_in lo hi rt = Some b" "a \<le> b" "r = (a, b)"
    using assms by (auto simp: range_in_def s split: option.splits if_splits)
  then show ?thesis using number_in_forward by (simp add: parse_range_def s)
qed

lemma parse_range_back:
  assumes "parse_range v lo hi = Inr r" shows "r = range_in lo hi v"
proof -
  obtain l rt where s: "py_split1 CHR ''-'' v = (l, rt)" by fastforce
  show ?thesis
  proof (cases "number_in lo hi l")
    case None
    then have "\<not> b" if "is_int_in_range l lo hi = Inr b" for b using is_int_in_range_back [OF that] by simp
    with assms None show ?thesis by (fastforce simp: parse_range_def range_in_def s res_bind_Inr_iff)
  next
    case (Some a)
    note A = number_in_forward [OF Some]
    show ?thesis
    proof (cases "number_in lo hi rt")
      case None
      then have "\<not> b" if "is_int_in_range rt lo hi = Inr b" for b using is_int_in_range_back [OF that] by simp
      with assms None A Some show ?thesis by (fastforce simp: parse_range_def range_in_def s res_bind_Inr_iff)
    next
      case (Some b)
      with assms A \<open>number_in lo hi l = Some a\<close> number_in_forward [OF Some] show ?thesis
        by (auto simp: parse_range_def range_in_def s)
    qed
  qed
qed

lemma step_back:
  assumes "py_int_digits st = Inr n" and "n > 0"
  shows "st \<noteq> [] \<and> list_all ascii_digit st \<and> length st \<le> 4300 \<and> int_of_digits st > 0"
  using py_int_digits_Inr [OF assms(1)] assms(2) by simp

lemma validate_chunk_back:
  assumes "validate_chunk lo hi f c = Inr None" shows "parse_item lo hi c \<noteq> None"
proof (cases "c \<noteq> ''*'' \<and> CHR ''/'' \<in> set c")
  case True
  obtain base st where s: "py_split1 CHR ''/'' c = (base, st)" by fastforce
  obtain n where n: "py_int_digits st = Inr n" "n > 0" and
    r: "base \<noteq> ''*'' \<Longrightarrow> CHR ''-'' \<in> set base \<Longrightarrow> \<exists>x. parse_range base lo hi = Inr (Some x)"
       "base \<noteq> ''*'' \<Longrightarrow> CHR ''-'' \<notin> set base \<Longrightarrow> is_int_in_range base lo hi = Inr True"
    using assms True by (auto simp: validate_chunk_def s res_bind_Inr_iff Let_def split: if_splits)
  have "range_in lo hi base \<noteq> None" if "base \<noteq> ''*''" "CHR ''-'' \<in> set base"
    using r(1) [OF that] parse_range_back by (metis option.distinct(1))
  moreover have "number_in lo hi base \<noteq> None" if "base \<noteq> ''*''" "CHR ''-'' \<notin> set base"
    using is_int_in_range_back [OF r(2) [OF that]] by simp
  moreover note step_back [OF n]
  ultimately show ?thesis using True by (simp add: parse_item_def s)
next
  case False
  with assms show ?thesis
    by (auto simp: validate_chunk_def parse_item_def res_bind_Inr_iff split: if_splits
        dest!: parse_range_back [symmetric] is_int_in_range_back)
qed

lemma number_in_isdigit: "list_all ascii_digit st \<Longrightarrow> st \<noteq> [] \<Longrightarrow> py_isdigit st"
  by (simp add: py_isdigit_def ascii_isdigit)

lemma parse_item_validates:
  assumes "parse_item lo hi c \<noteq> None" and "c \<noteq> []" shows "validate_chunk lo hi f c = Inr None"
proof (cases "c \<noteq> ''*'' \<and> CHR ''/'' \<in> set c")
  case True
  obtain base st where s: "py_split1 CHR ''/'' c = (base, st)" by fastforce
  have st: "st \<noteq> []" "list_all ascii_digit st" "length st \<le> 4300" "int_of_digits st > 0"
    using assms True by (auto simp: parse_item_def s split: if_splits)
  with assms True digits_py_int [OF st(1-3)] show ?thesis
    by (auto simp: parse_item_def validate_chunk_def s Let_def dest: number_in_forward range_in_forward split: if_splits)
next
  case False
  with assms show ?thesis
    by (auto simp: parse_item_def validate_chunk_def dest: number_in_forward range_in_forward split: if_splits)
qed

lemma parse_item_matches:
  assumes "parse_item lo hi c = Some i" shows "matches_chunk v lo hi c = Inr (item_holds lo v i)"
proof (cases "c \<noteq> ''*'' \<and> CHR ''/'' \<in> set c")
  case True
  obtain base st where s: "py_split1 CHR ''/'' c = (base, st)" by fastforce
  have st: "st \<noteq> []" "list_all ascii_digit st" "length st \<le> 4300" "int_of_digits st > 0"
    using assms True by (auto simp: parse_item_def s split: if_splits)
  have n: "is_int_in_range base lo hi = Inr True \<and> py_int_digits base = Inr a" if "number_in lo hi base = Some a" for a
    using number_in_forward [OF that] by simp
  show ?thesis
    using assms True st n digits_py_int [OF st(1-3)]
    by (auto simp: parse_item_def matches_chunk_def s Let_def dest: range_in_forward split: if_splits)
next
  case False
  have n: "is_int_in_range c lo hi = Inr True \<and> py_int_digits c = Inr a" if "number_in lo hi c = Some a" for a
    using number_in_forward [OF that] by simp
  with assms False show ?thesis
    by (auto simp: parse_item_def matches_chunk_def dest: range_in_forward split: if_splits)
qed

lemma py_strip_in_split: "parse_item lo hi [] = None"
  by (simp add: parse_item_def number_in_def)

lemma validate_chunks_iff:
  "validate_chunks lo hi f cs = Inr None \<longleftrightarrow> list_all (\<lambda>c. parse_item lo hi (py_strip c) \<noteq> None) cs"
proof (induction cs)
  case (Cons c cs)
  have "validate_chunk lo hi f (py_strip c) = Inr None \<longleftrightarrow> parse_item lo hi (py_strip c) \<noteq> None"
    using validate_chunk_back [of lo hi f "py_strip c"] parse_item_validates [of lo hi "py_strip c" f]
      py_strip_in_split [of lo hi] by (cases "py_strip c = []") auto
  with Cons show ?case by (auto simp: res_bind_Inr_iff split: option.splits)
qed simp

lemma validate_field_iff:
  "validate_field token lo hi f = Inr None \<longleftrightarrow> field_valid lo hi (py_strip token)"
  by (auto simp: validate_field_def field_valid_def field_items_def validate_chunks_iff list_all_iff Let_def)

lemma matches_chunks_eq:
  "list_all (\<lambda>c. parse_item lo hi (py_strip c) \<noteq> None) cs \<Longrightarrow>
   matches_chunks v lo hi cs = Inr (list_ex (\<lambda>i. case i of Some c \<Rightarrow> item_holds lo v c | None \<Rightarrow> False)
      (map (\<lambda>c. parse_item lo hi (py_strip c)) cs))"
  by (induction cs) (auto simp: parse_item_matches)

lemma matches_field_eq: "field_valid lo hi token \<Longrightarrow> matches_field v token lo hi = Inr (field_holds lo hi v token)"
  unfolding matches_field_def field_valid_def field_holds_def field_items_def
  by (rule matches_chunks_eq) (simp add: list_all_iff)

section \<open>What an expression means\<close>

fun cron_valid :: "string list \<Rightarrow> bool" where
  "cron_valid [mi, h, d, mo, w] =
     (field_valid 0 59 mi \<and> field_valid 0 23 h \<and> field_valid 1 31 d \<and> field_valid 1 12 mo \<and> field_valid 0 6 w)"
| "cron_valid _ = False"

definition cron_holds :: "string list \<Rightarrow> int \<Rightarrow> bool" where
  "cron_holds toks m = (case toks of
      [mi, h, d, mo, w] \<Rightarrow>
        field_holds 0 59 (m mod 60) mi \<and> field_holds 0 23 ((m div 60) mod 24) h \<and>
        field_holds 1 31 (snd (civil_of_days (m div 1440))) d \<and>
        field_holds 1 12 (fst (civil_of_days (m div 1440))) mo \<and>
        field_holds 0 6 (py_weekday (m div 1440)) w
    | _ \<Rightarrow> False)"

lemma cron_fields_strip: "t \<in> set (cron_fields expr) \<Longrightarrow> py_strip t = t"
  by (auto simp: cron_fields_def)

lemma parse_cron_5_iff: "parse_cron_5 expr = Inr None \<longleftrightarrow> cron_valid (cron_fields expr)"
proof (cases "length (cron_fields expr) = 5")
  case True
  then obtain mi h d mo w where f: "cron_fields expr = [mi, h, d, mo, w]"
    by (auto simp: length_Suc_conv eval_nat_numeral)
  have "py_strip mi = mi" "py_strip h = h" "py_strip d = d" "py_strip mo = mo" "py_strip w = w"
    using cron_fields_strip [of _ expr] by (simp_all add: f)
  then show ?thesis
    using validate_field_iff [of mi 0 59 "''minute''"] validate_field_iff [of h 0 23 "''hour''"]
      validate_field_iff [of d 1 31 "''day''"] validate_field_iff [of mo 1 12 "''month''"] validate_field_iff [of w 0 6 "''weekday''"]
    by (auto simp: parse_cron_5_def f res_bind_Inr_iff split: if_splits)
next
  case False
  then have "\<not> cron_valid (cron_fields expr)" by (cases "cron_fields expr" rule: cron_valid.cases) auto
  with False show ?thesis by (auto simp: parse_cron_5_def split: list.splits)
qed

lemma cursor_matches_eq: "cron_valid toks \<Longrightarrow> cursor_matches toks m = Inr (cron_holds toks m)"
  by (cases toks rule: cron_valid.cases) (auto simp: cursor_matches_def cron_holds_def matches_field_eq Let_def split: prod.splits if_splits)

lemma scan_eq:
  assumes "\<And>m. p m = Inr (P m)"
  shows "scan n p s = Inr (if \<exists>k < n. P (s + int k) then Some (s + int (LEAST k. P (s + int k))) else None)"
  using assms
proof (induction n arbitrary: s)
  case (Suc n)
  show ?case
  proof (cases "P s")
    case True
    then have "(LEAST k. P (s + int k)) = 0" by (intro Least_eq_0) simp
    with True Suc.prems show ?thesis by auto
  next
    case False
    have ex: "(\<exists>k < Suc n. P (s + int k)) \<longleftrightarrow> (\<exists>k < n. P (s + 1 + int k))"
      using False by (auto simp: less_Suc_eq_0_disj algebra_simps)
    have "(LEAST k. P (s + int k)) = Suc (LEAST k. P (s + int (Suc k)))" if "P (s + int (Suc k))" for k
      using that False by (intro Least_Suc [where n = "Suc k"]) simp_all
    then have "int (LEAST k. P (s + int k)) = 1 + int (LEAST k. P (s + 1 + int k))" if "\<exists>k < n. P (s + 1 + int k)"
      using that by (force simp: algebra_simps)
    with False Suc ex show ?thesis by auto
  qed
qed simp

section \<open>Jobs over time\<close>

definition job_ok :: "timer_job \<Rightarrow> bool" where
  "job_ok r \<longleftrightarrow> 0 \<le> tj_run_count r \<and>
     (tj_active r \<longrightarrow> tj_status r \<in> {''pending'', ''running''} \<and> tj_failure_count r < 3 \<and>
        (\<forall>m. tj_max_runs r = Some m \<longrightarrow> tj_run_count r < m))"

definition table_ok :: "job_table \<Rightarrow> bool" where
  "table_ok tbl \<longleftrightarrow> distinct (map tj_id tbl) \<and> list_all job_ok tbl"

inductive timer_step :: "job_table \<Rightarrow> job_table \<Rightarrow> bool" where
  create: "create_job off job_id owner creator mode payload cron interval delay deadline max_runs now tbl = Inr (Inr (r, tbl')) \<Longrightarrow>
     job_id \<notin> set (map tj_id tbl) \<Longrightarrow> timer_step tbl tbl'"
| claim_due: "timer_step tbl (snd (store_claim_due_jobs now worker limit tbl))"
| result: "mark_job_result off job_id success err now tbl = Inr (r, tbl') \<Longrightarrow> timer_step tbl tbl'"
| cancel: "timer_step tbl (snd (repo_cancel job_id now tbl))"

inductive_cases timer_stepE: "timer_step tbl tbl'"

lemma repo_get_Some: "repo_get k tbl = Some r \<Longrightarrow> r \<in> set tbl \<and> tj_id r = k"
  by (auto simp: repo_get_def find_Some_iff)

lemma repo_get_unique: "distinct (map tj_id tbl) \<Longrightarrow> r \<in> set tbl \<Longrightarrow> repo_get (tj_id r) tbl = Some r"
  by (induction tbl) (auto simp: repo_get_def image_iff)

lemma ids_kept [simp]:
  "(\<And>r. tj_id (f r) = tj_id r) \<Longrightarrow> map tj_id (repo_update k f tbl) = map tj_id tbl"
  by (simp add: repo_update_def)

lemma id_simps [simp]:
  "tj_id (claim now w r) = tj_id r" "tj_id (cancelled now r) = tj_id r"
  "tj_id (after_run now nf ok ts err r) = tj_id r"
  by (simp_all add: claim_def cancelled_def after_run_def Let_def split: option.splits)

lemma after_run_fields [simp]:
  "tj_run_count (after_run now nf ok ts err r) = tj_run_count r + 1"
  "tj_failure_count (after_run now nf ok ts err r) = (if ok then 0 else tj_failure_count r + 1)"
  "tj_max_runs (after_run now nf ok ts err r) = tj_max_runs r"
  "tj_active (after_run now nf ok ts err r) \<longleftrightarrow> tj_active r \<and> ts = None \<and> nf \<noteq> None \<and>
     \<not> (\<exists>d. tj_deadline r = Some d \<and> d \<le> now) \<and> \<not> (\<exists>m. tj_max_runs r = Some m \<and> m \<le> tj_run_count r + 1)"
  "tj_active (after_run now nf ok ts err r) \<Longrightarrow> tj_status (after_run now nf ok ts err r) = ''running''"
  by (auto simp: after_run_def Let_def split: option.splits)

lemma mark_result_row:
  assumes "mark_job_result off k success err now tbl = Inr (res, tbl')"
  shows "tbl' = tbl \<or> (\<exists>r nf ts e. repo_get k tbl = Some r \<and> tbl' = repo_update k (after_run now nf success ts e) tbl \<and>
           (ts = None \<longrightarrow> terminal_after_run now success r = None))"
proof (cases "repo_get k tbl")
  case (Some r)
  then show ?thesis
    using assms by (auto simp: mark_job_result_def repo_update_after_run_def res_bind_Inr_iff Let_def
        split: option.splits if_splits list.splits) metis+
qed (use assms in \<open>simp add: mark_job_result_def\<close>)

lemma after_run_ok:
  assumes "job_ok r" and "ts = None \<longrightarrow> terminal_after_run now success r = None"
  shows "job_ok (after_run now nf success ts e r)"
  using assms by (auto simp: job_ok_def terminal_after_run_def Let_def split: if_splits option.splits)

lemma repo_create_row:
  assumes "repo_create k ow cr mo nf pl ce iv dl mr now tbl = (r, tbl')"
  shows "tbl' = tbl @ [r] \<and> tj_id r = k \<and> tj_status r = ''pending'' \<and> tj_run_count r = 0 \<and> tj_failure_count r = 0 \<and> tj_max_runs r = mr"
  using assms by (auto simp: repo_create_def Let_def)

lemma create_job_created:
  assumes "create_job off k owner creator mode payload cron interval delay deadline mr now tbl = Inr (Inr p)"
  shows "(\<exists>mo nf pl ce iv dl. p = repo_create k owner creator mo nf pl ce iv dl mr now tbl) \<and> (\<forall>n. mr = Some n \<longrightarrow> 0 < n)"
proof -
  have "\<not> (case mr of Some n \<Rightarrow> n \<le> 0 | None \<Rightarrow> False)"
    using assms unfolding create_job_def Let_def by (simp split: if_splits)
  moreover have "\<exists>mo nf pl ce iv dl. p = repo_create k owner creator mo nf pl ce iv dl mr now tbl"
    using assms unfolding create_job_def Let_def res_bind_Inr_iff
    by (fastforce simp: res_bind_Inr_iff split: if_split_asm option.split_asm)
  ultimately show ?thesis by (auto split: option.splits)
qed

lemma create_job_row:
  assumes "create_job off job_id owner creator mode payload cron interval delay deadline max_runs now tbl = Inr (Inr (r, tbl'))"
  shows "tbl' = tbl @ [r] \<and> tj_id r = job_id \<and> job_ok r"
proof -
  from create_job_created [OF assms] obtain mo nf pl ce iv dl
    where "repo_create job_id owner creator mo nf pl ce iv dl max_runs now tbl = (r, tbl')" by metis
  from repo_create_row [OF this] create_job_created [OF assms] show ?thesis by (simp add: job_ok_def)
qed

lemma id_claimed: "tj_id (if c then claim now w x else x) = tj_id x"
  by simp

lemma job_ok_claim: "job_ok r \<Longrightarrow> job_ok (claim now w r)"
  by (auto simp: job_ok_def claim_def)

lemma claim_due_table_ok:
  assumes "table_ok tbl" shows "table_ok (map (\<lambda>r. if tj_id r \<in> ids then claim now w r else r) tbl)"
proof -
  have "map tj_id (map (\<lambda>r. if tj_id r \<in> ids then claim now w r else r) tbl) = map tj_id tbl" by simp
  moreover have "list_all job_ok (map (\<lambda>r. if tj_id r \<in> ids then claim now w r else r) tbl)"
    using assms by (auto simp: table_ok_def list_all_iff job_ok_claim)
  ultimately show ?thesis using assms unfolding table_ok_def by metis
qed

lemma table_ok_update:
  assumes "table_ok tbl" and "repo_get k tbl = Some r" and "tj_id (f r) = k" and "job_ok r \<Longrightarrow> job_ok (f r)"
  shows "table_ok (repo_update k f tbl)"
proof -
  have row: "f x = f r" if "x \<in> set tbl" "tj_id x = k" for x
    using that assms(1,2) repo_get_unique [of tbl x] by (simp add: table_ok_def)
  then have "map tj_id (repo_update k f tbl) = map tj_id tbl"
    using assms(3) by (auto simp: repo_update_def)
  moreover have "job_ok r" using assms(1,2) repo_get_Some by (fastforce simp: table_ok_def list_all_iff)
  moreover have "list_all job_ok (repo_update k f tbl)"
    using assms row calculation(2) by (auto simp: table_ok_def list_all_iff repo_update_def)
  ultimately show ?thesis using assms(1) unfolding table_ok_def by metis
qed

lemma timer_step_ok: "timer_step tbl tbl' \<Longrightarrow> table_ok tbl \<Longrightarrow> table_ok tbl'"
proof (induction rule: timer_step.induct)
  case (create off job_id owner creator mode payload cron interval delay deadline max_runs now tbl r tbl')
  then show ?case using create_job_row [OF create(1)] by (auto simp: table_ok_def)
next
  case (claim_due tbl now worker limit)
  show ?case unfolding store_claim_due_jobs_def repo_claim_due_jobs_def Let_def snd_conv
    by (rule claim_due_table_ok) (fact claim_due)
next
  case (result off k success err now tbl res tbl')
  from mark_result_row [OF result(1)] show ?case
  proof (elim disjE exE conjE)
    fix r nf ts e
    assume r: "repo_get k tbl = Some r" and t: "tbl' = repo_update k (after_run now nf success ts e) tbl"
      and ts: "ts = None \<longrightarrow> terminal_after_run now success r = None"
    show ?thesis unfolding t
      by (rule table_ok_update [OF result(2) r]) (use repo_get_Some [OF r] after_run_ok [OF _ ts] in auto)
  qed (use result in simp)
next
  case (cancel tbl job_id now)
  show ?case
    using cancel table_ok_update [of tbl job_id _ "cancelled now"] repo_get_Some
    by (auto simp: repo_cancel_def job_ok_def cancelled_def split: option.splits)
qed

interpretation timers: step_system "\<lambda>tbl. tbl = []" timer_step table_ok
  by unfold_locales (auto intro: timer_step_ok simp: table_ok_def [of "[]"])

lemma repo_update_row:
  assumes "distinct (map tj_id tbl)" and "r \<in> set tbl"
  shows "(if tj_id r = k then f r else r) \<in> set (repo_update k f tbl)"
  using assms(2) by (auto simp: repo_update_def)

definition retired :: "string \<Rightarrow> job_table \<Rightarrow> bool" where
  "retired k tbl \<longleftrightarrow> (\<exists>r \<in> set tbl. tj_id r = k) \<and> (\<forall>r \<in> set tbl. tj_id r = k \<longrightarrow> \<not> tj_active r)"

lemma retired_map:
  "retired k tbl \<Longrightarrow> (\<And>r. tj_id (g r) = tj_id r) \<Longrightarrow> (\<And>r. tj_active (g r) \<Longrightarrow> tj_active r) \<Longrightarrow> retired k (map g tbl)"
  by (auto simp: retired_def)

lemma after_run_active: "tj_active (after_run now nf ok ts e r) \<Longrightarrow> tj_active r"
  by simp

lemma claim_active [simp]: "tj_active (claim now w r) = tj_active r"
  by (simp add: claim_def)

lemma cancelled_inactive [simp]: "\<not> tj_active (cancelled now r)"
  by (simp add: cancelled_def)

lemma retired_update:
  "retired k tbl \<Longrightarrow> (\<And>r. tj_id (f r) = tj_id r) \<Longrightarrow> (\<And>r. tj_active (f r) \<Longrightarrow> tj_active r) \<Longrightarrow> retired k (repo_update j f tbl)"
  unfolding repo_update_def by (rule retired_map) (auto split: if_splits)

lemma timer_step_retired: "timer_step tbl tbl' \<Longrightarrow> retired k tbl \<Longrightarrow> retired k tbl'"
proof (induction rule: timer_step.induct)
  case (create off job_id owner creator mode payload cron interval delay deadline max_runs now tbl r tbl')
  then show ?case using create_job_row [OF create(1)] by (auto simp: retired_def)
next
  case (claim_due tbl now worker limit)
  show ?case unfolding store_claim_due_jobs_def repo_claim_due_jobs_def Let_def snd_conv
    by (rule retired_map [OF claim_due]) (auto split: if_splits)
next
  case (result off j success err now tbl res tbl')
  from mark_result_row [OF result(1)] result(2) show ?case
    by (elim disjE exE conjE) (auto intro!: retired_update simp del: after_run_fields(4) dest: after_run_active)
next
  case (cancel tbl job_id now)
  then show ?case
    by (auto simp: repo_cancel_def intro!: retired_update split: option.splits)
qed

lemma retired_steps: "timer_step\<^sup>*\<^sup>* tbl tbl' \<Longrightarrow> retired k tbl \<Longrightarrow> retired k tbl'"
  by (induction rule: rtranclp_induct) (auto intro: timer_step_retired)

lemma set_claim_rows:
  "set (fst (repo_claim_due_jobs now w l st tbl)) \<subseteq> claim now w ` {r \<in> set tbl. claimable now (now - max 1 st * 1000) r}"
  by (auto simp: repo_claim_due_jobs_def Let_def dest!: in_set_takeD)

lemmas claim_defs = store_claim_due_jobs_def repo_claim_due_jobs_def Let_def

text \<open>What a claim hands out was claimable, and every claimed row is stamped.\<close>

lemma claimed_stamped:
  assumes "r \<in> set (snd (store_claim_due_jobs now w l tbl))" and "tj_id r \<in> set (map tj_id (fst (store_claim_due_jobs now w l tbl)))"
  shows "tj_claimed_at r = Some now"
  using assms by (auto simp: claim_defs claim_def image_iff split: if_splits)

lemma claimed_were_claimable:
  assumes "k \<in> set (map tj_id (fst (store_claim_due_jobs now w l tbl)))"
  shows "\<exists>r \<in> set tbl. tj_id r = k \<and> claimable now (now - 120000) r"
  using assms set_claim_rows [of now w l 120 tbl] by (fastforce simp: store_claim_due_jobs_def)

lemma claim_lease:
  assumes "claimed = fst (store_claim_due_jobs now w l tbl)" and "now' - 120000 < now"
  shows "set (map tj_id claimed) \<inter> set (map tj_id (fst (store_claim_due_jobs now' w' l' (snd (store_claim_due_jobs now w l tbl))))) = {}"
    and "length claimed \<le> nat (max 1 l)"
    and "\<forall>r \<in> set claimed. tj_active r \<and> tj_next_fire r \<le> now \<and> tj_claimed_by r = Some w \<and> tj_claimed_at r = Some now \<and> tj_status r = ''running''"
proof -
  show "set (map tj_id claimed) \<inter> set (map tj_id (fst (store_claim_due_jobs now' w' l' (snd (store_claim_due_jobs now w l tbl))))) = {}"
  proof (rule ccontr)
    assume "\<not> ?thesis"
    then obtain k where k: "k \<in> set (map tj_id claimed)"
      "k \<in> set (map tj_id (fst (store_claim_due_jobs now' w' l' (snd (store_claim_due_jobs now w l tbl)))))" by blast
    from claimed_were_claimable [OF k(2)] obtain r
      where r: "r \<in> set (snd (store_claim_due_jobs now w l tbl))" "tj_id r = k" "claimable now' (now' - 120000) r" by blast
    have "tj_claimed_at r = Some now" using claimed_stamped [OF r(1)] k(1) assms(1) r(2) by simp
    with r(3) assms(2) show False by (simp add: claimable_def)
  qed
  show "length claimed \<le> nat (max 1 l)" by (simp add: assms(1) claim_defs)
  show "\<forall>r \<in> set claimed. tj_active r \<and> tj_next_fire r \<le> now \<and> tj_claimed_by r = Some w \<and> tj_claimed_at r = Some now \<and> tj_status r = ''running''"
    using set_claim_rows [of now w l 120 tbl] by (auto simp: assms(1) store_claim_due_jobs_def claimable_def claim_def)
qed

lemma next_fire_eq:
  assumes "parse_cron_5 expr = Inr None"
  shows "next_fire_at_for_cron off expr now MAX_MINUTES_SCAN =
     Inr (if \<exists>k < nat MAX_MINUTES_SCAN. cron_holds (cron_fields expr) (start_cursor off now + int k)
          then Some (cursor_time off (start_cursor off now + int (LEAST k. cron_holds (cron_fields expr) (start_cursor off now + int k))))
          else None)"
proof -
  have v: "cron_valid (cron_fields expr)" using assms by (simp add: parse_cron_5_iff)
  then have l: "length (cron_fields expr) = 5" by (cases "cron_fields expr" rule: cron_valid.cases) auto
  then show ?thesis
    using scan_eq [of "cursor_matches (cron_fields expr)" "cron_holds (cron_fields expr)"] cursor_matches_eq [OF v]
    by (simp add: next_fire_at_for_cron_def MAX_MINUTES_SCAN_def Let_def)
qed

lemma no_leap_day: "\<forall>d \<in> set [20148..20514]. civil_of_days d \<noteq> (2, 29)"
  by code_simp

lemma leap_fields:
  "field_holds 1 31 v ''29'' \<longleftrightarrow> v = 29" "field_holds 1 12 v ''2'' \<longleftrightarrow> v = 2"
proof -
  have "field_items 1 31 ''29'' = [Some (Exactly 29)]" "field_items 1 12 ''2'' = [Some (Exactly 2)]" by code_simp+
  then show "field_holds 1 31 v ''29'' \<longleftrightarrow> v = 29" "field_holds 1 12 v ''2'' \<longleftrightarrow> v = 2" by (simp_all add: field_holds_def)
qed

section \<open>Properties\<close>

text \<open> Over any history of creating, claiming, reporting and cancelling, job keys stay unique and an
  active job is always pending or running, has fewer than three failures in a row and has runs left
  of its budget.
\<close>

theorem timer_jobs_invariant:
  assumes "timer_step\<^sup>*\<^sup>* [] tbl" and "r \<in> set tbl" and "tj_active r"
  shows "repo_get (tj_id r) tbl = Some r \<and> tj_status r \<in> {''pending'', ''running''} \<and> tj_failure_count r < 3 \<and>
    (\<forall>m. tj_max_runs r = Some m \<longrightarrow> tj_run_count r < m)"
proof -
  have "table_ok tbl" by (rule timers.reachable_inv [OF _ assms(1)]) simp
  with assms(2,3) repo_get_unique show ?thesis by (auto simp: table_ok_def list_all_iff job_ok_def)
qed

definition demo_job :: timer_job where
  "demo_job = \<lparr>tj_id = ''j1'', tj_owner = ''main'', tj_creator = ''sub'', tj_mode = ''heartbeat'', tj_cron = None,
     tj_interval = Some 60, tj_payload = ''check'', tj_status = ''pending'', tj_next_fire = 60000, tj_deadline = None,
     tj_max_runs = Some 2, tj_run_count = 0, tj_failure_count = 0, tj_last_error = None, tj_claimed_by = None,
     tj_claimed_at = None, tj_active = True, tj_created = 0, tj_updated = 0\<rparr>"

lemma demo_job_created:
  "create_job 0 ''j1'' ''main'' ''sub'' '' Heartbeat'' (Some ''check'') None (Some 60) None None (Some 2) 0 [] = Inr (Inr (demo_job, [demo_job]))"
  by code_simp

lemma demo_job_steps: "timer_step\<^sup>*\<^sup>* [] [demo_job]"
  using timer_step.create [OF demo_job_created] by auto

theorem timer_jobs_invariant_witness: "repo_get ''j1'' [demo_job] = Some demo_job \<and> tj_active demo_job"
  using timer_jobs_invariant [OF demo_job_steps, of demo_job] by (simp add: demo_job_def)

text \<open> A job that is inactive (finished, failed or cancelled) stays inactive whatever happens to the
  table, and no worker is ever handed it again.
\<close>

theorem retired_job_never_fires:
  assumes "timer_step\<^sup>*\<^sup>* tbl tbl'" and "retired k tbl"
  shows "retired k tbl' \<and> k \<notin> set (map tj_id (fst (store_claim_due_jobs now w l tbl')))"
proof -
  have "retired k tbl'" by (rule retired_steps) (fact assms)+
  with claimed_were_claimable [of k now w l tbl'] show ?thesis by (auto simp: retired_def claimable_def)
qed

theorem retired_job_never_fires_witness:
  "retired ''j1'' (snd (repo_cancel ''j1'' 5 [demo_job])) \<and>
   ''j1'' \<notin> set (map tj_id (fst (store_claim_due_jobs 90000 ''w'' 10 (snd (repo_cancel ''j1'' 5 [demo_job])))))"
proof -
  have "retired ''j1'' (snd (repo_cancel ''j1'' 5 [demo_job]))" by code_simp
  then show ?thesis by (intro conjI retired_job_never_fires [OF rtranclp.rtrancl_refl, THEN conjunct2])
qed

text \<open>C8. A claim is a lease: two claims less than 120 seconds apart, with nothing in between, never hand
  out the same job. What a claim hands out is active and due, at most \<open>limit\<close> jobs (at least one is
  asked for), each stamped with the worker and the time.
\<close>

theorem claim_is_exclusive:
  assumes "claimed = fst (store_claim_due_jobs now w l tbl)" and "now' - 120000 < now"
  shows "set (map tj_id claimed) \<inter> set (map tj_id (fst (store_claim_due_jobs now' w' l' (snd (store_claim_due_jobs now w l tbl))))) = {} \<and>
    length claimed \<le> nat (max 1 l) \<and>
    (\<forall>r \<in> set claimed. tj_active r \<and> tj_next_fire r \<le> now \<and> tj_claimed_by r = Some w \<and> tj_claimed_at r = Some now \<and>
       tj_status r = ''running'')"
  using claim_lease [OF assms] by blast

theorem claim_is_exclusive_witness:
  "map tj_id (fst (store_claim_due_jobs 60000 ''w1'' 10 [demo_job])) = [''j1''] \<and>
   fst (store_claim_due_jobs 179999 ''w2'' 10 (snd (store_claim_due_jobs 60000 ''w1'' 10 [demo_job]))) = []"
proof -
  have c: "map tj_id (fst (store_claim_due_jobs 60000 ''w1'' 10 [demo_job])) = [''j1'']" by code_simp
  have "map tj_id (fst (store_claim_due_jobs 179999 ''w2'' 10 (snd (store_claim_due_jobs 60000 ''w1'' 10 [demo_job])))) \<in> {[], [''j1'']}"
    by code_simp
  with c claim_is_exclusive [OF refl, of 179999 60000 "''w1''" 10 "[demo_job]" "''w2''" 10] show ?thesis by auto
qed



text \<open>The validator and the matcher do not cover every input: a superscript digit passes \<open>isdigit\<close> and
  raises in \<open>int\<close>; the yearly leap day is accepted as valid but has no firing inside the scan window
  in a year without one.
\<close>

theorem cron_gaps:
  "parse_cron_5 (char_of (178::nat) # '' * * * *'') = Inl ValueError \<and>
   parse_cron_5 ''0 0 29 2 *'' = Inr None \<and>
   next_fire_at_for_cron 0 ''0 0 29 2 *'' (20148 * 86400000) MAX_MINUTES_SCAN = Inr None"
proof (intro conjI)
  show "parse_cron_5 (char_of (178::nat) # '' * * * *'') = Inl ValueError" by code_simp
  show v: "parse_cron_5 ''0 0 29 2 *'' = Inr None" by code_simp
  let ?s = "20148 * 1440 + 1 :: int"
  have toks: "cron_fields ''0 0 29 2 *'' = [''0'', ''0'', ''29'', ''2'', ''*'']" by code_simp
  have s: "start_cursor 0 (20148 * 86400000) = ?s" by code_simp
  have none: "\<not> cron_holds [''0'', ''0'', ''29'', ''2'', ''*''] (?s + int k)" if "k < 527040" for k
  proof -
    let ?d = "(?s + int k) div 1440"
    have "?d \<in> set [20148..20514]" unfolding set_upto using that by auto
    then have "civil_of_days ?d \<noteq> (2, 29)" using no_leap_day by blast
    then show ?thesis using leap_fields by (auto simp: cron_holds_def prod_eq_iff)
  qed
  have "\<not> (\<exists>k < nat MAX_MINUTES_SCAN. cron_holds [''0'', ''0'', ''29'', ''2'', ''*''] (?s + int k))"
    using none by (simp add: MAX_MINUTES_SCAN_def)
  then show "next_fire_at_for_cron 0 ''0 0 29 2 *'' (20148 * 86400000) MAX_MINUTES_SCAN = Inr None"
    unfolding next_fire_eq [OF v] toks s by (simp only: if_False)
qed

text \<open> Cancelling does not survive a run in flight: when the worker that had claimed the job reports its
  result after the cancellation and the job would go on, the row's status becomes running again
  while it stays inactive.
\<close>

theorem cancel_then_result:
  assumes "distinct (map tj_id tbl)" and "repo_get k tbl = Some r" and "tj_mode r = ''heartbeat''"
    and "terminal_after_run now success (cancelled t r) = None"
  shows "\<exists>r' tbl'. mark_job_result off k success err now (snd (repo_cancel k t tbl)) = Inr (Some r', tbl') \<and>
     tj_status r' = ''running'' \<and> \<not> tj_active r'"
proof -
  have r: "r \<in> set tbl" "tj_id r = k" using repo_get_Some [OF assms(2)] by auto
  have "map tj_id (repo_update k (cancelled t) tbl) = map tj_id tbl" by simp
  then have g: "repo_get k (repo_update k (cancelled t) tbl) = Some (cancelled t r)"
    using repo_get_unique [of "repo_update k (cancelled t) tbl" "cancelled t r"] repo_update_row [OF assms(1) r(1), of k "cancelled t"] assms(1) r
    by (metis id_simps(2))
  have "tj_mode (cancelled t r) = ''heartbeat''" using assms(3) by (simp add: cancelled_def)
  then show ?thesis
    using assms(4) by (simp add: repo_cancel_def assms(2) mark_job_result_def g repo_update_after_run_def Let_def)
      (simp add: after_run_def Let_def cancelled_def split: option.splits)
qed

theorem cancel_then_result_witness:
  "\<exists>r' tbl'. mark_job_result 0 ''j1'' True None 61000 (snd (repo_cancel ''j1'' 60500 [demo_job])) = Inr (Some r', tbl') \<and>
     tj_status r' = ''running'' \<and> \<not> tj_active r'"
  by (rule cancel_then_result [of _ _ demo_job]) (simp_all add: demo_job_def repo_get_def terminal_after_run_def cancelled_def)

end
