(* ===== verification/Hooks.thy ===== *)
theory Hooks
  imports History "HOL-Library.Product_Lexorder" "HOL-Library.List_Lexorder" "HOL-Library.Char_ord"
begin

text \<open>
  Capability groups and hooks: \<open>CapabilityRegistry\<close> (\<^verbatim>\<open>core/capabilities/registry.py\<close>: which groups,
  hooks, tools and event types a session sees), \<open>HookRuntime.run_stage\<close> and \<open>HookStageRunner.run_stage\<close>
  (\<^verbatim>\<open>core/agent/hooks\<close>), and the group selection of \<open>EventPluginDispatcher\<close>.

  A hook script is not under the registry's control: an executor is a function from the payload and
  the state \<open>'e\<close> of the outside world to an exception (with its text, a timeout included) or an
  output, and the new state. The durations a stage reports are not modelled.
\<close>

section \<open>Groups, tools and hooks\<close>

datatype hook_error_policy = POLICY_CONTINUE | POLICY_FAIL | POLICY_WARN

record hook_definition =
  hd_name :: string
  hd_stage :: string
  hd_priority :: int
  hd_enabled :: bool
  hd_on_error :: hook_error_policy

record tool_capability =
  tl_name :: string
  tl_description :: string
  tl_schema :: json_object
  tl_record_event :: bool

record capability_group =
  cg_name :: string
  cg_always_planner :: bool
  cg_always_subagent :: bool
  cg_tools :: "tool_capability list"
  cg_event_types :: "string list"

record registry =
  rg_groups :: "(string, capability_group) dict"
  rg_tools :: "(string, tool_capability) dict"
  rg_hooks :: "(string, hook_definition list) dict"

text \<open>\<open>list(dict.fromkeys(xs))\<close>: the first occurrence of every element.\<close>

definition py_unique :: "'a list \<Rightarrow> 'a list" where
  "py_unique xs = rev (remdups (rev xs))"

definition always_groups :: "registry \<Rightarrow> bool \<Rightarrow> string list" where
  "always_groups R is_sub = map fst (filter (\<lambda>(_, g). if is_sub then cg_always_subagent g else cg_always_planner g) (rg_groups R))"

definition resolve_enabled_groups :: "registry \<Rightarrow> string list option \<Rightarrow> bool \<Rightarrow> string list" where
  "resolve_enabled_groups R selected is_sub = (case selected of
      None \<Rightarrow> py_unique (always_groups R is_sub)
    | Some gs \<Rightarrow> py_unique (always_groups R is_sub @ filter (\<lambda>g. g \<in> set (dkeys (rg_groups R))) gs))"

text \<open>\<open>Planner._resolve_tools_for_session\<close>: only a sub-session's selection counts.\<close>

definition resolve_tools_for_session :: "registry \<Rightarrow> bool \<Rightarrow> string list option \<Rightarrow> string list" where
  "resolve_tools_for_session R is_sub selected = resolve_enabled_groups R (if is_sub then selected else None) is_sub"

definition group_names_or_all :: "registry \<Rightarrow> string list option \<Rightarrow> string list" where
  "group_names_or_all R names = (case names of Some (g # gs) \<Rightarrow> g # gs | _ \<Rightarrow> dkeys (rg_groups R))"

definition hooks_of :: "registry \<Rightarrow> string \<Rightarrow> hook_definition list" where
  "hooks_of R g = (case dget (rg_hooks R) g of None \<Rightarrow> [] | Some hs \<Rightarrow> hs)"

definition hook_key :: "hook_definition \<Rightarrow> int \<times> string" where
  "hook_key h = (hd_priority h, hd_name h)"

definition get_hooks :: "registry \<Rightarrow> string \<Rightarrow> string list option \<Rightarrow> hook_definition list" where
  "get_hooks R stage names =
     sort_key hook_key (filter (\<lambda>h. hd_stage h = stage \<and> hd_enabled h) (concat (map (hooks_of R) (group_names_or_all R names))))"

definition get_groups_for_event_type :: "registry \<Rightarrow> string \<Rightarrow> string list" where
  "get_groups_for_event_type R et = map fst (filter (\<lambda>(_, g). et \<in> set (cg_event_types g)) (rg_groups R))"

definition get_declared_event_types :: "registry \<Rightarrow> string list option \<Rightarrow> string set" where
  "get_declared_event_types R names =
     (\<Union>n \<in> set (group_names_or_all R names). case dget (rg_groups R) n of None \<Rightarrow> {} | Some g \<Rightarrow> set (cg_event_types g))"

text \<open>The names and schemas of \<open>get_openai_tools\<close>; the OpenAI wrapping is \<open>tool_json\<close>.\<close>

definition tool_json :: "string \<times> tool_capability \<Rightarrow> json" where
  "tool_json p = JDict [(''type'', JStr ''function''), (''function'', JDict
     [(''name'', JStr (fst p)), (''description'', JStr (tl_description (snd p))),
      (''parameters'', obj_get_or (tl_schema (snd p)) ''parameters'' (JDict []))])]"

definition visible_tools :: "registry \<Rightarrow> string list option \<Rightarrow> string list \<Rightarrow> (string \<times> tool_capability) list" where
  "visible_tools R names exclude =
     (let allowed = concat (map (\<lambda>(_, g). case names of
                        Some ns \<Rightarrow> if cg_name g \<in> set ns then map tl_name (cg_tools g) else []
                      | None \<Rightarrow> map tl_name (cg_tools g)) (rg_groups R))
      in filter (\<lambda>(n, t). n \<notin> set exclude \<and> (names \<noteq> None \<longrightarrow> n \<in> set allowed)) (rg_tools R))"

definition get_openai_tools :: "registry \<Rightarrow> string list option \<Rightarrow> string list \<Rightarrow> json list" where
  "get_openai_tools R names exclude = map tool_json (visible_tools R names exclude)"

text \<open>
  \<open>EventPluginDispatcher.dispatch\<close>, the groups whose hooks an event reaches. \<open>payload_groups\<close> is the
  \<open>enabled_groups\<close> of the typed payload.
\<close>

definition dispatch_groups :: "registry \<Rightarrow> string list option \<Rightarrow> string \<Rightarrow> bool \<Rightarrow> string list" where
  "dispatch_groups R payload_groups et is_sub = (case payload_groups of
      Some (g # gs) \<Rightarrow> g # gs
    | _ \<Rightarrow> (let declaring = get_groups_for_event_type R et
           in if declaring \<noteq> [] then declaring else resolve_enabled_groups R None is_sub))"

section \<open>Running a stage\<close>

datatype hook_status = HOOK_OK | HOOK_SKIP | HOOK_ERROR

record 'p hook_output =
  ho_status :: hook_status
  ho_payload :: "'p option"
  ho_artifacts :: "(string, json) dict"
  ho_error :: "string option"

type_synonym ('p, 'e) executor = "'p \<Rightarrow> 'e \<Rightarrow> (string + 'p hook_output option) \<times> 'e"

definition skip_output :: "'p option \<Rightarrow> 'p hook_output" where
  "skip_output p = \<lparr>ho_status = HOOK_SKIP, ho_payload = p, ho_artifacts = [], ho_error = None\<rparr>"

definition normalize_output :: "'p hook_output option \<Rightarrow> 'p hook_output" where
  "normalize_output raw = (case raw of None \<Rightarrow> skip_output None | Some out \<Rightarrow> out)"

fun run_hooks ::
  "(hook_definition \<times> ('p, 'e) executor) list \<Rightarrow> 'p \<Rightarrow> (string, json) dict \<Rightarrow> 'e \<Rightarrow> 'p hook_output \<times> 'e" where
  "run_hooks [] p arts e = (\<lparr>ho_status = HOOK_OK, ho_payload = Some p, ho_artifacts = arts, ho_error = None\<rparr>, e)"
| "run_hooks ((h, f) # hs) p arts e =
     (if \<not> hd_enabled h then run_hooks hs p arts e
      else case f p e of
        (Inr raw, e1) \<Rightarrow>
          (let out = normalize_output raw
           in run_hooks hs (case ho_payload out of Some p' \<Rightarrow> p' | None \<Rightarrow> p)
                (if ho_artifacts out \<noteq> [] then dset (hd_name h) (JDict (ho_artifacts out)) arts else arts) e1)
      | (Inl msg, e1) \<Rightarrow>
          (case hd_on_error h of
             POLICY_FAIL \<Rightarrow> (\<lparr>ho_status = HOOK_ERROR, ho_payload = Some p, ho_artifacts = arts, ho_error = Some msg\<rparr>, e1)
           | POLICY_WARN \<Rightarrow> run_hooks hs p (dset (hd_name h @ ''_warning'') (JDict [(''error'', JStr msg)]) arts) e1
           | POLICY_CONTINUE \<Rightarrow> run_hooks hs p arts e1))"

definition runtime_run_stage ::
  "'p \<Rightarrow> (hook_definition \<times> ('p, 'e) executor) list \<Rightarrow> 'e \<Rightarrow> 'p hook_output \<times> 'e" where
  "runtime_run_stage p hooks e = run_hooks hooks p [] e"

text \<open>\<open>HookStageRunner.run_stage\<close>; \<open>execs\<close> is \<open>get_hook_executor\<close>.\<close>

definition bound_hooks ::
  "(string \<Rightarrow> ('p, 'e) executor option) \<Rightarrow> hook_definition list \<Rightarrow> (hook_definition \<times> ('p, 'e) executor) list" where
  "bound_hooks execs hs = List.map_filter (\<lambda>h. map_option (Pair h) (execs (hd_name h))) hs"

definition run_stage ::
  "registry \<Rightarrow> (string \<Rightarrow> ('p, 'e) executor option) \<Rightarrow> bool \<Rightarrow> string \<Rightarrow> 'p \<Rightarrow> string list \<Rightarrow> 'e \<Rightarrow> 'p hook_output \<times> 'e" where
  "run_stage R execs enable_hook_runtime stage p groups e =
     (if \<not> enable_hook_runtime then (skip_output (Some p), e)
      else let bound = bound_hooks execs (get_hooks R stage (Some groups))
           in if bound = [] then (skip_output (Some p), e) else runtime_run_stage p bound e)"

section \<open>Facts\<close>

lemma set_py_unique [simp]: "set (py_unique xs) = set xs"
  by (simp add: py_unique_def)

lemma distinct_py_unique [simp]: "distinct (py_unique xs)"
  by (simp add: py_unique_def)

lemma set_get_hooks:
  "set (get_hooks R stage names) =
     {h. hd_stage h = stage \<and> hd_enabled h \<and> (\<exists>g \<in> set (group_names_or_all R names). h \<in> set (hooks_of R g))}"
  by (auto simp: get_hooks_def)

lemma bound_hooks_sorted:
  "map fst (bound_hooks execs hs) = filter (\<lambda>h. execs (hd_name h) \<noteq> None) hs"
  by (induction hs) (auto simp: bound_hooks_def map_filter_simps split: option.splits)

lemma run_hooks_payload: "ho_payload (fst (run_hooks hs p arts e)) \<noteq> None"
  by (induction hs p arts e rule: run_hooks.induct)
    (auto split: prod.splits sum.splits hook_error_policy.splits simp: Let_def)

lemma run_stage_payload: "ho_payload (fst (run_stage R execs on stage p gs e)) \<noteq> None"
  using run_hooks_payload [of "bound_hooks execs (get_hooks R stage (Some gs))" p "[]" e]
  by (simp add: run_stage_def runtime_run_stage_def skip_output_def Let_def)

text \<open>What a stage means: the payload as the outputs transform it, hook by hook.\<close>

inductive stage_run ::
  "(hook_definition \<times> ('p, 'e) executor) list \<Rightarrow> 'p \<Rightarrow> 'e \<Rightarrow> 'p \<Rightarrow> 'e \<Rightarrow> bool" where
  finished: "stage_run [] p e p e"
| disabled: "\<not> hd_enabled h \<Longrightarrow> stage_run hs p e p' e' \<Longrightarrow> stage_run ((h, f) # hs) p e p' e'"
| patched: "hd_enabled h \<Longrightarrow> f p e = (Inr (Some out), e1) \<Longrightarrow> ho_payload out = Some p1 \<Longrightarrow> stage_run hs p1 e1 p' e' \<Longrightarrow>
     stage_run ((h, f) # hs) p e p' e'"
| unpatched: "hd_enabled h \<Longrightarrow> f p e = (Inr raw, e1) \<Longrightarrow> (\<forall>out. raw = Some out \<longrightarrow> ho_payload out = None) \<Longrightarrow>
     stage_run hs p e1 p' e' \<Longrightarrow> stage_run ((h, f) # hs) p e p' e'"
| failed: "hd_enabled h \<Longrightarrow> f p e = (Inl msg, e1) \<Longrightarrow> hd_on_error h \<noteq> POLICY_FAIL \<Longrightarrow> stage_run hs p e1 p' e' \<Longrightarrow>
     stage_run ((h, f) # hs) p e p' e'"
| aborted: "hd_enabled h \<Longrightarrow> f p e = (Inl msg, e1) \<Longrightarrow> hd_on_error h = POLICY_FAIL \<Longrightarrow> stage_run ((h, f) # hs) p e p e1"

inductive_cases stage_run_NilE: "stage_run [] p e p' e'"
inductive_cases stage_run_ConsE: "stage_run (x # hs) p e p' e'"

lemma run_hooks_stage_run:
  "stage_run hs p e (the (ho_payload (fst (run_hooks hs p arts e)))) (snd (run_hooks hs p arts e))"
proof (induction hs p arts e rule: run_hooks.induct)
  case (2 h f hs p arts e)
  show ?case
  proof (cases "hd_enabled h")
    case en: True
    obtain r e1 where r: "f p e = (r, e1)" by fastforce
    show ?thesis
    proof (cases r)
      case (Inl msg)
      then show ?thesis using 2 en r
        by (cases "hd_on_error h") (auto intro: stage_run.intros)
    next
      case (Inr raw)
      show ?thesis
      proof (cases "raw = None \<or> ho_payload (the raw) = None")
        case True
        then show ?thesis using 2(4) [OF _ r [symmetric] Inr refl] en r Inr
          by (intro stage_run.unpatched [OF en]) (auto simp: normalize_output_def skip_output_def Let_def r split: option.splits)
      next
        case False
        then obtain out p1 where "raw = Some out" "ho_payload out = Some p1" by auto
        then show ?thesis using 2(4) [OF _ r [symmetric] Inr refl] en r Inr
          by (intro stage_run.patched [OF en]) (auto simp: normalize_output_def Let_def r)
      qed
    qed
  qed (use 2(1) in \<open>auto intro: stage_run.disabled\<close>)
qed (auto intro: stage_run.finished)

definition failed_by :: "(hook_definition \<times> ('p, 'e) executor) list \<Rightarrow> 'p hook_output \<Rightarrow> bool" where
  "failed_by hs out \<longleftrightarrow> (\<exists>h f p e msg e'. (h, f) \<in> set hs \<and> hd_enabled h \<and> hd_on_error h = POLICY_FAIL \<and>
     f p e = (Inl msg, e') \<and> ho_error out = Some msg)"

lemma failed_by_Cons: "failed_by hs out \<Longrightarrow> failed_by (x # hs) out"
  unfolding failed_by_def by (meson list.set_intros(2))

lemma run_hooks_error:
  "ho_status (fst (run_hooks hs p arts e)) = HOOK_ERROR \<Longrightarrow> failed_by hs (fst (run_hooks hs p arts e))"
proof (induction hs p arts e rule: run_hooks.induct)
  case (2 h f hs p arts e)
  show ?case
  proof (cases "hd_enabled h")
    case en: True
    obtain r e1 where r: "f p e = (r, e1)" by fastforce
    show ?thesis
    proof (cases r)
      case (Inl msg)
      show ?thesis
      proof (cases "hd_on_error h")
        case POLICY_FAIL
        have "ho_error (fst (run_hooks ((h, f) # hs) p arts e)) = Some msg" using en r Inl POLICY_FAIL by simp
        with en r Inl POLICY_FAIL show ?thesis unfolding failed_by_def by (meson list.set_intros(1))
      qed (use 2 en r Inl in \<open>auto intro: failed_by_Cons\<close>)
    next
      case (Inr raw)
      then show ?thesis using 2(4) [OF _ r [symmetric] Inr refl] 2(5) en r
        by (auto simp: Let_def intro: failed_by_Cons)
    qed
  qed (use 2 in \<open>auto intro: failed_by_Cons\<close>)
qed simp

lemma stage_run_no_hooks: "stage_run [] p e p' e' \<longleftrightarrow> p' = p \<and> e' = e"
  by (auto intro: stage_run.finished elim: stage_run_NilE)

lemma stage_run_det: "stage_run hs p e p' e' \<Longrightarrow>
    ho_payload (fst (run_hooks hs p arts e)) = Some p' \<and> snd (run_hooks hs p arts e) = e'"
proof (induction arbitrary: arts rule: stage_run.induct)
  case (unpatched h f p e raw e1 hs p' e')
  then show ?case by (cases raw) (simp_all add: normalize_output_def skip_output_def Let_def)
next
  case (failed h f p e msg e1 hs p' e')
  then show ?case by (cases "hd_on_error h") simp_all
qed (simp_all add: normalize_output_def Let_def)

lemma stage_run_iff:
  "stage_run hs p e p' e' \<longleftrightarrow> ho_payload (fst (run_hooks hs p arts e)) = Some p' \<and> snd (run_hooks hs p arts e) = e'"
  using stage_run_det run_hooks_stage_run by (metis option.sel)

lemma visible_tool_group:
  assumes "p \<in> set (visible_tools R (Some gs) exclude)"
  shows "fst p \<notin> set exclude" and "\<exists>g \<in> set (rg_groups R). cg_name (snd g) \<in> set gs \<and> fst p \<in> set (map tl_name (cg_tools (snd g)))"
proof -
  obtain n t where p: "p = (n, t)" by fastforce
  have n: "n \<notin> set exclude"
    "n \<in> set (concat (map (\<lambda>(_, g). if cg_name g \<in> set gs then map tl_name (cg_tools g) else []) (rg_groups R)))"
    using assms by (simp_all add: p visible_tools_def Let_def)
  show "fst p \<notin> set exclude" using n(1) by (simp add: p)
  from n(2) obtain k g where "(k, g) \<in> set (rg_groups R)" "n \<in> set (if cg_name g \<in> set gs then map tl_name (cg_tools g) else [])"
    by auto
  then show "\<exists>g \<in> set (rg_groups R). cg_name (snd g) \<in> set gs \<and> fst p \<in> set (map tl_name (cg_tools (snd g)))"
    by (intro bexI [of _ "(k, g)"]) (auto simp: p split: if_splits)
qed

section \<open>Properties\<close>


definition demo_hook :: "string \<Rightarrow> int \<Rightarrow> hook_error_policy \<Rightarrow> hook_definition" where
  "demo_hook n pr pol = \<lparr>hd_name = n, hd_stage = ''before_tool_call'', hd_priority = pr, hd_enabled = True, hd_on_error = pol\<rparr>"

definition demo_group :: "string \<Rightarrow> bool \<Rightarrow> capability_group" where
  "demo_group n always = \<lparr>cg_name = n, cg_always_planner = always, cg_always_subagent = always,
     cg_tools = [\<lparr>tl_name = n @ ''_tool'', tl_description = [], tl_schema = [], tl_record_event = True\<rparr>], cg_event_types = []\<rparr>"

definition demo_registry :: registry where
  "demo_registry = \<lparr>rg_groups = [(''g'', demo_group ''g'' True), (''h'', demo_group ''h'' False)],
     rg_tools = [(''g_tool'', hd (cg_tools (demo_group ''g'' True))), (''h_tool'', hd (cg_tools (demo_group ''h'' False)))],
     rg_hooks = [(''g'', [demo_hook ''late'' 200 POLICY_WARN, demo_hook ''early'' 10 POLICY_FAIL])]\<rparr>"

definition demo_exec :: "string \<Rightarrow> (nat, unit) executor option" where
  "demo_exec n = Some (\<lambda>p e. (if n = ''late'' then Inl ''boom''
     else Inr (Some \<lparr>ho_status = HOOK_OK, ho_payload = Some (p + 1), ho_artifacts = [], ho_error = None\<rparr>), e))"


text \<open> The hooks a stage finds are those of the groups it is given, and with an empty list of groups
  those of every registered group: a session whose groups resolve to none runs every group's hooks.\<close>

theorem hooks_of_no_group_are_all:
  "set (get_hooks R stage (Some gs)) =
     {h. hd_stage h = stage \<and> hd_enabled h \<and>
        (\<exists>g. g \<in> set (if gs = [] then dkeys (rg_groups R) else gs) \<and> h \<in> set (hooks_of R g))}"
  by (cases gs) (auto simp: set_get_hooks group_names_or_all_def)

text \<open> A session's groups are known, listed once, and include every group that is always enabled for
  its kind; what a main session asks for is ignored. A tool the model is offered belongs to one of
  the session's groups.\<close>

theorem tools_confined_to_groups:
  assumes "\<forall>p \<in> set (rg_groups R). cg_name (snd p) = fst p" and "gs = resolve_tools_for_session R is_sub selected"
  shows "distinct gs \<and> set gs \<subseteq> set (dkeys (rg_groups R)) \<and> set (always_groups R is_sub) \<subseteq> set gs \<and>
     set gs \<subseteq> set (always_groups R is_sub) \<union> (if is_sub then set (case selected of None \<Rightarrow> [] | Some s \<Rightarrow> s) else {}) \<and>
     (\<forall>p \<in> set (visible_tools R (Some gs) exclude). fst p \<notin> set exclude \<and>
        (\<exists>g \<in> set (rg_groups R). fst g \<in> set gs \<and> fst p \<in> set (map tl_name (cg_tools (snd g)))))"
proof -
  have "set (always_groups R is_sub) \<subseteq> set (dkeys (rg_groups R))" by (auto simp: always_groups_def)
  then have "distinct gs \<and> set gs \<subseteq> set (dkeys (rg_groups R)) \<and> set (always_groups R is_sub) \<subseteq> set gs \<and>
     set gs \<subseteq> set (always_groups R is_sub) \<union> (if is_sub then set (case selected of None \<Rightarrow> [] | Some s \<Rightarrow> s) else {})"
    unfolding assms(2) by (auto simp: resolve_tools_for_session_def resolve_enabled_groups_def split: option.splits)
  moreover have "\<forall>p \<in> set (visible_tools R (Some gs) exclude). fst p \<notin> set exclude \<and>
        (\<exists>g \<in> set (rg_groups R). fst g \<in> set gs \<and> fst p \<in> set (map tl_name (cg_tools (snd g))))"
    using visible_tool_group [of _ R gs exclude] assms(1) by fastforce
  ultimately show ?thesis by blast
qed

theorem tools_confined_to_groups_witness:
  "map fst (visible_tools demo_registry (Some (resolve_tools_for_session demo_registry False (Some [''h'']))) []) = [''g_tool'']"
proof -
  have names: "\<forall>p \<in> set (rg_groups demo_registry). cg_name (snd p) = fst p" by code_simp
  have "''h'' \<notin> set (resolve_tools_for_session demo_registry False (Some [''h'']))"
    using tools_confined_to_groups [OF names refl, of False "Some [''h'']" "[]"] by (auto simp: always_groups_def demo_registry_def demo_group_def)
  moreover have "resolve_tools_for_session demo_registry False (Some [''h'']) = [''g'']" by code_simp
  then have "map fst (visible_tools demo_registry (Some (resolve_tools_for_session demo_registry False (Some [''h'']))) []) =
      map fst (visible_tools demo_registry (Some [''g'']) [])" by simp
  moreover have "map fst (visible_tools demo_registry (Some [''g'']) []) = [''g_tool'']" by code_simp
  ultimately show ?thesis by metis
qed

end
