(* ===== verification/Contracts.thy ===== *)
theory Contracts
  imports Hooks
begin

text \<open>
  Deliverable contracts of subtasks: the \<open>done_when\<close> rules checked at delegation
  (\<^verbatim>\<open>capabilities/agent_tools/scripts/dc_contract.py\<close>), their evaluation
  (\<^verbatim>\<open>capabilities/sub_agent_tools/scripts/dc_validator.py\<close>), the state kept in the sub-session's metadata
  (\<^verbatim>\<open>dc_meta.py\<close>) and the two hooks that hold a subtask back until its rules hold
  (\<^verbatim>\<open>dc_before_tool_call.py\<close>, \<^verbatim>\<open>dc_after_llm_response.py\<close>).

  The file system and the shell are a parameter \<open>ws\<close> over a state \<open>'e\<close> that a command may change; an
  operation of it may raise, and a hook that the runtime cancels at its timeout is one that raises.
\<close>

section \<open>Payloads of the tool and response stages\<close>

record before_tool_payload =
  bt_request :: tool_call_request
  bt_session :: string
  bt_index :: nat
  bt_groups :: "string list"
  bt_force :: bool
  bt_reason :: "string option"

record after_llm_payload =
  al_session :: string
  al_task_type :: string
  al_is_sub :: bool
  al_groups :: "string list"
  al_text :: "string option"
  al_calls :: "tool_call_request list"
  al_force :: bool
  al_reason :: "string option"

section \<open>Checking a contract\<close>

definition FILE_RULES :: "string list" where
  "FILE_RULES = [''file_exists'', ''json_parseable'']"

definition TEXT_RULES :: "string list" where
  "TEXT_RULES = [''text_contains'', ''text_not_contains'']"

definition ALLOWED_RULE_TYPES :: "string list" where
  "ALLOWED_RULE_TYPES = [''command_exit_code'', ''file_exists'', ''json_parseable'', ''json_schema'', ''text_contains'', ''text_not_contains'']"

fun is_str :: "json \<Rightarrow> bool" where
  "is_str (JStr s) = True"
| "is_str _ = False"

fun is_int :: "json \<Rightarrow> bool" where
  "is_int (JInt i) = True"
| "is_int (JBool b) = True"
| "is_int _ = False"

definition rule_at :: "nat \<Rightarrow> string" where
  "rule_at i = ''done_when['' @ show_nat i @ '']''"

fun term_error :: "nat \<Rightarrow> nat \<Rightarrow> json list \<Rightarrow> string option" where
  "term_error index i [] = None"
| "term_error index i (t # ts) =
     (if nonblank t then term_error index (Suc i) ts
      else Some (rule_at index @ ''.args.terms['' @ show_nat i @ ''] must be non-empty string.''))"

definition validate_rule_args :: "nat \<Rightarrow> string \<Rightarrow> json_object \<Rightarrow> string option" where
  "validate_rule_args index rule_type args =
     (let path_ok = nonblank (obj_get args ''path'')
      in if rule_type \<in> set FILE_RULES then
           (if \<not> path_ok then Some (rule_at index @ ''.args.path is required for '' @ rule_type @ ''.'') else None)
         else if rule_type = ''json_schema'' then
           (if \<not> path_ok then Some (rule_at index @ ''.args.path is required for json_schema.'')
            else if \<not> (is_dict (obj_get args ''schema'') \<or> nonblank (obj_get args ''schema_path''))
            then Some (rule_at index @ '' json_schema needs args.schema or args.schema_path.'') else None)
         else if rule_type = ''command_exit_code'' then
           (if \<not> nonblank (obj_get args ''command'') then Some (rule_at index @ ''.args.command is required for command_exit_code.'')
            else if dget args ''exit_code'' \<noteq> None \<and> \<not> is_int (obj_get args ''exit_code'')
            then Some (rule_at index @ ''.args.exit_code must be integer when provided.'') else None)
         else if rule_type \<in> set TEXT_RULES then
           (if \<not> path_ok then Some (rule_at index @ ''.args.path is required for '' @ rule_type @ ''.'')
            else case obj_get args ''terms'' of
                   JList (t # ts) \<Rightarrow> term_error index 0 (t # ts)
                 | _ \<Rightarrow> Some (rule_at index @ ''.args.terms must be a non-empty array for '' @ rule_type @ ''.''))
         else Some (rule_at index @ '' has unsupported type: '' @ rule_type))"

definition rule_json :: "string \<Rightarrow> json_object \<Rightarrow> json" where
  "rule_json rule_type args = JDict [(''type'', JStr rule_type), (''args'', JDict args)]"

text \<open>
  One raw rule: its type and arguments, or the error. \<open>check\<close> is the check of the arguments: the one
  of \<open>dc_contract\<close> at delegation, none in \<open>dc_meta\<close> when the hooks load the stored rules.
\<close>

definition check_rule ::
  "(string \<Rightarrow> string) \<Rightarrow> (string \<Rightarrow> json_object \<Rightarrow> string option) \<Rightarrow> string \<Rightarrow> json \<Rightarrow> string + json" where
  "check_rule type_error check label raw = (case raw of
      JDict r \<Rightarrow>
        (if set (dkeys r) \<noteq> {''type'', ''args''} then Inl (label @ '' must contain exactly 'type' and 'args'.'')
         else case obj_get r ''type'' of
           JStr t \<Rightarrow>
             (if t \<notin> set ALLOWED_RULE_TYPES then Inl (type_error label)
              else case obj_get r ''args'' of
                JDict args \<Rightarrow> (case check t args of
                    Some e \<Rightarrow> if e \<noteq> [] then Inl e else Inr (rule_json t args)
                  | None \<Rightarrow> Inr (rule_json t args))
              | _ \<Rightarrow> Inl (label @ ''.args must be an object.''))
         | _ \<Rightarrow> Inl (type_error label))
    | _ \<Rightarrow> Inl (label @ '' must be an object.''))"

fun check_rules :: "(nat \<Rightarrow> json \<Rightarrow> string + json) \<Rightarrow> nat \<Rightarrow> json list \<Rightarrow> string + json list" where
  "check_rules f i [] = Inr []"
| "check_rules f i (r # rs) = (case f i r of
      Inl e \<Rightarrow> Inl e
    | Inr n \<Rightarrow> (case check_rules f (Suc i) rs of Inl e \<Rightarrow> Inl e | Inr ns \<Rightarrow> Inr (n # ns)))"

text \<open>\<open>dc_contract.validate_done_when\<close>.\<close>

definition validate_done_when :: "json \<Rightarrow> string + json list" where
  "validate_done_when done_when = (case done_when of
      JNull \<Rightarrow> Inr []
    | JList rs \<Rightarrow> check_rules (\<lambda>i. check_rule
        (\<lambda>label. label @ ''.type must be one of: '' @ py_join '', '' ALLOWED_RULE_TYPES) (validate_rule_args i) (rule_at i)) 0 rs
    | _ \<Rightarrow> Inl ''done_when must be an array.'')"

text \<open>\<open>dc_meta.validate_done_when\<close>.\<close>

definition meta_validate_done_when :: "json \<Rightarrow> string + json list" where
  "meta_validate_done_when done_when = (case done_when of
      JNull \<Rightarrow> Inr []
    | JList rs \<Rightarrow> check_rules (\<lambda>i. check_rule (\<lambda>label. label @ ''.type unsupported.'') (\<lambda>_ _. None) (rule_at i)) 0 rs
    | _ \<Rightarrow> Inl ''done_when must be an array.'')"

section \<open>Evaluating the rules\<close>

record 'e workspace =
  ws_resolve :: "string \<Rightarrow> 'e \<Rightarrow> string"
  ws_exists :: "string \<Rightarrow> 'e \<Rightarrow> bool"
  ws_is_file :: "string \<Rightarrow> 'e \<Rightarrow> bool"
  ws_json :: "string \<Rightarrow> 'e \<Rightarrow> string + json"
  ws_text :: "string \<Rightarrow> 'e \<Rightarrow> string res"
  ws_run :: "string \<Rightarrow> 'e \<Rightarrow> int res \<times> 'e"

definition resolve_path :: "'e workspace \<Rightarrow> py_runtime \<Rightarrow> string \<Rightarrow> json \<Rightarrow> 'e \<Rightarrow> string" where
  "resolve_path ws rt wroot path_value e =
     (let raw = py_strip (py_str rt (py_or path_value (JStr [])))
      in if raw = [] then wroot
         else if py_startswith raw ''/'' then ws_resolve ws raw e
         else ws_resolve ws (wroot @ ''/'' @ raw) e)"

fun missing_key :: "json list \<Rightarrow> json_object \<Rightarrow> string option" where
  "missing_key [] d = None"
| "missing_key (k # ks) d = (case k of
     JStr s \<Rightarrow> if dget d s = None then Some s else missing_key ks d
   | _ \<Rightarrow> missing_key ks d)"

definition validate_schema_minimal :: "json \<Rightarrow> json \<Rightarrow> (bool \<times> string) res" where
  "validate_schema_minimal payload schema =
     res_bind (as_obj schema) (\<lambda>s.
       let ty = obj_get s ''type'' in
       Inr (if ty = JStr ''object'' then
              (case payload of
                 JDict d \<Rightarrow> (case obj_get_or s ''required'' (JList []) of
                     JList ks \<Rightarrow> (case missing_key ks d of
                         Some k \<Rightarrow> (False, ''missing required key: '' @ k) | None \<Rightarrow> (True, ''ok''))
                   | _ \<Rightarrow> (True, ''ok''))
               | _ \<Rightarrow> (False, ''payload is not object''))
            else if ty = JStr ''array'' then ((case payload of JList _ \<Rightarrow> True | _ \<Rightarrow> False), ''payload is not array'')
            else if ty = JStr ''string'' then (is_str payload, ''payload is not string'')
            else if ty = JStr ''number'' then ((is_int payload \<or> (case payload of JFloat _ \<Rightarrow> True | _ \<Rightarrow> False)), ''payload is not number'')
            else if ty = JStr ''boolean'' then ((case payload of JBool _ \<Rightarrow> True | _ \<Rightarrow> False), ''payload is not boolean'')
            else (True, ''ok'')))"

text \<open>\<open>[str(t) for t in args.get("terms", [])]\<close>: a string or an object is iterated as well.\<close>

definition terms_of :: "py_runtime \<Rightarrow> json_object \<Rightarrow> string list res" where
  "terms_of rt args = (case obj_get_or args ''terms'' (JList []) of
      JList ts \<Rightarrow> Inr (map (py_str rt) ts)
    | JStr s \<Rightarrow> Inr (map (\<lambda>c. [c]) s)
    | JDict d \<Rightarrow> Inr (dkeys d)
    | _ \<Rightarrow> Inl TypeError)"

definition eval_json_schema :: "'e workspace \<Rightarrow> py_runtime \<Rightarrow> string \<Rightarrow> json_object \<Rightarrow> 'e \<Rightarrow> (bool \<times> string) res" where
  "eval_json_schema ws rt wroot args e =
     (let target = resolve_path ws rt wroot (obj_get args ''path'') e in
      if \<not> ws_is_file ws target e then Inr (False, target @ '' is not a readable file.'')
      else case ws_json ws target e of
        Inl exc \<Rightarrow> Inr (False, target @ '' is not valid JSON: '' @ exc)
      | Inr payload \<Rightarrow>
          (case obj_get args ''schema'' of
             JDict s \<Rightarrow> validate_schema_minimal payload (JDict s)
           | _ \<Rightarrow> (let sp = resolve_path ws rt wroot (obj_get args ''schema_path'') e in
               if \<not> ws_is_file ws sp e then Inr (False, ''schema_path '' @ sp @ '' does not exist.'')
               else case ws_json ws sp e of
                 Inl exc \<Rightarrow> Inr (False, ''schema_path '' @ sp @ '' invalid JSON: '' @ exc)
               | Inr schema \<Rightarrow> validate_schema_minimal payload schema)))"

definition eval_text :: "'e workspace \<Rightarrow> py_runtime \<Rightarrow> string \<Rightarrow> bool \<Rightarrow> json_object \<Rightarrow> 'e \<Rightarrow> (bool \<times> string) res" where
  "eval_text ws rt wroot wanted args e =
     (let target = resolve_path ws rt wroot (obj_get args ''path'') e in
      if \<not> ws_is_file ws target e then Inr (False, target @ '' is not a readable file.'')
      else res_bind (ws_text ws target e) (\<lambda>content. res_bind (terms_of rt args) (\<lambda>ts.
        let bad = filter (\<lambda>t. py_contains t content \<noteq> wanted) ts;
            label = (if wanted then ''missing terms: '' else ''forbidden terms present: '')
        in Inr (bad = [], if bad = [] then ''ok'' else label @ rt_repr rt (JList (map JStr bad))))))"

definition run_command_exit_code :: "'e workspace \<Rightarrow> string \<Rightarrow> 'e \<Rightarrow> int res \<times> 'e" where
  "run_command_exit_code ws command e = (if command = [] then (Inr 127, e) else ws_run ws command e)"

definition eval_rule ::
  "'e workspace \<Rightarrow> py_runtime \<Rightarrow> string \<Rightarrow> string \<Rightarrow> json_object \<Rightarrow> 'e \<Rightarrow> (bool \<times> string) res \<times> 'e" where
  "eval_rule ws rt wroot rule_type args e =
     (if rule_type = ''file_exists'' then
        (let target = resolve_path ws rt wroot (obj_get args ''path'') e
         in (Inr (ws_exists ws target e, target @ '' does not exist.''), e))
      else if rule_type = ''json_parseable'' then
        (let target = resolve_path ws rt wroot (obj_get args ''path'') e in
         (if \<not> ws_is_file ws target e then Inr (False, target @ '' is not a readable file.'')
          else case ws_json ws target e of
            Inl exc \<Rightarrow> Inr (False, target @ '' is not valid JSON: '' @ exc)
          | Inr _ \<Rightarrow> Inr (True, ''ok''), e))
      else if rule_type = ''json_schema'' then (eval_json_schema ws rt wroot args e, e)
      else if rule_type = ''command_exit_code'' then
        (case py_int rt (obj_get_or args ''exit_code'' (JInt 0)) of
           Inl err \<Rightarrow> (Inl err, e)
         | Inr wanted \<Rightarrow>
             (case run_command_exit_code ws (py_strip (py_str rt (py_or (obj_get args ''command'') (JStr [])))) e of
                (Inl err, e1) \<Rightarrow> (Inl err, e1)
              | (Inr rc, e1) \<Rightarrow>
                  (Inr (rc = wanted, ''command exit_code='' @ show_int rc @ '', expected='' @ show_int wanted), e1)))
      else if rule_type = ''text_contains'' then (eval_text ws rt wroot True args e, e)
      else if rule_type = ''text_not_contains'' then (eval_text ws rt wroot False args e, e)
      else (Inr (False, ''unsupported rule type: '' @ rule_type), e))"

text \<open>\<open>evaluate_done_when\<close>: the failed rules, in order. The time of the check is an argument of the hooks.\<close>

fun evaluate_done_when ::
  "'e workspace \<Rightarrow> py_runtime \<Rightarrow> string \<Rightarrow> nat \<Rightarrow> json_object list \<Rightarrow> 'e \<Rightarrow> json list res \<times> 'e" where
  "evaluate_done_when ws rt wroot idx [] e = (Inr [], e)"
| "evaluate_done_when ws rt wroot idx (rule # rules) e =
     (let rule_type = py_str rt (py_or (obj_get rule ''type'') (JStr []))
      in case eval_rule ws rt wroot rule_type (dict_of (obj_get_or rule ''args'' (JDict []))) e of
           (Inl err, e1) \<Rightarrow> (Inl err, e1)
         | (Inr (ok, detail), e1) \<Rightarrow>
             (case evaluate_done_when ws rt wroot (Suc idx) rules e1 of
                (Inl err, e2) \<Rightarrow> (Inl err, e2)
              | (Inr failed, e2) \<Rightarrow>
                  (Inr (if ok then failed
                        else JDict [(''index'', JInt (int idx)), (''type'', JStr rule_type), (''detail'', JStr detail)] # failed), e2)))"

section \<open>The state of a contract\<close>

record dc_state =
  dc_false_finish :: int
  dc_last_status :: string
  dc_last_failed :: "json list"
  dc_last_checked :: int

definition dc_default :: dc_state where
  "dc_default = \<lparr>dc_false_finish = 0, dc_last_status = ''unknown'', dc_last_failed = [], dc_last_checked = 0\<rparr>"

definition load_state :: "py_runtime \<Rightarrow> json_object \<Rightarrow> dc_state res" where
  "load_state rt s =
     res_bind (py_int rt (obj_get_or s ''false_finish_count'' (JInt 0))) (\<lambda>n.
     res_bind (py_int rt (obj_get_or s ''last_checked_at_ms'' (JInt 0))) (\<lambda>t.
     Inr \<lparr>dc_false_finish = n, dc_last_status = py_str rt (obj_get_or s ''last_status'' (JStr ''unknown'')),
          dc_last_failed = (case obj_get s ''last_failed_rules'' of JList l \<Rightarrow> l | _ \<Rightarrow> []), dc_last_checked = t\<rparr>))"

text \<open>\<open>meta\<close> is the metadata of the session's row, \<open>None\<close> when there is no row.\<close>

definition load_done_when_and_state :: "py_runtime \<Rightarrow> json option \<Rightarrow> (json list \<times> dc_state) res" where
  "load_done_when_and_state rt meta = (case meta of
      Some (JDict m) \<Rightarrow>
        (let rules = (case meta_validate_done_when (obj_get m ''done_when'') of Inl _ \<Rightarrow> [] | Inr ns \<Rightarrow> ns)
         in case obj_get m ''dc_state'' of
              JDict s \<Rightarrow> res_bind (load_state rt s) (\<lambda>st. Inr (rules, st))
            | _ \<Rightarrow> Inr (rules, dc_default))
    | _ \<Rightarrow> Inr ([], dc_default))"

definition dc_state_json :: "dc_state \<Rightarrow> json" where
  "dc_state_json st = JDict [(''false_finish_count'', JInt (dc_false_finish st)), (''last_status'', JStr (dc_last_status st)),
     (''last_failed_rules'', JList (dc_last_failed st)), (''last_checked_at_ms'', JInt (dc_last_checked st))]"

definition save_dc_state :: "dc_state \<Rightarrow> json option \<Rightarrow> json option" where
  "save_dc_state st meta = map_option (\<lambda>m. JDict (dset ''dc_state'' (dc_state_json st) (dict_of m))) meta"

definition humanize_rule_failure :: "string \<Rightarrow> string \<Rightarrow> string" where
  "humanize_rule_failure rule_type detail =
     (if rule_type = ''file_exists'' then py_strip (''A required file is missing. '' @ detail)
      else if rule_type = ''json_parseable'' then py_strip (''A required JSON file is invalid or unreadable. '' @ detail)
      else if rule_type = ''json_schema'' then py_strip (''A JSON output does not match the expected structure. '' @ detail)
      else if rule_type = ''command_exit_code'' then py_strip (''A required command did not succeed. '' @ detail)
      else if rule_type = ''text_contains'' then py_strip (''A required output is missing expected content. '' @ detail)
      else if rule_type = ''text_not_contains'' then py_strip (''An output contains forbidden content. '' @ detail)
      else if detail \<noteq> [] then detail
      else ''A required validation check failed.'')"

definition failure_line :: "py_runtime \<Rightarrow> json_object \<Rightarrow> string" where
  "failure_line rt d = ''- '' @ humanize_rule_failure
     (py_strip (py_str rt (py_or (obj_get d ''type'') (JStr [])))) (py_strip (py_str rt (py_or (obj_get d ''detail'') (JStr []))))"

definition to_failed_summary :: "py_runtime \<Rightarrow> json list \<Rightarrow> string" where
  "to_failed_summary rt failed =
     (if failed = []
      then ''The task is not complete yet. Please verify the required deliverables and try again.''
      else py_join LF ([''The task is not complete yet.'', ''Before finishing, please address the following issues:''] @
             map (failure_line rt \<circ> dict_of) (filter is_dict (take 8 failed))))"

definition make_report_done_failed_arguments :: "py_runtime \<Rightarrow> string \<Rightarrow> string" where
  "make_report_done_failed_arguments rt summary =
     json_dumps rt (JDict [(''status'', JStr ''failed''), (''summary'', JStr (take 4000 summary))])"

section \<open>The two hooks\<close>

text \<open>
  The world of a hook: the state of the workspace, the sessions' metadata, and the wakeups published
  while the bus is up. \<open>wroot\<close> is \<open>_resolve_workspace_root\<close> and \<open>now\<close> the time of the check.
\<close>

record 'e dc_world =
  dw_env :: 'e
  dw_meta :: "string \<Rightarrow> json option"
  dw_bus :: bool
  dw_published :: "(string \<times> json_object) list"

datatype dc_verdict = DcSkip | DcUnmet dc_state string

definition THRESHOLD :: int where
  "THRESHOLD = 3"

definition dw_save :: "string \<Rightarrow> dc_state \<Rightarrow> 'e dc_world \<Rightarrow> 'e dc_world" where
  "dw_save sid st W = W\<lparr>dw_meta := (dw_meta W)(sid := save_dc_state st (dw_meta W sid))\<rparr>"

definition dw_publish :: "string \<Rightarrow> json_object \<Rightarrow> 'e dc_world \<Rightarrow> 'e dc_world" where
  "dw_publish sid payload W = (if dw_bus W then W\<lparr>dw_published := dw_published W @ [(sid, payload)]\<rparr> else W)"

text \<open>The part the two hooks have in common, from loading the rules to the summary.\<close>

definition dc_verify ::
  "'e workspace \<Rightarrow> py_runtime \<Rightarrow> (string \<Rightarrow> string) \<Rightarrow> int \<Rightarrow> string \<Rightarrow> 'e dc_world \<Rightarrow> dc_verdict res \<times> 'e dc_world" where
  "dc_verify ws rt wroot now sid W = (case load_done_when_and_state rt (dw_meta W sid) of
      Inl err \<Rightarrow> (Inl err, W)
    | Inr (rules, st) \<Rightarrow>
        (if rules = [] then (Inr DcSkip, W)
         else case evaluate_done_when ws rt (wroot sid) 0 (map dict_of rules) (dw_env W) of
           (Inl err, e1) \<Rightarrow> (Inl err, W\<lparr>dw_env := e1\<rparr>)
         | (Inr failed, e1) \<Rightarrow>
             (if failed = []
              then (Inr DcSkip, dw_save sid (st\<lparr>dc_last_status := ''pass'', dc_last_failed := [], dc_last_checked := now\<rparr>)
                                  (W\<lparr>dw_env := e1\<rparr>))
              else (let st' = st\<lparr>dc_false_finish := dc_false_finish st + 1, dc_last_status := ''fail'',
                                 dc_last_failed := failed, dc_last_checked := now\<rparr>
                    in (Inr (DcUnmet st' (to_failed_summary rt failed)), dw_save sid st' (W\<lparr>dw_env := e1\<rparr>))))))"

definition wake_payload :: "string \<Rightarrow> string list \<Rightarrow> string \<Rightarrow> json_object" where
  "wake_payload task_type groups summary =
     [(''trigger_turn'', JBool True), (''task_type'', JStr (if task_type = [] then ''general'' else task_type)),
      (''enabled_groups'', JList (map JStr groups)), (''internal_user_text'', JStr summary)]"

definition dc_output :: "hook_status \<Rightarrow> 'p \<Rightarrow> 'p hook_output" where
  "dc_output st p = \<lparr>ho_status = st, ho_payload = Some p, ho_artifacts = [], ho_error = None\<rparr>"

definition UNMET_REASON :: string where
  "UNMET_REASON = ''deliverable_contract_not_satisfied''"

definition dc_before_tool_call ::
  "'e workspace \<Rightarrow> py_runtime \<Rightarrow> (string \<Rightarrow> string) \<Rightarrow> int \<Rightarrow> bool \<Rightarrow> string \<Rightarrow> before_tool_payload \<Rightarrow> 'e dc_world
   \<Rightarrow> before_tool_payload hook_output res \<times> 'e dc_world" where
  "dc_before_tool_call ws rt wroot now is_sub task_type p W =
     (if \<not> is_sub then (Inr (dc_output HOOK_SKIP p), W)
      else if tc_name (bt_request p) \<noteq> ''report_subtask_done'' then (Inr (dc_output HOOK_SKIP p), W)
      else case dc_verify ws rt wroot now (bt_session p) W of
        (Inl err, W1) \<Rightarrow> (Inl err, W1)
      | (Inr DcSkip, W1) \<Rightarrow> (Inr (dc_output HOOK_SKIP p), W1)
      | (Inr (DcUnmet st summary), W1) \<Rightarrow>
          (if dc_false_finish st \<ge> THRESHOLD
           then (Inr (dc_output HOOK_OK (p\<lparr>bt_request := (bt_request p)\<lparr>tc_arguments := make_report_done_failed_arguments rt summary\<rparr>\<rparr>)), W1)
           else (Inr (dc_output HOOK_OK (p\<lparr>bt_force := True, bt_reason := Some UNMET_REASON\<rparr>)),
                 dw_publish (bt_session p) (wake_payload task_type (bt_groups p) summary) W1)))"

definition dc_after_llm_response ::
  "'e workspace \<Rightarrow> py_runtime \<Rightarrow> (string \<Rightarrow> string) \<Rightarrow> int \<Rightarrow> bool \<Rightarrow> after_llm_payload \<Rightarrow> 'e dc_world
   \<Rightarrow> after_llm_payload hook_output res \<times> 'e dc_world" where
  "dc_after_llm_response ws rt wroot now is_sub p W =
     (if \<not> is_sub then (Inr (dc_output HOOK_SKIP p), W)
      else if al_calls p \<noteq> [] then (Inr (dc_output HOOK_SKIP p), W)
      else case dc_verify ws rt wroot now (al_session p) W of
        (Inl err, W1) \<Rightarrow> (Inl err, W1)
      | (Inr DcSkip, W1) \<Rightarrow> (Inr (dc_output HOOK_SKIP p), W1)
      | (Inr (DcUnmet st summary), W1) \<Rightarrow>
          (if dc_false_finish st \<ge> THRESHOLD
           then (Inr (dc_output HOOK_OK (p\<lparr>al_calls := [\<lparr>tc_call_id = ''dc_fail_report'', tc_name = ''report_subtask_done'',
                    tc_arguments = make_report_done_failed_arguments rt summary\<rparr>]\<rparr>)), W1)
           else (Inr (dc_output HOOK_OK (p\<lparr>al_force := True, al_reason := Some UNMET_REASON\<rparr>)),
                 dw_publish (al_session p) (wake_payload (al_task_type p) (al_groups p) summary) W1)))"

text \<open>A hook as an executor of the runtime; \<open>exc_text\<close> is \<open>str(exc)\<close>.\<close>

definition as_executor :: "(py_error \<Rightarrow> string) \<Rightarrow> ('p \<Rightarrow> 'w \<Rightarrow> 'p hook_output res \<times> 'w) \<Rightarrow> ('p, 'w) executor" where
  "as_executor exc_text f p w = (case f p w of
      (Inl err, w1) \<Rightarrow> (Inl (exc_text err), w1) | (Inr out, w1) \<Rightarrow> (Inr (Some out), w1))"

section \<open>Stored contracts\<close>

definition checked_rule :: "json \<Rightarrow> bool" where
  "checked_rule r \<longleftrightarrow> (\<exists>t args. r = rule_json t args \<and> t \<in> set ALLOWED_RULE_TYPES \<and> (\<forall>i. validate_rule_args i t args = None))"

lemma term_error_index: "term_error i j ts = None \<longleftrightarrow> list_all nonblank ts"
  by (induction ts arbitrary: j) auto

lemma term_error_not_Nil: "term_error i j ts = Some e \<Longrightarrow> e \<noteq> []"
  by (induction ts arbitrary: j) (auto simp: rule_at_def split: if_splits)

lemma rule_at_not_Nil [simp]: "rule_at i \<noteq> []"
  by (simp add: rule_at_def)

lemma rule_args_error_not_Nil: "validate_rule_args i t args = Some e \<Longrightarrow> e \<noteq> []"
  by (auto simp: validate_rule_args_def Let_def dest: term_error_not_Nil split: if_splits json.splits list.splits)

lemma rule_args_index: "validate_rule_args i t args = None \<longleftrightarrow> validate_rule_args j t args = None"
  by (auto simp: validate_rule_args_def Let_def term_error_index split: if_splits json.splits list.splits)

lemma check_rule_meta: "t \<in> set ALLOWED_RULE_TYPES \<Longrightarrow> check_rule f (\<lambda>_ _. None) l (rule_json t args) = Inr (rule_json t args)"
  by (simp add: check_rule_def rule_json_def)

lemma check_rule_Inr:
  assumes "check_rule f (validate_rule_args i) l raw = Inr r" shows "checked_rule r"
proof -
  from assms obtain d t args where "r = rule_json t args" "t \<in> set ALLOWED_RULE_TYPES" "validate_rule_args i t args = None"
    using rule_args_error_not_Nil by (auto simp: check_rule_def split: json.splits if_splits option.splits)
  then show ?thesis unfolding checked_rule_def using rule_args_index by blast
qed

lemma check_rules_Inr:
  "check_rules (\<lambda>i. check_rule f (validate_rule_args i) (rule_at i)) k rs = Inr ns \<Longrightarrow> list_all checked_rule ns \<and> length ns = length rs"
  by (induction rs arbitrary: k ns) (auto simp: check_rule_Inr split: sum.splits)

lemma check_rules_meta:
  "list_all checked_rule ns \<Longrightarrow> check_rules (\<lambda>i. check_rule f (\<lambda>_ _. None) (rule_at i)) k ns = Inr ns"
  by (induction ns arbitrary: k) (auto simp: checked_rule_def check_rule_meta)

lemma validate_done_when_rules:
  "validate_done_when j = Inr ns \<Longrightarrow> list_all checked_rule ns"
  by (auto simp: validate_done_when_def dest: check_rules_Inr split: json.splits)

lemma meta_validate_checked: "list_all checked_rule ns \<Longrightarrow> meta_validate_done_when (JList ns) = Inr ns"
  by (simp add: meta_validate_done_when_def check_rules_meta)

fun rules_hold :: "'e workspace \<Rightarrow> py_runtime \<Rightarrow> string \<Rightarrow> json_object list \<Rightarrow> 'e \<Rightarrow> bool" where
  "rules_hold ws rt wroot [] e = True"
| "rules_hold ws rt wroot (r # rs) e =
     (case eval_rule ws rt wroot (py_str rt (py_or (obj_get r ''type'') (JStr []))) (dict_of (obj_get_or r ''args'' (JDict []))) e of
        (Inr (True, _), e1) \<Rightarrow> rules_hold ws rt wroot rs e1
      | _ \<Rightarrow> False)"

lemma evaluate_pass_iff:
  "(\<exists>e'. evaluate_done_when ws rt wroot i rs e = (Inr [], e')) \<longleftrightarrow> rules_hold ws rt wroot rs e"
proof (induction rs arbitrary: i e)
  case (Cons r rs)
  then show ?case by (auto simp: Let_def split: prod.splits sum.splits bool.splits) (metis Pair_inject sum.inject(2) sum.distinct(1))+
qed simp

lemma load_saved:
  assumes "load_done_when_and_state rt meta = Inr (rules, st)" and "rules \<noteq> []"
  shows "load_done_when_and_state rt (save_dc_state st' meta) = Inr (rules, st')"
proof -
  obtain m where m: "meta = Some (JDict m)"
    using assms by (auto simp: load_done_when_and_state_def split: option.splits json.splits)
  then have "rules = (case meta_validate_done_when (obj_get m ''done_when'') of Inl _ \<Rightarrow> [] | Inr ns \<Rightarrow> ns)"
    using assms(1) by (auto simp: load_done_when_and_state_def Let_def res_bind_Inr_iff split: json.splits sum.splits)
  then show ?thesis
    by (simp add: m load_done_when_and_state_def save_dc_state_def dc_state_json_def load_state_def obj_get_or_def Let_def)
qed

lemma dw_meta_simps [simp]:
  "dw_meta (dw_save sid st W) sid = save_dc_state st (dw_meta W sid)"
  "dw_meta (dw_publish sid p W) = dw_meta W"
  by (simp_all add: dw_save_def dw_publish_def)

lemma dc_verify_unmet:
  assumes "load_done_when_and_state rt (dw_meta W sid) = Inr (rules, st)"
    and "dc_verify ws rt wroot now sid W = (Inr (DcUnmet st' summary), W')"
  shows "dc_false_finish st' = dc_false_finish st + 1 \<and> load_done_when_and_state rt (dw_meta W' sid) = Inr (rules, st') \<and>
    rules \<noteq> [] \<and> \<not> rules_hold ws rt (wroot sid) (map dict_of rules) (dw_env W)"
proof -
  obtain failed e1 where f: "rules \<noteq> []" "evaluate_done_when ws rt (wroot sid) 0 (map dict_of rules) (dw_env W) = (Inr failed, e1)" "failed \<noteq> []"
    "st' = st\<lparr>dc_false_finish := dc_false_finish st + 1, dc_last_status := ''fail'', dc_last_failed := failed, dc_last_checked := now\<rparr>"
    "W' = dw_save sid st' (W\<lparr>dw_env := e1\<rparr>)"
    using assms by (auto simp: dc_verify_def Let_def split: if_splits prod.splits sum.splits)
  then show ?thesis
    using load_saved [OF assms(1) f(1)] evaluate_pass_iff [of ws rt "wroot sid" 0 "map dict_of rules" "dw_env W"] by simp
qed

lemma dc_verify_skip:
  assumes "load_done_when_and_state rt (dw_meta W sid) = Inr (rules, st)"
    and "dc_verify ws rt wroot now sid W = (Inr DcSkip, W')"
  shows "rules_hold ws rt (wroot sid) (map dict_of rules) (dw_env W) \<and>
    (\<exists>st'. load_done_when_and_state rt (dw_meta W' sid) = Inr (rules, st') \<and> dc_false_finish st' = dc_false_finish st)"
proof (cases "rules = []")
  case True
  then show ?thesis using assms by (simp add: dc_verify_def)
next
  case False
  then obtain e1 where f: "evaluate_done_when ws rt (wroot sid) 0 (map dict_of rules) (dw_env W) = (Inr [], e1)"
    "W' = dw_save sid (st\<lparr>dc_last_status := ''pass'', dc_last_failed := [], dc_last_checked := now\<rparr>) (W\<lparr>dw_env := e1\<rparr>)"
    using assms by (auto simp: dc_verify_def Let_def split: if_splits prod.splits sum.splits)
  then show ?thesis
    using load_saved [OF assms(1) False] evaluate_pass_iff [of ws rt "wroot sid" 0 "map dict_of rules" "dw_env W"] by auto
qed

text \<open>
  Successive unmet checks of one contract; between two of them the workspace changes freely and other
  sessions' metadata too.
\<close>

inductive unmet_checks ::
  "'e workspace \<Rightarrow> py_runtime \<Rightarrow> (string \<Rightarrow> string) \<Rightarrow> string \<Rightarrow> nat \<Rightarrow> 'e dc_world \<Rightarrow> 'e dc_world \<Rightarrow> bool"
  for ws rt wroot sid where
  none: "unmet_checks ws rt wroot sid 0 W W"
| unmet: "unmet_checks ws rt wroot sid n W W1 \<Longrightarrow> dc_verify ws rt wroot now sid W1 = (Inr (DcUnmet st s), W2) \<Longrightarrow>
     dw_meta W3 sid = dw_meta W2 sid \<Longrightarrow> unmet_checks ws rt wroot sid (Suc n) W W3"

lemma unmet_checks_count:
  "unmet_checks ws rt wroot sid n W W' \<Longrightarrow> load_done_when_and_state rt (dw_meta W sid) = Inr (rules, st) \<Longrightarrow>
   \<exists>st'. load_done_when_and_state rt (dw_meta W' sid) = Inr (rules, st') \<and> dc_false_finish st' = dc_false_finish st + int n"
proof (induction rule: unmet_checks.induct)
  case (unmet n W W1 now st' s W2 W3)
  then obtain st1 where "load_done_when_and_state rt (dw_meta W1 sid) = Inr (rules, st1)" "dc_false_finish st1 = dc_false_finish st + int n"
    by auto
  with dc_verify_unmet [OF this(1) unmet.hyps(2)] unmet.hyps(3) show ?case by (intro exI [of _ st']) simp
qed auto

section \<open>Rules that were checked do not raise\<close>

lemma text_rule_terms:
  assumes "validate_rule_args i t args = None" and "t \<in> set TEXT_RULES"
  shows "\<exists>ts. obj_get_or args ''terms'' (JList []) = JList ts"
proof -
  have "t \<notin> set FILE_RULES" "t \<noteq> ''json_schema''" "t \<noteq> ''command_exit_code''"
    using assms(2) by (auto simp: TEXT_RULES_def FILE_RULES_def)
  then have "\<exists>ts. obj_get args ''terms'' = JList ts"
    using assms by (cases "obj_get args ''terms''") (simp_all add: validate_rule_args_def Let_def split: if_splits)
  then show ?thesis by (auto simp: obj_get_def obj_get_or_def split: option.splits)
qed

lemma command_rule_code:
  assumes "validate_rule_args i ''command_exit_code'' args = None"
  shows "\<exists>n. py_int rt (obj_get_or args ''exit_code'' (JInt 0)) = Inr n"
proof -
  have "dget args ''exit_code'' = None \<or> is_int (obj_get args ''exit_code'')"
    using assms by (auto simp: validate_rule_args_def FILE_RULES_def TEXT_RULES_def Let_def split: if_splits)
  then show ?thesis
    by (auto simp: obj_get_def obj_get_or_def py_int_def split: option.splits elim!: is_int.elims)
qed

lemma eval_checked:
  assumes "checked_rule (rule_json t args)" and "t = ''json_schema'' \<longrightarrow> is_dict (obj_get args ''schema'')"
    and reads: "\<And>p e. \<exists>s. ws_text ws p e = Inr s" and run: "\<And>c e. \<exists>n. fst (ws_run ws c e) = Inr n"
  shows "\<exists>r e'. eval_rule ws rt wroot t args e = (Inr r, e')"
proof -
  have v: "t \<in> set ALLOWED_RULE_TYPES" "validate_rule_args 0 t args = None"
    using assms(1) by (auto simp: checked_rule_def rule_json_def)
  have ts: "\<exists>ts. terms_of rt args = Inr ts" if "t \<in> set TEXT_RULES"
    using text_rule_terms [OF v(2) that] by (auto simp: terms_of_def)
  have tx: "\<exists>r. eval_text ws rt wroot b args e = Inr r" if "t \<in> set TEXT_RULES" for b
  proof -
    have "\<exists>ts. terms_of rt args = Inr ts" by (rule ts) (fact that)
    then obtain ts' where "terms_of rt args = Inr ts'" ..
    moreover obtain s where "ws_text ws (resolve_path ws rt wroot (obj_get args ''path'') e) e = Inr s" using reads by blast
    ultimately show ?thesis by (auto simp: eval_text_def Let_def)
  qed
  have js: "\<exists>r. eval_json_schema ws rt wroot args e = Inr r" if j: "t = ''json_schema''"
  proof -
    obtain s where "obj_get args ''schema'' = JDict s" using assms(2) j by (cases "obj_get args ''schema''") auto
    then show ?thesis by (auto simp: eval_json_schema_def validate_schema_minimal_def Let_def split: sum.splits)
  qed
  have ex: "\<exists>n. py_int rt (obj_get_or args ''exit_code'' (JInt 0)) = Inr n" if "t = ''command_exit_code''"
    using command_rule_code v(2) that by blast
  have cm: "\<exists>n e1. run_command_exit_code ws c e = (Inr n, e1)" for c
    using run [of c e] by (cases "ws_run ws c e") (auto simp: run_command_exit_code_def)
  have "t = ''command_exit_code'' \<or> t = ''file_exists'' \<or> t = ''json_parseable'' \<or> t = ''json_schema'' \<or>
      t = ''text_contains'' \<or> t = ''text_not_contains''"
    using v(1) by (simp only: ALLOWED_RULE_TYPES_def list.set insert_iff empty_iff simp_thms)
  then show ?thesis
  proof (elim disjE)
    assume 1: "t = ''command_exit_code''"
    obtain n m e1 where "py_int rt (obj_get_or args ''exit_code'' (JInt 0)) = Inr n"
      "run_command_exit_code ws (py_strip (py_str rt (py_or (obj_get args ''command'') (JStr [])))) e = (Inr m, e1)"
      using ex [OF 1] cm by blast
    then show ?thesis unfolding 1 eval_rule_def by simp
  next
    assume 2: "t = ''file_exists''"
    show ?thesis unfolding 2 eval_rule_def Let_def by simp
  next
    assume 3: "t = ''json_parseable''"
    show ?thesis unfolding 3 eval_rule_def Let_def by (auto split: sum.split)
  next
    assume 4: "t = ''json_schema''"
    from js [OF this] show ?thesis unfolding 4 eval_rule_def by auto
  next
    assume 5: "t = ''text_contains''"
    then have "t \<in> set TEXT_RULES" by (simp add: TEXT_RULES_def)
    from tx [OF this, of True] show ?thesis unfolding 5 eval_rule_def by auto
  next
    assume 6: "t = ''text_not_contains''"
    then have "t \<in> set TEXT_RULES" by (simp add: TEXT_RULES_def)
    from tx [OF this, of False] show ?thesis unfolding 6 eval_rule_def by auto
  qed
qed

lemma rule_json_simps [simp]:
  "dict_of (rule_json t args) = [(''type'', JStr t), (''args'', JDict args)]"
  "obj_get_or [(''type'', JStr t), (''args'', JDict args)] ''args'' d = JDict args"
  by (simp_all add: rule_json_def obj_get_or_def)

lemma evaluate_total:
  assumes "list_all checked_rule ns" and "\<And>args. rule_json ''json_schema'' args \<in> set ns \<Longrightarrow> is_dict (obj_get args ''schema'')"
    and "\<And>p e. \<exists>s. ws_text ws p e = Inr s" and "\<And>c e. \<exists>n. fst (ws_run ws c e) = Inr n"
  shows "\<exists>failed e'. evaluate_done_when ws rt wroot i (map dict_of ns) e = (Inr failed, e')"
  using assms(1,2)
proof (induction ns arbitrary: i e)
  case (Cons n ns)
  then obtain t args where n: "n = rule_json t args" and c: "checked_rule (rule_json t args)"
    by (auto simp: checked_rule_def)
  have sc: "t = ''json_schema'' \<longrightarrow> is_dict (obj_get args ''schema'')" using Cons.prems(2) n by auto
  obtain r e1 where 1: "eval_rule ws rt wroot t args e = (Inr r, e1)"
    using eval_checked [OF c sc assms(3,4)] by blast
  have "t \<noteq> []" using c by (auto simp: checked_rule_def rule_json_def ALLOWED_RULE_TYPES_def)
  moreover obtain failed e2 where "evaluate_done_when ws rt wroot (Suc i) (map dict_of ns) e1 = (Inr failed, e2)"
    using Cons by fastforce
  ultimately show ?case using 1 by (cases r) (simp add: n)
qed simp

lemma dc_verify_world:
  assumes "dc_verify ws rt wroot now sid W = (Inr v, W')"
  shows "dw_published W' = dw_published W \<and> dw_bus W' = dw_bus W"
  using assms by (auto simp: dc_verify_def dw_save_def Let_def split: sum.splits prod.splits if_splits)

lemma report_gate_cases:
  assumes "load_done_when_and_state rt (dw_meta W (bt_session p)) = Inr (rules, st)"
    and "tc_name (bt_request p) = ''report_subtask_done''"
    and "dc_before_tool_call ws rt wroot now True task_type p W = (Inr out, W')"
  shows "if rules_hold ws rt (wroot (bt_session p)) (map dict_of rules) (dw_env W)
    then ho_payload out = Some p \<and> dw_published W' = dw_published W
    else \<exists>summary. if dc_false_finish st + 1 \<ge> THRESHOLD
      then ho_payload out = Some (p\<lparr>bt_request := (bt_request p)\<lparr>tc_arguments := make_report_done_failed_arguments rt summary\<rparr>\<rparr>) \<and>
        dw_published W' = dw_published W
      else ho_payload out = Some (p\<lparr>bt_force := True, bt_reason := Some UNMET_REASON\<rparr>) \<and>
        dw_published W' = dw_published W @ (if dw_bus W then [(bt_session p, wake_payload task_type (bt_groups p) summary)] else [])"
proof -
  obtain v W1 where v: "dc_verify ws rt wroot now (bt_session p) W = (Inr v, W1)"
    using assms(2,3) by (auto simp: dc_before_tool_call_def split: prod.splits sum.splits)
  note pub = dc_verify_world [OF v]
  show ?thesis
  proof (cases v)
    case DcSkip
    then have "rules_hold ws rt (wroot (bt_session p)) (map dict_of rules) (dw_env W)"
      using dc_verify_skip [OF assms(1)] v by blast
    with assms(2,3) v DcSkip pub show ?thesis by (auto simp: dc_before_tool_call_def dc_output_def)
  next
    case (DcUnmet st' summary)
    have u: "dc_false_finish st' = dc_false_finish st + 1" "\<not> rules_hold ws rt (wroot (bt_session p)) (map dict_of rules) (dw_env W)"
      using dc_verify_unmet [OF assms(1)] v DcUnmet by blast+
    with assms(2,3) v DcUnmet pub show ?thesis
      by (auto simp: dc_before_tool_call_def dc_output_def dw_publish_def intro!: exI [of _ summary] split: if_splits)
  qed
qed


section \<open>Properties\<close>

text \<open> The rules that delegation accepts are the ones the hooks later check: what
  \<open>dc_contract.validate_done_when\<close> returns is loaded unchanged from the sub-session's metadata, and
  evaluating it never raises, provided files are readable, commands end in time and every
  \<open>json_schema\<close> rule carries its schema inline.\<close>

theorem accepted_contract_is_enforced:
  assumes "validate_done_when raw = Inr rules"
    and "\<forall>p e. \<exists>s. ws_text ws p e = Inr s" and "\<forall>c e. \<exists>n. fst (ws_run ws c e) = Inr n"
    and "\<forall>args. rule_json ''json_schema'' args \<in> set rules \<longrightarrow> is_dict (obj_get args ''schema'')"
    and "obj_get meta ''done_when'' = JList rules" and "load_done_when_and_state rt (Some (JDict meta)) = Inr (loaded, st)"
  shows "loaded = rules \<and> (\<exists>failed e'. evaluate_done_when ws rt wroot 0 (map dict_of loaded) e = (Inr failed, e'))"
proof -
  have c: "list_all checked_rule rules" by (rule validate_done_when_rules) (fact assms(1))
  have "loaded = rules"
    using assms(6) meta_validate_checked [OF c]
    by (auto simp: load_done_when_and_state_def assms(5) Let_def res_bind_Inr_iff split: json.splits)
  moreover have "\<exists>failed e'. evaluate_done_when ws rt wroot 0 (map dict_of rules) e = (Inr failed, e')"
    by (rule evaluate_total [OF c]) (use assms(2-4) in auto)
  ultimately show ?thesis by simp
qed


text \<open> Three strikes: whatever happens to the workspace in between, the first two unmet checks of a
  fresh contract send the agent back to work and every later one turns its report into a failure, so a
  subtask that never delivers ends after at most three attempts to finish.\<close>

theorem third_unmet_check_fails:
  assumes "load_done_when_and_state rt (dw_meta W (bt_session p)) = Inr (rules, st)" and "dc_false_finish st = 0"
    and "unmet_checks ws rt wroot (bt_session p) n W W1" and "tc_name (bt_request p) = ''report_subtask_done''"
    and "dc_before_tool_call ws rt wroot now True task_type p W1 = (Inr out, W2)"
    and "\<not> rules_hold ws rt (wroot (bt_session p)) (map dict_of rules) (dw_env W1)"
  shows "if n < 2 then ho_payload out = Some (p\<lparr>bt_force := True, bt_reason := Some UNMET_REASON\<rparr>)
    else \<exists>summary. ho_payload out = Some (p\<lparr>bt_request := (bt_request p)\<lparr>tc_arguments := make_report_done_failed_arguments rt summary\<rparr>\<rparr>)"
proof -
  obtain st1 where st1: "load_done_when_and_state rt (dw_meta W1 (bt_session p)) = Inr (rules, st1)" "dc_false_finish st1 = int n"
    using unmet_checks_count [OF assms(3,1)] assms(2) by auto
  from report_gate_cases [OF st1(1) assms(4,5)] assms(6) st1(2) show ?thesis
    by (cases "n < 2") (auto simp: THRESHOLD_def)
qed

text \<open> A check that raises opens the gate: both hooks are registered with the policy continue and a
  timeout of three seconds, so when the first rule's command raises (or is cancelled because it runs
  longer), the stage succeeds and the report goes through as if the contract held.\<close>

theorem failing_check_opens_gate:
  assumes "load_done_when_and_state rt (dw_meta W (bt_session p)) = Inr (rule_json ''command_exit_code'' args # rules, st)"
    and "tc_name (bt_request p) = ''report_subtask_done''"
    and "obj_get args ''command'' = JStr command" and "py_strip command \<noteq> []"
    and "py_int rt (obj_get_or args ''exit_code'' (JInt 0)) = Inr wanted"
    and "ws_run ws (py_strip command) (dw_env W) = (Inl err, e1)"
    and "hd_enabled h" and "hd_on_error h = POLICY_CONTINUE"
  shows "runtime_run_stage p [(h, as_executor exc_text (dc_before_tool_call ws rt wroot now True task_type))] W =
    (dc_output HOOK_OK p, W\<lparr>dw_env := e1\<rparr>)"
proof -
  have "command \<noteq> []" using assms(4) by auto
  then have "eval_rule ws rt (wroot (bt_session p)) ''command_exit_code'' args (dw_env W) = (Inl err, e1)"
    unfolding eval_rule_def run_command_exit_code_def using assms(3-6) by (simp add: py_or_def)
  then have "dc_verify ws rt wroot now (bt_session p) W = (Inl err, W\<lparr>dw_env := e1\<rparr>)"
    unfolding dc_verify_def assms(1) by (simp add: Let_def py_or_def)
  then have "dc_before_tool_call ws rt wroot now True task_type p W = (Inl err, W\<lparr>dw_env := e1\<rparr>)"
    unfolding dc_before_tool_call_def using assms(2) by simp
  then show ?thesis using assms(7,8) by (simp add: runtime_run_stage_def as_executor_def dc_output_def)
qed

section \<open>Witnesses\<close>

text \<open>A workspace whose only fact is whether the deliverable exists.\<close>

definition demo_ws :: "bool workspace" where
  "demo_ws = \<lparr>ws_resolve = (\<lambda>p e. p), ws_exists = (\<lambda>p e. e), ws_is_file = (\<lambda>p e. e), ws_json = (\<lambda>p e. Inr JNull),
     ws_text = (\<lambda>p e. Inr []), ws_run = (\<lambda>c e. (Inl (RuntimeError ''timeout''), e))\<rparr>"

definition demo_rules :: "json list" where
  "demo_rules = [rule_json ''file_exists'' [(''path'', JStr ''out.txt'')]]"

definition demo_dc :: "json list \<Rightarrow> bool \<Rightarrow> bool dc_world" where
  "demo_dc rules e = \<lparr>dw_env = e, dw_meta = (\<lambda>_. Some (JDict [(''done_when'', JList rules)])), dw_bus = True, dw_published = []\<rparr>"

definition demo_report :: before_tool_payload where
  "demo_report = \<lparr>bt_request = \<lparr>tc_call_id = ''tc_1_a'', tc_name = ''report_subtask_done'', tc_arguments = ''{}''\<rparr>,
     bt_session = ''m_sub_1'', bt_index = 0, bt_groups = [''g''], bt_force = False, bt_reason = None\<rparr>"

definition demo_root :: "string \<Rightarrow> string" where
  "demo_root sid = ''/w''"

lemma demo_loaded: "load_done_when_and_state null_runtime (dw_meta (demo_dc demo_rules False) (bt_session demo_report)) = Inr (demo_rules, dc_default)"
  by code_simp

theorem accepted_contract_is_enforced_witness:
  "\<exists>failed e'. evaluate_done_when (demo_ws\<lparr>ws_run := \<lambda>c e. (Inr 0, e)\<rparr>) null_runtime ''/w'' 0 (map dict_of demo_rules) False = (Inr failed, e')"
proof -
  let ?ws = "demo_ws\<lparr>ws_run := \<lambda>c e. (Inr 0, e)\<rparr>"
  have 1: "validate_done_when (JList demo_rules) = Inr demo_rules" by code_simp
  have 2: "load_done_when_and_state null_runtime (Some (JDict [(''done_when'', JList demo_rules)])) = Inr (demo_rules, dc_default)" by code_simp
  have 3: "\<forall>p e. \<exists>s. ws_text ?ws p e = Inr s" "\<forall>c e. \<exists>n. fst (ws_run ?ws c e) = Inr n" by (simp_all add: demo_ws_def)
  have 4: "\<forall>args. rule_json ''json_schema'' args \<in> set demo_rules \<longrightarrow> is_dict (obj_get args ''schema'')"
    by (simp add: demo_rules_def rule_json_def)
  show ?thesis using accepted_contract_is_enforced [OF 1 3 4 _ 2, of "''/w''" False] by simp
qed


lemma demo_unmet:
  assumes "load_done_when_and_state null_runtime (dw_meta W ''m_sub_1'') = Inr (demo_rules, st)" and "\<not> dw_env W"
  shows "\<exists>st' s W'. dc_verify demo_ws null_runtime demo_root 7 ''m_sub_1'' W = (Inr (DcUnmet st' s), W') \<and> \<not> dw_env W' \<and>
    load_done_when_and_state null_runtime (dw_meta W' ''m_sub_1'') = Inr (demo_rules, st')"
proof -
  have e: "fst (evaluate_done_when demo_ws null_runtime (demo_root ''m_sub_1'') 0 (map dict_of demo_rules) False) \<noteq> Inr [] \<and>
      \<not> isl (fst (evaluate_done_when demo_ws null_runtime (demo_root ''m_sub_1'') 0 (map dict_of demo_rules) False)) \<and>
      \<not> snd (evaluate_done_when demo_ws null_runtime (demo_root ''m_sub_1'') 0 (map dict_of demo_rules) False)"
    by code_simp
  then obtain failed where "evaluate_done_when demo_ws null_runtime (demo_root ''m_sub_1'') 0 (map dict_of demo_rules) (dw_env W) = (Inr failed, False)" "failed \<noteq> []"
    using assms(2)
    by (cases "evaluate_done_when demo_ws null_runtime (demo_root ''m_sub_1'') 0 (map dict_of demo_rules) False";
        cases "fst (evaluate_done_when demo_ws null_runtime (demo_root ''m_sub_1'') 0 (map dict_of demo_rules) False)") auto
  then have "\<exists>st' s W'. dc_verify demo_ws null_runtime demo_root 7 ''m_sub_1'' W = (Inr (DcUnmet st' s), W') \<and> \<not> dw_env W'"
    using assms by (simp add: dc_verify_def Let_def demo_rules_def dw_save_def)
  then show ?thesis using dc_verify_unmet [OF assms(1)] by blast
qed

theorem third_unmet_check_fails_witness:
  "\<exists>W out W' summary. dc_before_tool_call demo_ws null_runtime demo_root 7 True ''general'' demo_report W = (Inr out, W') \<and>
     ho_payload out = Some (demo_report\<lparr>bt_request := (bt_request demo_report)\<lparr>tc_arguments := make_report_done_failed_arguments null_runtime summary\<rparr>\<rparr>)"
proof -
  let ?W = "demo_dc demo_rules False"
  have s: "bt_session demo_report = ''m_sub_1''" "tc_name (bt_request demo_report) = ''report_subtask_done''" by code_simp+
  have l: "load_done_when_and_state null_runtime (dw_meta ?W ''m_sub_1'') = Inr (demo_rules, dc_default)" using demo_loaded by (simp only: s)
  have "\<not> dw_env ?W" by code_simp
  from demo_unmet [OF l this] obtain st1 s1 W1 where 1: "dc_verify demo_ws null_runtime demo_root 7 ''m_sub_1'' ?W = (Inr (DcUnmet st1 s1), W1)"
    "\<not> dw_env W1" "load_done_when_and_state null_runtime (dw_meta W1 ''m_sub_1'') = Inr (demo_rules, st1)" by blast
  from demo_unmet [OF 1(3,2)] obtain st2 s2 W2 where 2: "dc_verify demo_ws null_runtime demo_root 7 ''m_sub_1'' W1 = (Inr (DcUnmet st2 s2), W2)"
    "\<not> dw_env W2" "load_done_when_and_state null_runtime (dw_meta W2 ''m_sub_1'') = Inr (demo_rules, st2)" by blast
  have u: "unmet_checks demo_ws null_runtime demo_root (bt_session demo_report) 2 ?W W2"
    using unmet_checks.unmet [OF unmet_checks.unmet [OF unmet_checks.none 1(1) refl] 2(1) refl] by (simp add: s numeral_2_eq_2)
  from demo_unmet [OF 2(3,2)] obtain st3 s3 W3 where 3: "dc_verify demo_ws null_runtime demo_root 7 ''m_sub_1'' W2 = (Inr (DcUnmet st3 s3), W3)" by blast
  then obtain out W' where out: "dc_before_tool_call demo_ws null_runtime demo_root 7 True ''general'' demo_report W2 = (Inr out, W')"
    by (cases "THRESHOLD \<le> dc_false_finish st3") (auto simp: dc_before_tool_call_def s)
  have z: "dc_false_finish dc_default = 0" by code_simp
  have nh: "\<not> rules_hold demo_ws null_runtime (demo_root (bt_session demo_report)) (map dict_of demo_rules) (dw_env W2)"
    using dc_verify_unmet [OF 2(3) 3] by (simp add: s)
  show ?thesis
    using third_unmet_check_fails [OF l [folded s(1)] z u s(2) out nh] out by auto
qed

theorem failing_check_opens_gate_witness:
  "ho_payload (fst (runtime_run_stage demo_report
     [(demo_hook ''deliverable_contract_before_tool_call_sub'' 10 POLICY_CONTINUE,
       as_executor (\<lambda>_. ''timeout'') (dc_before_tool_call demo_ws null_runtime demo_root 7 True ''general''))]
     (demo_dc [rule_json ''command_exit_code'' [(''command'', JStr ''pytest'')]] False))) = Some demo_report"
proof -
  let ?W = "demo_dc [rule_json ''command_exit_code'' [(''command'', JStr ''pytest'')]] False"
  have 1: "load_done_when_and_state null_runtime (dw_meta ?W (bt_session demo_report)) =
      Inr ([rule_json ''command_exit_code'' [(''command'', JStr ''pytest'')]], dc_default)" by code_simp
  have 2: "tc_name (bt_request demo_report) = ''report_subtask_done''" "py_strip ''pytest'' \<noteq> []" by code_simp+
  have 3: "py_int null_runtime (obj_get_or [(''command'', JStr ''pytest'')] ''exit_code'' (JInt 0)) = Inr 0" by code_simp
  have 4: "ws_run demo_ws (py_strip ''pytest'') (dw_env ?W) = (Inl (RuntimeError ''timeout''), False)" by code_simp
  have 5: "hd_enabled (demo_hook ''deliverable_contract_before_tool_call_sub'' 10 POLICY_CONTINUE)"
    "hd_on_error (demo_hook ''deliverable_contract_before_tool_call_sub'' 10 POLICY_CONTINUE) = POLICY_CONTINUE"
    by (simp_all add: demo_hook_def)
  show ?thesis
    unfolding failing_check_opens_gate [OF 1 2(1) _ 2(2) 3 4 5, simplified] by (simp add: dc_output_def)
qed

end
