(* ===== verification/Delegation.thy ===== *)
theory Delegation
  imports Coordinator Contracts
begin

text \<open>
  The tool that starts a subtask (\<^verbatim>\<open>capabilities/agent_tools/scripts/delegate_task.py\<close>): its checks, the
  validation of the attachments, the rows it stores, the registration of the task and its wakeup.

  What the code reads outside itself is the record \<open>outside\<close>: the clock, the random id, the file
  system, the rows of files and sessions, and whether each of its database blocks and the bus work.
  Reading the contents of the attachments into message segments is the function \<open>ou_segments\<close>. Where
  an error message ends with the text of an exception, that text is given. The title of the session's
  row is not modelled.
\<close>

section \<open>Nesting and identifiers\<close>

text \<open>\<open>s.count(sub)\<close>: non-overlapping occurrences.\<close>

function py_count :: "string \<Rightarrow> string \<Rightarrow> nat" where
  "py_count [] s = length s + 1"
| "py_count (p # ps) [] = 0"
| "py_count (p # ps) (c # cs) =
     (if py_startswith (c # cs) (p # ps) then 1 + py_count (p # ps) (drop (length (p # ps)) (c # cs))
      else py_count (p # ps) cs)"
  by pat_completeness auto

termination by (relation "measure (\<lambda>(_, s). length s)") auto

definition MAX_NESTING_DEPTH :: nat where
  "MAX_NESTING_DEPTH = 2"

definition make_sub_session_id :: "string \<Rightarrow> string \<Rightarrow> string" where
  "make_sub_session_id parent uuid =
     (let prefix = (if py_contains SUB_SESSION_MARKER parent then parent else take 10 parent);
          prefix' = (if length prefix > 28 then drop (length prefix - 28) prefix else prefix)
      in prefix' @ SUB_SESSION_MARKER @ take 6 uuid)"

section \<open>The outside of the tool\<close>

record outside =
  ou_uuid :: string
  ou_now :: rat
  ou_now_ms :: int
  ou_exists :: "string \<Rightarrow> bool"
  ou_url_path :: "string \<Rightarrow> string"
  ou_file :: "string \<Rightarrow> string option"
  ou_session_meta :: "string \<Rightarrow> json option"
  ou_workspace :: string
  ou_check_exc :: "string option"
  ou_store_exc :: "string option"
  ou_segments :: "string \<Rightarrow> string list \<Rightarrow> string + content_segment list"
  ou_route_ok :: bool
  ou_history_exc :: "(nat \<times> string) option"
  ou_status_ok :: bool
  ou_planner :: bool
  ou_gateway :: bool
  ou_bus :: bool

section \<open>Attachments\<close>

definition normalize_file_uri_to_path :: "outside \<Rightarrow> string \<Rightarrow> string" where
  "normalize_file_uri_to_path ou s =
     (let t = py_strip s
      in if \<not> py_startswith (py_lower t) ''file:'' then t
         else let path = ou_url_path ou t in if path \<noteq> [] then path else t)"

definition is_hex_char :: "char \<Rightarrow> bool" where
  "is_hex_char c = (let n = (of_char c :: nat) in 48 \<le> n \<and> n \<le> 57 \<or> 65 \<le> n \<and> n \<le> 70 \<or> 97 \<le> n \<and> n \<le> 102)"

text \<open>\<open>SESSION_FILE_ID_RE.fullmatch\<close>.\<close>

definition is_session_file_id :: "string \<Rightarrow> bool" where
  "is_session_file_id s \<longleftrightarrow> py_startswith s ''file_'' \<and> 8 \<le> length (drop 5 s) \<and> length (drop 5 s) \<le> 32 \<and>
     list_all is_hex_char (drop 5 s)"

definition session_ids_for_file_lookup :: "outside \<Rightarrow> string \<Rightarrow> string list" where
  "session_ids_for_file_lookup ou owning = (case ou_session_meta ou owning of
      Some (JDict m) \<Rightarrow>
        (case obj_get m ''parent_session_id'' of
           JStr p \<Rightarrow> if py_strip p \<noteq> [] \<and> py_strip p \<noteq> owning then [owning, py_strip p] else [owning]
         | _ \<Rightarrow> [owning])
    | _ \<Rightarrow> [owning])"

definition get_owned_session_file :: "outside \<Rightarrow> string \<Rightarrow> string \<Rightarrow> bool" where
  "get_owned_session_file ou file_id owning =
     (let raw = py_strip file_id
      in py_startswith raw ''file_'' \<and>
         (case ou_file ou raw of None \<Rightarrow> False | Some sid \<Rightarrow> sid \<in> set (session_ids_for_file_lookup ou owning)))"

definition is_url :: "string \<Rightarrow> bool" where
  "is_url s \<longleftrightarrow> py_startswith s ''http://'' \<or> py_startswith s ''https://''"

datatype attachment_error = InvalidFileId string | NoSuchFile string | Unrecognized string

fun validate_attachments :: "outside \<Rightarrow> string \<Rightarrow> string list \<Rightarrow> attachment_error option" where
  "validate_attachments ou owning [] = None"
| "validate_attachments ou owning (a # as) =
     (let att = normalize_file_uri_to_path ou (py_strip a)
      in if is_url att then validate_attachments ou owning as
         else if ou_exists ou att then validate_attachments ou owning as
         else if py_startswith att ''file_'' then
           (if \<not> is_session_file_id att then Some (InvalidFileId att)
            else if \<not> get_owned_session_file ou att owning then Some (NoSuchFile att)
            else validate_attachments ou owning as)
         else Some (Unrecognized att))"

text \<open>The first text goes on with advice that contains characters outside Latin-1.\<close>

fun attachment_error_text :: "py_runtime \<Rightarrow> attachment_error \<Rightarrow> string" where
  "attachment_error_text rt (InvalidFileId a) =
     ''Error: Task delegation failed. Invalid session file id in attachments: '' @ rt_repr rt (JStr a)"
| "attachment_error_text rt (NoSuchFile a) =
     ''Error: Task delegation failed. No session file exists for attachment '' @ rt_repr rt (JStr a) @
     ''. Call list_session_files and pass the exact file id shown there; do not guess.''"
| "attachment_error_text rt (Unrecognized a) =
     ''Error: Task delegation failed. Unrecognized attachment '' @ rt_repr rt (JStr a) @
     '': not an http(s) URL, not a path that exists on the server, and not a valid session file id.''"

definition attachments_of :: "outside \<Rightarrow> py_runtime \<Rightarrow> json_object \<Rightarrow> string list" where
  "attachments_of ou rt args = (case obj_get_or args ''attachments'' (JList []) of
      JList raw \<Rightarrow> map (\<lambda>a. normalize_file_uri_to_path ou (py_strip (py_str rt a)))
                     (filter (\<lambda>a. py_strip (py_str rt a) \<noteq> []) raw)
    | _ \<Rightarrow> [])"

section \<open>The tool\<close>

definition session_meta :: "outside \<Rightarrow> string \<Rightarrow> string \<Rightarrow> string \<Rightarrow> json list \<Rightarrow> (string, json) dict" where
  "session_meta ou parent task_type instruction done_when =
     [(''parent_session_id'', JStr parent), (''workspace_root'', JStr (ou_workspace ou)), (''task_type'', JStr task_type),
      (''instruction'', JStr instruction), (''subtask_status'', JStr (''running:'' @ task_type)),
      (''done_when'', JList done_when),
      (''dc_state'', JDict [(''false_finish_count'', JInt 0), (''last_status'', JStr ''initialized''),
         (''last_failed_rules'', JList []), (''last_checked_at_ms'', JInt (ou_now_ms ou))])]"

fun store_segments :: "string \<Rightarrow> content_segment list \<Rightarrow> world \<Rightarrow> bool \<times> world" where
  "store_segments sub [] W = (True, W)"
| "store_segments sub (g # gs) W = (case block_from_segments ROLE_USER [g] of
      None \<Rightarrow> (False, W)
    | Some m \<Rightarrow> store_segments sub gs (act (StoreMessage sub m) W))"

text \<open>From the registration of the task on.\<close>

definition start_subtask ::
  "outside \<Rightarrow> string \<Rightarrow> string \<Rightarrow> string \<Rightarrow> json \<Rightarrow> string \<Rightarrow> nat \<Rightarrow> string list \<Rightarrow> world \<Rightarrow> string \<times> world" where
  "start_subtask ou parent sub instruction task_type tt n_segments groups W =
     (let W1 = with_state parent (register_task sub instruction (ou_now ou)) W;
          W2 = W1\<lparr>w_globals := bind_sub_session parent sub (w_globals W1)\<rparr>;
          W3 = with_state parent (update_status sub (''running:'' @ tt) []) W2;
          W4 = snapshot (ou_gateway ou) parent W3
      in if ou_bus ou
         then (''Task delegated successfully. Sub-agent started with Session ID: '' @ sub @ ''. '' @
               ''You will receive a [System Notification] message when it completes.'',
               act (PublishEvent USER_MESSAGE_RECEIVED sub
                 [(''segment_count'', JInt (int n_segments)), (''trigger_turn'', JBool True),
                  (''task_type'', task_type), (''parent_session_id'', JStr parent),
                  (''selected_groups'', JList (map JStr groups)), (''enabled_groups'', JList (map JStr groups))] ''delegate_task'') W4)
         else let W5 = with_state parent (\<lambda>s. snd (mark_terminal sub ''failed'' ''Runtime bus unavailable for sub-task wakeup.'' s)) W4
              in (''Task delegated but failed to start. Sub-agent Session ID: '' @ sub @ ''.'',
                  if ou_status_ok ou then act (StoreStatus sub ''failed'') W5 else W5))"

definition the_instruction :: "py_runtime \<Rightarrow> json_object \<Rightarrow> string" where
  "the_instruction rt args = py_str rt (py_or (obj_get args ''instruction'') (JStr []))"

text \<open>The checks, in the code's order: an error message, or the rules of the contract.\<close>

definition check_delegation :: "outside \<Rightarrow> py_runtime \<Rightarrow> json_object \<Rightarrow> string \<Rightarrow> string + json list" where
  "check_delegation ou rt args parent =
     (let attachments = attachments_of ou rt args
      in if the_instruction rt args = [] then Inl ''Error: instruction is required.''
         else case validate_done_when (obj_get args ''done_when'') of
           Inl err \<Rightarrow> Inl (''Error: invalid done_when: '' @ err)
         | Inr done_when \<Rightarrow>
             (if \<not> ou_planner ou then Inl ''Error: Planner instance not available in context. Cannot spawn sub-agent.''
              else if py_count SUB_SESSION_MARKER parent \<ge> MAX_NESTING_DEPTH
              then Inl ''Error: Maximum Sub-Agent nesting depth reached. You must complete this task yourself without delegating further.''
              else if attachments = [] then Inr done_when
              else case ou_check_exc ou of
                Some e \<Rightarrow> Inl (''Error: Task delegation failed while validating attachments: '' @ e)
              | None \<Rightarrow> (case validate_attachments ou parent attachments of
                  Some err \<Rightarrow> Inl (attachment_error_text rt err)
                | None \<Rightarrow> Inr done_when)))"

text \<open>From the rows of the sub-session on.\<close>

definition run_delegation ::
  "outside \<Rightarrow> py_runtime \<Rightarrow> registry \<Rightarrow> json_object \<Rightarrow> string \<Rightarrow> json list \<Rightarrow> world \<Rightarrow> string \<times> world" where
  "run_delegation ou rt R args parent done_when W =
     (let instruction = the_instruction rt args;
          background = obj_get_or args ''background'' (JStr []);
          task_type = obj_get_or args ''task_type'' (JStr ''general'');
          tt = py_str rt task_type;
          attachments = attachments_of ou rt args;
          sub = make_sub_session_id parent (ou_uuid ou)
      in case ou_store_exc ou of
           Some e \<Rightarrow> (''Error: Failed to initialize sub-session in database: '' @ e, W)
         | None \<Rightarrow>
           (let W1 = act (StoreSession sub (session_meta ou parent tt instruction done_when)) W;
                full = (if truthy background then ''Background: '' @ py_str rt background @ LF @ LF @ ''Task: '' @ instruction
                        else instruction)
            in case (if attachments = [] then Inr [] else ou_segments ou sub attachments) of
                 Inl err \<Rightarrow> (err, W1)
               | Inr extra \<Rightarrow>
                 (let segments = text_segment (JStr full) # extra;
                      route_input = py_strip full @
                        (if attachments = [] then [] else LF @ LF @ ''Attachments: '' @ py_join '', '' attachments);
                      groups = resolve_enabled_groups R None True;
                      W2 = (if ou_route_ok ou
                            then act (UpdateMeta sub [(''enabled_groups'', JList (map JStr groups)), (''routing_pending'', JBool True),
                                                      (''route_input'', JStr route_input)]) W1
                            else W1)
                  in case ou_history_exc ou of
                       Some (k, e) \<Rightarrow> (''Error: Failed to initialize sub-session history: '' @ e, snd (store_segments sub (take k segments) W2))
                     | None \<Rightarrow>
                         (let (ok, W3) = store_segments sub segments W2
                          in if \<not> ok then (''Error: Failed to build initial sub-session message.'', W3)
                             else start_subtask ou parent sub instruction task_type tt (length segments) groups W3))))"

definition delegate_task ::
  "outside \<Rightarrow> py_runtime \<Rightarrow> registry \<Rightarrow> json_object \<Rightarrow> string \<Rightarrow> world \<Rightarrow> string \<times> world" where
  "delegate_task ou rt R args parent W = (case check_delegation ou rt args parent of
      Inl msg \<Rightarrow> (msg, W)
    | Inr done_when \<Rightarrow> run_delegation ou rt R args parent done_when W)"

section \<open>Facts\<close>

lemma py_contains_mid: "m \<noteq> [] \<Longrightarrow> py_contains m (a @ m @ b)"
proof (induction a)
  case Nil
  then show ?case by (cases m) (auto simp: py_startswith_def)
qed simp

lemma sub_session_role: "resolve_session_role_policy (make_sub_session_id parent uuid) = RoleSub"
proof -
  have "\<exists>a b. make_sub_session_id parent uuid = a @ SUB_SESSION_MARKER @ b"
    unfolding make_sub_session_id_def Let_def by blast
  then show ?thesis
    using py_contains_mid [of SUB_SESSION_MARKER] by (auto simp: resolve_session_role_policy_def SUB_SESSION_MARKER_def)
qed

lemma store_segments_simps [simp]:
  "the_state k (snd (store_segments sub gs W)) = the_state k W" "main_of (snd (store_segments sub gs W)) j = main_of W j"
  by (induction gs arbitrary: W) (auto split: option.splits)

lemma store_segments_ok: "fst (store_segments sub gs W)"
  by (induction gs arbitrary: W) (auto simp: block_from_segments_def)

lemma store_segments_log:
  "w_log (snd (store_segments sub gs W)) = w_log W @ map (\<lambda>g. StoreMessage sub (the (block_from_segments ROLE_USER [g]))) gs"
  by (induction gs arbitrary: W) (auto simp: block_from_segments_def act_def)

lemma registered_record:
  assumes "s' = update_status sub st [] (register_task sub instr t s)"
  shows "\<exists>r. dget (records s') sub = Some r \<and> st_status r = st \<and> st_instruction r = instr \<and> st_sub_session_id r = sub"
    and "j \<noteq> sub \<Longrightarrow> dget (records s') j = dget (records s) j"
  by (auto simp: assms update_status_def register_task_def Let_def)

lemma running_prefix_live: "\<not> is_terminal_status (''running:'' @ tt)"
  by (rule running_not_terminal) (simp add: py_startswith_def)

text \<open>What makes a delegation acceptable.\<close>

definition delegation_ok :: "outside \<Rightarrow> py_runtime \<Rightarrow> json_object \<Rightarrow> string \<Rightarrow> bool" where
  "delegation_ok ou rt args parent \<longleftrightarrow>
     the_instruction rt args \<noteq> [] \<and> \<not> isl (validate_done_when (obj_get args ''done_when'')) \<and>
     ou_planner ou \<and> py_count SUB_SESSION_MARKER parent < MAX_NESTING_DEPTH \<and>
     (attachments_of ou rt args = [] \<or> ou_check_exc ou = None \<and> validate_attachments ou parent (attachments_of ou rt args) = None)"

lemma check_delegation_iff: "isl (check_delegation ou rt args parent) \<longleftrightarrow> \<not> delegation_ok ou rt args parent"
proof (cases "validate_done_when (obj_get args ''done_when'')")
  case (Inr rules)
  then show ?thesis
    by (cases "ou_check_exc ou"; cases "validate_attachments ou parent (attachments_of ou rt args)")
      (auto simp: check_delegation_def delegation_ok_def Let_def)
qed (auto simp: check_delegation_def delegation_ok_def Let_def)

lemma run_delegation_starts:
  assumes "ou_store_exc ou = None" and "ou_history_exc ou = None" and "\<forall>sub as. \<not> isl (ou_segments ou sub as)"
    and "sub = make_sub_session_id parent (ou_uuid ou)"
  shows "\<exists>n W0. run_delegation ou rt R args parent rules W =
      start_subtask ou parent sub (the_instruction rt args) (obj_get_or args ''task_type'' (JStr ''general''))
        (py_str rt (obj_get_or args ''task_type'' (JStr ''general''))) n (resolve_enabled_groups R None True) W0 \<and>
      the_state parent W0 = the_state parent W"
proof -
  obtain extra where extra: "(if attachments_of ou rt args = [] then Inr [] else ou_segments ou sub (attachments_of ou rt args)) = Inr extra"
    using assms(3) by (metis sum.collapse(2))
  have split: "(case store_segments s gs W0 of (ok, W3) \<Rightarrow> if \<not> ok then a W3 else b W3) = b (snd (store_segments s gs W0))" for s gs W0 a and b :: "world \<Rightarrow> 'z"
    using store_segments_ok [of s gs W0] by (simp add: case_prod_beta)
  show ?thesis
    unfolding run_delegation_def Let_def assms(1,2) assms(4) [symmetric] extra option.case sum.case split
    by (intro exI conjI, rule refl) (simp only: store_segments_simps the_state_simps simp_thms split: if_split)
qed

lemma start_subtask_effects:
  assumes "(msg, W') = start_subtask ou parent sub instruction task_type tt n groups W" and "parent \<noteq> []"
  shows "(\<exists>r. dget (records (the_state parent W')) sub = Some r \<and> st_instruction r = instruction \<and>
                 st_status r = (if ou_bus ou then ''running:'' @ tt else ''failed'')) \<and>
    (\<forall>j. j \<noteq> sub \<longrightarrow> dget (records (the_state parent W')) j = dget (records (the_state parent W)) j) \<and>
    main_of W' sub = Some parent"
proof -
  let ?st = "''running:'' @ tt"
  let ?s = "update_status sub ?st [] (register_task sub instruction (ou_now ou) (the_state parent W))"
  obtain r where r: "dget (records ?s) sub = Some r" "st_status r = ?st" "st_instruction r = instruction"
    using registered_record(1) [OF refl] by metis
  have "the_state parent W' = (if ou_bus ou then ?s else snd (mark_terminal sub ''failed'' ''Runtime bus unavailable for sub-task wakeup.'' ?s))
      \<and> main_of W' sub = Some parent"
    using assms by (auto simp: start_subtask_def Let_def split: if_splits)
  moreover have "normalize_terminal ''failed'' = ''failed''"
    by (simp add: normalize_terminal_def TERMINAL_STATUSES_def py_strip_id py_lower_def lower_char_def is_space_def Let_def)
  moreover have "mark_terminal sub ''failed'' m ?s = (True, ?s\<lparr>records := dset sub
      (r\<lparr>st_status := normalize_terminal ''failed'', st_summary := (if m \<noteq> [] then m else st_summary r)\<rparr>) (records ?s)\<rparr>)" for m
    using r(1,2) running_prefix_live by (simp add: mark_terminal_def)
  ultimately show ?thesis
    using r registered_record(2) [OF refl, of _ sub] by auto
qed

section \<open>Properties\<close>

text \<open>C13. Delegation is checked before it acts: when an argument, the contract, the nesting depth or an
  attachment is refused nothing changes. When every check passes and the stores succeed, exactly one
  task is registered, under a sub-session id that is recognised as a sub-session's and bound to its
  parent, running if the bus took its wakeup and failed otherwise, and no other task is touched.\<close>

theorem delegate_task_effects:
  assumes "parent \<noteq> []" and "ou_store_exc ou = None" and "ou_history_exc ou = None"
    and "\<forall>sub as. \<not> isl (ou_segments ou sub as)"
    and "(msg, W') = delegate_task ou rt R args parent W" and "sub = make_sub_session_id parent (ou_uuid ou)"
  shows "if \<not> delegation_ok ou rt args parent then W' = W
         else (\<exists>r. dget (records (the_state parent W')) sub = Some r \<and>
                 st_instruction r = the_instruction rt args \<and>
                 st_status r = (if ou_bus ou then ''running:'' @ py_str rt (obj_get_or args ''task_type'' (JStr ''general'')) else ''failed'')) \<and>
              (\<forall>j. j \<noteq> sub \<longrightarrow> dget (records (the_state parent W')) j = dget (records (the_state parent W)) j) \<and>
              main_of W' sub = Some parent \<and> resolve_session_role_policy sub = RoleSub"
proof (cases "delegation_ok ou rt args parent")
  case True
  then have "\<not> isl (check_delegation ou rt args parent)" by (simp add: check_delegation_iff)
  then obtain rules where "check_delegation ou rt args parent = Inr rules" by (cases "check_delegation ou rt args parent") auto
  then have d: "(msg, W') = run_delegation ou rt R args parent rules W" using assms(5) by (simp add: delegate_task_def)
  obtain n W0 where st: "(msg, W') = start_subtask ou parent sub (the_instruction rt args) (obj_get_or args ''task_type'' (JStr ''general''))
        (py_str rt (obj_get_or args ''task_type'' (JStr ''general''))) n (resolve_enabled_groups R None True) W0"
      "the_state parent W0 = the_state parent W"
    using run_delegation_starts [OF assms(2-4,6), of rt R args rules W] d by auto
  show ?thesis
    using start_subtask_effects [OF st(1) assms(1)] True st(2) sub_session_role [of parent "ou_uuid ou"] assms(6) by auto
next
  case False
  then obtain m where "check_delegation ou rt args parent = Inl m"
    using check_delegation_iff [of ou rt args parent] by (cases "check_delegation ou rt args parent") auto
  with False assms(5) show ?thesis by (simp add: delegate_task_def)
qed

definition demo_outside :: outside where
  "demo_outside = \<lparr>ou_uuid = ''123456'', ou_now = 7, ou_now_ms = 7000, ou_exists = (\<lambda>p. p = ''/data/in.csv''), ou_url_path = (\<lambda>t. []),
     ou_file = (\<lambda>f. if f = ''file_0123abcd'' then Some ''m'' else None), ou_session_meta = (\<lambda>_. None), ou_workspace = ''/w'',
     ou_check_exc = None, ou_store_exc = None, ou_segments = (\<lambda>sub as. Inr []), ou_route_ok = True, ou_history_exc = None,
     ou_status_ok = True, ou_planner = True, ou_gateway = True, ou_bus = True\<rparr>"

definition demo_args :: json_object where
  "demo_args = [(''instruction'', JStr ''do it''), (''attachments'', JList [JStr '' file_0123abcd'', JStr ''/data/in.csv'', JStr ''https://x''])]"

theorem delegate_task_effects_witness:
  "main_of (snd (delegate_task demo_outside null_runtime demo_registry demo_args ''m'' (demo_world new_subtask_state))) ''m_sub_123456'' = Some ''m''"
proof -
  have s: "''m_sub_123456'' = make_sub_session_id ''m'' (ou_uuid demo_outside)" by code_simp
  have ok: "delegation_ok demo_outside null_runtime demo_args ''m''" by code_simp
  obtain msg W' where d: "(msg, W') = delegate_task demo_outside null_runtime demo_registry demo_args ''m'' (demo_world new_subtask_state)"
    by (metis surj_pair)
  have "ou_store_exc demo_outside = None" "ou_history_exc demo_outside = None" "\<forall>sub as. \<not> isl (ou_segments demo_outside sub as)"
    by (simp_all add: demo_outside_def)
  from delegate_task_effects [OF _ this d s] ok d [symmetric] show ?thesis by simp
qed

theorem delegation_refuses_foreign_file:
  "fst (delegate_task demo_outside null_runtime demo_registry [(''instruction'', JStr ''x''), (''attachments'', JList [JStr ''file_id_9''])] ''m''
     (demo_world new_subtask_state)) = attachment_error_text null_runtime (InvalidFileId ''file_id_9'')"
  by code_simp

end
