(* ===== verification/Planner.thy ===== *)
theory Planner
  imports Coordinator Contracts
begin

text \<open>
  One turn of the planner (\<^verbatim>\<open>core/agent/planning/planner.py\<close>): preparing the turn (tools, hooks, context,
  model call with the repair of truncated tool calls), running the batch of tool calls with its hooks,
  and the outcome that the session's policy (\<^verbatim>\<open>turn_policy.py\<close>) makes of it.

  A turn's state is the world of \<open>Coordinator\<close> and a state \<open>'e\<close> of everything else. The collaborators
  are a record \<open>planner\<close>: the registry and the hooks' executors, the model's client, the tool runtime,
  the session's history and prompt, and \<open>json.loads\<close> as a check. Each may change the turn's state; an
  exception is given by its text. The log of a turn records what the planner stores, emits and
  publishes.
\<close>

section \<open>Tool calls\<close>

text \<open>\<open>make_short_tool_call_id\<close> of \<^verbatim>\<open>tool_logging.py\<close>.\<close>

definition make_short_tool_call_id :: "string \<Rightarrow> nat \<Rightarrow> string" where
  "make_short_tool_call_id raw index =
     (let normalized = py_strip raw;
          tail6 = (if normalized \<noteq> [] then drop (length normalized - 6) normalized else show_nat (index + 1))
      in ''tc_'' @ show_nat (index + 1) @ ''_'' @ tail6)"

definition py_endswith :: "string \<Rightarrow> string \<Rightarrow> bool" where
  "py_endswith s t \<longleftrightarrow> length t \<le> length s \<and> drop (length s - length t) s = t"

definition normalize_assistant_tool_message :: "string option \<Rightarrow> string option" where
  "normalize_assistant_tool_message message_text = (case message_text of
      Some (c # cs) \<Rightarrow>
        (let t = py_strip (c # cs);
             t' = (if py_startswith t ''<thought>'' \<and> py_endswith t ''</thought>''
                   then py_strip (take (length t - 10 - 9) (drop 9 t)) else t)
         in if t' = [] then None else Some t')
    | _ \<Rightarrow> None)"

definition renumber_from :: "nat \<Rightarrow> tool_call_request list \<Rightarrow> tool_call_request list" where
  "renumber_from k calls = map (\<lambda>(i, c). c\<lparr>tc_call_id := make_short_tool_call_id (tc_call_id c) i\<rparr>) (List.enumerate k calls)"

definition renumber :: "tool_call_request list \<Rightarrow> tool_call_request list" where
  "renumber calls = renumber_from 0 calls"

section \<open>The model's response\<close>

record llm_response =
  lr_text :: string
  lr_calls :: "tool_call_request list"
  lr_usage :: usage_tokens
  lr_finish :: "string option"

definition has_invalid_tool_args_json :: "(string \<Rightarrow> bool) \<Rightarrow> tool_call_request list \<Rightarrow> bool" where
  "has_invalid_tool_args_json json_ok calls \<longleftrightarrow> list_ex (\<lambda>c. \<not> json_ok (tc_arguments c)) calls"

definition needs_length_truncation_repair :: "(string \<Rightarrow> bool) \<Rightarrow> llm_response \<Rightarrow> tool_call_request list \<Rightarrow> bool" where
  "needs_length_truncation_repair json_ok r calls \<longleftrightarrow>
     py_lower (py_strip (case lr_finish r of None \<Rightarrow> [] | Some f \<Rightarrow> f)) = ''length'' \<and> calls \<noteq> [] \<and>
     has_invalid_tool_args_json json_ok calls"

definition REPAIR_PROMPT :: string where
  "REPAIR_PROMPT = ''Your previous response was truncated (finish_reason=length) and produced malformed '' @
     ''tool_call arguments JSON. Re-emit only the necessary tool_calls with complete, valid JSON '' @
     ''arguments. Keep output minimal and do not include extra prose.''"

definition SKIPPED_TEXT :: string where
  "SKIPPED_TEXT = ''Model output was truncated by upstream token limit and tool arguments stayed malformed after auto-repair. '' @
     ''Skipped tool execution this turn to avoid invalid-call loops. Please retry with a smaller output scope.''"

section \<open>Payloads of the other stages\<close>

record tool_spec =
  ts_name :: string
  ts_description :: string
  ts_parameters :: json_object

text \<open>\<open>LlmFunctionToolSpec.from_openai_tool\<close> and \<open>to_openai_tool\<close>.\<close>

definition from_openai_tool :: "json \<Rightarrow> tool_spec option" where
  "from_openai_tool tool = (case obj_get (dict_of tool) ''function'' of
      JDict f \<Rightarrow>
        (if nonblank (obj_get f ''name'')
         then Some \<lparr>ts_name = the_str (obj_get f ''name''), ts_description = the_str (obj_get f ''description''),
                    ts_parameters = dict_of (obj_get f ''parameters'')\<rparr>
         else None)
    | _ \<Rightarrow> None)"

definition to_openai_tool :: "tool_spec \<Rightarrow> json" where
  "to_openai_tool t = JDict [(''type'', JStr ''function''), (''function'', JDict
     [(''name'', JStr (ts_name t)), (''description'', JStr (ts_description t)), (''parameters'', JDict (ts_parameters t))])]"

record tools_prepared_payload =
  tp_session :: string
  tp_task_type :: string
  tp_is_sub :: bool
  tp_groups :: "string list"
  tp_tools :: "tool_spec list"

record before_llm_payload =
  bl_messages :: "chat_message list"
  bl_history :: "history_item list"
  bl_user :: "message_block option"
  bl_session :: string
  bl_task_type :: string
  bl_is_sub :: bool
  bl_tools :: "tool_spec list"
  bl_budget :: "int option"
  bl_force :: bool
  bl_reason :: "string option"

record after_tool_payload =
  at_request :: tool_call_request
  at_session :: string
  at_index :: nat
  at_result :: string
  at_status :: string
  at_force :: bool
  at_reason :: "string option"

section \<open>The turn\<close>

record 'e turn =
  tn_env :: 'e
  tn_world :: world

record 'e planner =
  pl_registry :: registry
  pl_hooks_on :: bool
  pl_tools_prepared :: "string \<Rightarrow> (tools_prepared_payload, 'e turn) executor option"
  pl_before_llm :: "string \<Rightarrow> (before_llm_payload, 'e turn) executor option"
  pl_after_llm :: "string \<Rightarrow> (after_llm_payload, 'e turn) executor option"
  pl_before_tool :: "string \<Rightarrow> (before_tool_payload, 'e turn) executor option"
  pl_after_tool :: "string \<Rightarrow> (after_tool_payload, 'e turn) executor option"
  pl_chat :: "json list \<Rightarrow> json list \<Rightarrow> 'e turn \<Rightarrow> (string + llm_response) \<times> 'e turn"
  pl_execute :: "string \<Rightarrow> string \<Rightarrow> string \<Rightarrow> 'e turn \<Rightarrow> (string + string) \<times> 'e turn"
  pl_history :: "'e turn \<Rightarrow> string + history_item list"
  pl_prompt :: "string \<Rightarrow> string \<Rightarrow> string"
  pl_json_ok :: "string \<Rightarrow> bool"
  pl_exc_text :: "py_error \<Rightarrow> string"
  pl_budget :: "int option"
  pl_services :: turn_services
  pl_db_ok :: bool

record hook_context =
  hc_session :: string
  hc_turn_id :: string
  hc_task_type :: string
  hc_is_sub :: bool

record force_finish =
  ff_stage :: string
  ff_reason :: "string option"
  ff_details :: json_object

definition tact :: "action \<Rightarrow> 'e turn \<Rightarrow> 'e turn" where
  "tact a T = T\<lparr>tn_world := act a (tn_world T)\<rparr>"

definition extract_force_finish_directive :: "string \<Rightarrow> bool \<Rightarrow> string option \<Rightarrow> json_object \<Rightarrow> force_finish option" where
  "extract_force_finish_directive stage force reason details =
     (if force then Some \<lparr>ff_stage = stage, ff_reason = reason, ff_details = details\<rparr> else None)"

definition force_finish_event :: "string \<Rightarrow> hook_context \<Rightarrow> string list \<Rightarrow> force_finish \<Rightarrow> action" where
  "force_finish_event sid hc groups d = PublishEvent FORCE_FINISH_REQUESTED sid
     [(''trigger_turn'', JBool False), (''reason'', json_opt JStr (ff_reason d)), (''stage'', JStr (ff_stage d)),
      (''turn_id'', JStr (hc_turn_id hc)), (''task_type'', JStr (hc_task_type hc)),
      (''enabled_groups'', JList (map JStr groups)), (''is_sub_session'', JBool (hc_is_sub hc)),
      (''details'', JDict (ff_details d))] ''planner_force_finish''"

text \<open>A stage's payload after its hooks; the payload that went in when a stage gives none back.\<close>

definition stage_payload :: "'e planner \<Rightarrow> (string \<Rightarrow> ('p, 'e turn) executor option) \<Rightarrow> string \<Rightarrow> string list \<Rightarrow> 'p \<Rightarrow> 'e turn \<Rightarrow> 'p \<times> 'e turn" where
  "stage_payload pl execs stage groups p T =
     (let (out, T1) = run_stage (pl_registry pl) execs (pl_hooks_on pl) stage p groups T
      in (case ho_payload out of Some p' \<Rightarrow> p' | None \<Rightarrow> p, T1))"

definition no_usage :: usage_tokens where
  "no_usage = \<lparr>use_prompt = None, use_completion = None, use_total = None\<rparr>"

section \<open>The batch of tool calls\<close>

definition call_details :: "nat \<Rightarrow> tool_call_request \<Rightarrow> json_object" where
  "call_details index r = [(''call_index'', JInt (int index)), (''tool_name'', JStr (tc_name r)), (''call_id'', JStr (tc_call_id r))]"

definition run_before_tool ::
  "'e planner \<Rightarrow> string \<Rightarrow> string list \<Rightarrow> nat \<Rightarrow> tool_call_request \<Rightarrow> 'e turn \<Rightarrow> before_tool_payload \<times> 'e turn" where
  "run_before_tool pl sid groups index r T =
     stage_payload pl (pl_before_tool pl) ''before_tool_call'' groups
       \<lparr>bt_request = r, bt_session = sid, bt_index = index, bt_groups = groups, bt_force = False, bt_reason = None\<rparr> T"

definition run_after_tool ::
  "'e planner \<Rightarrow> string \<Rightarrow> string list \<Rightarrow> nat \<Rightarrow> tool_call_request \<Rightarrow> string \<Rightarrow> string \<Rightarrow> 'e turn \<Rightarrow> after_tool_payload \<times> 'e turn" where
  "run_after_tool pl sid groups index r result status T =
     stage_payload pl (pl_after_tool pl) ''after_tool_call'' groups
       \<lparr>at_request = r, at_session = sid, at_index = index, at_result = result, at_status = status, at_force = False, at_reason = None\<rparr> T"

definition recorded :: "'e planner \<Rightarrow> string \<Rightarrow> bool" where
  "recorded pl name = (case dget (rg_tools (pl_registry pl)) name of None \<Rightarrow> True | Some t \<Rightarrow> tl_record_event t)"

text \<open>One call after its before-hooks: announce it, execute it, record its round; the usage left over.\<close>

definition execute_call ::
  "'e planner \<Rightarrow> string \<Rightarrow> nat \<Rightarrow> tool_call_request \<Rightarrow> usage_tokens \<Rightarrow> 'e turn \<Rightarrow> (string \<times> string \<times> usage_tokens) \<times> 'e turn" where
  "execute_call pl sid index r usage T =
     (let sv = pl_services pl;
          call_id = (if tc_call_id r \<noteq> [] then tc_call_id r else make_short_tool_call_id [] index);
          T1 = (if sv_memory sv \<and> sv_gateway sv then tact (EmitToolCall sid call_id (tc_name r) (tc_arguments r)) T else T);
          (outcome, T2) = pl_execute pl (tc_name r) (tc_arguments r) sid T1;
          status = (case outcome of Inl _ \<Rightarrow> ''error'' | Inr _ \<Rightarrow> ''ok'');
          result = (case outcome of Inl exc \<Rightarrow> ''Error executing tool '' @ tc_name r @ '': '' @ exc | Inr t \<Rightarrow> t);
          round = \<lparr>tr_name = tc_name r, tr_call_id = call_id, tr_arguments = tc_arguments r, tr_result = result, tr_success = (status = ''ok'')\<rparr>
      in if recorded pl (tc_name r) \<and> sv_memory sv
         then (let T3 = tact (StoreRound sid round usage) T2
               in ((result, status, no_usage), if sv_gateway sv then tact (EmitToolResult sid round) T3 else T3))
         else ((result, status, usage), T2))"

fun tool_loop ::
  "'e planner \<Rightarrow> string \<Rightarrow> hook_context \<Rightarrow> string list \<Rightarrow> nat \<Rightarrow> tool_call_request list \<Rightarrow> usage_tokens \<Rightarrow> string list \<Rightarrow> 'e turn
   \<Rightarrow> (string list \<times> force_finish option) \<times> 'e turn" where
  "tool_loop pl sid hc groups index [] usage called T = ((called, None), T)"
| "tool_loop pl sid hc groups index (raw # calls) usage called T =
     (let (b, T1) = run_before_tool pl sid groups index raw T;
          r = bt_request b
      in case extract_force_finish_directive ''before_tool_call'' (bt_force b) (bt_reason b) (call_details index r) of
           Some d \<Rightarrow> ((called, Some d), tact (force_finish_event sid hc groups d) T1)
         | None \<Rightarrow>
           (let ((result, status, usage'), T2) = execute_call pl sid index r usage T1;
                (a, T3) = run_after_tool pl sid groups index r result status T2
            in case extract_force_finish_directive ''after_tool_call'' (at_force a) (at_reason a) (call_details index r) of
                 Some d \<Rightarrow> ((called @ [tc_name r], Some d), tact (force_finish_event sid hc groups d) T3)
               | None \<Rightarrow> tool_loop pl sid hc groups (index + 1) calls usage' (called @ [tc_name r]) T3))"

definition process_tool_calls ::
  "'e planner \<Rightarrow> string \<Rightarrow> hook_context \<Rightarrow> string list \<Rightarrow> tool_call_request list \<Rightarrow> string option \<Rightarrow> usage_tokens \<Rightarrow> 'e turn
   \<Rightarrow> (string list \<times> force_finish option) \<times> 'e turn" where
  "process_tool_calls pl sid hc groups calls message usage T =
     (let visible = normalize_assistant_tool_message message;
          T1 = (case visible of None \<Rightarrow> T
                | Some t \<Rightarrow> T\<lparr>tn_world := handle_text_fallback (pl_services pl) usage sid t (tn_world T)\<rparr>);
          usage' = (if visible \<noteq> None \<and> sv_memory (pl_services pl) then no_usage else usage)
      in tool_loop pl sid hc groups 0 calls usage' [] T1)"

section \<open>Preparing a turn\<close>

record turn_request =
  rq_session :: string
  rq_segments :: "content_segment list"
  rq_history :: "history_item list"
  rq_task_type :: string
  rq_groups :: "string list option"
  rq_kind :: "session_kind option"

record prepared_turn =
  pt_task_type :: string
  pt_groups :: "string list"
  pt_context :: hook_context
  pt_calls :: "tool_call_request list"
  pt_text :: "string option"
  pt_usage :: usage_tokens
  pt_force :: "force_finish option"

definition resolve_session_kind :: "turn_request \<Rightarrow> session_kind" where
  "resolve_session_kind rq = (case rq_kind rq of
      Some k \<Rightarrow> k
    | None \<Rightarrow> if py_contains SUB_SESSION_MARKER (rq_session rq) then KIND_SUB else KIND_MAIN)"

text \<open>\<open>_repair_length_truncated_tool_calls_if_needed\<close>: one more call of the model at most.\<close>

definition repair_length_truncated ::
  "'e planner \<Rightarrow> json list \<Rightarrow> json list \<Rightarrow> llm_response \<Rightarrow> 'e turn \<Rightarrow> (string + llm_response) \<times> 'e turn" where
  "repair_length_truncated pl messages tools r T =
     (if \<not> needs_length_truncation_repair (pl_json_ok pl) r (renumber (lr_calls r)) then (Inr r, T)
      else let prompt = JDict [(''role'', JStr ''system''), (''content'', JStr REPAIR_PROMPT)]
           in case pl_chat pl (messages @ [prompt]) tools T of
                (Inl exc, T1) \<Rightarrow> (Inl exc, T1)
              | (Inr retry, T1) \<Rightarrow>
                  (if lr_calls retry \<noteq> [] \<and> \<not> has_invalid_tool_args_json (pl_json_ok pl) (renumber (lr_calls retry))
                   then (Inr retry, T1)
                   else (Inr \<lparr>lr_text = SKIPPED_TEXT, lr_calls = [], lr_usage = lr_usage retry, lr_finish = lr_finish retry\<rparr>, T1)))"

definition run_after_llm ::
  "'e planner \<Rightarrow> hook_context \<Rightarrow> string list \<Rightarrow> llm_response \<Rightarrow> tool_call_request list \<Rightarrow> 'e turn \<Rightarrow> after_llm_payload \<times> 'e turn" where
  "run_after_llm pl hc groups r calls T =
     stage_payload pl (pl_after_llm pl) ''after_llm_response'' groups
       \<lparr>al_session = hc_session hc, al_task_type = hc_task_type hc, al_is_sub = hc_is_sub hc, al_groups = groups,
        al_text = (if lr_text r = [] then None else Some (lr_text r)), al_calls = calls, al_force = False, al_reason = None\<rparr> T"

definition run_before_llm ::
  "'e planner \<Rightarrow> hook_context \<Rightarrow> string list \<Rightarrow> chat_message list \<Rightarrow> tool_spec list \<Rightarrow> history_item list \<Rightarrow> message_block option
   \<Rightarrow> 'e turn \<Rightarrow> before_llm_payload \<times> 'e turn" where
  "run_before_llm pl hc groups messages tools items user T =
     stage_payload pl (pl_before_llm pl) ''before_llm_call'' groups
       \<lparr>bl_messages = messages, bl_history = items, bl_user = user, bl_session = hc_session hc, bl_task_type = hc_task_type hc,
        bl_is_sub = hc_is_sub hc, bl_tools = tools, bl_budget = pl_budget pl, bl_force = False, bl_reason = None\<rparr> T"

text \<open>From the model's (repaired) response on.\<close>

definition finish_prepare ::
  "'e planner \<Rightarrow> string \<Rightarrow> string \<Rightarrow> hook_context \<Rightarrow> string list \<Rightarrow> llm_response \<Rightarrow> 'e turn \<Rightarrow> prepared_turn \<times> 'e turn" where
  "finish_prepare pl sid task_type hc groups r T =
     (let (a, T1) = run_after_llm pl hc groups r (renumber (lr_calls r)) T;
          force = extract_force_finish_directive ''after_llm_response'' (al_force a) (al_reason a) [];
          T2 = (case force of None \<Rightarrow> T1 | Some d \<Rightarrow> tact (force_finish_event sid hc (al_groups a) d) T1)
      in (\<lparr>pt_task_type = task_type, pt_groups = al_groups a, pt_context = hc, pt_calls = al_calls a, pt_text = al_text a,
           pt_usage = lr_usage r, pt_force = force\<rparr>, T2))"

definition call_model ::
  "'e planner \<Rightarrow> string \<Rightarrow> string \<Rightarrow> hook_context \<Rightarrow> string list \<Rightarrow> before_llm_payload \<Rightarrow> 'e turn \<Rightarrow> (string + prepared_turn) \<times> 'e turn" where
  "call_model pl sid task_type hc groups b T =
     (let messages = map (JDict \<circ> to_openai_message) (bl_messages b); tools = map to_openai_tool (bl_tools b)
      in case pl_chat pl messages tools T of
           (Inl exc, T1) \<Rightarrow> (Inl exc, T1)
         | (Inr r0, T1) \<Rightarrow>
             (case repair_length_truncated pl messages tools r0 T1 of
                (Inl exc, T2) \<Rightarrow> (Inl exc, T2)
              | (Inr r, T2) \<Rightarrow> (let (p, T3) = finish_prepare pl sid task_type hc groups r T2 in (Inr p, T3))))"

definition prepare_turn :: "'e planner \<Rightarrow> turn_request \<Rightarrow> bool \<Rightarrow> string \<Rightarrow> 'e turn \<Rightarrow> (string + prepared_turn) \<times> 'e turn" where
  "prepare_turn pl rq is_sub turn_id T =
     (case (if sv_memory (pl_services pl) then pl_history pl T else Inr (rq_history rq)) of
        Inl exc \<Rightarrow> (Inl exc, T)
      | Inr items \<Rightarrow>
        (let sid = rq_session rq;
             task_type = rq_task_type rq;
             groups0 = resolve_tools_for_session (pl_registry pl) (py_contains SUB_SESSION_MARKER sid) (rq_groups rq);
             specs = List.map_filter from_openai_tool (get_openai_tools (pl_registry pl) (Some groups0) []);
             hc = \<lparr>hc_session = sid, hc_turn_id = turn_id, hc_task_type = task_type, hc_is_sub = is_sub\<rparr>;
             (tp, T1) = stage_payload pl (pl_tools_prepared pl) ''tools_prepared'' groups0
                \<lparr>tp_session = sid, tp_task_type = task_type, tp_is_sub = is_sub, tp_groups = groups0, tp_tools = specs\<rparr> T;
             groups = tp_groups tp
         in case build_turn_context (pl_prompt pl sid task_type) items (rq_segments rq) of
              Inl err \<Rightarrow> (Inl (pl_exc_text pl err), T1)
            | Inr (messages, items', user) \<Rightarrow>
              (let (b, T2) = run_before_llm pl hc groups messages (tp_tools tp) items' user T1
               in case extract_force_finish_directive ''before_llm_call'' (bl_force b) (bl_reason b) [] of
                    Some d \<Rightarrow>
                      (Inr \<lparr>pt_task_type = task_type, pt_groups = groups, pt_context = hc, pt_calls = [], pt_text = None,
                            pt_usage = no_usage, pt_force = Some d\<rparr>, tact (force_finish_event sid hc groups d) T2)
                  | None \<Rightarrow> call_model pl sid task_type hc groups b T2)))"

section \<open>Running a turn\<close>

definition on_world :: "(world \<Rightarrow> world) \<Rightarrow> 'e turn \<Rightarrow> 'e turn" where
  "on_world f T = T\<lparr>tn_world := f (tn_world T)\<rparr>"

datatype turn_outcome = Skipped | ForceFinished | Answered | Followed | Failed string

definition run_turn ::
  "'e planner \<Rightarrow> turn_request \<Rightarrow> string \<Rightarrow> 'e turn \<Rightarrow> turn_outcome \<times> 'e turn" where
  "run_turn pl rq turn_id T =
     (let kind = resolve_session_kind rq; sid = rq_session rq; sv = pl_services pl
      in if should_skip kind sid (tn_world T) then (Skipped, T)
         else case prepare_turn pl rq (kind = KIND_SUB) turn_id T of
           (Inl exc, T1) \<Rightarrow> (Failed exc, on_world (handle_failure kind (pl_db_ok pl) sid exc) T1)
         | (Inr p, T1) \<Rightarrow>
             (if pt_force p \<noteq> None
              then (ForceFinished, case pt_text p of Some (c # cs) \<Rightarrow> on_world (handle_text_fallback sv (pt_usage p) sid (c # cs)) T1 | _ \<Rightarrow> T1)
              else if pt_calls p = []
              then (Answered, on_world (handle_text_response kind sv (pt_usage p) (pl_db_ok pl) sid (pt_text p)) T1)
              else (let ((called, force), T2) =
                          process_tool_calls pl sid (pt_context p) (pt_groups p) (pt_calls p) (pt_text p) (pt_usage p) T1
                    in if force \<noteq> None then (ForceFinished, T2)
                       else (Followed, on_world (handle_tool_follow_up kind (pl_db_ok pl) sid (pt_task_type p) (pt_groups p) called) T2))))"

section \<open>Identifiers of a batch\<close>

lemma digit_char_is_digit: "d < 10 \<Longrightarrow> is_digit (digit_char d)"
  by (simp add: is_digit_def digit_char_def Let_def)

lemma digit_char_val: "d < 10 \<Longrightarrow> of_char (digit_char d) = 48 + d"
  by (simp add: digit_char_def)

lemma show_nat_digits: "list_all is_digit (show_nat n) \<and> show_nat n \<noteq> []"
proof (induction n rule: less_induct)
  case (less n)
  then show ?case by (subst (1 2) show_nat.simps) (auto simp: digit_char_is_digit)
qed

lemma nat_of_digits_snoc: "nat_of_digits (ds @ [c]) = 10 * nat_of_digits ds + (of_char c - 48)"
  by (simp add: nat_of_digits_def)

lemma nat_of_show_nat: "nat_of_digits (show_nat n) = n"
proof (induction n rule: less_induct)
  case (less n)
  then show ?case
    by (subst show_nat.simps) (auto simp: nat_of_digits_snoc digit_char_val nat_of_digits_def)
qed

lemma show_nat_length: "length (show_nat n) \<le> n + 1"
proof (induction n rule: less_induct)
  case (less n)
  have "length (show_nat (n div 10)) + 1 \<le> n + 1" if "\<not> n < 10"
    using less [of "n div 10"] that by auto
  then show ?case by (subst show_nat.simps) auto
qed

lemma takeWhile_digits: "list_all P ds \<Longrightarrow> \<not> P c \<Longrightarrow> takeWhile P (ds @ c # r) = ds \<and> dropWhile P (ds @ c # r) = c # r"
  by (induction ds) auto

lemma ordinal_of_short_id:
  assumes "index < 4299"
  shows "tool_call_ordinal (make_short_tool_call_id raw index) = Some (index + 1)"
proof -
  obtain r where r: "make_short_tool_call_id raw index = ''tc_'' @ show_nat (index + 1) @ CHR ''_'' # r"
    by (simp add: make_short_tool_call_id_def Let_def)
  have "list_all is_digit (show_nat (index + 1))" "show_nat (index + 1) \<noteq> []" using show_nat_digits by blast+
  moreover have "\<not> is_digit CHR ''_''" by (simp add: is_digit_def)
  moreover have "length (show_nat (index + 1)) \<le> 4300" using show_nat_length [of "index + 1"] assms by simp
  ultimately show ?thesis
    using takeWhile_digits [of is_digit "show_nat (index + 1)" "CHR ''_''" r]
    by (simp add: tool_call_ordinal_def r py_startswith_def nat_of_show_nat Let_def)
qed

lemma show_nat_inj: "show_nat m = show_nat n \<Longrightarrow> m = n"
  by (metis nat_of_show_nat)

section \<open>What a batch leaves behind\<close>

definition rounds_in :: "string \<Rightarrow> action list \<Rightarrow> tool_round list" where
  "rounds_in sid acts = List.map_filter (\<lambda>a. case a of StoreRound s t u \<Rightarrow> if s = sid then Some t else None | _ \<Rightarrow> None) acts"

lemma rounds_in_append [simp]: "rounds_in sid (as @ bs) = rounds_in sid as @ rounds_in sid bs"
  by (simp add: rounds_in_def map_filter_def)

lemma rounds_in_Cons2 [simp]: "rounds_in sid (a # b # as) = rounds_in sid [a] @ rounds_in sid (b # as)"
  using rounds_in_append [of sid "[a]" "b # as"] by simp

lemma rounds_in_simps [simp]:
  "rounds_in sid [] = []"
  "rounds_in sid [StoreRound s t u] = (if s = sid then [t] else [])"
  "rounds_in sid [EmitToolCall a b c d] = []" "rounds_in sid [EmitToolResult a t] = []" "rounds_in sid [EmitText a b] = []"
  "rounds_in sid [StoreAssistant a m u] = []" "rounds_in sid [PublishEvent e k p src] = []"
  by (simp_all add: rounds_in_def map_filter_simps)

abbreviation rounds_of :: "string \<Rightarrow> 'e turn \<Rightarrow> tool_round list" where
  "rounds_of sid T \<equiv> rounds_in sid (w_log (tn_world T))"

lemma tact_log [simp]: "w_log (tn_world (tact a T)) = w_log (tn_world T) @ [a]"
  by (simp add: tact_def act_def)

lemma force_event_rounds [simp]: "rounds_in sid [force_finish_event s hc gs d] = []"
  by (simp add: force_finish_event_def)

text \<open>
  Hooks and tools do not store rounds of this session themselves: what they do to a turn's state
  keeps its rounds.
\<close>

definition keeps_rounds :: "string \<Rightarrow> ('e turn \<Rightarrow> 'e turn) \<Rightarrow> bool" where
  "keeps_rounds sid f \<longleftrightarrow> (\<forall>T. rounds_of sid (f T) = rounds_of sid T)"

definition quiet_tools :: "'e planner \<Rightarrow> string \<Rightarrow> bool" where
  "quiet_tools pl sid \<longleftrightarrow>
     (\<forall>n args T. rounds_of sid (snd (pl_execute pl n args sid T)) = rounds_of sid T) \<and>
     (\<forall>h f p T. pl_before_tool pl h = Some f \<longrightarrow> rounds_of sid (snd (f p T)) = rounds_of sid T) \<and>
     (\<forall>h f p T. pl_after_tool pl h = Some f \<longrightarrow> rounds_of sid (snd (f p T)) = rounds_of sid T)"

lemma run_hooks_rounds:
  assumes "\<forall>(h, f) \<in> set hs. \<forall>p T. rounds_of sid (snd (f p T)) = rounds_of sid T"
  shows "rounds_of sid (snd (run_hooks hs p arts T)) = rounds_of sid T"
  using assms
proof (induction hs p arts T rule: run_hooks.induct)
  case (2 h f hs p arts e)
  obtain r e1 where r: "f p e = (r, e1)" by fastforce
  have e1: "rounds_of sid e1 = rounds_of sid e" 
  proof -
    have "\<forall>p T. rounds_of sid (snd (f p T)) = rounds_of sid T" using 2(5) by simp
    then have "rounds_of sid (snd (f p e)) = rounds_of sid e" by blast
    then show ?thesis by (simp only: r snd_conv)
  qed
  show ?case
  proof (cases "hd_enabled h")
    case en: True
    show ?thesis
    proof (cases r)
      case (Inl msg)
      then show ?thesis using 2 en r e1 by (cases "hd_on_error h") auto
    next
      case (Inr raw)
      then show ?thesis using 2(4) [OF _ r [symmetric] Inr refl] 2(5) en r e1 by (simp add: Let_def)
    qed
  qed (use 2 in simp)
qed simp

lemma stage_payload_rounds:
  assumes "\<forall>h f p T. execs h = Some f \<longrightarrow> rounds_of sid (snd (f p T)) = rounds_of sid T"
  shows "rounds_of sid (snd (stage_payload pl execs stage gs p T)) = rounds_of sid T"
proof -
  have "\<forall>(h, f) \<in> set (bound_hooks execs hs). \<forall>p T. rounds_of sid (snd (f p T)) = rounds_of sid T" for hs
    using assms by (auto simp: bound_hooks_def map_filter_def)
  from run_hooks_rounds [OF this] show ?thesis
    by (simp add: stage_payload_def run_stage_def runtime_run_stage_def Let_def case_prod_beta)
qed

lemma before_after_rounds:
  assumes "quiet_tools pl sid"
  shows "rounds_of sid (snd (run_before_tool pl s gs i r T)) = rounds_of sid T"
    "rounds_of sid (snd (run_after_tool pl s gs i r res st T)) = rounds_of sid T"
  using assms unfolding run_before_tool_def run_after_tool_def quiet_tools_def by (auto intro: stage_payload_rounds)

definition call_id_of :: "nat \<Rightarrow> tool_call_request \<Rightarrow> string" where
  "call_id_of index r = (if tc_call_id r \<noteq> [] then tc_call_id r else make_short_tool_call_id [] index)"

lemma execute_call_rounds:
  assumes "quiet_tools pl sid"
  shows "\<exists>rd. rounds_of sid (snd (execute_call pl sid index r usage T)) =
      rounds_of sid T @ (if recorded pl (tc_name r) \<and> sv_memory (pl_services pl) then [rd] else []) \<and>
      tr_name rd = tc_name r \<and> tr_call_id rd = call_id_of index r \<and> tr_arguments rd = tc_arguments r"
proof -
  have q: "rounds_of sid (snd (pl_execute pl n args sid T)) = rounds_of sid T" for n args T
    using assms by (simp add: quiet_tools_def)
  let ?T1 = "if sv_memory (pl_services pl) \<and> sv_gateway (pl_services pl)
      then tact (EmitToolCall sid (call_id_of index r) (tc_name r) (tc_arguments r)) T else T"
  obtain o2 T2 where o: "pl_execute pl (tc_name r) (tc_arguments r) sid ?T1 = (o2, T2)" by fastforce
  then have "rounds_of sid T2 = rounds_of sid T" using q [of "tc_name r" "tc_arguments r" ?T1] by simp
  moreover have "rounds_of sid (snd (execute_call pl sid index r usage T)) =
      rounds_of sid T2 @ (if recorded pl (tc_name r) \<and> sv_memory (pl_services pl)
        then [\<lparr>tr_name = tc_name r, tr_call_id = call_id_of index r, tr_arguments = tc_arguments r,
               tr_result = (case o2 of Inl exc \<Rightarrow> ''Error executing tool '' @ tc_name r @ '': '' @ exc | Inr t \<Rightarrow> t),
               tr_success = ((case o2 of Inl _ \<Rightarrow> ''error'' | Inr _ \<Rightarrow> ''ok'') = ''ok'')\<rparr>] else [])"
    unfolding execute_call_def Let_def call_id_of_def [symmetric] o case_prod_conv by simp
  ultimately show ?thesis by (intro exI conjI) auto
qed

definition round_key :: "tool_round \<Rightarrow> string \<times> string \<times> string" where
  "round_key t = (tr_name t, tr_call_id t, tr_arguments t)"

definition keys_of :: "'e planner \<Rightarrow> nat \<Rightarrow> tool_call_request list \<Rightarrow> (string \<times> string \<times> string) list" where
  "keys_of pl index rs = map (\<lambda>(i, r). (tc_name r, call_id_of i r, tc_arguments r))
     (filter (\<lambda>(i, r). recorded pl (tc_name r) \<and> sv_memory (pl_services pl)) (List.enumerate index rs))"

lemma keys_of_Nil [simp]: "keys_of pl i [] = []"
  by (simp add: keys_of_def)

lemma keys_of_Cons: "keys_of pl i (r # rs) =
    (if recorded pl (tc_name r) \<and> sv_memory (pl_services pl) then [(tc_name r, call_id_of i r, tc_arguments r)] else []) @ keys_of pl (Suc i) rs"
  by (simp add: keys_of_def)

lemma tool_loop_rounds:
  assumes "quiet_tools pl sid" and "tool_loop pl sid hc gs i calls usage called T = ((called', force), T')"
  shows "\<exists>rs. called' = called @ map tc_name rs \<and> length rs \<le> length calls \<and> (force = None \<longrightarrow> length rs = length calls) \<and>
    (\<exists>rds. rounds_of sid T' = rounds_of sid T @ rds \<and> map round_key rds = keys_of pl i rs)"
  using assms(2)
proof (induction calls arbitrary: i usage called T)
  case Nil
  then show ?case by (intro exI [of _ "[]"]) simp
next
  case (Cons raw calls)
  obtain b T1 where b: "run_before_tool pl sid gs i raw T = (b, T1)" by fastforce
  have T1: "rounds_of sid T1 = rounds_of sid T" using before_after_rounds(1) [OF assms(1), of sid gs i raw T] b by simp
  show ?case
  proof (cases "bt_force b")
    case True
    then show ?thesis using Cons.prems b T1
      by (intro exI [of _ "[]"]) (auto simp: Let_def extract_force_finish_directive_def intro!: exI [of _ "[]"])
  next
    case False
    let ?r = "bt_request b"
    obtain res st us T2 where x: "execute_call pl sid i ?r usage T1 = ((res, st, us), T2)" by (metis surj_pair)
    obtain rd where T2: "rounds_of sid T2 = rounds_of sid T1 @ (if recorded pl (tc_name ?r) \<and> sv_memory (pl_services pl) then [rd] else [])"
      "round_key rd = (tc_name ?r, call_id_of i ?r, tc_arguments ?r)"
      using execute_call_rounds [OF assms(1), of i ?r usage T1] x by (auto simp: round_key_def)
    obtain a T3 where a: "run_after_tool pl sid gs i ?r res st T2 = (a, T3)" by fastforce
    have T3: "rounds_of sid T3 = rounds_of sid T2" using before_after_rounds(2) [OF assms(1), of sid gs i ?r res st T2] a by simp
    let ?one = "if recorded pl (tc_name ?r) \<and> sv_memory (pl_services pl) then [rd] else []"
    have one: "map round_key ?one = keys_of pl i [?r]" using T2(2) by (simp add: keys_of_Cons)
    show ?thesis
    proof (cases "at_force a")
      case True
      then have "called' = called @ [tc_name ?r] \<and> force \<noteq> None \<and> rounds_of sid T' = rounds_of sid T @ ?one"
        using Cons.prems b False x a T1 T2(1) T3 by (auto simp: Let_def extract_force_finish_directive_def)
      then show ?thesis using one by (intro exI [of _ "[?r]"]) auto
    next
      case af: False
      then have "tool_loop pl sid hc gs (i + 1) calls us (called @ [tc_name ?r]) T3 = ((called', force), T')"
        using Cons.prems b False x a by (simp add: Let_def extract_force_finish_directive_def)
      from Cons.IH [OF this] obtain rs rds where rs: "called' = (called @ [tc_name ?r]) @ map tc_name rs" "length rs \<le> length calls"
        "force = None \<longrightarrow> length rs = length calls" "rounds_of sid T' = rounds_of sid T3 @ rds" "map round_key rds = keys_of pl (i + 1) rs" by blast
      then have "rounds_of sid T' = rounds_of sid T @ (?one @ rds) \<and> map round_key (?one @ rds) = keys_of pl i (?r # rs)"
        using T1 T2(1) T3 one by (simp add: keys_of_Cons)
      then show ?thesis using rs by (intro exI [of _ "?r # rs"]) auto
    qed
  qed
qed

lemma tool_loop_force:
  "tool_loop pl sid hc gs i calls usage called T = ((called', Some d), T') \<Longrightarrow>
   \<exists>pre. w_log (tn_world T') = pre @ [force_finish_event sid hc gs d]"
proof (induction calls arbitrary: i usage called T)
  case (Cons raw calls)
  obtain b T1 where b: "run_before_tool pl sid gs i raw T = (b, T1)" by fastforce
  show ?case
  proof (cases "bt_force b")
    case True
    then show ?thesis using Cons.prems b by (auto simp: Let_def extract_force_finish_directive_def)
  next
    case False
    obtain res st us T2 where x: "execute_call pl sid i (bt_request b) usage T1 = ((res, st, us), T2)" by (metis surj_pair)
    obtain a T3 where a: "run_after_tool pl sid gs i (bt_request b) res st T2 = (a, T3)" by fastforce
    show ?thesis
      using Cons b False x a by (cases "at_force a") (auto simp: Let_def extract_force_finish_directive_def)
  qed
qed simp

lemma text_fallback_rounds [simp]:
  "rounds_in s (w_log (handle_text_fallback sv usage sid t W)) = rounds_in s (w_log W)"
  by (auto simp: handle_text_fallback_def act_def Let_def split: option.splits)

section \<open>Replaying a batch\<close>

lemma collect_consecutive:
  assumes "\<forall>k < length ts. tool_call_ordinal (tr_call_id (ts ! k)) = Some (i + k)"
    and "case rest of Round t # _ \<Rightarrow> tool_call_ordinal (tr_call_id t) \<noteq> Some (i + length ts) | _ \<Rightarrow> True"
    and "first \<or> expected = Some i" and "first \<longrightarrow> ts \<noteq> []"
  shows "collect_rounds first expected (map Round ts @ rest) = ts"
  using assms
proof (induction ts arbitrary: first expected i)
  case Nil
  then have ex: "expected = Some i" "\<not> first" by auto
  show ?case
  proof (cases rest)
    case (Cons x xs)
    then show ?thesis using Nil.prems(2) ex by (cases x) (auto simp: Let_def)
  qed simp
next
  case (Cons t ts)
  have o: "tool_call_ordinal (tr_call_id t) = Some i" using Cons.prems(1) by (metis add_0_right length_greater_0_conv list.distinct(1) nth_Cons_0)
  have "\<forall>k < length ts. tool_call_ordinal (tr_call_id (ts ! k)) = Some (Suc i + k)" using Cons.prems(1) by force
  then have "collect_rounds False (Some (Suc i)) (map Round ts @ rest) = ts"
    using Cons.prems(2) by (intro Cons.IH) (auto split: list.splits history_item.splits)
  then show ?case using Cons.prems(3) o by (auto simp: Let_def)
qed

lemma renumber_nth: "k < length cs \<Longrightarrow> tc_call_id (renumber cs ! k) = make_short_tool_call_id (tc_call_id (cs ! k)) k"
  by (simp add: renumber_def renumber_from_def nth_enumerate_eq)

lemma renumber_length [simp]: "length (renumber cs) = length cs"
  by (simp add: renumber_def renumber_from_def)

lemma renumber_args: "map tc_arguments (renumber cs) = map tc_arguments cs"
proof -
  have "map tc_arguments (renumber_from k cs) = map tc_arguments cs" for k
    by (induction cs arbitrary: k) (auto simp: renumber_from_def)
  then show ?thesis by (simp add: renumber_def)
qed

section \<open>Facts about a turn\<close>

text \<open>A hook that leaves the turn's state alone and keeps \<open>P\<close> of its payload.\<close>

definition pure_hook :: "('p \<Rightarrow> bool) \<Rightarrow> ('p, 'w) executor \<Rightarrow> bool" where
  "pure_hook P f \<longleftrightarrow> (\<forall>p w. \<exists>out. f p w = (Inr (Some out), w) \<and> (P p \<longrightarrow> pred_option P (ho_payload out)))"

lemma run_hooks_pure:
  assumes "\<forall>(h, f) \<in> set hs. pure_hook P f" and "P p"
  shows "snd (run_hooks hs p arts w) = w \<and> (\<exists>p'. ho_payload (fst (run_hooks hs p arts w)) = Some p' \<and> P p')"
  using assms
proof (induction hs arbitrary: p arts)
  case (Cons x hs)
  obtain h f where x: "x = (h, f)" by fastforce
  have "pure_hook P f" using Cons.prems(1) by (simp add: x)
  then obtain out where out: "f p w = (Inr (Some out), w)" "pred_option P (ho_payload out)"
    using Cons.prems(2) unfolding pure_hook_def by blast
  let ?p = "case ho_payload out of Some p' \<Rightarrow> p' | None \<Rightarrow> p"
  have "P ?p" using out(2) Cons.prems(2) by (cases "ho_payload out") auto
  then have "snd (run_hooks hs ?p as w) = w \<and> (\<exists>p'. ho_payload (fst (run_hooks hs ?p as w)) = Some p' \<and> P p')" for as
    using Cons.prems(1) by (intro Cons.IH) simp_all
  moreover have "snd (run_hooks hs p as w) = w \<and> (\<exists>p'. ho_payload (fst (run_hooks hs p as w)) = Some p' \<and> P p')" for as
    using Cons.prems by (intro Cons.IH) simp_all
  ultimately show ?case by (simp add: x out(1) normalize_output_def Let_def)
qed simp

lemma stage_payload_pure:
  assumes "\<forall>h f. execs h = Some f \<longrightarrow> pure_hook P f" and "P p"
  shows "snd (stage_payload pl execs stage gs p T) = T \<and> P (fst (stage_payload pl execs stage gs p T))"
proof -
  have "\<forall>(h, f) \<in> set (bound_hooks execs hs). pure_hook P f" for hs
    using assms(1) by (auto simp: bound_hooks_def map_filter_def)
  note r = run_hooks_pure [OF this assms(2)]
  show ?thesis
  proof (cases "pl_hooks_on pl \<and> bound_hooks execs (get_hooks (pl_registry pl) stage (Some gs)) \<noteq> []")
    case True
    then show ?thesis
      using r [of "get_hooks (pl_registry pl) stage (Some gs)" "[]" T]
      by (auto simp: stage_payload_def run_stage_def runtime_run_stage_def Let_def case_prod_beta)
  next
    case False
    then show ?thesis using assms(2) by (auto simp: stage_payload_def run_stage_def skip_output_def Let_def case_prod_beta)
  qed
qed

lemma no_executors: "stage_payload pl (\<lambda>_. None) stage gs p T = (p, T)"
  by (auto simp: stage_payload_def run_stage_def bound_hooks_def map_filter_def skip_output_def Let_def)

definition ends_forced :: "string \<Rightarrow> force_finish \<Rightarrow> 'e turn \<Rightarrow> bool" where
  "ends_forced sid d T \<longleftrightarrow> (\<exists>pre hc gs. w_log (tn_world T) = pre @ [force_finish_event sid hc gs d])"

lemma ends_forced_tact [simp]: "ends_forced sid d (tact (force_finish_event sid hc gs d) T)"
  by (auto simp: ends_forced_def)

lemma finish_prepare_force:
  "finish_prepare pl sid tt hc gs r T0 = (p, T1) \<Longrightarrow> pt_force p = Some d \<Longrightarrow> ends_forced sid d T1"
  by (auto simp: finish_prepare_def Let_def split: prod.splits option.splits)

lemma call_model_force:
  "call_model pl sid tt hc gs b T0 = (Inr p, T1) \<Longrightarrow> pt_force p = Some d \<Longrightarrow> ends_forced sid d T1"
  by (auto simp: call_model_def Let_def split: prod.splits sum.splits dest: finish_prepare_force)

lemma prepare_turn_force:
  "prepare_turn pl rq is_sub tid T = (Inr p, T1) \<Longrightarrow> pt_force p = Some d \<Longrightarrow> ends_forced (rq_session rq) d T1"
  unfolding prepare_turn_def Let_def
  by (auto split: prod.splits sum.splits option.splits if_splits dest: call_model_force)

lemma mark_failed_terminal:
  assumes "main_of W sub = Some main" and "dget (records (the_state main W)) sub \<noteq> None"
  shows "is_sub_session_terminal (mark_subtask_if_non_terminal ok sub ''failed'' err W) sub"
proof (cases "is_terminal (the_state main W) sub")
  case True
  then show ?thesis using assms(1) by (simp add: mark_subtask_if_non_terminal_def is_sub_session_terminal_def)
next
  case False
  have "normalize_terminal ''failed'' = ''failed''"
    by (simp add: normalize_terminal_def TERMINAL_STATUSES_def py_strip_id py_lower_def lower_char_def is_space_def Let_def)
  then have "is_terminal (snd (mark_terminal sub ''failed'' err (the_state main W))) sub"
    using False assms(2) by (auto simp: is_terminal_def mark_terminal_def is_terminal_status_def TERMINAL_STATUSES_def split: option.splits)
  then show ?thesis
    using assms(1) False by (simp add: mark_subtask_if_non_terminal_def is_sub_session_terminal_def Let_def)
qed

lemma execute_call_same:
  "execute_call (pl\<lparr>pl_after_tool := x\<rparr>) sid i r usage T = execute_call pl sid i r usage T"
  by (simp add: execute_call_def recorded_def)

lemma stage_payload_same:
  "stage_payload (pl\<lparr>pl_after_tool := x\<rparr>) execs stage gs p T = stage_payload pl execs stage gs p T"
  by (simp add: stage_payload_def)

lemma tool_loop_after_hooks:
  assumes "\<forall>h f. pl_after_tool pl h = Some f \<longrightarrow> pure_hook (\<lambda>p. \<not> at_force p) f"
  shows "tool_loop pl sid hc gs i calls usage called T = tool_loop (pl\<lparr>pl_after_tool := \<lambda>_. None\<rparr>) sid hc gs i calls usage called T"
proof (induction calls arbitrary: i usage called T)
  case (Cons raw calls)
  have b: "run_before_tool (pl\<lparr>pl_after_tool := x\<rparr>) sid gs i raw T = run_before_tool pl sid gs i raw T" for x
    by (simp add: run_before_tool_def stage_payload_same)
  have a: "\<exists>p. run_after_tool pl sid gs i r res st T0 = (p, T0) \<and> \<not> at_force p" for r res st T0
    using stage_payload_pure [OF assms, of "\<lparr>at_request = r, at_session = sid, at_index = i, at_result = res, at_status = st, at_force = False, at_reason = None\<rparr>"
        pl "''after_tool_call''" gs T0]
    unfolding run_after_tool_def by (metis after_tool_payload.select_convs(6) prod.collapse)
  have a': "run_after_tool (pl\<lparr>pl_after_tool := \<lambda>_. None\<rparr>) sid gs i r res st T0 =
      (\<lparr>at_request = r, at_session = sid, at_index = i, at_result = res, at_status = st, at_force = False, at_reason = None\<rparr>, T0)" for r res st T0
    by (simp add: run_after_tool_def no_executors)
  obtain bp T1 where bp: "run_before_tool pl sid gs i raw T = (bp, T1)" by fastforce
  obtain res st us T2 where x: "execute_call pl sid i (bt_request bp) usage T1 = ((res, st, us), T2)" by (metis surj_pair)
  obtain ap where ap: "run_after_tool pl sid gs i (bt_request bp) res st T2 = (ap, T2)" "\<not> at_force ap" using a by blast
  show ?case
    using ap Cons by (simp add: b bp execute_call_same x a' Let_def extract_force_finish_directive_def)
qed simp

lemma publish_terminal [simp]:
  "is_sub_session_terminal (publish_subtask_barrier_if_ready ok sub W) s = is_sub_session_terminal W s"
proof -
  have "main_of (publish_subtask_barrier_if_ready ok sub W) s = main_of W s"
    by (simp add: publish_subtask_barrier_if_ready_def split: option.splits)
  then show ?thesis by (simp add: is_sub_session_terminal_def split: option.splits)
qed

lemma notify_terminal [simp]:
  "is_sub_session_terminal (notify_main_session_subtask_failure ok sub sm st W) s = is_sub_session_terminal W s"
  by (auto simp: notify_main_session_subtask_failure_def is_sub_session_terminal_def is_terminal_def mark_immediate_failure_notified_def
      Let_def split: option.splits)

section \<open>Properties\<close>


text \<open> The ids the planner gives a batch are what the next request is assembled by: the rounds of one
  batch, read back from the log, are collected into a single assistant message, whole and without the
  rounds of the batch that follows.\<close>

theorem batch_replayed_as_one:
  assumes "ts \<noteq> []" and "map tr_call_id ts = map tc_call_id (renumber cs)" and "length cs < 4299"
    and "case rest of Round t # _ \<Rightarrow> \<exists>raw k. k < 4299 \<and> tr_call_id t = make_short_tool_call_id raw k \<and> k \<noteq> length cs | _ \<Rightarrow> True"
  shows "collect_consecutive_tool_rounds (map Round ts @ rest) = ts"
proof -
  have len: "length ts = length cs" using assms(2) by (metis length_map renumber_length)
  have "\<forall>k < length ts. tool_call_ordinal (tr_call_id (ts ! k)) = Some (1 + k)"
  proof (intro allI impI)
    fix k assume k: "k < length ts"
    then have "tr_call_id (ts ! k) = make_short_tool_call_id (tc_call_id (cs ! k)) k"
      using assms(2) len by (metis nth_map renumber_length renumber_nth)
    then show "tool_call_ordinal (tr_call_id (ts ! k)) = Some (1 + k)"
      using ordinal_of_short_id [of k "tc_call_id (cs ! k)"] k len assms(3) by simp
  qed
  moreover have "case rest of Round t # _ \<Rightarrow> tool_call_ordinal (tr_call_id t) \<noteq> Some (1 + length ts) | _ \<Rightarrow> True"
    using assms(4) len by (auto simp: ordinal_of_short_id split: list.splits history_item.splits)
  ultimately show ?thesis
    unfolding collect_consecutive_tool_rounds_def using assms(1) by (intro collect_consecutive [where i = 1]) simp_all
qed

text \<open> A hook may rewrite the result of a tool after it ran, but what is stored, called and published
  does not depend on it: after-hooks that only patch their payload leave the batch exactly as it is
  without them.\<close>

theorem after_hook_cannot_change_record:
  assumes "\<forall>h f. pl_after_tool pl h = Some f \<longrightarrow> pure_hook (\<lambda>p. \<not> at_force p) f"
  shows "process_tool_calls pl sid hc gs calls message usage T =
    process_tool_calls (pl\<lparr>pl_after_tool := \<lambda>_. None\<rparr>) sid hc gs calls message usage T"
  using tool_loop_after_hooks [OF assms] by (simp add: process_tool_calls_def Let_def split: option.split)

text \<open> The model's answer never reaches the tools truncated: what the repair returns does not need
  repair, and an answer that did need it is replaced by the retry's, or by a text without any call.\<close>

theorem repair_leaves_no_truncated_call:
  assumes "repair_length_truncated pl messages tools r T = (Inr r', T')"
  shows "\<not> needs_length_truncation_repair (pl_json_ok pl) r' (renumber (lr_calls r')) \<and>
    (r' = r \<and> T' = T \<or> lr_calls r' = [] \<or> \<not> has_invalid_tool_args_json (pl_json_ok pl) (renumber (lr_calls r')))"
  using assms
  by (auto simp: repair_length_truncated_def needs_length_truncation_repair_def has_invalid_tool_args_json_def
      renumber_def renumber_from_def Let_def split: if_splits prod.splits sum.splits)

text \<open> When a hook forces the turn to finish, the planner stops: what follows the force-finish event in
  the log is at most the assistant's text, stored and shown; no tool runs, no follow-up is published
  and no subtask is marked.\<close>

theorem force_finish_is_last:
  assumes "run_turn pl rq turn_id T = (ForceFinished, T')"
  shows "\<exists>d pre hc gs post. w_log (tn_world T') = pre @ [force_finish_event (rq_session rq) hc gs d] @ post \<and>
    (\<forall>a \<in> set post. (\<exists>m u. a = StoreAssistant (rq_session rq) m u) \<or> (\<exists>t. a = EmitText (rq_session rq) t))"
proof -
  let ?sid = "rq_session rq"
  obtain p T1 where p: "prepare_turn pl rq (resolve_session_kind rq = KIND_SUB) turn_id T = (Inr p, T1)"
    using assms by (auto simp: run_turn_def Let_def split: if_splits prod.splits sum.splits)
  have fallback: "\<exists>post. w_log (handle_text_fallback sv us ?sid t W) = w_log W @ post \<and>
      (\<forall>a \<in> set post. (\<exists>m u. a = StoreAssistant ?sid m u) \<or> (\<exists>t. a = EmitText ?sid t))" for sv us t W
    by (auto simp: handle_text_fallback_def act_def Let_def split: option.splits)
  show ?thesis
  proof (cases "pt_force p")
    case None
    then obtain called d where "process_tool_calls pl ?sid (pt_context p) (pt_groups p) (pt_calls p) (pt_text p) (pt_usage p) T1 = ((called, Some d), T')"
      using assms p by (auto simp: run_turn_def Let_def split: if_splits prod.splits)
    then obtain pre where "w_log (tn_world T') = pre @ [force_finish_event ?sid (pt_context p) (pt_groups p) d]"
      using tool_loop_force by (fastforce simp: process_tool_calls_def Let_def)
    then show ?thesis by (intro exI [of _ d] exI [of _ pre] exI [of _ "pt_context p"] exI [of _ "pt_groups p"] exI [of _ "[]"]) simp
  next
    case (Some d)
    then have "ends_forced ?sid d T1" by (rule prepare_turn_force [OF p])
    then obtain pre hc gs where pre: "w_log (tn_world T1) = pre @ [force_finish_event ?sid hc gs d]" by (auto simp: ends_forced_def)
    have "T' = T1 \<or> (\<exists>t. T' = on_world (handle_text_fallback (pl_services pl) (pt_usage p) ?sid t) T1)"
      using assms p Some by (auto simp: run_turn_def Let_def split: if_splits option.splits list.splits)
    then show ?thesis
      using pre fallback [of "pl_services pl" "pt_usage p" _ "tn_world T1"]
      by (elim disjE exE) (rule exI [of _ d], rule exI [of _ pre], rule exI [of _ hc], rule exI [of _ gs], fastforce simp: on_world_def)+
  qed
qed

text \<open> A sub-session's turn never dies silently: when preparing it raises (the history, the context or
  the model's client), the turn is reported as failed and the subtask, if it is registered, is
  terminal afterwards.\<close>

theorem failed_turn_ends_subtask:
  assumes "prepare_turn pl rq True turn_id T = (Inl exc, T1)" and "resolve_session_kind rq = KIND_SUB"
    and "\<not> is_sub_session_terminal (tn_world T) (rq_session rq)"
    and "main_of (tn_world T1) (rq_session rq) = Some main" and "dget (records (the_state main (tn_world T1))) (rq_session rq) \<noteq> None"
    and "run_turn pl rq turn_id T = (outcome, T')"
  shows "outcome = Failed exc \<and> is_sub_session_terminal (tn_world T') (rq_session rq)"
proof -
  let ?sid = "rq_session rq"
  have "outcome = Failed exc" "T' = on_world (handle_failure KIND_SUB (pl_db_ok pl) ?sid exc) T1"
    using assms by (simp_all add: run_turn_def Let_def)
  moreover have "is_sub_session_terminal (mark_subtask_if_non_terminal (pl_db_ok pl) ?sid ''failed'' exc (tn_world T1)) ?sid"
    by (rule mark_failed_terminal) (fact assms)+
  ultimately show ?thesis by (simp add: on_world_def Let_def split: option.splits)
qed

section \<open>Witnesses\<close>

definition demo_call :: "string \<Rightarrow> string \<Rightarrow> tool_call_request" where
  "demo_call n args = \<lparr>tc_call_id = ''call_abcdef'', tc_name = n, tc_arguments = args\<rparr>"

definition demo_response :: "string \<Rightarrow> string \<Rightarrow> llm_response" where
  "demo_response args fin = \<lparr>lr_text = [], lr_calls = [demo_call ''g_tool'' args], lr_usage = no_usage, lr_finish = Some fin\<rparr>"

definition demo_planner :: "unit planner" where
  "demo_planner = \<lparr>pl_registry = demo_registry, pl_hooks_on = True, pl_tools_prepared = \<lambda>_. None, pl_before_llm = \<lambda>_. None,
     pl_after_llm = \<lambda>_. None, pl_before_tool = \<lambda>_. None, pl_after_tool = \<lambda>_. None,
     pl_chat = \<lambda>_ _ T. (Inr (demo_response ''{}'' ''tool_calls''), T),
     pl_execute = \<lambda>n a s T. (if a = ''{}'' then Inr ''done'' else Inl ''boom'', T),
     pl_history = \<lambda>_. Inl ''database is locked'', pl_prompt = \<lambda>_ _. ''prompt'', pl_json_ok = \<lambda>s. s = ''{}'',
     pl_exc_text = \<lambda>_. ''error'', pl_budget = None, pl_services = \<lparr>sv_memory = True, sv_gateway = True\<rparr>, pl_db_ok = True\<rparr>"

definition demo_turn :: "unit turn" where
  "demo_turn = \<lparr>tn_env = (), tn_world = demo_world (register_task ''a1'' ''i'' 0 new_subtask_state)\<rparr>"

definition demo_context :: hook_context where
  "demo_context = \<lparr>hc_session = ''a1'', hc_turn_id = ''t1'', hc_task_type = ''general'', hc_is_sub = True\<rparr>"

definition demo_request :: turn_request where
  "demo_request = \<lparr>rq_session = ''a1'', rq_segments = [], rq_history = [], rq_task_type = ''general'', rq_groups = None, rq_kind = Some KIND_SUB\<rparr>"

lemma demo_quiet: "quiet_tools demo_planner sid"
  by (simp add: quiet_tools_def demo_planner_def)


lemma demo_short_id: "make_short_tool_call_id ''call_abcdef'' 0 = ''tc_1_abcdef''" by code_simp

theorem batch_replayed_as_one_witness:
  "collect_consecutive_tool_rounds
     (map Round [\<lparr>tr_name = ''t'', tr_call_id = ''tc_1_abcdef'', tr_arguments = [], tr_result = [], tr_success = True\<rparr>]) =
     [\<lparr>tr_name = ''t'', tr_call_id = ''tc_1_abcdef'', tr_arguments = [], tr_result = [], tr_success = True\<rparr>]"
  using batch_replayed_as_one [of "[\<lparr>tr_name = ''t'', tr_call_id = ''tc_1_abcdef'', tr_arguments = [], tr_result = [], tr_success = True\<rparr>]"
      "[demo_call ''t'' []]" "[]"] demo_short_id
  by (simp add: renumber_def renumber_from_def demo_call_def)

definition demo_patch :: "(after_tool_payload, unit turn) executor" where
  "demo_patch = (\<lambda>p T. (Inr (Some \<lparr>ho_status = HOOK_OK, ho_payload = Some (p\<lparr>at_result := ''hidden''\<rparr>), ho_artifacts = [], ho_error = None\<rparr>), T))"

theorem after_hook_cannot_change_record_witness:
  "process_tool_calls (demo_planner\<lparr>pl_after_tool := \<lambda>_. Some demo_patch\<rparr>) ''a1'' demo_context [''g''] [demo_call ''g_tool'' ''{}''] None no_usage demo_turn =
   process_tool_calls demo_planner ''a1'' demo_context [''g''] [demo_call ''g_tool'' ''{}''] None no_usage demo_turn"
proof -
  have "\<forall>h f. pl_after_tool (demo_planner\<lparr>pl_after_tool := \<lambda>_. Some demo_patch\<rparr>) h = Some f \<longrightarrow> pure_hook (\<lambda>p. \<not> at_force p) f"
    by (simp add: pure_hook_def demo_patch_def)
  moreover have "demo_planner\<lparr>pl_after_tool := \<lambda>_. Some demo_patch\<rparr>\<lparr>pl_after_tool := \<lambda>_. None\<rparr> = demo_planner" by (simp add: demo_planner_def)
  ultimately show ?thesis using after_hook_cannot_change_record by metis
qed

theorem repair_leaves_no_truncated_call_witness:
  "\<exists>r' T'. repair_length_truncated demo_planner [] [] (demo_response ''{'' ''length'') demo_turn = (Inr r', T') \<and>
     \<not> needs_length_truncation_repair (\<lambda>s. s = ''{}'') r' (renumber (lr_calls r')) \<and> lr_calls r' \<noteq> []"
proof -
  have "repair_length_truncated demo_planner [] [] (demo_response ''{'' ''length'') demo_turn = (Inr (demo_response ''{}'' ''tool_calls''), demo_turn)"
    by code_simp
  from repair_leaves_no_truncated_call [OF this] show ?thesis
    by (intro exI [of _ "demo_response ''{}'' ''tool_calls''"] exI [of _ demo_turn] conjI) (code_simp | simp add: demo_planner_def demo_response_def)+
qed

definition forcing_planner :: "unit planner" where
  "forcing_planner = demo_planner\<lparr>pl_registry := demo_registry\<lparr>rg_hooks := [(''g'', [(demo_hook ''early'' 10 POLICY_FAIL)\<lparr>hd_stage := ''before_llm_call''\<rparr>])]\<rparr>,
     pl_before_llm := \<lambda>_. Some (\<lambda>p T. (Inr (Some \<lparr>ho_status = HOOK_OK, ho_payload = Some (p\<lparr>bl_force := True\<rparr>), ho_artifacts = [], ho_error = None\<rparr>), T)),
     pl_history := \<lambda>_. Inr []\<rparr>"

theorem force_finish_is_last_witness:
  "\<exists>d pre hc gs post. w_log (tn_world (snd (run_turn forcing_planner demo_request ''t1'' demo_turn))) = pre @ [force_finish_event ''a1'' hc gs d] @ post"
proof -
  have "fst (run_turn forcing_planner demo_request ''t1'' demo_turn) = ForceFinished" by code_simp
  then have "run_turn forcing_planner demo_request ''t1'' demo_turn = (ForceFinished, snd (run_turn forcing_planner demo_request ''t1'' demo_turn))"
    by (metis prod.collapse)
  moreover have "rq_session demo_request = ''a1''" by (simp add: demo_request_def)
  ultimately show ?thesis using force_finish_is_last by metis
qed

theorem failed_turn_ends_subtask_witness:
  "fst (run_turn demo_planner demo_request ''t1'' demo_turn) = Failed ''database is locked'' \<and>
   is_sub_session_terminal (tn_world (snd (run_turn demo_planner demo_request ''t1'' demo_turn))) ''a1''"
proof -
  obtain outcome T' where r: "run_turn demo_planner demo_request ''t1'' demo_turn = (outcome, T')" by fastforce
  have p: "prepare_turn demo_planner demo_request True ''t1'' demo_turn = (Inl ''database is locked'', demo_turn)"
    by (simp add: prepare_turn_def demo_planner_def)
  have k: "resolve_session_kind demo_request = KIND_SUB" by (simp add: resolve_session_kind_def demo_request_def)
  have "\<not> is_sub_session_terminal (tn_world demo_turn) (rq_session demo_request)" 
    "main_of (tn_world demo_turn) (rq_session demo_request) = Some ''m''"
    "dget (records (the_state ''m'' (tn_world demo_turn))) (rq_session demo_request) \<noteq> None" by code_simp+
  from failed_turn_ends_subtask [OF p k this r] show ?thesis using r by (simp add: demo_request_def)
qed

end
