(* ===== verification/Unloaded.thy ===== *)
theory Unloaded
  imports Planner "HOL-Library.List_Lexorder" "HOL-Library.Char_ord"
begin

text \<open>
  The store of unloaded segments (\<^verbatim>\<open>capabilities/compression_hooks/scripts/_unloaded_segments_state.py\<close>)
  and the tool that brings them back (\<^verbatim>\<open>reload_unloaded_segments.py\<close>), with the gate that hides it.

  The state directory is a dictionary from file names to the JSON they hold; a file that is missing or
  does not parse is absent. A save replaces the whole file (\<open>tmp.replace\<close>). \<open>sha\<close> is the hexadecimal
  SHA-256 of a text; times are given by the caller in milliseconds.
\<close>

section \<open>Fingerprints\<close>

text \<open>\<open>sort_keys=True\<close>\<close>

fun json_sorted :: "json \<Rightarrow> json" where
  "json_sorted (JList vs) = JList (map json_sorted vs)"
| "json_sorted (JDict kvs) = JDict (sort_key fst (map (\<lambda>(k, v). (k, json_sorted v)) kvs))"
| "json_sorted v = v"

record hashing =
  hs_runtime :: py_runtime
  hs_sha :: "string \<Rightarrow> string"

definition dumps_sorted :: "hashing \<Rightarrow> json \<Rightarrow> string" where
  "dumps_sorted hs v = json_dumps (hs_runtime hs) (json_sorted v)"

section \<open>The state file\<close>

type_synonym state_files = "(string, json) dict"

text \<open>\<open>str.isalnum\<close> of a Latin-1 character.\<close>

definition is_alnum :: "char \<Rightarrow> bool" where
  "is_alnum c = (let n = (of_char c :: nat) in
     (48 \<le> n \<and> n \<le> 57) \<or> (65 \<le> n \<and> n \<le> 90) \<or> (97 \<le> n \<and> n \<le> 122) \<or>
     n \<in> {170, 178, 179, 181, 185, 186, 188, 189, 190} \<or> (192 \<le> n \<and> n \<noteq> 215 \<and> n \<noteq> 247))"

definition session_id_filename :: "hashing \<Rightarrow> string \<Rightarrow> string" where
  "session_id_filename hs sid =
     (let digest = take 24 (hs_sha hs sid);
          prefix = map (\<lambda>c. if is_alnum c \<or> c \<in> set ''._-'' then c else CHR ''_'') (take 48 sid)
      in if list_all (\<lambda>c. c = CHR ''_'') prefix then digest else prefix @ ''_'' @ digest)"

definition state_file :: "hashing \<Rightarrow> string \<Rightarrow> string" where
  "state_file hs sid = session_id_filename hs sid @ ''.json''"

definition load_unloaded :: "hashing \<Rightarrow> string \<Rightarrow> state_files \<Rightarrow> json_object list" where
  "load_unloaded hs sid files = (case dget files (state_file hs sid) of
      Some (JDict raw) \<Rightarrow> (case obj_get raw ''records'' of JList rs \<Rightarrow> map dict_of (filter is_dict rs) | _ \<Rightarrow> [])
    | _ \<Rightarrow> [])"

definition save_unloaded :: "hashing \<Rightarrow> string \<Rightarrow> json_object list \<Rightarrow> state_files \<Rightarrow> state_files" where
  "save_unloaded hs sid recs files = dset (state_file hs sid) (JDict [(''records'', JList (map JDict recs))]) files"

definition is_restored :: "json_object \<Rightarrow> bool" where
  "is_restored r = truthy (obj_get r ''restored'')"

definition has_unloaded_segments :: "hashing \<Rightarrow> string \<Rightarrow> state_files \<Rightarrow> bool" where
  "has_unloaded_segments hs sid files = list_ex (\<lambda>r. \<not> is_restored r) (load_unloaded hs sid files)"

text \<open>\<open>str(record.get("unload_id") or "")\<close>\<close>

definition unload_id_of :: "hashing \<Rightarrow> json_object \<Rightarrow> string" where
  "unload_id_of hs r = py_str (hs_runtime hs) (py_or (obj_get r ''unload_id'') (JStr []))"

definition seen_again :: "int \<Rightarrow> json_object \<Rightarrow> json_object" where
  "seen_again now r =
     (let r1 = (if is_restored r then dset ''restored_at_ms'' JNull (dset ''restored'' (JBool False) r) else r)
      in dset ''last_seen_at_ms'' (JInt now) r1)"

text \<open>The loop over the existing records: the first one with the id is refreshed in place.\<close>

fun refresh_record :: "hashing \<Rightarrow> string \<Rightarrow> int \<Rightarrow> json_object list \<Rightarrow> json_object list option" where
  "refresh_record hs uid now [] = None"
| "refresh_record hs uid now (r # rs) =
     (if unload_id_of hs r = uid then Some (seen_again now r # rs) else map_option (Cons r) (refresh_record hs uid now rs))"

definition new_record :: "string \<Rightarrow> string \<Rightarrow> json_object list \<Rightarrow> string \<Rightarrow> string \<Rightarrow> int \<Rightarrow> json_object" where
  "new_record uid role segments placeholder source now =
     [(''unload_id'', JStr uid), (''role'', JStr (if role \<noteq> [] then role else ''user'')), (''segments'', JList (map JDict segments)),
      (''placeholder'', JStr placeholder), (''source_summary'', JStr source), (''created_at_ms'', JInt now),
      (''last_seen_at_ms'', JInt now), (''restored'', JBool False), (''restored_at_ms'', JNull)]"

definition append_unloaded_segment_record ::
  "hashing \<Rightarrow> string \<Rightarrow> string \<Rightarrow> string \<Rightarrow> json_object list \<Rightarrow> string \<Rightarrow> string \<Rightarrow> int \<Rightarrow> state_files \<Rightarrow> state_files" where
  "append_unloaded_segment_record hs sid uid role segments placeholder source now files =
     (if uid = [] \<or> segments = [] then files
      else let recs = load_unloaded hs sid files
           in case refresh_record hs uid now recs of
                Some records' \<Rightarrow> save_unloaded hs sid records' files
              | None \<Rightarrow> save_unloaded hs sid (recs @ [new_record uid role segments placeholder source now]) files)"

text \<open>\<open>int(r.get("created_at_ms") or 0)\<close>, for all records that are sorted by it.\<close>

definition created_at :: "hashing \<Rightarrow> json_object \<Rightarrow> int res" where
  "created_at hs r = py_int (hs_runtime hs) (py_or (obj_get r ''created_at_ms'') (JInt 0))"

definition sort_created :: "hashing \<Rightarrow> bool \<Rightarrow> json_object list \<Rightarrow> json_object list res" where
  "sort_created hs newest rs =
     res_bind (res_map (created_at hs) rs) (\<lambda>ks.
       Inr (map snd (sort_key (\<lambda>(k, _). if newest then - k else k) (zip ks rs))))"

definition select_records :: "hashing \<Rightarrow> string \<Rightarrow> string list \<Rightarrow> int \<Rightarrow> json_object list \<Rightarrow> json_object list res" where
  "select_records hs mode ids limit active =
     (if mode = ''all'' then sort_created hs False active
      else if mode = ''ids''
      then let wanted = filter (\<lambda>v. v \<noteq> []) (map py_strip ids)
           in Inr (filter (\<lambda>r. unload_id_of hs r \<in> set wanted) active)
      else res_bind (sort_created hs True active) (\<lambda>ordered. Inr (take (nat (max 1 limit)) ordered)))"

definition mark_restored :: "int \<Rightarrow> json_object \<Rightarrow> json_object" where
  "mark_restored now r = dset ''restored_at_ms'' (JInt now) (dset ''restored'' (JBool True) r)"

text \<open>The records returned are the ones in the list, so they carry the new marks.\<close>

definition consume_unloaded_segment_records ::
  "hashing \<Rightarrow> string \<Rightarrow> string \<Rightarrow> string list \<Rightarrow> int \<Rightarrow> int \<Rightarrow> state_files \<Rightarrow> json_object list res \<times> state_files" where
  "consume_unloaded_segment_records hs sid mode ids limit now files =
     (let recs = load_unloaded hs sid files
      in case select_records hs mode ids limit (filter (\<lambda>r. \<not> is_restored r) recs) of
           Inl e \<Rightarrow> (Inl e, files)
         | Inr [] \<Rightarrow> (Inr [], files)
         | Inr (s # ss) \<Rightarrow>
             (let chosen = map (unload_id_of hs) (s # ss);
                  mark = (\<lambda>r. if unload_id_of hs r \<in> set chosen then mark_restored now r else r)
              in (Inr (map (mark_restored now) (s # ss)), save_unloaded hs sid (map mark recs) files)))"

definition restored_segment_fingerprints :: "hashing \<Rightarrow> string \<Rightarrow> state_files \<Rightarrow> string set" where
  "restored_segment_fingerprints hs sid files =
     set (concat (map (\<lambda>r. case obj_get r ''segments'' of
           JList segs \<Rightarrow> map (\<lambda>seg. hs_sha hs (dumps_sorted hs seg)) (filter is_dict segs) | _ \<Rightarrow> [])
        (filter is_restored (load_unloaded hs sid files))))"

section \<open>The tool\<close>

definition reload_mode :: "hashing \<Rightarrow> json_object \<Rightarrow> string" where
  "reload_mode hs args = py_lower (py_strip (py_str (hs_runtime hs) (py_or (obj_get args ''mode'') (JStr ''latest''))))"

definition reload_limit :: "hashing \<Rightarrow> json_object \<Rightarrow> int" where
  "reload_limit hs args = (case py_int (hs_runtime hs) (obj_get_or args ''limit'' (JInt 1)) of Inr n \<Rightarrow> max 1 n | Inl _ \<Rightarrow> 1)"

definition record_message :: "hashing \<Rightarrow> json_object \<Rightarrow> message_block option" where
  "record_message hs r = (case obj_get r ''segments'' of
      JList raw \<Rightarrow>
        (let segs = List.map_filter (\<lambda>v. case segment_from_dict (hs_runtime hs) (dict_of v) of Inr s \<Rightarrow> Some s | Inl _ \<Rightarrow> None) (filter is_dict raw)
         in if segs = [] then None
            else block_from_segments (role_from_value (py_str (hs_runtime hs) (py_or (obj_get r ''role'') (JStr ''user'')))) segs)
    | _ \<Rightarrow> None)"

text \<open>The loop over the consumed records; \<open>add\<close> is \<open>memory.add_session_event\<close>.\<close>

fun restore_records ::
  "hashing \<Rightarrow> (message_block \<Rightarrow> 'm \<Rightarrow> unit res \<times> 'm) \<Rightarrow> json_object list \<Rightarrow> string list \<Rightarrow> 'm \<Rightarrow> string list res \<times> 'm" where
  "restore_records hs add [] done_ids m = (Inr done_ids, m)"
| "restore_records hs add (r # rs) done_ids m =
     (case record_message hs r of
        None \<Rightarrow> restore_records hs add rs done_ids m
      | Some b \<Rightarrow>
          (case add b m of
             (Inl e, m') \<Rightarrow> (Inl e, m')
           | (Inr _, m') \<Rightarrow> restore_records hs add rs (done_ids @ [unload_id_of hs r]) m'))"

definition reload_answer :: "hashing \<Rightarrow> string list \<Rightarrow> string" where
  "reload_answer hs ids = json_dumps (hs_runtime hs)
     (JDict [(''ok'', JBool True), (''persisted'', JBool True), (''restored_count'', JInt (int (length ids))),
             (''reloaded_ids'', JList (map JStr ids))])"

definition NO_SEGMENTS :: string where
  "NO_SEGMENTS = ''Error: no unloaded segments available for reload.''"

definition reload_unloaded_segments ::
  "hashing \<Rightarrow> (message_block \<Rightarrow> 'm \<Rightarrow> unit res \<times> 'm) option \<Rightarrow> json_object \<Rightarrow> string \<Rightarrow> int \<Rightarrow> state_files \<Rightarrow> 'm
   \<Rightarrow> string res \<times> state_files \<times> 'm" where
  "reload_unloaded_segments hs memory args sid now files m = (case memory of
      None \<Rightarrow> (Inr ''Error: reload_unloaded_segments requires memory context.'', files, m)
    | Some add \<Rightarrow>
       (let mode = reload_mode hs args;
            ids = obj_get args ''unload_ids''
        in if mode \<notin> {''latest'', ''all'', ''ids''}
           then (Inr ''Error: mode must be one of latest/all/ids.'', files, m)
           else if case ids of JNull \<Rightarrow> False | JList _ \<Rightarrow> False | _ \<Rightarrow> True
           then (Inr ''Error: unload_ids must be an array of strings.'', files, m)
           else let id_texts = (case ids of JList vs \<Rightarrow> map (py_str (hs_runtime hs)) vs | _ \<Rightarrow> [])
                in case consume_unloaded_segment_records hs sid mode id_texts (reload_limit hs args) now files of
                  (Inl e, files') \<Rightarrow> (Inl e, files', m)
                | (Inr [], files') \<Rightarrow> (Inr NO_SEGMENTS, files', m)
                | (Inr (r # rs), files') \<Rightarrow>
                    (case restore_records hs add (r # rs) [] m of
                       (Inl e, m') \<Rightarrow> (Inl e, files', m')
                     | (Inr [], m') \<Rightarrow> (Inr ''Error: failed to reconstruct unloaded segments.'', files', m')
                     | (Inr (i # is), m') \<Rightarrow> (Inr (reload_answer hs (i # is)), files', m'))))"

definition RELOAD_TOOL :: string where
  "RELOAD_TOOL = ''reload_unloaded_segments''"

definition availability_gate :: "hashing \<Rightarrow> state_files \<Rightarrow> tools_prepared_payload \<Rightarrow> tools_prepared_payload hook_output" where
  "availability_gate hs files p =
     (let available = has_unloaded_segments hs (tp_session p) files;
          filtered = filter (\<lambda>t. ts_name t \<noteq> RELOAD_TOOL) (tp_tools p);
          out = (\<lambda>st q. \<lparr>ho_status = st, ho_payload = Some q, ho_artifacts = [(''has_unloaded_segments'', JBool available)], ho_error = None\<rparr>)
      in if available \<or> length filtered = length (tp_tools p) then out HOOK_SKIP p
         else out HOOK_OK (p\<lparr>tp_tools := filtered\<rparr>))"

section \<open>What the state file keeps\<close>

lemma load_save [simp]: "load_unloaded hs sid (save_unloaded hs sid recs files) = recs"
proof -
  have "filter is_dict (map JDict recs) = map JDict recs" by (induction recs) auto
  then show ?thesis by (simp add: load_unloaded_def save_unloaded_def comp_def)
qed

lemma load_save_other [simp]:
  "state_file hs sid \<noteq> state_file hs sid' \<Longrightarrow> load_unloaded hs sid (save_unloaded hs sid' recs files) = load_unloaded hs sid files"
  by (simp add: load_unloaded_def save_unloaded_def)

lemma refresh_None: "refresh_record hs uid now rs = None \<longleftrightarrow> (\<forall>r \<in> set rs. unload_id_of hs r \<noteq> uid)"
  by (induction rs) auto

lemma unload_id_dset [simp]:
  "k \<noteq> ''unload_id'' \<Longrightarrow> unload_id_of hs (dset k v r) = unload_id_of hs r"
  by (simp add: unload_id_of_def)

lemma mark_restored_simps [simp]:
  "unload_id_of hs (mark_restored now r) = unload_id_of hs r" "is_restored (mark_restored now r)"
  "obj_get (mark_restored now r) ''segments'' = obj_get r ''segments''" "obj_get (mark_restored now r) ''role'' = obj_get r ''role''"
  by (simp_all add: mark_restored_def is_restored_def)

lemma seen_again_simps [simp]:
  "unload_id_of hs (seen_again now r) = unload_id_of hs r" "\<not> is_restored (seen_again now r)"
  "obj_get (seen_again now r) ''segments'' = obj_get r ''segments''" "obj_get (seen_again now r) ''role'' = obj_get r ''role''"
  by (simp_all add: seen_again_def is_restored_def Let_def)

lemma new_record_simps [simp]:
  "uid \<noteq> [] \<Longrightarrow> unload_id_of hs (new_record uid role segs ph src now) = uid"
  "\<not> is_restored (new_record uid role segs ph src now)"
  "obj_get (new_record uid role segs ph src now) ''segments'' = JList (map JDict segs)"
  "obj_get (new_record uid role segs ph src now) ''role'' = JStr (if role \<noteq> [] then role else ''user'')"
  by (simp_all add: new_record_def unload_id_of_def is_restored_def)

lemma record_message_mark [simp]: "record_message hs (mark_restored now r) = record_message hs r"
  by (simp only: record_message_def mark_restored_simps)

lemma record_message_new:
  assumes "segs \<noteq> []"
  shows "record_message hs (new_record uid (role_str role) (map segment_to_dict segs) ph src now) = block_from_segments role segs"
proof -
  have "filter is_dict (map JDict ds) = map JDict ds" for ds by (induction ds) auto
  moreover have "List.map_filter (\<lambda>v. case segment_from_dict rt (dict_of v) of Inr s \<Rightarrow> Some s | Inl _ \<Rightarrow> None)
      (map (\<lambda>s. JDict (segment_to_dict s)) segs) = segs" for rt
    by (induction segs) (simp_all add: map_filter_simps segment_codec.dec_enc)
  ultimately show ?thesis
    using assms role_str_not_Nil [of role] by (simp add: record_message_def comp_def Let_def)
qed

text \<open>A record of the session with this id that can be reloaded.\<close>

definition reloadable :: "hashing \<Rightarrow> string \<Rightarrow> string \<Rightarrow> state_files \<Rightarrow> bool" where
  "reloadable hs sid uid files \<longleftrightarrow> (\<exists>r \<in> set (load_unloaded hs sid files). unload_id_of hs r = uid \<and> \<not> is_restored r)"

lemma refresh_Some:
  "refresh_record hs uid now rs = Some rs' \<Longrightarrow>
   (\<exists>r \<in> set rs'. unload_id_of hs r = uid \<and> \<not> is_restored r) \<and>
   (\<forall>u. (\<exists>r \<in> set rs. unload_id_of hs r = u \<and> \<not> is_restored r) \<longrightarrow> (\<exists>r \<in> set rs'. unload_id_of hs r = u \<and> \<not> is_restored r))"
proof (induction rs arbitrary: rs')
  case (Cons r rs)
  show ?case
  proof (cases "unload_id_of hs r = uid")
    case True
    then have "rs' = seen_again now r # rs" using Cons.prems by simp
    then show ?thesis using True by auto
  next
    case False
    then obtain rs2 where "refresh_record hs uid now rs = Some rs2" "rs' = r # rs2" using Cons.prems by auto
    with Cons.IH [OF this(1)] show ?thesis by auto
  qed
qed simp

lemma append_reloadable:
  assumes "uid \<noteq> []" and "segs \<noteq> []"
  shows "reloadable hs sid uid (append_unloaded_segment_record hs sid uid role segs ph src now files)"
    and "reloadable hs sid u files \<Longrightarrow> reloadable hs sid u (append_unloaded_segment_record hs sid uid role segs ph src now files)"
  using assms refresh_Some [of hs uid now "load_unloaded hs sid files"] new_record_simps(1) [of uid hs]
  by (auto simp: append_unloaded_segment_record_def reloadable_def Let_def split: option.split)

lemma created_sort_Inr: "sort_created hs newest rs = Inr out \<Longrightarrow> mset out = mset rs"
proof -
  assume "sort_created hs newest rs = Inr out"
  then obtain ks where ks: "res_map (created_at hs) rs = Inr ks" "out = map snd (sort_key (\<lambda>(k, _). if newest then - k else k) (zip ks rs))"
    by (auto simp: sort_created_def res_bind_Inr_iff)
  have "mset out = mset (map snd (zip ks rs))" unfolding ks(2) mset_map mset_sort ..
  then show ?thesis using res_map_length [OF ks(1)] by simp
qed

lemma consume_empty_iff:
  assumes "consume_unloaded_segment_records hs sid mode ids limit now files = (Inr sel, files')" and "mode \<noteq> ''ids''"
  shows "sel = [] \<longleftrightarrow> \<not> has_unloaded_segments hs sid files"
proof -
  let ?act = "filter (\<lambda>r. \<not> is_restored r) (load_unloaded hs sid files)"
  obtain s where s: "select_records hs mode ids limit ?act = Inr s" "sel = [] \<longleftrightarrow> s = []"
    using assms(1) by (auto simp: consume_unloaded_segment_records_def Let_def split: sum.splits list.splits)
  then have "s = [] \<longleftrightarrow> ?act = []"
    using assms(2) by (auto simp: select_records_def res_bind_Inr_iff dest!: created_sort_Inr split: if_splits)
  then show ?thesis using s(2) by (auto simp: has_unloaded_segments_def list_ex_iff filter_empty_conv)
qed

section \<open>Properties\<close>

text \<open>C19. What compression takes out of a prompt can be put back: after a message's segments were unloaded
  under a fresh id, asking for that id gives the session's memory exactly the message with those
  segments and that role, once. If memory takes it, the same request afterwards finds nothing.\<close>

theorem reload_returns_what_was_unloaded:
  assumes "files1 = append_unloaded_segment_record hs sid uid (role_str role) (map segment_to_dict segs) ph src t files"
    and "\<forall>r \<in> set (load_unloaded hs sid files). unload_id_of hs r \<noteq> uid"
    and "uid \<noteq> []" and "py_strip uid = uid" and "segs \<noteq> []"
    and "block_from_segments role segs = Some b" and "add b m = (Inr (), m')"
    and "args = [(''mode'', JStr ''ids''), (''unload_ids'', JList [JStr uid])]"
  shows "\<exists>files2. reload_unloaded_segments hs (Some add) args sid now files1 m = (Inr (reload_answer hs [uid]), files2, m') \<and>
    reload_unloaded_segments hs (Some add) args sid later files2 m' = (Inr NO_SEGMENTS, files2, m')"
proof -
  let ?r = "new_record uid (role_str role) (map segment_to_dict segs) ph src t"
  let ?old = "load_unloaded hs sid files"
  have l: "load_unloaded hs sid files1 = ?old @ [?r]"
    using assms(1,2,3,5) refresh_None [of hs uid t ?old] by (auto simp: append_unloaded_segment_record_def Let_def split: option.split)
  have none: "filter (\<lambda>r. unload_id_of hs r = uid) (filter P ?old) = []" for P
    using assms(2) by (auto simp: filter_empty_conv)
  have mode: "reload_mode hs args = ''ids''" 
    by (simp add: assms(8) reload_mode_def py_strip_id is_space_def py_lower_def lower_char_def)
  have ids: "obj_get args ''unload_ids'' = JList [JStr uid]" by (simp add: assms(8))
  have sel: "select_records hs ''ids'' [uid] n (filter (\<lambda>r. \<not> is_restored r) rs) =
      Inr (filter (\<lambda>r. unload_id_of hs r = uid) (filter (\<lambda>r. \<not> is_restored r) rs))" for n rs
    using assms(3,4) by (simp add: select_records_def Let_def)
  let ?mark = "\<lambda>r. if unload_id_of hs r = uid then mark_restored now r else r"
  let ?files2 = "save_unloaded hs sid (map ?mark (?old @ [?r])) files1"
  have new: "unload_id_of hs ?r = uid" by (rule new_record_simps(1) [OF assms(3)])
  have "filter (\<lambda>r. unload_id_of hs r = uid) (filter (\<lambda>r. \<not> is_restored r) (?old @ [?r])) = [?r]"
    using none new by simp
  then have c: "consume_unloaded_segment_records hs sid ''ids'' [uid] n now files1 = (Inr [mark_restored now ?r], ?files2)" for n
    unfolding consume_unloaded_segment_records_def l sel Let_def by (simp add: new)
  have rec: "restore_records hs add [mark_restored now ?r] [] m = (Inr [uid], m')"
    by (simp add: record_message_new [OF assms(5)] assms(6,7) new)
  have gone: "filter (\<lambda>r. unload_id_of hs r = uid) (filter (\<lambda>r. \<not> is_restored r) (map ?mark rs)) = []" for rs
    by (induction rs) auto
  have c2: "consume_unloaded_segment_records hs sid ''ids'' [uid] n later ?files2 = (Inr [], ?files2)" for n
    unfolding consume_unloaded_segment_records_def load_save sel gone Let_def by simp
  have step: "reload_unloaded_segments hs (Some add) args sid tm fs mem =
      (case consume_unloaded_segment_records hs sid ''ids'' [uid] (reload_limit hs args) tm fs of
          (Inl e, files') \<Rightarrow> (Inl e, files', mem)
        | (Inr [], files') \<Rightarrow> (Inr NO_SEGMENTS, files', mem)
        | (Inr (r # rs), files') \<Rightarrow> (case restore_records hs add (r # rs) [] mem of
             (Inl e, m') \<Rightarrow> (Inl e, files', m')
           | (Inr [], m') \<Rightarrow> (Inr ''Error: failed to reconstruct unloaded segments.'', files', m')
           | (Inr (i # is), m') \<Rightarrow> (Inr (reload_answer hs (i # is)), files', m')))" for tm fs mem
    unfolding reload_unloaded_segments_def Let_def mode ids
    by (simp only: option.case json.case insert_iff empty_iff simp_thms not_True_eq_False not_False_eq_True if_False list.map py_str_JStr)
  show ?thesis
    by (rule exI [of _ ?files2]) (simp only: step c c2 rec prod.case sum.case list.case simp_thms)
qed

text \<open> The gate hides the tool exactly when asking for the newest or for all segments would find none.\<close>

theorem reload_tool_hidden_iff_nothing_to_reload:
  assumes "consume_unloaded_segment_records hs (tp_session p) mode ids limit now files = (Inr sel, files')" and "mode \<noteq> ''ids''"
    and "ho_payload (availability_gate hs files p) = Some p'"
  shows "RELOAD_TOOL \<in> set (map ts_name (tp_tools p')) \<longleftrightarrow> RELOAD_TOOL \<in> set (map ts_name (tp_tools p)) \<and> sel \<noteq> []"
proof -
  have "length (filter P ts) = length ts \<longleftrightarrow> (\<forall>t \<in> set ts. P t)" for P and ts :: "tool_spec list"
    using length_filter_less by (metis filter_True less_irrefl)
  then show ?thesis
    using assms(3) consume_empty_iff [OF assms(1,2)] by (auto simp: availability_gate_def Let_def split: if_splits)
qed

section \<open>Witnesses\<close>

definition demo_hashing :: hashing where
  "demo_hashing = \<lparr>hs_runtime = null_runtime, hs_sha = \<lambda>s. ''0123456789abcdef''\<rparr>"

definition demo_add :: "message_block \<Rightarrow> message_block list \<Rightarrow> unit res \<times> message_block list" where
  "demo_add b m = (Inr (), m @ [b])"

definition demo_image :: content_segment where
  "demo_image = image_url_segment ''data:image/png;base64,AAAA''"

definition demo_files :: state_files where
  "demo_files = append_unloaded_segment_record demo_hashing ''s'' ''imgu_1'' (role_str ROLE_USER) (map segment_to_dict [demo_image]) ''gone'' ''history_index=0'' 5 []"

theorem reload_returns_what_was_unloaded_witness:
  "\<exists>files2. reload_unloaded_segments demo_hashing (Some demo_add) [(''mode'', JStr ''ids''), (''unload_ids'', JList [JStr ''imgu_1''])] ''s'' 7 demo_files []
      = (Inr (reload_answer demo_hashing [''imgu_1'']), files2, [\<lparr>mb_role = ROLE_USER, mb_body = SegmentsBody [demo_image]\<rparr>])"
proof -
  have "load_unloaded demo_hashing ''s'' [] = []" by (simp add: load_unloaded_def)
  moreover have "py_strip ''imgu_1'' = ''imgu_1''" by (simp add: py_strip_id is_space_def)
  moreover have "block_from_segments ROLE_USER [demo_image] = Some \<lparr>mb_role = ROLE_USER, mb_body = SegmentsBody [demo_image]\<rparr>"
    by (simp add: block_from_segments_def demo_image_def image_url_segment_def)
  ultimately show ?thesis
    using reload_returns_what_was_unloaded [OF demo_files_def, of _ demo_add "[]" "[\<lparr>mb_role = ROLE_USER, mb_body = SegmentsBody [demo_image]\<rparr>]"
        "[(''mode'', JStr ''ids''), (''unload_ids'', JList [JStr ''imgu_1''])]" 7 9]
    by (simp add: demo_add_def) blast
qed

definition demo_tools :: tools_prepared_payload where
  "demo_tools = \<lparr>tp_session = ''s'', tp_task_type = ''general'', tp_is_sub = False, tp_groups = [],
     tp_tools = [\<lparr>ts_name = RELOAD_TOOL, ts_description = [], ts_parameters = []\<rparr>]\<rparr>"

theorem reload_tool_hidden_iff_nothing_to_reload_witness:
  "tp_tools (the (ho_payload (availability_gate demo_hashing [] demo_tools))) = []"
proof -
  have "consume_unloaded_segment_records demo_hashing (tp_session demo_tools) ''all'' [] 1 7 [] = (Inr [], [])" by code_simp
  moreover have "ho_payload (availability_gate demo_hashing [] demo_tools) = Some (demo_tools\<lparr>tp_tools := []\<rparr>)" by code_simp
  ultimately show ?thesis
    using reload_tool_hidden_iff_nothing_to_reload [of demo_hashing demo_tools "''all''" "[]" 1 7 "[]" "[]" "[]" "demo_tools\<lparr>tp_tools := []\<rparr>"] by simp
qed

end
