(* ===== verification/Compression.thy ===== *)
theory Compression
  imports Unloaded
begin

text \<open>
  Context compression (\<^verbatim>\<open>capabilities/compression_hooks/scripts/context_compression.py\<close>): before a call of
  the model, the history is shrunk until the prompt fits the token budget. In order: long old entries
  are clamped and images re-encoded; only a recent window is kept; images are unloaded, oldest message
  first; entries are dropped, oldest first. The latest turn and, in a sub-session, everything up to the
  delegated task are kept throughout.

  The tokenizer, base64 and Pillow are fields of a record \<open>compressor\<close>; the token count
  (\<^verbatim>\<open>infrastructure/tokenizer/counter.py\<close>) and the choice between an image and its re-encoding
  (\<^verbatim>\<open>infrastructure/media/image_compress.py\<close>) are written out over them. The two loops are
  \<open>shrink_while\<close>; the hook's value is \<open>None\<close> when one of them does not end.
\<close>

section \<open>Configuration\<close>

record compression_config =
  cc_recency :: int
  cc_tool_chars :: int
  cc_assistant_chars :: int
  cc_max_edge :: int
  cc_quality :: int
  cc_png :: int
  cc_guard :: int

definition config_int :: "py_runtime \<Rightarrow> json_object \<Rightarrow> string \<Rightarrow> int \<Rightarrow> int res" where
  "config_int rt raw k d = py_int rt (obj_get_or raw k (JInt d))"

text \<open>\<open>_load_config\<close> over the parsed YAML (an empty dictionary without the file), with \<open>DEFAULT_CONFIG\<close>.\<close>

definition load_config :: "py_runtime \<Rightarrow> json_object \<Rightarrow> compression_config res" where
  "load_config rt raw =
     res_bind (config_int rt raw ''recency_window'' 6) (\<lambda>w.
     res_bind (config_int rt raw ''tool_result_max_chars'' 500) (\<lambda>t.
     res_bind (config_int rt raw ''assistant_message_max_chars'' 1200) (\<lambda>a.
     res_bind (config_int rt raw ''image_max_edge'' 768) (\<lambda>e.
     res_bind (config_int rt raw ''image_jpeg_quality'' 55) (\<lambda>q.
     res_bind (config_int rt raw ''image_png_compress_level'' 9) (\<lambda>p.
     res_bind (config_int rt raw ''reloaded_image_guard_messages'' 6) (\<lambda>g.
       Inr \<lparr>cc_recency = w, cc_tool_chars = t, cc_assistant_chars = a, cc_max_edge = e, cc_quality = q, cc_png = p, cc_guard = g\<rparr>)))))))"

record compressor =
  cp_hash :: hashing
  cp_pillow :: bool
  cp_reencode :: "compression_config \<Rightarrow> string \<Rightarrow> string \<Rightarrow> (string \<times> string) option"
  cp_b64decode :: "string \<Rightarrow> string option"
  cp_b64encode :: "string \<Rightarrow> string"
  cp_encode :: "(string \<Rightarrow> nat) option"

section \<open>Tokens\<close>

definition count_text :: "compressor \<Rightarrow> string \<Rightarrow> nat" where
  "count_text cp t = (case cp_encode cp of
      Some enc \<Rightarrow> enc t
    | None \<Rightarrow> if t \<noteq> [] then max 1 (length t div 4) else 0)"

definition count_json :: "compressor \<Rightarrow> json \<Rightarrow> nat" where
  "count_json cp v = count_text cp (dumps_sorted (cp_hash cp) v)"

definition count_content :: "compressor \<Rightarrow> json \<Rightarrow> nat" where
  "count_content cp c = (case c of JNull \<Rightarrow> 0 | JStr s \<Rightarrow> count_text cp s | _ \<Rightarrow> count_json cp c)"

definition count_tool_call :: "compressor \<Rightarrow> tool_call_request \<Rightarrow> nat" where
  "count_tool_call cp c = count_text cp (tc_call_id c) + count_text cp (tc_name c) + count_text cp (tc_arguments c) + 4"

definition count_optional :: "compressor \<Rightarrow> string option \<Rightarrow> nat" where
  "count_optional cp v = (case v of Some (c # cs) \<Rightarrow> count_text cp (c # cs) | _ \<Rightarrow> 0)"

definition count_message :: "compressor \<Rightarrow> chat_message \<Rightarrow> nat" where
  "count_message cp m =
     count_text cp (cm_role m) + count_content cp (cm_content m) + count_optional cp (cm_tool_call_id m) +
     count_optional cp (cm_name m) + sum_list (map (count_tool_call cp) (case cm_tool_calls m of None \<Rightarrow> [] | Some cs \<Rightarrow> cs)) + 4"

definition count_messages :: "compressor \<Rightarrow> chat_message list \<Rightarrow> nat" where
  "count_messages cp ms = sum_list (map (count_message cp) ms)"

definition count_prompt_tokens :: "compressor \<Rightarrow> chat_message list \<Rightarrow> before_llm_payload \<Rightarrow> nat" where
  "count_prompt_tokens cp ms p = count_messages cp ms + count_json cp (JList (map to_openai_tool (bl_tools p)))"

section \<open>Rebuilding the prompt\<close>

definition extract_system_messages :: "before_llm_payload \<Rightarrow> string \<times> chat_message list" where
  "extract_system_messages p = (case bl_messages p of
      [] \<Rightarrow> ([], [])
    | m # ms \<Rightarrow> if cm_role m \<noteq> ''system'' then ([], [])
        else (case cm_content m of JStr s \<Rightarrow> s | _ \<Rightarrow> [], takeWhile (\<lambda>x. cm_role x = ''system'') ms))"

definition rebuild_messages :: "before_llm_payload \<Rightarrow> history_item list \<Rightarrow> chat_message list res" where
  "rebuild_messages p items =
     (let (prompt, extra) = extract_system_messages p
      in res_bind (assemble prompt items (bl_user p)) (\<lambda>ms. Inr
           (if extra = [] then ms
            else case ms of m # rest \<Rightarrow> if cm_role m = ''system'' then m # extra @ rest else extra @ ms | [] \<Rightarrow> extra @ ms)))"

definition over_budget :: "compressor \<Rightarrow> before_llm_payload \<Rightarrow> int \<Rightarrow> history_item list \<Rightarrow> bool res" where
  "over_budget cp p budget items = res_bind (rebuild_messages p items) (\<lambda>ms. Inr (budget < int (count_prompt_tokens cp ms p)))"

section \<open>Protected parts\<close>

fun first_user_end_from :: "nat \<Rightarrow> history_item list \<Rightarrow> nat" where
  "first_user_end_from idx [] = 0"
| "first_user_end_from idx (i # is) = (if is_user_message i then idx + 1 else first_user_end_from (idx + 1) is)"

definition first_user_message_exclusive_end :: "history_item list \<Rightarrow> nat" where
  "first_user_message_exclusive_end items = first_user_end_from 0 items"

definition is_round :: "history_item \<Rightarrow> bool" where
  "is_round i = (case i of Round _ \<Rightarrow> True | Block _ \<Rightarrow> False)"

text \<open>The trailing tool rounds, and the message before them if there is one.\<close>

definition latest_turn_suffix_length :: "history_item list \<Rightarrow> nat" where
  "latest_turn_suffix_length items =
     (let k = length (takeWhile is_round (rev items)) in if k < length items then k + 1 else k)"

section \<open>Clamping\<close>

definition truncate_text :: "string \<Rightarrow> int \<Rightarrow> string" where
  "truncate_text t limit =
     (if limit \<le> 0 \<or> int (length t) \<le> limit then t else py_rstrip (take (nat limit) t) @ LF @ ''...[truncated]'')"

text \<open>The same of a stored text that is not a string.\<close>

definition truncate_json :: "json \<Rightarrow> int \<Rightarrow> json res" where
  "truncate_json v limit = (case v of
      JStr t \<Rightarrow> Inr (JStr (truncate_text t limit))
    | JList vs \<Rightarrow> if limit \<le> 0 \<or> int (length vs) \<le> limit then Inr v else Inl AttributeError
    | JDict d \<Rightarrow> if limit \<le> 0 \<or> int (length d) \<le> limit then Inr v else Inl TypeError
    | _ \<Rightarrow> if limit \<le> 0 then Inr v else Inl TypeError)"

definition truncate_assistant_message :: "message_block \<Rightarrow> int \<Rightarrow> message_block res" where
  "truncate_assistant_message m limit =
     res_bind (block_plain_text m) (\<lambda>plain.
     res_bind (truncate_json plain limit) (\<lambda>t.
       Inr (if t = plain then m else case block_from_segments (mb_role m) [text_segment t] of Some b \<Rightarrow> b | None \<Rightarrow> m)))"

text \<open>\<open>compress_image_bytes\<close>: the re-encoding when it is smaller. \<open>cp_reencode\<close> is \<open>None\<close> when Pillow fails.\<close>

definition compress_image_bytes :: "compressor \<Rightarrow> compression_config \<Rightarrow> string \<Rightarrow> string \<Rightarrow> string \<times> string" where
  "compress_image_bytes cp cfg raw mime =
     (let keep = (raw, if mime \<noteq> [] then mime else ''image/png'')
      in if raw = [] \<or> \<not> cp_pillow cp then keep
         else case cp_reencode cp cfg raw mime of
                None \<Rightarrow> keep
              | Some (optimized, out_mime) \<Rightarrow>
                  if optimized \<noteq> [] \<and> length optimized < length raw then (optimized, out_mime) else keep)"

definition compress_image_data_url :: "compressor \<Rightarrow> compression_config \<Rightarrow> string \<Rightarrow> string option" where
  "compress_image_data_url cp cfg url =
     (let (head, body) = py_split1 CHR '','' url
      in if \<not> cp_pillow cp \<or> CHR '','' \<notin> set url \<or> \<not> py_contains '';base64'' head then None
         else case cp_b64decode cp body of
                None \<Rightarrow> None
              | Some raw \<Rightarrow>
                 if raw = [] then None
                 else (let m = py_lower (py_strip (fst (py_split1 CHR '';'' (drop 5 head))));
                           (new_raw, new_mime) = compress_image_bytes cp cfg raw (if m \<noteq> [] then m else ''image/png'')
                       in if new_raw = raw then Some url else Some (''data:'' @ new_mime @ '';base64,'' @ cp_b64encode cp new_raw)))"

text \<open>One segment after compression; \<open>None\<close> leaves it as it is.\<close>

definition compress_segment :: "compressor \<Rightarrow> compression_config \<Rightarrow> content_segment \<Rightarrow> content_segment option" where
  "compress_segment cp cfg s =
     (if sg_type s \<noteq> SEG_IMAGE_URL then None
      else case obj_get (dict_of (sg_image_url s)) ''url'' of
             JStr url \<Rightarrow>
               if \<not> py_startswith url ''data:image/'' then None
               else (case compress_image_data_url cp cfg url of
                       Some u \<Rightarrow> if u \<noteq> [] \<and> u \<noteq> url then Some (image_url_segment u) else None
                     | None \<Rightarrow> None)
           | _ \<Rightarrow> None)"

definition compress_message_images :: "compressor \<Rightarrow> compression_config \<Rightarrow> message_block \<Rightarrow> message_block" where
  "compress_message_images cp cfg m = (case mb_body m of
      TextBody _ \<Rightarrow> m
    | SegmentsBody ss \<Rightarrow>
        if list_all (\<lambda>s. compress_segment cp cfg s = None) ss then m
        else case block_from_segments (mb_role m) (map (\<lambda>s. case compress_segment cp cfg s of Some s' \<Rightarrow> s' | None \<Rightarrow> s) ss) of
               Some b \<Rightarrow> b | None \<Rightarrow> m)"

definition compress_item :: "compressor \<Rightarrow> compression_config \<Rightarrow> history_item \<Rightarrow> history_item" where
  "compress_item cp cfg i = (case i of Block m \<Rightarrow> Block (compress_message_images cp cfg m) | Round t \<Rightarrow> Round t)"

definition clamp_item :: "compression_config \<Rightarrow> history_item \<Rightarrow> history_item res" where
  "clamp_item cfg i = (case i of
      Round t \<Rightarrow> Inr (Round (t\<lparr>tr_result := truncate_text (tr_result t) (cc_tool_chars cfg),
                             tr_arguments := truncate_text (tr_arguments t) (cc_tool_chars cfg)\<rparr>))
    | Block m \<Rightarrow> if mb_role m = ROLE_ASSISTANT
        then res_bind (truncate_assistant_message m (cc_assistant_chars cfg)) (\<lambda>b. Inr (Block b)) else Inr i)"

definition truncate_large_items :: "compressor \<Rightarrow> compression_config \<Rightarrow> nat \<Rightarrow> history_item list \<Rightarrow> history_item list res" where
  "truncate_large_items cp cfg head_keep items =
     (let first_protected = length items - latest_turn_suffix_length items
      in res_map (\<lambda>(idx, i). let c = compress_item cp cfg i
            in if first_protected \<le> idx \<or> idx < head_keep then Inr c else clamp_item cfg c) (List.enumerate 0 items))"

section \<open>The recent window\<close>

text \<open>The loop of \<open>_keep_recent_history\<close> over the reversed history.\<close>

fun keep_recent :: "int \<Rightarrow> int \<Rightarrow> history_item list \<Rightarrow> history_item list" where
  "keep_recent limit seen [] = []"
| "keep_recent limit seen (i # is) =
     (if is_round i then i # keep_recent limit seen is
      else if limit \<le> seen + 1 then [i] else i # keep_recent limit (seen + 1) is)"

definition keep_recent_history :: "history_item list \<Rightarrow> int \<Rightarrow> history_item list \<times> nat" where
  "keep_recent_history items limit =
     (let kept = rev (keep_recent limit 0 (rev items)) in (kept, length items - length kept))"

definition recent_window :: "compression_config \<Rightarrow> bool \<Rightarrow> history_item list \<Rightarrow> history_item list" where
  "recent_window cfg is_sub before =
     (let (kept, tail_start) = keep_recent_history before (cc_recency cfg);
          pe = first_user_message_exclusive_end before
      in if is_sub \<and> 0 < pe then take pe before @ drop (max pe tail_start) before else kept)"

section \<open>Unloading images\<close>

definition segment_fingerprint :: "compressor \<Rightarrow> content_segment \<Rightarrow> string" where
  "segment_fingerprint cp s = hs_sha (cp_hash cp) (dumps_sorted (cp_hash cp) (JDict (segment_to_dict s)))"

definition message_blocks_after_index :: "history_item list \<Rightarrow> nat \<Rightarrow> nat" where
  "message_blocks_after_index items idx = length (filter (\<lambda>i. \<not> is_round i) (drop (idx + 1) items))"

definition make_unload_id :: "compressor \<Rightarrow> message_role \<Rightarrow> nat \<Rightarrow> content_segment list \<Rightarrow> string" where
  "make_unload_id cp role idx unloaded = ''imgu_'' @ take 12 (hs_sha (cp_hash cp) (dumps_sorted (cp_hash cp)
     (JDict [(''role'', JStr (role_str role)), (''history_index'', JInt (int idx)),
             (''segments'', JList (map (\<lambda>s. JDict (segment_to_dict s)) unloaded))])))"

definition unload_placeholder :: "string \<Rightarrow> nat \<Rightarrow> string" where
  "unload_placeholder uid n = ''[image context unloaded: unload_id='' @ uid @ ''; images='' @ show_nat n @
     ''; use reload_unloaded_segments to restore]''"

text \<open>An image stays when it was reloaded and fewer than \<open>guard\<close> messages came after it.\<close>

definition guarded :: "compressor \<Rightarrow> string set \<Rightarrow> int \<Rightarrow> nat \<Rightarrow> content_segment \<Rightarrow> bool" where
  "guarded cp recents guard after s \<longleftrightarrow> segment_fingerprint cp s \<in> recents \<and> int after < max 0 guard"

definition unloadable :: "compressor \<Rightarrow> string set \<Rightarrow> int \<Rightarrow> nat \<Rightarrow> content_segment \<Rightarrow> bool" where
  "unloadable cp recents guard after s \<longleftrightarrow> sg_type s = SEG_IMAGE_URL \<and> \<not> guarded cp recents guard after s"

definition replace_images_with_unload_placeholder ::
  "compressor \<Rightarrow> string \<Rightarrow> int \<Rightarrow> int \<Rightarrow> string set \<Rightarrow> history_item list \<Rightarrow> nat \<Rightarrow> history_item \<Rightarrow> state_files
   \<Rightarrow> (message_block \<times> state_files) option" where
  "replace_images_with_unload_placeholder cp sid now guard recents items idx item files = (case item of
      Round _ \<Rightarrow> None
    | Block m \<Rightarrow> (case mb_body m of
        TextBody _ \<Rightarrow> None
      | SegmentsBody ss \<Rightarrow>
        (let after = message_blocks_after_index items idx;
             unloaded = filter (unloadable cp recents guard after) ss;
             kept = filter (\<lambda>s. \<not> unloadable cp recents guard after s) ss;
             uid = make_unload_id cp (mb_role m) idx unloaded;
             placeholder = unload_placeholder uid (length unloaded)
         in if unloaded = [] then None
            else let files' = append_unloaded_segment_record (cp_hash cp) sid uid (role_str (mb_role m)) (map segment_to_dict unloaded)
                       placeholder (''history_index='' @ show_nat idx) now files
                 in map_option (\<lambda>b. (b, files')) (block_from_segments (mb_role m) (kept @ [text_segment (JStr placeholder)])))))"

text \<open>The loop over the indices between the protected prefix and the latest turn.\<close>

fun unload_scan ::
  "compressor \<Rightarrow> string \<Rightarrow> int \<Rightarrow> int \<Rightarrow> string set \<Rightarrow> history_item list \<Rightarrow> nat list \<Rightarrow> state_files
   \<Rightarrow> (history_item list \<times> state_files) option" where
  "unload_scan cp sid now guard recents items [] files = None"
| "unload_scan cp sid now guard recents items (idx # idxs) files =
     (case replace_images_with_unload_placeholder cp sid now guard recents items idx (items ! idx) files of
        None \<Rightarrow> unload_scan cp sid now guard recents items idxs files
      | Some (b, files') \<Rightarrow> Some (items[idx := Block b], files'))"

definition middle :: "nat \<Rightarrow> history_item list \<Rightarrow> nat list" where
  "middle start items = [start ..< length items - latest_turn_suffix_length items]"

definition unload_oldest_image_message ::
  "compressor \<Rightarrow> string \<Rightarrow> int \<Rightarrow> int \<Rightarrow> nat \<Rightarrow> history_item list \<times> state_files \<Rightarrow> (history_item list \<times> state_files) option" where
  "unload_oldest_image_message cp sid now guard start st =
     (let (items, files) = st
      in if items = [] then None
         else unload_scan cp sid now guard (restored_segment_fingerprints (cp_hash cp) sid files) items (middle start items) files)"

section \<open>Dropping entries\<close>

definition UNLOAD_MARK :: string where
  "UNLOAD_MARK = ''image context unloaded:''"

text \<open>\<open>"image context unloaded:" in text\<close> of a stored text that need not be a string.\<close>

definition mentions_unload :: "json \<Rightarrow> bool res" where
  "mentions_unload v = (case v of
      JStr t \<Rightarrow> Inr (py_contains UNLOAD_MARK t)
    | JList vs \<Rightarrow> Inr (JStr UNLOAD_MARK \<in> set vs)
    | JDict d \<Rightarrow> Inr (UNLOAD_MARK \<in> set (dkeys d))
    | _ \<Rightarrow> Inl TypeError)"

fun droppable_from :: "history_item list \<Rightarrow> nat list \<Rightarrow> nat option res" where
  "droppable_from items [] = Inr None"
| "droppable_from items (idx # idxs) = (case items ! idx of
      Round _ \<Rightarrow> Inr (Some idx)
    | Block m \<Rightarrow> res_bind (block_plain_text m) (\<lambda>t. res_bind (mentions_unload t) (\<lambda>u.
        if u then droppable_from items idxs else Inr (Some idx))))"

definition find_droppable_index :: "nat \<Rightarrow> history_item list \<Rightarrow> nat option res" where
  "find_droppable_index start items = droppable_from items (middle start items)"

definition drop_next :: "nat \<Rightarrow> history_item list \<Rightarrow> history_item list option res" where
  "drop_next start items =
     res_bind (find_droppable_index start items) (\<lambda>found. Inr (map_option (\<lambda>idx. take idx items @ drop (idx + 1) items) found))"

definition still_over :: "compressor \<Rightarrow> before_llm_payload \<Rightarrow> int \<Rightarrow> nat \<Rightarrow> history_item list \<Rightarrow> bool res" where
  "still_over cp p budget start items =
     (if start + latest_turn_suffix_length items < length items then over_budget cp p budget items else Inr False)"

section \<open>The hook\<close>

text \<open>The two loops, from the recent window on; an exception ends the hook.\<close>

definition unload_loop ::
  "compressor \<Rightarrow> compression_config \<Rightarrow> before_llm_payload \<Rightarrow> int \<Rightarrow> int \<Rightarrow> nat \<Rightarrow> history_item list \<times> state_files
   \<Rightarrow> (history_item list res \<times> state_files) option" where
  "unload_loop cp cfg p budget now start st =
     (let over = (\<lambda>(items, _). over_budget cp p budget items);
          nxt = (\<lambda>s. Inr (unload_oldest_image_message cp (bl_session p) now (cc_guard cfg) start s))
      in map_option (\<lambda>(items, files). (case shrink_error over nxt (items, files) of Some e \<Rightarrow> Inl e | None \<Rightarrow> Inr items, files))
           (shrink_while over nxt st))"

definition drop_loop :: "compressor \<Rightarrow> before_llm_payload \<Rightarrow> int \<Rightarrow> nat \<Rightarrow> history_item list \<Rightarrow> history_item list res option" where
  "drop_loop cp p budget start items =
     map_option (\<lambda>t. case shrink_error (still_over cp p budget start) (drop_next start) t of Some e \<Rightarrow> Inl e | None \<Rightarrow> Inr t)
       (shrink_while (still_over cp p budget start) (drop_next start) items)"

definition trim_history ::
  "compressor \<Rightarrow> compression_config \<Rightarrow> before_llm_payload \<Rightarrow> int \<Rightarrow> int \<Rightarrow> history_item list \<Rightarrow> state_files
   \<Rightarrow> (history_item list res \<times> state_files) option" where
  "trim_history cp cfg p budget now items files =
     (let start = (if bl_is_sub p then first_user_message_exclusive_end items else 0)
      in case unload_loop cp cfg p budget now start (items, files) of
           None \<Rightarrow> None
         | Some (Inl e, files') \<Rightarrow> Some (Inl e, files')
         | Some (Inr items', files') \<Rightarrow> map_option (\<lambda>r. (r, files')) (drop_loop cp p budget start items'))"

definition build_output :: "before_llm_payload \<Rightarrow> history_item list \<Rightarrow> before_llm_payload hook_output res" where
  "build_output p items = res_bind (rebuild_messages p items) (\<lambda>ms. Inr
     \<lparr>ho_status = HOOK_OK, ho_payload = Some (p\<lparr>bl_history := items, bl_messages := ms\<rparr>), ho_artifacts = [], ho_error = None\<rparr>)"

definition token_budget :: "before_llm_payload \<Rightarrow> int option \<Rightarrow> int" where
  "token_budget p context_budget =
     (let fallback = (case context_budget of Some c \<Rightarrow> c | None \<Rightarrow> 0)
      in case bl_budget p of Some b \<Rightarrow> if b \<noteq> 0 then b else fallback | None \<Rightarrow> fallback)"

text \<open>The history that is sent, and what the hook did to the state files.\<close>

definition compress_history ::
  "compressor \<Rightarrow> compression_config \<Rightarrow> before_llm_payload \<Rightarrow> int \<Rightarrow> int \<Rightarrow> state_files \<Rightarrow> (history_item list res \<times> state_files) option" where
  "compress_history cp cfg p budget now files =
     (let head_keep = (if bl_is_sub p then first_user_message_exclusive_end (bl_history p) else 0)
      in case truncate_large_items cp cfg head_keep (bl_history p) of
           Inl e \<Rightarrow> Some (Inl e, files)
         | Inr clamped \<Rightarrow> (case over_budget cp p budget clamped of
             Inl e \<Rightarrow> Some (Inl e, files)
           | Inr False \<Rightarrow> Some (Inr clamped, files)
           | Inr True \<Rightarrow>
             (let recent = recent_window cfg (bl_is_sub p) clamped
              in case over_budget cp p budget recent of
                   Inl e \<Rightarrow> Some (Inl e, files)
                 | Inr False \<Rightarrow> Some (Inr recent, files)
                 | Inr True \<Rightarrow> trim_history cp cfg p budget now recent files)))"

definition context_compression ::
  "compressor \<Rightarrow> json_object \<Rightarrow> int option \<Rightarrow> int \<Rightarrow> before_llm_payload \<Rightarrow> state_files
   \<Rightarrow> (before_llm_payload hook_output res \<times> state_files) option" where
  "context_compression cp raw context_budget now p files =
     (let budget = token_budget p context_budget
      in if budget \<le> 0 then Some (Inr (skip_output (Some p)), files)
         else case load_config (hs_runtime (cp_hash cp)) raw of
           Inl e \<Rightarrow> Some (Inl e, files)
         | Inr cfg \<Rightarrow>
             (if int (count_prompt_tokens cp (bl_messages p) p) \<le> budget then Some (Inr (skip_output (Some p)), files)
              else map_option (\<lambda>(r, files'). (res_bind r (build_output p), files')) (compress_history cp cfg p budget now files)))"

section \<open>The latest turn\<close>

definition turn_shape :: "history_item list \<Rightarrow> bool" where
  "turn_shape S \<longleftrightarrow> (case S of [] \<Rightarrow> False | b # rs \<Rightarrow> \<not> is_round b \<and> list_all is_round rs)"

text \<open>The history ends in \<open>S\<close> and \<open>S\<close> is its latest turn.\<close>

definition ends_in :: "history_item list \<Rightarrow> history_item list \<Rightarrow> bool" where
  "ends_in S items \<longleftrightarrow> (\<exists>pre. items = pre @ S \<and> (turn_shape S \<or> pre = [] \<and> list_all is_round S))"

lemma is_round_simps [simp]: "is_round (Round t)" "\<not> is_round (Block m)"
  by (simp_all add: is_round_def)

lemma takeWhile_all: "list_all P xs \<Longrightarrow> takeWhile P (xs @ ys) = xs @ takeWhile P ys"
  by (induction xs) auto

lemma ends_in_length: "ends_in S items \<Longrightarrow> latest_turn_suffix_length items = length S"
proof -
  assume "ends_in S items"
  then obtain pre where pre: "items = pre @ S" "turn_shape S \<or> pre = [] \<and> list_all is_round S" by (auto simp: ends_in_def)
  show ?thesis
  proof (cases "turn_shape S")
    case True
    then obtain b rs where S: "S = b # rs" "\<not> is_round b" "list_all is_round rs" by (auto simp: turn_shape_def split: list.splits)
    have "takeWhile is_round (rev items) = rev rs"
      using S takeWhile_all [of is_round "rev rs" "b # rev pre"] by (simp add: pre(1))
    then show ?thesis by (simp add: latest_turn_suffix_length_def pre(1) S(1))
  next
    case False
    then have all: "list_all is_round S" and "items = S" using pre by auto
    then have "takeWhile is_round (rev S) = rev S" by (simp add: takeWhile_eq_all_conv list_all_iff)
    then have "length (takeWhile is_round (rev S)) = length S" by (metis length_rev)
    then show ?thesis unfolding latest_turn_suffix_length_def \<open>items = S\<close> by (simp only: Let_def less_irrefl if_False)
  qed
qed

lemma latest_turn_exists: "ends_in (drop (length items - latest_turn_suffix_length items) items) items"
proof -
  let ?t = "takeWhile is_round (rev items)" and ?d = "dropWhile is_round (rev items)"
  have rounds: "list_all is_round (rev ?t)" by (auto simp: list_all_iff dest: set_takeWhileD)
  have split: "rev items = ?t @ ?d" by simp
  have "\<exists>S. ends_in S items"
  proof (cases ?d)
    case Nil
    then have "rev items = ?t" using split by (metis append_Nil2)
    then have "list_all is_round items" using rounds by (metis rev_rev_ident)
    then show ?thesis by (auto simp: ends_in_def)
  next
    case (Cons b rest)
    then have "\<not> is_round b" by (metis hd_dropWhile list.distinct(1) list.sel(1))
    moreover have "items = rev rest @ b # rev ?t" using split Cons by (metis append.assoc append_Cons append_Nil rev.simps(2) rev_append rev_rev_ident)
    ultimately show ?thesis
      using rounds unfolding ends_in_def turn_shape_def by (intro exI [of _ "b # rev ?t"] exI [of _ "rev rest"]) simp
  qed
  then obtain S where S: "ends_in S items" ..
  then obtain pre where "items = pre @ S" by (auto simp: ends_in_def)
  then have "drop (length items - latest_turn_suffix_length items) items = S" using ends_in_length [OF S] by simp
  then show ?thesis using S by simp
qed

lemma middle_ends_in: "ends_in S items \<Longrightarrow> idx \<in> set (middle start items) \<Longrightarrow> start \<le> idx \<and> idx + length S < length items"
  by (auto simp: middle_def ends_in_length)

lemma ends_in_update:
  assumes "ends_in S items" and "idx + length S < length items"
  shows "ends_in S (items[idx := i])" and "ends_in S (take idx items @ drop (idx + 1) items)"
proof -
  obtain pre where pre: "items = pre @ S" "turn_shape S \<or> pre = [] \<and> list_all is_round S" using assms(1) by (auto simp: ends_in_def)
  then have "idx < length pre" "turn_shape S" using assms(2) by auto
  then show "ends_in S (items[idx := i])" "ends_in S (take idx items @ drop (idx + 1) items)"
    using pre(1) by (auto simp: ends_in_def list_update_append)
qed

section \<open>Images only get fewer\<close>

definition images_of :: "history_item \<Rightarrow> nat" where
  "images_of i = (case i of
      Block m \<Rightarrow> (case mb_body m of SegmentsBody ss \<Rightarrow> length (filter (\<lambda>s. sg_type s = SEG_IMAGE_URL) ss) | TextBody _ \<Rightarrow> 0)
    | Round _ \<Rightarrow> 0)"

definition images :: "history_item list \<Rightarrow> nat" where
  "images items = sum_list (map images_of items)"

definition announces :: "string \<Rightarrow> message_block \<Rightarrow> bool" where
  "announces uid b \<longleftrightarrow> (\<exists>n. mb_body b = TextBody (JStr (unload_placeholder uid n)) \<or>
     (\<exists>kept. mb_body b = SegmentsBody (kept @ [text_segment (JStr (unload_placeholder uid n))])))"

lemma placeholder_not_Nil: "unload_placeholder uid n \<noteq> []"
  by (simp add: unload_placeholder_def)

lemma filter_two: "length (filter P xs) = length (filter P (filter Q xs)) + length (filter P (filter (\<lambda>x. \<not> Q x) xs))"
  by (induction xs) auto

lemma block_of_kept:
  assumes "block_from_segments role (kept @ [text_segment (JStr t)]) = Some b" and "t \<noteq> []"
  shows "images_of (Block b) = length (filter (\<lambda>s. sg_type s = SEG_IMAGE_URL) kept) \<and> mb_role b = role \<and>
    (mb_body b = TextBody (JStr t) \<or> mb_body b = SegmentsBody (kept @ [text_segment (JStr t)]))"
proof -
  have t: "py_or (JStr t) (JStr []) = JStr t" using assms(2) by simp
  show ?thesis
  proof (cases kept)
    case Nil
    then show "images_of (Block b) = length (filter (\<lambda>s. sg_type s = SEG_IMAGE_URL) kept) \<and> mb_role b = role \<and>
        (mb_body b = TextBody (JStr t) \<or> mb_body b = SegmentsBody (kept @ [text_segment (JStr t)]))"
      using assms(1) t by (auto simp: block_from_segments_def images_of_def text_segment_def)
  next
    case (Cons k ks)
    then have "b = \<lparr>mb_role = role, mb_body = SegmentsBody (kept @ [text_segment (JStr t)])\<rparr>"
      using assms(1) by (cases ks) (auto simp: block_from_segments_def)
    then show "images_of (Block b) = length (filter (\<lambda>s. sg_type s = SEG_IMAGE_URL) kept) \<and> mb_role b = role \<and>
        (mb_body b = TextBody (JStr t) \<or> mb_body b = SegmentsBody (kept @ [text_segment (JStr t)]))"
      by (simp add: images_of_def text_segment_def)
  qed
qed

lemma replace_images_Some:
  assumes "replace_images_with_unload_placeholder cp sid now guard recents items idx item files = Some (b, files')"
  obtains m unloaded uid where "item = Block m" "mb_role b = mb_role m" "images_of (Block b) < images_of item" "announces uid b"
    "unloaded \<noteq> []" "uid \<noteq> []"
    "files' = append_unloaded_segment_record (cp_hash cp) sid uid (role_str (mb_role m)) (map segment_to_dict unloaded)
       (unload_placeholder uid (length unloaded)) (''history_index='' @ show_nat idx) now files"
proof -
  obtain m ss where m: "item = Block m" "mb_body m = SegmentsBody ss"
    using assms by (auto simp: replace_images_with_unload_placeholder_def split: history_item.splits message_body.splits)
  let ?U = "unloadable cp recents guard (message_blocks_after_index items idx)"
  let ?un = "filter ?U ss" and ?kept = "filter (\<lambda>s. \<not> ?U s) ss"
  let ?uid = "make_unload_id cp (mb_role m) idx ?un"
  let ?t = "unload_placeholder ?uid (length ?un)"
  have b: "?un \<noteq> []" "block_from_segments (mb_role m) (?kept @ [text_segment (JStr ?t)]) = Some b"
    "files' = append_unloaded_segment_record (cp_hash cp) sid ?uid (role_str (mb_role m)) (map segment_to_dict ?un)
       ?t (''history_index='' @ show_nat idx) now files"
    using assms m by (auto simp: replace_images_with_unload_placeholder_def Let_def split: if_splits)
  note k = block_of_kept [OF b(2) placeholder_not_Nil]
  note k = conjunct1 [OF k] conjunct1 [OF conjunct2 [OF k]] conjunct2 [OF conjunct2 [OF k]]
  have "filter (\<lambda>s. sg_type s = SEG_IMAGE_URL) ?un = ?un" by (intro filter_True) (auto simp: unloadable_def)
  then have "images_of (Block b) < images_of item"
    using k(1) b(1) filter_two [of "\<lambda>s. sg_type s = SEG_IMAGE_URL" ss ?U] by (simp add: images_of_def m)
  moreover have "announces ?uid b" using k(3) by (auto simp: announces_def)
  moreover have "?uid \<noteq> []" by (simp add: make_unload_id_def)
  ultimately show thesis using that m(1) k(2) b by blast
qed

lemma unload_scan_Some:
  assumes "unload_scan cp sid now guard recents items idxs files = Some (items', files')"
  obtains idx b where "idx \<in> set idxs" "items' = items[idx := Block b]"
    "replace_images_with_unload_placeholder cp sid now guard recents items idx (items ! idx) files = Some (b, files')"
  using assms by (induction idxs) (auto split: option.splits)

lemma unload_oldest_Some:
  assumes "unload_oldest_image_message cp sid now guard start (items, files) = Some (items', files')"
  obtains idx b m unloaded uid where "idx \<in> set (middle start items)" "items' = items[idx := Block b]" "items ! idx = Block m"
    "mb_role b = mb_role m" "images_of (Block b) < images_of (items ! idx)" "announces uid b" "unloaded \<noteq> []" "uid \<noteq> []"
    "files' = append_unloaded_segment_record (cp_hash cp) sid uid (role_str (mb_role m)) (map segment_to_dict unloaded)
       (unload_placeholder uid (length unloaded)) (''history_index='' @ show_nat idx) now files"
proof -
  have "unload_scan cp sid now guard (restored_segment_fingerprints (cp_hash cp) sid files) items (middle start items) files = Some (items', files')"
    using assms by (auto simp: unload_oldest_image_message_def split: if_splits)
  then obtain idx b where 1: "idx \<in> set (middle start items)" "items' = items[idx := Block b]"
    "replace_images_with_unload_placeholder cp sid now guard (restored_segment_fingerprints (cp_hash cp) sid files) items idx (items ! idx) files = Some (b, files')"
    by (rule unload_scan_Some)
  from 1(3) show thesis by (rule replace_images_Some) (use that 1(1,2) in metis)
qed

lemma images_update: "idx < length items \<Longrightarrow> images_of i < images_of (items ! idx) \<Longrightarrow> images (items[idx := i]) < images items"
  unfolding images_def by (induction items arbitrary: idx) (auto simp: nth_Cons split: nat.split)

interpretation unloading: shrink_loop
    "\<lambda>(items, _). over_budget cp p budget items" "\<lambda>s. Inr (unload_oldest_image_message cp sid now guard start s)" "\<lambda>(items, _). images items"
  for cp p budget sid now guard start
proof (unfold_locales, clarify)
  fix items files items' files'
  assume "unload_oldest_image_message cp sid now guard start (items, files) = Some (items', files')"
  then show "images items' < images items"
    by (rule unload_oldest_Some) (auto simp: middle_def intro!: images_update)
qed

lemma drop_next_Some:
  assumes "drop_next start items = Inr (Some items')"
  obtains idx where "idx \<in> set (middle start items)" "items' = take idx items @ drop (idx + 1) items"
proof -
  obtain idx where 1: "find_droppable_index start items = Inr (Some idx)" "items' = take idx items @ drop (idx + 1) items"
    using assms by (auto simp: drop_next_def res_bind_Inr_iff)
  have "droppable_from items idxs = Inr (Some idx) \<Longrightarrow> idx \<in> set idxs" for idxs
    by (induction idxs) (auto simp: res_bind_Inr_iff split: history_item.splits if_splits)
  with 1 that show thesis by (auto simp: find_droppable_index_def)
qed

interpretation dropping: shrink_loop "still_over cp p budget start" "drop_next start" length
  for cp p budget start
  by unfold_locales (auto elim!: drop_next_Some simp: middle_def)

section \<open>What the early stages keep\<close>

lemma res_map_nth: "res_map f xs = Inr ys \<Longrightarrow> i < length xs \<Longrightarrow> f (xs ! i) = Inr (ys ! i)"
proof (induction xs arbitrary: ys i)
  case (Cons x xs)
  then obtain y ys' where "f x = Inr y" "res_map f xs = Inr ys'" "ys = y # ys'" by (auto simp: res_bind_Inr_iff)
  with Cons show ?case by (cases i) auto
qed simp

lemma block_from_segments_role: "block_from_segments role ss = Some b \<Longrightarrow> mb_role b = role"
  by (auto simp: block_from_segments_def split: list.splits)

lemma compress_message_role [simp]: "mb_role (compress_message_images cp cfg m) = mb_role m"
  by (auto simp: compress_message_images_def dest: block_from_segments_role split: message_body.split option.split)

lemma compress_item_kind [simp]:
  "is_round (compress_item cp cfg i) = is_round i" "is_user_message (compress_item cp cfg i) = is_user_message i"
  by (auto simp: compress_item_def is_round_def is_user_message_def split: history_item.splits)

lemma clamp_item_kind:
  "clamp_item cfg i = Inr c \<Longrightarrow> is_round c = is_round i \<and> is_user_message c = is_user_message i"
  by (auto simp: clamp_item_def truncate_assistant_message_def is_round_def is_user_message_def res_bind_Inr_iff
      dest!: block_from_segments_role split: history_item.splits if_splits option.splits)

lemma truncate_nth:
  assumes "truncate_large_items cp cfg head_keep items = Inr out" and "i < length items"
  shows "if length items - latest_turn_suffix_length items \<le> i \<or> i < head_keep then out ! i = compress_item cp cfg (items ! i)
    else clamp_item cfg (compress_item cp cfg (items ! i)) = Inr (out ! i)"
proof -
  have "(if length items - latest_turn_suffix_length items \<le> i \<or> i < head_keep then Inr (compress_item cp cfg (items ! i))
      else clamp_item cfg (compress_item cp cfg (items ! i))) = Inr (out ! i)"
    using res_map_nth [OF assms(1) [unfolded truncate_large_items_def Let_def], of i] assms(2)
    by (simp add: nth_enumerate_eq)
  then show ?thesis
    by (cases "length items - latest_turn_suffix_length items \<le> i \<or> i < head_keep") simp_all
qed

lemma truncate_length: "truncate_large_items cp cfg head_keep items = Inr out \<Longrightarrow> length out = length items"
  unfolding truncate_large_items_def Let_def by (drule res_map_length) simp

lemma truncate_kind:
  assumes "truncate_large_items cp cfg head_keep items = Inr out"
  shows "map is_round out = map is_round items \<and> map is_user_message out = map is_user_message items"
proof -
  have "is_round (out ! i) = is_round (items ! i) \<and> is_user_message (out ! i) = is_user_message (items ! i)" if "i < length items" for i
    using truncate_nth [OF assms that] clamp_item_kind [of cfg "compress_item cp cfg (items ! i)" "out ! i"]
    by (auto split: if_splits)
  then show ?thesis using truncate_length [OF assms] by (auto intro!: nth_equalityI)
qed

lemma turn_shape_kinds: "turn_shape S = (case map is_round S of [] \<Rightarrow> False | b # bs \<Rightarrow> \<not> b \<and> list_all id bs)"
  by (cases S) (simp_all add: turn_shape_def list.pred_map comp_def)

lemma ends_in_kinds:
  assumes "ends_in S items" and "map is_round out = map is_round items" and "drop (length items - length S) out = S'"
  shows "ends_in S' out"
proof -
  obtain pre where pre: "items = pre @ S" "turn_shape S \<or> pre = [] \<and> list_all is_round S" using assms(1) by (auto simp: ends_in_def)
  have len: "length out = length items" using assms(2) by (metis length_map)
  have "map is_round S' = map is_round S" using assms(2) pre(1) unfolding assms(3) [symmetric] drop_map [symmetric] by simp
  then have "turn_shape S' = turn_shape S" "list_all is_round S' = list_all is_round S"
    by (simp_all add: turn_shape_kinds) (metis list.pred_map comp_id id_comp list_all_iff)
  moreover have "out = take (length pre) out @ S'" using assms(3) pre(1) by (metis add_diff_cancel_right' append_take_drop_id length_append)
  ultimately show ?thesis using pre(2) unfolding ends_in_def by (metis take_eq_Nil list.size(3))
qed

lemma first_user_end_kinds: "map is_user_message out = map is_user_message items \<Longrightarrow> first_user_end_from k out = first_user_end_from k items"
proof (induction items arbitrary: out k)
  case (Cons i items)
  then obtain i' out' where "out = i' # out'" "is_user_message i' = is_user_message i" "map is_user_message out' = map is_user_message items"
    by (cases out) auto
  then show ?case using Cons.IH [of out' "k + 1"] by simp
qed simp

lemma first_user_end_cases:
  "first_user_end_from k items = 0 \<and> (\<forall>i \<in> set items. \<not> is_user_message i) \<or>
   (\<exists>pre u post. items = pre @ u # post \<and> is_user_message u \<and> (\<forall>i \<in> set pre. \<not> is_user_message i) \<and>
      first_user_end_from k items = k + length pre + 1)"
proof (induction items arbitrary: k)
  case (Cons i items)
  show ?case
  proof (cases "is_user_message i")
    case True
    then show ?thesis by (intro disjI2 exI [of _ "[]"]) auto
  next
    case False
    with Cons.IH [of "k + 1"] show ?thesis
    proof (elim disjE exE conjE)
      fix pre u post
      assume "items = pre @ u # post" "is_user_message u" "\<forall>i \<in> set pre. \<not> is_user_message i"
        "first_user_end_from (k + 1) items = k + 1 + length pre + 1"
      then show ?thesis using False by (intro disjI2 exI [of _ "i # pre"] exI [of _ u] exI [of _ post]) auto
    qed (use False in auto)
  qed
qed simp

text \<open>Keeping everything up to the first user message keeps where it ends.\<close>

lemma first_user_end_take:
  assumes "take (first_user_message_exclusive_end items) out = take (first_user_message_exclusive_end items) items"
    and "0 < first_user_message_exclusive_end items"
  shows "first_user_message_exclusive_end out = first_user_message_exclusive_end items"
proof -
  obtain pre u post where s: "items = pre @ u # post" "is_user_message u" "\<forall>i \<in> set pre. \<not> is_user_message i"
    "first_user_end_from 0 items = length pre + 1"
    using first_user_end_cases [of 0 items] assms(2) by (auto simp: first_user_message_exclusive_end_def)
  have "first_user_message_exclusive_end items = length pre + 1" using s(4) by (simp add: first_user_message_exclusive_end_def)
  then have "take (length pre + 1) out = take (length pre + 1) (pre @ u # post)" using assms(1) s(1) by metis
  then have "take (length pre + 1) out = pre @ [u]" by simp
  then have "out = pre @ u # drop (length pre + 1) out" by (metis append.assoc append_Cons append_Nil append_take_drop_id)
  moreover have "first_user_end_from k (pre @ u # rest) = k + length pre + 1" for k rest
    using s(2,3) by (induction pre arbitrary: k) auto
  ultimately show ?thesis using s(4) by (metis add_0 first_user_message_exclusive_end_def)
qed

section \<open>What the window keeps\<close>

lemma keep_recent_take: "\<exists>n. keep_recent limit seen xs = take n xs \<and> n \<le> length xs"
proof (induction limit seen xs rule: keep_recent.induct)
  case (2 limit seen i "is")
  consider "is_round i" | "\<not> is_round i" "limit \<le> seen + 1" | "\<not> is_round i" "\<not> limit \<le> seen + 1" by blast
  then show ?case
  proof cases
    case 1
    then obtain n where "keep_recent limit seen is = take n is" "n \<le> length is" using 2(1) by blast
    then show ?thesis using 1 by (intro exI [of _ "Suc n"]) simp
  next
    case 2
    then show ?thesis by (intro exI [of _ 1]) simp
  next
    case 3
    then obtain n where "keep_recent limit (seen + 1) is = take n is" "n \<le> length is" using 2(2) by blast
    then show ?thesis using 3 by (intro exI [of _ "Suc n"]) simp
  qed
qed simp

lemma keep_recent_rounds: "list_all is_round rs \<Longrightarrow> keep_recent limit seen (rs @ xs) = rs @ keep_recent limit seen xs"
  by (induction rs) auto

lemma keep_recent_turn:
  assumes "ends_in S items"
  shows "length S \<le> length (keep_recent limit 0 (rev items))"
proof -
  obtain pre where pre: "items = pre @ S" "turn_shape S \<or> pre = [] \<and> list_all is_round S" using assms by (auto simp: ends_in_def)
  show ?thesis
  proof (cases S)
    case (Cons b rs)
    show ?thesis
    proof (cases "turn_shape S")
      case True
      then have "list_all is_round (rev rs)" "\<not> is_round b" using Cons by (auto simp: turn_shape_def)
      then show ?thesis using keep_recent_rounds [of "rev rs" limit 0 "b # rev pre"] by (simp add: pre(1) Cons)
    next
      case False
      then have "list_all is_round (rev S)" "pre = []" using pre(2) by auto
      then show ?thesis using keep_recent_rounds [of "rev S" limit 0 "[]"] by (simp add: pre(1))
    qed
  qed simp
qed

lemma keep_recent_history_eq:
  assumes "ends_in S items"
  obtains t where "keep_recent_history items limit = (drop t items, t)" "t + length S \<le> length items"
proof -
  obtain n where n: "keep_recent limit 0 (rev items) = take n (rev items)" "n \<le> length items"
    using keep_recent_take [of limit 0 "rev items"] by auto
  then have "rev (keep_recent limit 0 (rev items)) = drop (length items - n) items" by (simp add: take_rev)
  then have "keep_recent_history items limit = (drop (length items - n) items, length items - n)"
    using n(2) by (simp add: keep_recent_history_def Let_def)
  moreover have "length S \<le> n" using keep_recent_turn [OF assms, of limit] n by simp
  ultimately show thesis using that [of "length items - n"] n(2) by simp
qed

lemma recent_window_ends_in:
  assumes "ends_in S items"
  shows "ends_in S (recent_window cfg sub items)"
proof -
  obtain t where t: "keep_recent_history items (cc_recency cfg) = (drop t items, t)" "t + length S \<le> length items"
    by (rule keep_recent_history_eq [OF assms])
  obtain pre where pre: "items = pre @ S" "turn_shape S \<or> pre = [] \<and> list_all is_round S" using assms by (auto simp: ends_in_def)
  have tp: "t \<le> length pre" using t(2) pre(1) by simp
  let ?pe = "first_user_message_exclusive_end items"
  show ?thesis
  proof (cases "sub \<and> 0 < ?pe")
    case False
    then have "recent_window cfg sub items = drop t items" by (auto simp: recent_window_def t(1) Let_def)
    then have "recent_window cfg sub items = drop t pre @ S" using tp by (simp add: pre(1))
    then show ?thesis using pre(2) unfolding ends_in_def by auto
  next
    case True
    then have w: "recent_window cfg sub items = take ?pe items @ drop (max ?pe t) items" by (simp add: recent_window_def t(1) Let_def)
    show ?thesis
    proof (cases "?pe \<le> length pre")
      case le: True
      then have "recent_window cfg sub items = take ?pe pre @ drop (max ?pe t) pre @ S" using tp w by (simp add: pre(1))
      moreover have "pre \<noteq> []" using True le by auto
      ultimately show ?thesis using pre(2) unfolding ends_in_def by (metis append.assoc)
    next
      case False
      then have "recent_window cfg sub items = items" using tp w by (simp add: max_def)
      then show ?thesis using assms by simp
    qed
  qed
qed

lemma first_user_end_le: "first_user_message_exclusive_end items \<le> length items"
  using first_user_end_cases [of 0 items] by (auto simp: first_user_message_exclusive_end_def)

lemma recent_window_take:
  "0 < first_user_message_exclusive_end items \<Longrightarrow>
   take (first_user_message_exclusive_end items) (recent_window cfg True items) = take (first_user_message_exclusive_end items) items"
  using first_user_end_le [of items] by (simp add: recent_window_def case_prod_beta Let_def min_def)

section \<open>What the loops keep\<close>

lemma unload_loop_keeps:
  assumes "unload_loop cp cfg p budget now start (items, files) = Some (Inr items', files')"
    and "P items files"
    and "\<And>is fs idx b m unloaded uid ph src. P is fs \<Longrightarrow> idx \<in> set (middle start is) \<Longrightarrow> is ! idx = Block m \<Longrightarrow> mb_role b = mb_role m \<Longrightarrow>
      announces uid b \<Longrightarrow> unloaded \<noteq> [] \<Longrightarrow> uid \<noteq> [] \<Longrightarrow>
      P (is[idx := Block b]) (append_unloaded_segment_record (cp_hash cp) (bl_session p) uid (role_str (mb_role m)) (map segment_to_dict unloaded) ph src now fs)"
  shows "P items' files'"
proof -
  let ?over = "\<lambda>(items, _). over_budget cp p budget items"
  let ?nxt = "\<lambda>s. Inr (unload_oldest_image_message cp (bl_session p) now (cc_guard cfg) start s)"
  have "shrink_while ?over ?nxt (items, files) = Some (items', files')"
    using assms(1) by (auto simp: unload_loop_def Let_def split: option.splits)
  then have "(\<lambda>(is, fs). P is fs) (items', files')"
  proof (rule unloading.keeps)
    fix u v assume "case u of (is, fs) \<Rightarrow> P is fs" "?nxt u = Inr (Some v)"
    then show "case v of (is, fs) \<Rightarrow> P is fs"
      by (cases u; cases v) (auto elim!: unload_oldest_Some intro!: assms(3))
  qed (use assms(2) in simp)
  then show ?thesis by simp
qed

lemma drop_loop_keeps:
  assumes "drop_loop cp p budget start items = Some (Inr items')" and "P items"
    and "\<And>is idx. P is \<Longrightarrow> idx \<in> set (middle start is) \<Longrightarrow> P (take idx is @ drop (idx + 1) is)"
  shows "P items'"
proof -
  have "shrink_while (still_over cp p budget start) (drop_next start) items = Some items'"
    using assms(1) by (auto simp: drop_loop_def split: option.splits)
  then show ?thesis
    by (rule dropping.keeps) (use assms(2,3) in \<open>auto elim!: drop_next_Some\<close>)
qed

text \<open>An invariant of a history that survives clamping, the window, unloading and dropping.\<close>

lemma compress_history_cases:
  assumes "compress_history cp cfg p budget now files = Some (Inr out, files')"
  obtains clamped where "truncate_large_items cp cfg (if bl_is_sub p then first_user_message_exclusive_end (bl_history p) else 0) (bl_history p) = Inr clamped"
    "out = clamped \<and> files' = files \<and> over_budget cp p budget out = Inr False \<or>
     out = recent_window cfg (bl_is_sub p) clamped \<and> files' = files \<and> over_budget cp p budget out = Inr False \<or>
     trim_history cp cfg p budget now (recent_window cfg (bl_is_sub p) clamped) files = Some (Inr out, files')"
  using assms by (auto simp: compress_history_def Let_def split: sum.splits bool.splits)

lemma trim_history_cases:
  assumes "trim_history cp cfg p budget now items files = Some (Inr out, files')"
  obtains mid start where "start = (if bl_is_sub p then first_user_message_exclusive_end items else 0)"
    "unload_loop cp cfg p budget now start (items, files) = Some (Inr mid, files')" "drop_loop cp p budget start mid = Some (Inr out)"
  using assms by (auto simp: trim_history_def Let_def split: option.splits sum.splits prod.splits)

lemma unload_loop_ends_in:
  assumes "unload_loop cp cfg p budget now start (items, files) = Some (Inr items', files')" and "ends_in S items"
  shows "ends_in S items' \<and> take start items' = take start items"
  by (rule unload_loop_keeps [OF assms(1), where P = "\<lambda>is _. ends_in S is \<and> take start is = take start items"])
    (use assms(2) in \<open>auto dest: middle_ends_in intro: ends_in_update\<close>)

lemma drop_loop_ends_in:
  assumes "drop_loop cp p budget start items = Some (Inr items')" and "ends_in S items"
  shows "ends_in S items' \<and> take start items' = take start items"
proof (rule drop_loop_keeps [OF assms(1), where P = "\<lambda>is. ends_in S is \<and> take start is = take start items"])
  fix "is" idx
  assume e: "ends_in S is \<and> take start is = take start items" and "idx \<in> set (middle start is)"
  then have i: "start \<le> idx" "idx + length S < length is" using middle_ends_in by blast+
  then show "ends_in S (take idx is @ drop (idx + 1) is) \<and> take start (take idx is @ drop (idx + 1) is) = take start items"
    using e ends_in_update(2) [of S "is" idx] by (simp add: min_def)
qed (use assms(2) in simp)

lemma trim_keeps:
  assumes "trim_history cp cfg p budget now items files = Some (Inr out, files')" and "ends_in S items"
  shows "ends_in S out \<and> (bl_is_sub p \<longrightarrow> take (first_user_message_exclusive_end items) out = take (first_user_message_exclusive_end items) items)"
  using assms(1)
proof (rule trim_history_cases)
  fix mid start
  assume s: "start = (if bl_is_sub p then first_user_message_exclusive_end items else 0)"
    and u: "unload_loop cp cfg p budget now start (items, files) = Some (Inr mid, files')" and d: "drop_loop cp p budget start mid = Some (Inr out)"
  from unload_loop_ends_in [OF u assms(2)] drop_loop_ends_in [OF d] s show ?thesis by (cases "bl_is_sub p") auto
qed

lemma truncate_latest:
  assumes "truncate_large_items cp cfg h items = Inr out"
  shows "ends_in (map (compress_item cp cfg) (drop (length items - latest_turn_suffix_length items) items)) out"
proof (rule ends_in_kinds [OF latest_turn_exists])
  let ?k = "length items - latest_turn_suffix_length items"
  show "map is_round out = map is_round items" using truncate_kind [OF assms] by simp
  have len: "length out = length items" by (rule truncate_length [OF assms])
  have "drop ?k out = map (compress_item cp cfg) (drop ?k items)"
    using truncate_nth [OF assms] len by (intro nth_equalityI) auto
  then show "drop (length items - length (drop ?k items)) out = map (compress_item cp cfg) (drop ?k items)" by simp
qed

lemma compress_history_keeps:
  assumes "compress_history cp cfg p budget now files = Some (Inr out, files')"
  shows "ends_in (map (compress_item cp cfg) (drop (length (bl_history p) - latest_turn_suffix_length (bl_history p)) (bl_history p))) out \<and>
    (bl_is_sub p \<longrightarrow> take (first_user_message_exclusive_end (bl_history p)) out =
       map (compress_item cp cfg) (take (first_user_message_exclusive_end (bl_history p)) (bl_history p)))"
  using assms
proof (rule compress_history_cases)
  let ?h = "bl_history p"
  let ?S = "map (compress_item cp cfg) (drop (length ?h - latest_turn_suffix_length ?h) ?h)"
  let ?pe = "first_user_message_exclusive_end ?h"
  fix clamped
  assume c: "truncate_large_items cp cfg (if bl_is_sub p then ?pe else 0) ?h = Inr clamped"
    and o: "out = clamped \<and> files' = files \<and> over_budget cp p budget out = Inr False \<or>
     out = recent_window cfg (bl_is_sub p) clamped \<and> files' = files \<and> over_budget cp p budget out = Inr False \<or>
     trim_history cp cfg p budget now (recent_window cfg (bl_is_sub p) clamped) files = Some (Inr out, files')"
  let ?w = "recent_window cfg (bl_is_sub p) clamped"
  have S: "ends_in ?S clamped" "ends_in ?S ?w" using truncate_latest [OF c] recent_window_ends_in by auto
  have pe: "first_user_message_exclusive_end clamped = ?pe"
    using truncate_kind [OF c] first_user_end_kinds [of clamped ?h 0] by (simp add: first_user_message_exclusive_end_def)
  have head: "take ?pe clamped = map (compress_item cp cfg) (take ?pe ?h)" if "bl_is_sub p"
    using truncate_nth [OF c] truncate_length [OF c] first_user_end_le [of ?h] that by (intro nth_equalityI) auto
  have window: "take ?pe ?w = take ?pe clamped" if "bl_is_sub p"
    using recent_window_take [of clamped cfg] that pe by (cases "?pe = 0") auto
  have window_pe: "first_user_message_exclusive_end ?w = ?pe" if "bl_is_sub p" "0 < ?pe"
    using first_user_end_take [of clamped ?w] window that pe by simp
  show ?thesis
    using o
  proof (elim disjE conjE)
    assume t: "trim_history cp cfg p budget now ?w files = Some (Inr out, files')"
    show ?thesis
      using trim_keeps [OF t S(2)] window_pe window head by (cases "?pe = 0") auto
  qed (use S head window in auto)
qed

section \<open>Properties\<close>

text \<open>C20. The hook always comes back: whatever the tokenizer, the images and the state files are, both
  loops end, since unloading leaves fewer images and dropping leaves fewer entries.\<close>

theorem compression_ends:
  "\<exists>r files'. context_compression cp raw context_budget now p files = Some (r, files')"
proof -
  have u: "\<exists>r. unload_loop cp cfg p budget now start st = Some r" for cfg budget start st
    using unloading.ends [of cp p budget "bl_session p" now "cc_guard cfg" start st] by (auto simp: unload_loop_def Let_def)
  have d: "\<exists>r. drop_loop cp p budget start items = Some r" for budget start items
    using dropping.ends [of cp p budget start items] by (auto simp: drop_loop_def)
  have t: "\<exists>r. trim_history cp cfg p budget now items files = Some r" for cfg budget items
  proof -
    let ?start = "if bl_is_sub p then first_user_message_exclusive_end items else 0"
    obtain r f where "unload_loop cp cfg p budget now ?start (items, files) = Some (r, f)"
      using u [of cfg budget ?start "(items, files)"] by auto
    then show ?thesis
      using d [of budget ?start] by (cases r) (auto simp: trim_history_def Let_def split: option.splits)
  qed
  have "\<exists>r. compress_history cp cfg p budget now files = Some r" for cfg budget
    using t by (auto simp: compress_history_def Let_def split: sum.split bool.split)
  then show ?thesis
    by (fastforce simp: context_compression_def Let_def split: sum.split)
qed

text \<open>C18. Compression never touches what the model is working on: the history that is sent ends in the
  latest turn, entry by entry as it was but for re-encoded images, and in a sub-session it begins with
  everything up to the delegated task.\<close>

theorem compression_keeps_task_and_latest_turn:
  assumes "compress_history cp cfg p budget now files = Some (Inr out, files')"
  shows "drop (length out - latest_turn_suffix_length (bl_history p)) out =
      map (compress_item cp cfg) (drop (length (bl_history p) - latest_turn_suffix_length (bl_history p)) (bl_history p)) \<and>
    latest_turn_suffix_length out = latest_turn_suffix_length (bl_history p) \<and>
    (bl_is_sub p \<longrightarrow> take (first_user_message_exclusive_end (bl_history p)) out =
       map (compress_item cp cfg) (take (first_user_message_exclusive_end (bl_history p)) (bl_history p)))"
proof -
  let ?h = "bl_history p"
  let ?S = "map (compress_item cp cfg) (drop (length ?h - latest_turn_suffix_length ?h) ?h)"
  have e: "ends_in ?S out" using compress_history_keeps [OF assms] by blast
  have "latest_turn_suffix_length ?h \<le> length ?h" using ends_in_length [OF latest_turn_exists [of ?h]] by simp
  then have "length ?S = latest_turn_suffix_length ?h" by simp
  moreover obtain pre where "out = pre @ ?S" using e by (auto simp: ends_in_def)
  ultimately have "drop (length out - latest_turn_suffix_length ?h) out = ?S" by (metis add_diff_cancel_right' append_eq_conv_conj length_append)
  then show ?thesis using compress_history_keeps [OF assms] ends_in_length [OF e] \<open>length ?S = _\<close> by simp
qed

text \<open> No image leaves the prompt without a trace: every entry of the history that is sent is one of the
  clamped entries, or a message that ends in the announcement of an unload id under which the reload
  tool finds a record that was not restored.\<close>

theorem unloaded_images_can_be_reloaded:
  assumes "compress_history cp cfg p budget now files = Some (Inr out, files')" and "i \<in> set out"
    and "truncate_large_items cp cfg (if bl_is_sub p then first_user_message_exclusive_end (bl_history p) else 0) (bl_history p) = Inr clamped"
  shows "i \<in> set clamped \<or> (\<exists>b uid. i = Block b \<and> announces uid b \<and> reloadable (cp_hash cp) (bl_session p) uid files')"
proof -
  let ?ok = "\<lambda>fs i. i \<in> set clamped \<or> (\<exists>b uid. i = Block b \<and> announces uid b \<and> reloadable (cp_hash cp) (bl_session p) uid fs)"
  let ?w = "recent_window cfg (bl_is_sub p) clamped"
  have "set (keep_recent l 0 (rev items)) \<subseteq> set items" for l items
    using keep_recent_take [of l 0 "rev items"] by (metis in_set_takeD set_rev subsetI)
  then have "set (recent_window cfg sub items) \<subseteq> set items" for sub items
    by (auto simp: recent_window_def keep_recent_history_def Let_def dest: in_set_takeD in_set_dropD)
  then have w: "set ?w \<subseteq> set clamped" by blast
  from assms(1) show ?thesis
  proof (rule compress_history_cases)
    fix c
    assume c: "truncate_large_items cp cfg (if bl_is_sub p then first_user_message_exclusive_end (bl_history p) else 0) (bl_history p) = Inr c"
      and o: "out = c \<and> files' = files \<and> over_budget cp p budget out = Inr False \<or>
       out = recent_window cfg (bl_is_sub p) c \<and> files' = files \<and> over_budget cp p budget out = Inr False \<or>
       trim_history cp cfg p budget now (recent_window cfg (bl_is_sub p) c) files = Some (Inr out, files')"
    from c assms(3) have "c = clamped" by simp
    from o show ?thesis
    proof (elim disjE conjE)
      assume "trim_history cp cfg p budget now (recent_window cfg (bl_is_sub p) c) files = Some (Inr out, files')"
      then show ?thesis
      proof (rule trim_history_cases)
        fix mid start
        assume u: "unload_loop cp cfg p budget now start (recent_window cfg (bl_is_sub p) c, files) = Some (Inr mid, files')"
          and d: "drop_loop cp p budget start mid = Some (Inr out)"
        have "\<forall>i \<in> set mid. ?ok files' i"
        proof (rule unload_loop_keeps [OF u, where P = "\<lambda>is fs. \<forall>i \<in> set is. ?ok fs i"])
          fix "is" fs idx b m and unloaded :: "content_segment list" and uid ph src
          assume ok: "\<forall>i \<in> set is. ?ok fs i" and b: "announces uid b" "unloaded \<noteq> []" "uid \<noteq> []"
          let ?fs = "append_unloaded_segment_record (cp_hash cp) (bl_session p) uid (role_str (mb_role m)) (map segment_to_dict unloaded) ph src now fs"
          have "reloadable (cp_hash cp) (bl_session p) uid ?fs" "reloadable (cp_hash cp) (bl_session p) v fs \<Longrightarrow> reloadable (cp_hash cp) (bl_session p) v ?fs" for v
            using append_reloadable [OF b(3), of "map segment_to_dict unloaded"] b(2) by auto
          then show "\<forall>i \<in> set (is[idx := Block b]). ?ok ?fs i"
            using ok b(1) set_update_subset_insert [of "is" idx "Block b"] by blast
        qed (use w \<open>c = clamped\<close> in auto)
        then have "\<forall>i \<in> set out. ?ok files' i"
          by (intro drop_loop_keeps [OF d, where P = "\<lambda>is. \<forall>i \<in> set is. ?ok files' i"]) (auto dest: in_set_takeD in_set_dropD)
        then show ?thesis using assms(2) by blast
      qed
    qed (use assms(2) w \<open>c = clamped\<close> in auto)
  qed
qed

text \<open> Compression gives up only when there is nothing left to take: what is sent fits the budget, or
  between the kept beginning and the latest turn there are only messages that announce unloaded
  images.\<close>

theorem compression_fits_or_is_exhausted:
  assumes "compress_history cp cfg p budget now files = Some (Inr out, files')"
  shows "over_budget cp p budget out = Inr False \<or>
    (\<forall>idx \<in> set (middle (if bl_is_sub p then first_user_message_exclusive_end out else 0) out).
       \<exists>m t. out ! idx = Block m \<and> block_plain_text m = Inr t \<and> mentions_unload t = Inr True)"
  using assms
proof (rule compress_history_cases)
  fix clamped
  assume c: "out = clamped \<and> files' = files \<and> over_budget cp p budget out = Inr False \<or>
     out = recent_window cfg (bl_is_sub p) clamped \<and> files' = files \<and> over_budget cp p budget out = Inr False \<or>
     trim_history cp cfg p budget now (recent_window cfg (bl_is_sub p) clamped) files = Some (Inr out, files')"
  let ?w = "recent_window cfg (bl_is_sub p) clamped"
  from c show ?thesis
  proof (elim disjE conjE)
    assume t: "trim_history cp cfg p budget now ?w files = Some (Inr out, files')"
    then show ?thesis
    proof (rule trim_history_cases)
      fix mid start
      assume s: "start = (if bl_is_sub p then first_user_message_exclusive_end ?w else 0)" and d: "drop_loop cp p budget start mid = Some (Inr out)"
      obtain S where "ends_in S ?w" using latest_turn_exists by blast
      from trim_keeps [OF t this] have start: "start \<le> (if bl_is_sub p then first_user_message_exclusive_end out else 0)"
        using first_user_end_take [of ?w out] by (cases "first_user_message_exclusive_end ?w = 0") (auto simp: s)
      have "shrink_while (still_over cp p budget start) (drop_next start) mid = Some out"
        "shrink_error (still_over cp p budget start) (drop_next start) out = None"
        using d by (auto simp: drop_loop_def split: option.splits)
      from dropping.stops [OF this] show ?thesis
      proof (elim disjE conjE)
        assume "still_over cp p budget start out = Inr False"
        then show ?thesis using start by (auto simp: still_over_def middle_def split: if_splits)
      next
        assume "drop_next start out = Inr None"
        then have f: "droppable_from out (middle start out) = Inr None" by (simp add: drop_next_def res_bind_Inr_iff find_droppable_index_def)
        have "\<exists>m t. out ! idx = Block m \<and> block_plain_text m = Inr t \<and> mentions_unload t = Inr True"
          if "droppable_from out idxs = Inr None" "idx \<in> set idxs" for idx idxs
          using that by (induction idxs) (auto simp: res_bind_Inr_iff split: history_item.splits if_splits)
        from this [OF f] start show ?thesis by (auto simp: middle_def)
      qed
    qed
  qed auto
qed

lemma truncate_text_bound: "0 < limit \<Longrightarrow> int (length (truncate_text t limit)) \<le> limit + 15"
  using py_rstrip_length [of "take (nat limit) t"] by (auto simp: truncate_text_def LF_def)

text \<open> Clamping bounds the old tool rounds: outside the protected parts a result and its arguments have
  at most the configured number of characters and the marker's fifteen, and begin as they did.\<close>

theorem clamped_rounds_are_bounded:
  assumes "truncate_large_items cp cfg head_keep items = Inr out" and "0 < cc_tool_chars cfg"
    and "idx < length items - latest_turn_suffix_length items" and "head_keep \<le> idx" and "items ! idx = Round t"
  shows "\<exists>t'. out ! idx = Round t' \<and> int (length (tr_result t')) \<le> cc_tool_chars cfg + 15 \<and>
    int (length (tr_arguments t')) \<le> cc_tool_chars cfg + 15 \<and> tr_call_id t' = tr_call_id t \<and> tr_name t' = tr_name t"
proof -
  have "clamp_item cfg (Round t) = Inr (out ! idx)"
    using truncate_nth [OF assms(1), of idx] assms(3-5) by (simp add: compress_item_def)
  then have "out ! idx = Round (t\<lparr>tr_result := truncate_text (tr_result t) (cc_tool_chars cfg),
      tr_arguments := truncate_text (tr_arguments t) (cc_tool_chars cfg)\<rparr>)"
    by (simp add: clamp_item_def)
  then show ?thesis using truncate_text_bound [OF assms(2)] by simp
qed

text \<open>Clamping makes a text that is a little too long longer, and cuts the JSON of a call's arguments.\<close>

lemma clamping_lengthens: "length (truncate_text ''abcdefgh'' 7) = 22"
  by (simp add: truncate_text_def LF_def py_rstrip_def is_space_def)

text \<open> The compressed prompt is one the provider accepts: dropping and unloading entries leaves no tool
  answer without its call, and the system messages stay in front.\<close>

theorem compressed_prompt_well_formed:
  assumes "build_output p items = Inr res" and "ho_payload res = Some q"
    and "\<forall>m \<in> set (bl_messages p). cm_role m = ''system'' \<longrightarrow> cm_tool_calls m = None"
  shows "bl_history q = items \<and> wf_chat (bl_messages q) \<and> cm_role (hd (bl_messages q)) = ''system''"
proof -
  obtain prompt extra where e: "extract_system_messages p = (prompt, extra)" by fastforce
  obtain ms where ms: "rebuild_messages p items = Inr ms" and q: "q = p\<lparr>bl_history := items, bl_messages := ms\<rparr>"
    using assms(1,2) by (auto simp: build_output_def res_bind_Inr_iff)
  obtain as where as: "assemble prompt items (bl_user p) = Inr as"
    "ms = (if extra = [] then as else case as of m # rest \<Rightarrow> if cm_role m = ''system'' then m # extra @ rest else extra @ as | [] \<Rightarrow> extra @ as)"
    using ms by (auto simp: rebuild_messages_def e Let_def res_bind_Inr_iff)
  obtain rest where rest: "as = plain_message ''system'' (JStr prompt) # rest" "wf_chat rest"
  proof -
    have "wf_chat (plain_message ''system'' c # xs) = wf_chat xs" for c xs
      using wf_plain [of ROLE_SYSTEM] by simp
    then show thesis using that as(1) assemble_entries_wf [of items] wf_snoc
      by (auto simp: assemble_def res_bind_Inr_iff split: option.splits)
  qed
  have "\<forall>m \<in> set extra. cm_role m = ''system'' \<and> cm_tool_calls m = None"
    using e assms(3) by (auto simp: extract_system_messages_def dest!: set_takeWhileD split: list.splits if_splits)
  then have "wf_chat (extra @ rest)" using rest(2) by (induction extra) (auto simp: wf_chat.simps(2))
  then show ?thesis using rest as(2) by (auto simp: q plain_message_def wf_chat.simps(2))
qed

section \<open>Witnesses\<close>

definition demo_cp :: compressor where
  "demo_cp = \<lparr>cp_hash = demo_hashing, cp_pillow = False, cp_reencode = \<lambda>_ _ _. None, cp_b64decode = \<lambda>_. None, cp_b64encode = id, cp_encode = None\<rparr>"

definition demo_cfg :: compression_config where
  "demo_cfg = \<lparr>cc_recency = 6, cc_tool_chars = 4, cc_assistant_chars = 1200, cc_max_edge = 768, cc_quality = 55, cc_png = 9, cc_guard = 6\<rparr>"

definition demo_history :: "history_item list" where
  "demo_history = [Block \<lparr>mb_role = ROLE_USER, mb_body = SegmentsBody [demo_image]\<rparr>,
     Round \<lparr>tr_name = ''t'', tr_call_id = ''c'', tr_arguments = ''{}'', tr_result = ''abcdefgh'', tr_success = True\<rparr>,
     Block \<lparr>mb_role = ROLE_ASSISTANT, mb_body = TextBody (JStr ''ok'')\<rparr>]"

definition demo_prompt :: before_llm_payload where
  "demo_prompt = \<lparr>bl_messages = [], bl_history = demo_history, bl_user = None, bl_session = ''s'', bl_task_type = ''general'',
     bl_is_sub = False, bl_tools = [], bl_budget = Some 1, bl_force = False, bl_reason = None\<rparr>"

definition demo_clamped :: "history_item list" where
  "demo_clamped = [Block \<lparr>mb_role = ROLE_USER, mb_body = SegmentsBody [demo_image]\<rparr>,
     Round \<lparr>tr_name = ''t'', tr_call_id = ''c'', tr_arguments = ''{}'', tr_result = ''abcd'' @ LF @ ''...[truncated]'', tr_success = True\<rparr>,
     Block \<lparr>mb_role = ROLE_ASSISTANT, mb_body = TextBody (JStr ''ok'')\<rparr>]"

lemma demo_truncated: "truncate_large_items demo_cp demo_cfg 0 demo_history = Inr demo_clamped"
  by code_simp

lemma demo_compressed:
  obtains out files' where "compress_history demo_cp demo_cfg demo_prompt 1 7 [] = Some (Inr out, files')" and "length out = 2"
    and "hd out \<notin> set demo_clamped"
proof -
  have "case compress_history demo_cp demo_cfg demo_prompt 1 7 [] of
      Some (Inr out, files') \<Rightarrow> length out = 2 \<and> hd out \<notin> set demo_clamped | _ \<Rightarrow> False"
    by code_simp
  then show thesis using that by (auto split: option.splits sum.splits prod.splits)
qed

theorem compression_keeps_task_and_latest_turn_witness:
  "\<exists>out files'. compress_history demo_cp demo_cfg demo_prompt 1 7 [] = Some (Inr out, files') \<and>
     drop 1 out = [Block \<lparr>mb_role = ROLE_ASSISTANT, mb_body = TextBody (JStr ''ok'')\<rparr>]"
proof -
  obtain out files' where o: "compress_history demo_cp demo_cfg demo_prompt 1 7 [] = Some (Inr out, files')" "length out = 2"
    by (rule demo_compressed)
  have "latest_turn_suffix_length (bl_history demo_prompt) = 1" by code_simp
  moreover have "map (compress_item demo_cp demo_cfg) (drop (length (bl_history demo_prompt) - 1) (bl_history demo_prompt)) =
      [Block \<lparr>mb_role = ROLE_ASSISTANT, mb_body = TextBody (JStr ''ok'')\<rparr>]" by code_simp
  ultimately show ?thesis using compression_keeps_task_and_latest_turn [OF o(1)] o by (intro exI conjI) auto
qed

theorem unloaded_images_can_be_reloaded_witness:
  "\<exists>out files' uid b. compress_history demo_cp demo_cfg demo_prompt 1 7 [] = Some (Inr out, files') \<and> hd out = Block b \<and>
     announces uid b \<and> reloadable demo_hashing ''s'' uid files'"
proof -
  obtain out files' where o: "compress_history demo_cp demo_cfg demo_prompt 1 7 [] = Some (Inr out, files')" "length out = 2"
    "hd out \<notin> set demo_clamped" by (rule demo_compressed)
  have i: "hd out \<in> set out" using o(2) by (cases out) auto
  have t: "truncate_large_items demo_cp demo_cfg (if bl_is_sub demo_prompt then first_user_message_exclusive_end (bl_history demo_prompt) else 0)
      (bl_history demo_prompt) = Inr demo_clamped"
    using demo_truncated by (simp add: demo_prompt_def)
  have "cp_hash demo_cp = demo_hashing" "bl_session demo_prompt = ''s''" by (simp_all add: demo_cp_def demo_prompt_def)
  then show ?thesis using unloaded_images_can_be_reloaded [OF o(1) i t] o(1,3) by auto
qed

theorem compression_fits_or_is_exhausted_witness:
  "\<exists>out files'. compress_history demo_cp demo_cfg demo_prompt 1 7 [] = Some (Inr out, files') \<and>
     (over_budget demo_cp demo_prompt 1 out = Inr False \<or>
      (\<forall>idx \<in> set (middle 0 out). \<exists>m t. out ! idx = Block m \<and> block_plain_text m = Inr t \<and> mentions_unload t = Inr True))"
proof -
  obtain out files' where o: "compress_history demo_cp demo_cfg demo_prompt 1 7 [] = Some (Inr out, files')"
    by (rule demo_compressed)
  have "\<not> bl_is_sub demo_prompt" by (simp add: demo_prompt_def)
  then show ?thesis using compression_fits_or_is_exhausted [OF o] o by (intro exI conjI) simp_all
qed

theorem clamped_rounds_are_bounded_witness:
  "\<exists>t'. demo_clamped ! 1 = Round t' \<and> length (tr_result t') \<le> 19"
proof -
  have "1 < length demo_history - latest_turn_suffix_length demo_history" "0 < cc_tool_chars demo_cfg" by code_simp+
  moreover have "demo_history ! 1 = Round \<lparr>tr_name = ''t'', tr_call_id = ''c'', tr_arguments = ''{}'', tr_result = ''abcdefgh'', tr_success = True\<rparr>"
    by (simp add: demo_history_def)
  ultimately show ?thesis
    using clamped_rounds_are_bounded [OF demo_truncated, of 1] by (auto simp: demo_cfg_def)
qed

theorem compressed_prompt_well_formed_witness:
  "\<exists>res q. build_output demo_prompt demo_clamped = Inr res \<and> ho_payload res = Some q \<and> wf_chat (bl_messages q)"
proof -
  have "case build_output demo_prompt demo_clamped of Inr res \<Rightarrow> ho_payload res \<noteq> None | Inl _ \<Rightarrow> False" by code_simp
  then obtain res q where r: "build_output demo_prompt demo_clamped = Inr res" "ho_payload res = Some q"
    by (auto split: sum.splits)
  then show ?thesis using compressed_prompt_well_formed [OF r] by (auto simp: demo_prompt_def)
qed

end
