(* ===== verification/Frames.thy ===== *)
theory Frames
  imports History
begin

text \<open>
  The bridge protocol between the gateway process and the business process
  (\<^verbatim>\<open>core/gateway_protocol/models.py\<close>): the frame, the typed payloads it carries and how the receiving
  side reads them (the parsers of \<^verbatim>\<open>models.py\<close> and, for the payloads that have none, the conversions in
  \<open>UserGateway._handle_frame\<close>); and the envelopes of the control channel (\<^verbatim>\<open>control_envelope.py\<close>).

  A frame on the wire is its JSON value. Fresh identifiers and the current time are given by the caller.
\<close>

section \<open>Reading loosely typed values\<close>

text \<open>\<open>str(payload.get(k) or "")\<close>, \<open>int(payload.get(k) or 0)\<close>, and the variants with \<open>None\<close> and dictionaries.\<close>

definition str_field :: "py_runtime \<Rightarrow> json_object \<Rightarrow> string \<Rightarrow> string" where
  "str_field rt d k = py_str rt (py_or (obj_get d k) (JStr []))"

definition int_field :: "py_runtime \<Rightarrow> json_object \<Rightarrow> string \<Rightarrow> int res" where
  "int_field rt d k = py_int rt (py_or (obj_get d k) (JInt 0))"

definition opt_str_field :: "py_runtime \<Rightarrow> json_object \<Rightarrow> string \<Rightarrow> string option" where
  "opt_str_field rt d k = (if obj_get d k = JNull then None else Some (py_str rt (obj_get d k)))"

definition dict_field :: "json_object \<Rightarrow> string \<Rightarrow> json_object" where
  "dict_field d k = dict_of (obj_get d k)"

definition opt_dict_field :: "json_object \<Rightarrow> string \<Rightarrow> json_object option" where
  "opt_dict_field d k = (case obj_get d k of JDict e \<Rightarrow> Some e | _ \<Rightarrow> None)"

lemma str_field_JStr [simp]: "obj_get d k = JStr s \<Longrightarrow> str_field rt d k = s"
  by (cases s) (simp_all add: str_field_def py_or_def)

lemma int_field_JInt [simp]: "obj_get d k = JInt i \<Longrightarrow> int_field rt d k = Inr i"
  by (simp add: int_field_def py_or_def)

lemma opt_str_field_json_opt [simp]: "obj_get d k = json_opt JStr v \<Longrightarrow> opt_str_field rt d k = v"
  by (cases v) (simp_all add: opt_str_field_def)

lemma dict_field_JDict [simp]: "obj_get d k = JDict e \<Longrightarrow> dict_field d k = e"
  by (simp add: dict_field_def)

lemma opt_dict_field_json_opt [simp]: "obj_get d k = json_opt JDict v \<Longrightarrow> opt_dict_field d k = v"
  by (cases v) (simp_all add: opt_dict_field_def)

section \<open>Frames\<close>

definition PROTOCOL_VERSION :: int where
  "PROTOCOL_VERSION = 2"

record bridge_frame =
  fr_type :: string
  fr_payload :: json_object
  fr_id :: string
  fr_ts :: int
  fr_v :: int
  fr_trace :: "json_object option"

definition frame_to_dict :: "bridge_frame \<Rightarrow> json_object" where
  "frame_to_dict f =
     [(''v'', JInt (fr_v f)), (''type'', JStr (fr_type f)), (''id'', JStr (fr_id f)), (''ts_ms'', JInt (fr_ts f)),
      (''payload'', JDict (fr_payload f))] @ (case fr_trace f of None \<Rightarrow> [] | Some t \<Rightarrow> [(''trace'', JDict t)])"

definition frame_from_dict :: "py_runtime \<Rightarrow> string \<Rightarrow> int \<Rightarrow> json_object \<Rightarrow> bridge_frame res" where
  "frame_from_dict rt fresh now d =
     res_bind (py_int rt (py_or (obj_get d ''v'') (JInt PROTOCOL_VERSION))) (\<lambda>v.
     res_bind (py_int rt (py_or (obj_get d ''ts_ms'') (JInt now))) (\<lambda>ts.
       Inr \<lparr>fr_type = str_field rt d ''type'', fr_payload = dict_field d ''payload'',
            fr_id = py_str rt (py_or (obj_get d ''id'') (JStr fresh)), fr_ts = ts, fr_v = v,
            fr_trace = opt_dict_field d ''trace''\<rparr>))"

text \<open>A frame the code itself builds: a version, an id and a time are never falsy.\<close>

definition frame_ok :: "bridge_frame \<Rightarrow> bool" where
  "frame_ok f \<longleftrightarrow> fr_v f \<noteq> 0 \<and> fr_id f \<noteq> [] \<and> fr_ts f \<noteq> 0"

interpretation frame_codec: codec frame_to_dict "frame_from_dict rt fresh now" frame_ok for rt fresh now
proof
  fix f assume ok: "frame_ok f"
  have "opt_dict_field (frame_to_dict f) ''trace'' = fr_trace f"
    by (cases "fr_trace f") (simp_all add: frame_to_dict_def opt_dict_field_def)
  moreover have "str_field rt (frame_to_dict f) ''type'' = fr_type f" "dict_field (frame_to_dict f) ''payload'' = fr_payload f"
    by (simp_all add: frame_to_dict_def)
  ultimately show "frame_from_dict rt fresh now (frame_to_dict f) = Inr f"
    using ok by (simp add: frame_from_dict_def frame_ok_def) (simp add: frame_to_dict_def py_or_def)
qed

section \<open>Session payloads\<close>

record adapter_descriptor =
  ad_key :: string
  ad_kind :: string
  ad_version :: string

definition adapter_to_dict :: "adapter_descriptor \<Rightarrow> json_object" where
  "adapter_to_dict a = [(''adapter_key'', JStr (ad_key a)), (''kind'', JStr (ad_kind a)), (''version'', JStr (ad_version a))]"

record hello_payload =
  hl_gateway :: string
  hl_token :: string
  hl_adapters :: "adapter_descriptor list"
  hl_supports :: json_object

definition hello_to_dict :: "hello_payload \<Rightarrow> json_object" where
  "hello_to_dict h = [(''gateway_id'', JStr (hl_gateway h)), (''token'', JStr (hl_token h)),
     (''adapters'', JList (map (JDict \<circ> adapter_to_dict) (hl_adapters h))), (''supports'', JDict (hl_supports h))]"

record hello_ack =
  ha_ok :: bool
  ha_connection :: string
  ha_limits :: json_object
  ha_error :: "json_object option"

definition hello_ack_to_dict :: "hello_ack \<Rightarrow> json_object" where
  "hello_ack_to_dict h = [(''ok'', JBool (ha_ok h)), (''connection_id'', JStr (ha_connection h)), (''limits'', JDict (ha_limits h))] @
     (case ha_error h of None \<Rightarrow> [] | Some e \<Rightarrow> [(''error'', JDict e)])"

record resume_payload =
  rs_gateway :: string
  rs_last_inbound :: "string option"
  rs_last_outbound :: "string option"

definition resume_to_dict :: "resume_payload \<Rightarrow> json_object" where
  "resume_to_dict r = [(''gateway_id'', JStr (rs_gateway r)), (''last_ack_inbound_id'', json_opt JStr (rs_last_inbound r)),
     (''last_ack_outbound_id'', json_opt JStr (rs_last_outbound r))]"

record session_open =
  so_adapter :: string
  so_platform :: string
  so_title :: "string option"
  so_meta :: json_object
  so_session :: "string option"

definition session_open_to_dict :: "session_open \<Rightarrow> json_object" where
  "session_open_to_dict s = [(''adapter_key'', JStr (so_adapter s)), (''platform'', JStr (so_platform s)), (''title'', json_opt JStr (so_title s)),
     (''meta'', JDict (so_meta s)), (''session_id'', json_opt JStr (so_session s))]"

definition session_open_from_payload :: "py_runtime \<Rightarrow> json_object \<Rightarrow> session_open" where
  "session_open_from_payload rt d =
     \<lparr>so_adapter = str_field rt d ''adapter_key'', so_platform = py_str rt (py_or (obj_get d ''platform'') (JStr ''gateway'')),
      so_title = opt_str_field rt d ''title'', so_meta = dict_field d ''meta'', so_session = opt_str_field rt d ''session_id''\<rparr>"

record session_open_ack =
  sa_ok :: bool
  sa_session :: "string option"
  sa_error :: "json_object option"

definition session_open_ack_to_dict :: "session_open_ack \<Rightarrow> json_object" where
  "session_open_ack_to_dict a = [(''ok'', JBool (sa_ok a)), (''session_id'', json_opt JStr (sa_session a))] @
     (case sa_error a of None \<Rightarrow> [] | Some e \<Rightarrow> [(''error'', JDict e)])"

record ack_payload =
  ak_ref_type :: string
  ak_ref_id :: string
  ak_status :: string
  ak_error :: "json_object option"

definition ack_to_dict :: "ack_payload \<Rightarrow> json_object" where
  "ack_to_dict a = [(''ref_type'', JStr (ak_ref_type a)), (''ref_id'', JStr (ak_ref_id a)), (''status'', JStr (ak_status a))] @
     (case ak_error a of None \<Rightarrow> [] | Some e \<Rightarrow> [(''error'', JDict e)])"

definition error_to_dict :: "string \<Rightarrow> string \<Rightarrow> json_object option \<Rightarrow> json_object" where
  "error_to_dict code message details = [(''code'', JStr code), (''message'', JStr message)] @
     (case details of None \<Rightarrow> [] | Some d \<Rightarrow> [(''details'', JDict d)])"

section \<open>Messages\<close>

record sender_ref =
  sr_platform :: "string option"
  sr_user :: "string option"
  sr_group :: "string option"
  sr_self :: "string option"

definition sender_to_dict :: "sender_ref \<Rightarrow> json_object" where
  "sender_to_dict s =
     (let item = (\<lambda>k v. case v of None \<Rightarrow> [] | Some x \<Rightarrow> [(k, JStr x)])
      in item ''platform'' (sr_platform s) @ item ''user_id'' (sr_user s) @ item ''group_id'' (sr_group s) @ item ''self_id'' (sr_self s))"

definition sender_from_dict :: "py_runtime \<Rightarrow> json \<Rightarrow> sender_ref option" where
  "sender_from_dict rt v = (case v of
      JDict d \<Rightarrow> Some \<lparr>sr_platform = opt_str_field rt d ''platform'', sr_user = opt_str_field rt d ''user_id'',
                     sr_group = opt_str_field rt d ''group_id'', sr_self = opt_str_field rt d ''self_id''\<rparr>
    | _ \<Rightarrow> None)"

record inbound_message =
  in_session :: string
  in_adapter :: string
  in_segments :: "content_segment list"
  in_trigger :: bool
  in_sender :: "sender_ref option"
  in_task_type :: "string option"
  in_groups :: "string list option"
  in_meta :: json_object

definition inbound_to_payload :: "inbound_message \<Rightarrow> json_object" where
  "inbound_to_payload m =
     [(''session_id'', JStr (in_session m)), (''adapter_key'', JStr (in_adapter m)),
      (''sender'', json_opt (JDict \<circ> sender_to_dict) (in_sender m)),
      (''segments'', JList (map (\<lambda>s. JDict (segment_to_dict s)) (in_segments m))),
      (''trigger_turn'', JBool (in_trigger m)), (''task_type'', json_opt JStr (in_task_type m)),
      (''enabled_groups'', json_opt (\<lambda>gs. JList (map JStr gs)) (in_groups m)), (''meta'', JDict (in_meta m))]"

definition inbound_from_payload :: "py_runtime \<Rightarrow> json_object \<Rightarrow> inbound_message res" where
  "inbound_from_payload rt d =
     (let raw = (case obj_get d ''segments'' of JList vs \<Rightarrow> vs | _ \<Rightarrow> []);
          typed = filter (\<lambda>v. is_dict v \<and> truthy (obj_get (dict_of v) ''type'')) raw
      in res_bind (res_map (segment_from_dict rt) (map dict_of typed)) (\<lambda>segs. Inr
           \<lparr>in_session = str_field rt d ''session_id'', in_adapter = str_field rt d ''adapter_key'', in_segments = segs,
            in_trigger = truthy (obj_get d ''trigger_turn''), in_sender = sender_from_dict rt (obj_get d ''sender''),
            in_task_type = (case obj_get d ''task_type'' of JStr t \<Rightarrow> Some (py_strip t) | _ \<Rightarrow> None),
            in_groups = (case obj_get d ''enabled_groups'' of JList gs \<Rightarrow> Some (map the_str (filter nonblank gs)) | _ \<Rightarrow> None),
            in_meta = dict_field d ''meta''\<rparr>))"

record outbound_message =
  ob_session :: string
  ob_kind :: string
  ob_content :: json_object
  ob_meta :: json_object
  ob_adapter :: "string option"
  ob_sender :: "json_object option"

definition outbound_to_payload :: "outbound_message \<Rightarrow> json_object" where
  "outbound_to_payload m =
     [(''session_id'', JStr (ob_session m)), (''kind'', JStr (ob_kind m)), (''content'', JDict (ob_content m)), (''meta'', JDict (ob_meta m))] @
     (case ob_adapter m of None \<Rightarrow> [] | Some a \<Rightarrow> [(''adapter_key'', JStr a)]) @
     (case ob_sender m of None \<Rightarrow> [] | Some s \<Rightarrow> [(''sender_ref'', JDict s)])"

definition outbound_from_payload :: "py_runtime \<Rightarrow> json_object \<Rightarrow> outbound_message" where
  "outbound_from_payload rt d =
     \<lparr>ob_session = str_field rt d ''session_id'', ob_kind = str_field rt d ''kind'', ob_content = dict_field d ''content'',
      ob_meta = dict_field d ''meta'',
      ob_adapter = (if nonblank (obj_get d ''adapter_key'') then Some (py_strip (the_str (obj_get d ''adapter_key''))) else None),
      ob_sender = opt_dict_field d ''sender_ref''\<rparr>"

definition outbound_text :: "string \<Rightarrow> string \<Rightarrow> outbound_message" where
  "outbound_text sid t = \<lparr>ob_session = sid, ob_kind = ''text'', ob_content = [(''text'', JStr t)], ob_meta = [], ob_adapter = None, ob_sender = None\<rparr>"

definition outbound_file :: "string \<Rightarrow> string \<Rightarrow> outbound_message" where
  "outbound_file sid fid = \<lparr>ob_session = sid, ob_kind = ''file'', ob_content = [(''file_id'', JStr fid)], ob_meta = [], ob_adapter = None, ob_sender = None\<rparr>"

definition outbound_event :: "string \<Rightarrow> string \<Rightarrow> json_object \<Rightarrow> outbound_message" where
  "outbound_event sid et content = \<lparr>ob_session = sid, ob_kind = ''event'', ob_content = dset ''event_type'' (JStr et) content,
     ob_meta = [], ob_adapter = None, ob_sender = None\<rparr>"

section \<open>File transfer payloads\<close>

record file_put_init =
  fi_session :: string
  fi_adapter :: string
  fi_message :: string
  fi_filename :: string
  fi_size :: int
  fi_sha :: string
  fi_mime :: "string option"

definition put_init_to_payload :: "file_put_init \<Rightarrow> json_object" where
  "put_init_to_payload p = [(''session_id'', JStr (fi_session p)), (''adapter_key'', JStr (fi_adapter p)), (''message_id'', JStr (fi_message p)),
     (''filename'', JStr (fi_filename p)), (''mime_type'', json_opt JStr (fi_mime p)), (''size_bytes'', JInt (fi_size p)), (''sha256_hex'', JStr (fi_sha p))]"

definition put_init_from_payload :: "py_runtime \<Rightarrow> json_object \<Rightarrow> file_put_init res" where
  "put_init_from_payload rt d =
     res_bind (int_field rt d ''size_bytes'') (\<lambda>size. Inr
       \<lparr>fi_session = str_field rt d ''session_id'', fi_adapter = str_field rt d ''adapter_key'', fi_message = str_field rt d ''message_id'',
        fi_filename = str_field rt d ''filename'', fi_size = size, fi_sha = str_field rt d ''sha256_hex'', fi_mime = opt_str_field rt d ''mime_type''\<rparr>)"

record file_put_chunk =
  fc_upload :: string
  fc_seq :: int
  fc_data :: string
  fc_bytes :: int

definition put_chunk_to_payload :: "file_put_chunk \<Rightarrow> json_object" where
  "put_chunk_to_payload p = [(''upload_id'', JStr (fc_upload p)), (''seq'', JInt (fc_seq p)), (''data_b64'', JStr (fc_data p)), (''chunk_bytes'', JInt (fc_bytes p))]"

definition put_chunk_from_payload :: "py_runtime \<Rightarrow> json_object \<Rightarrow> file_put_chunk res" where
  "put_chunk_from_payload rt d =
     res_bind (int_field rt d ''seq'') (\<lambda>q. res_bind (int_field rt d ''chunk_bytes'') (\<lambda>n. Inr
       \<lparr>fc_upload = str_field rt d ''upload_id'', fc_seq = q, fc_data = str_field rt d ''data_b64'', fc_bytes = n\<rparr>))"

record file_put_commit =
  fm_upload :: string
  fm_total :: int

definition put_commit_to_payload :: "file_put_commit \<Rightarrow> json_object" where
  "put_commit_to_payload p = [(''upload_id'', JStr (fm_upload p)), (''total_chunks'', JInt (fm_total p))]"

definition put_commit_from_payload :: "py_runtime \<Rightarrow> json_object \<Rightarrow> file_put_commit res" where
  "put_commit_from_payload rt d =
     res_bind (int_field rt d ''total_chunks'') (\<lambda>n. Inr \<lparr>fm_upload = str_field rt d ''upload_id'', fm_total = n\<rparr>)"

record file_put_ack =
  fa_status :: string
  fa_upload :: string
  fa_seq :: "int option"
  fa_file :: "string option"
  fa_error :: "json_object option"

definition put_ack_to_payload :: "file_put_ack \<Rightarrow> json_object" where
  "put_ack_to_payload a = [(''status'', JStr (fa_status a)), (''upload_id'', JStr (fa_upload a)), (''seq'', json_opt JInt (fa_seq a)),
     (''file_id'', json_opt JStr (fa_file a)), (''error'', json_opt JDict (fa_error a))]"

record file_get_request =
  fg_session :: string
  fg_file :: string
  fg_request :: string

definition get_request_to_payload :: "file_get_request \<Rightarrow> json_object" where
  "get_request_to_payload r = [(''session_id'', JStr (fg_session r)), (''file_id'', JStr (fg_file r)), (''request_id'', JStr (fg_request r))]"

definition get_request_from_payload :: "py_runtime \<Rightarrow> string \<Rightarrow> json_object \<Rightarrow> file_get_request" where
  "get_request_from_payload rt frame_id d = \<lparr>fg_session = str_field rt d ''session_id'', fg_file = str_field rt d ''file_id'',
     fg_request = py_str rt (py_or (obj_get d ''request_id'') (JStr frame_id))\<rparr>"

record file_get_chunk =
  gc_request :: string
  gc_file :: string
  gc_seq :: int
  gc_data :: string
  gc_bytes :: int
  gc_last :: bool
  gc_filename :: "string option"
  gc_mime :: "string option"

definition get_chunk_to_payload :: "file_get_chunk \<Rightarrow> json_object" where
  "get_chunk_to_payload c = [(''request_id'', JStr (gc_request c)), (''file_id'', JStr (gc_file c)), (''seq'', JInt (gc_seq c)),
     (''data_b64'', JStr (gc_data c)), (''chunk_bytes'', JInt (gc_bytes c)), (''is_last'', JBool (gc_last c)),
     (''filename'', json_opt JStr (gc_filename c)), (''mime_type'', json_opt JStr (gc_mime c))]"

record file_get_ack =
  ga_request :: string
  ga_file :: string
  ga_status :: string
  ga_error :: "json_object option"

definition get_ack_to_payload :: "file_get_ack \<Rightarrow> json_object" where
  "get_ack_to_payload a = [(''request_id'', JStr (ga_request a)), (''file_id'', JStr (ga_file a)), (''status'', JStr (ga_status a)),
     (''error'', json_opt JDict (ga_error a))]"

section \<open>Control envelopes\<close>

definition drop_none :: "json_object \<Rightarrow> json_object" where
  "drop_none d = filter (\<lambda>(k, v). v \<noteq> JNull) d"

text \<open>\<open>json.loads\<close> of a tool's arguments is \<open>loads\<close>, \<open>None\<close> when it raises.\<close>

definition parse_tool_arguments_json :: "(string \<Rightarrow> json option) \<Rightarrow> string \<Rightarrow> json_object" where
  "parse_tool_arguments_json loads arguments =
     (let raw = py_strip arguments
      in if raw = [] then []
         else case loads raw of
                None \<Rightarrow> [(''_raw'', JStr raw)]
              | Some (JDict d) \<Rightarrow> d
              | Some v \<Rightarrow> [(''_value'', v)])"

definition tool_call_content :: "string \<Rightarrow> string \<Rightarrow> json_object \<Rightarrow> json_object" where
  "tool_call_content call_id name arguments = [(''tool_call_id'', JStr call_id), (''tool_name'', JStr name), (''arguments'', JDict arguments)]"

record tool_result_envelope =
  te_call_id :: string
  te_name :: string
  te_ok :: bool
  te_result :: json
  te_error :: "string option"
  te_duration :: "int option"

definition tool_result_content :: "tool_result_envelope \<Rightarrow> json_object" where
  "tool_result_content e = drop_none [(''tool_call_id'', JStr (te_call_id e)), (''tool_name'', JStr (te_name e)), (''ok'', JBool (te_ok e)),
     (''result'', te_result e), (''error_message'', json_opt JStr (te_error e)), (''duration_ms'', json_opt JInt (te_duration e))]"

record timer_tick =
  tt_job :: string
  tt_mode :: string
  tt_owner :: string
  tt_creator :: string
  tt_run :: int
  tt_payload :: "string option"
  tt_next :: "int option"

definition timer_tick_content :: "timer_tick \<Rightarrow> json_object" where
  "timer_tick_content t = drop_none [(''job_id'', JStr (tt_job t)), (''mode'', JStr (tt_mode t)), (''owner_session_id'', JStr (tt_owner t)),
     (''creator_session_id'', JStr (tt_creator t)), (''run_index'', JInt (tt_run t)), (''payload'', json_opt JStr (tt_payload t)),
     (''next_fire_at_ms'', json_opt JInt (tt_next t))]"

record subagent_task =
  sk_task :: string
  sk_parent :: string
  sk_label :: string
  sk_status :: string
  sk_updated :: int
  sk_display :: "string option"
  sk_task_type :: "string option"
  sk_instruction :: "string option"
  sk_child :: "string option"
  sk_detail :: "string option"
  sk_events :: "int option"
  sk_last_event :: "int option"

definition subagent_task_to_dict :: "subagent_task \<Rightarrow> json_object" where
  "subagent_task_to_dict t = drop_none [(''task_id'', JStr (sk_task t)), (''parent_session_id'', JStr (sk_parent t)), (''label'', JStr (sk_label t)),
     (''status'', JStr (sk_status t)), (''updated_at_ms'', JInt (sk_updated t)), (''status_display'', json_opt JStr (sk_display t)),
     (''task_type'', json_opt JStr (sk_task_type t)), (''instruction'', json_opt JStr (sk_instruction t)),
     (''child_session_id'', json_opt JStr (sk_child t)), (''detail'', json_opt JStr (sk_detail t)),
     (''event_count'', json_opt JInt (sk_events t)), (''last_event_at_ms'', json_opt JInt (sk_last_event t))]"

definition heartbeat_to_dict :: "string \<Rightarrow> int \<Rightarrow> string option \<Rightarrow> json_object" where
  "heartbeat_to_dict status time message = drop_none [(''status'', JStr status), (''server_time_ms'', JInt time), (''message'', json_opt JStr message)]"

definition telemetry_to_dict :: "json_object \<Rightarrow> bool option \<Rightarrow> json_object" where
  "telemetry_to_dict heartbeat reins = drop_none [(''heartbeat'', JDict heartbeat), (''reins_enabled'', json_opt JBool reins)]"

definition SYSTEM_ENV_WHITELIST :: "string list" where
  "SYSTEM_ENV_WHITELIST = map (\<lambda>k. ''FAIRYCLAW_'' @ k)
     [''API_TOKEN'', ''DATABASE_URL'', ''DATA_DIR'', ''HOST'', ''PORT'', ''LLM_ENDPOINTS_CONFIG_PATH'', ''FILESYSTEM_ROOT_DIR'',
      ''LOG_LEVEL'', ''LOG_FILE_PATH'', ''LOG_TO_STDOUT'', ''CAPABILITIES_DIR'', ''EVENT_BUS_WORKER_COUNT'',
      ''PLANNER_HEARTBEAT_SECONDS'', ''PLANNER_WAKEUP_DEBOUNCE_MS'', ''ROUTER_PROFILE_NAME'', ''HOOK_DEFAULT_TIMEOUT_MS'',
      ''ENABLE_HOOK_RUNTIME'', ''ENABLE_RAG_PIPELINE'', ''REINS_ENABLED'', ''REINS_BUDGET_DAILY_USD'', ''REINS_ON_EXCEED'']"

definition validate_system_env_slice :: "py_runtime \<Rightarrow> json_object \<Rightarrow> (string, string) dict" where
  "validate_system_env_slice rt d =
     foldl (\<lambda>out (k, v). if k \<notin> set SYSTEM_ENV_WHITELIST \<or> v = JNull then out else dset k (py_str rt v) out) [] d"

section \<open>Round trips\<close>

text \<open>A message as the adapters build it: group names are not blank, the task type has no outer space.\<close>

definition inbound_ok :: "inbound_message \<Rightarrow> bool" where
  "inbound_ok m \<longleftrightarrow> (case in_task_type m of None \<Rightarrow> True | Some t \<Rightarrow> py_strip t = t) \<and>
     (case in_groups m of None \<Rightarrow> True | Some gs \<Rightarrow> list_all (\<lambda>g. py_strip g \<noteq> []) gs)"

definition outbound_ok :: "outbound_message \<Rightarrow> bool" where
  "outbound_ok m \<longleftrightarrow> (case ob_adapter m of None \<Rightarrow> True | Some a \<Rightarrow> a \<noteq> [] \<and> py_strip a = a)"

lemma sender_round_trip: "sender_from_dict rt (json_opt (JDict \<circ> sender_to_dict) s) = s"
proof (cases s)
  case (Some r)
  have "opt_str_field rt (sender_to_dict r) ''platform'' = sr_platform r" "opt_str_field rt (sender_to_dict r) ''user_id'' = sr_user r"
    "opt_str_field rt (sender_to_dict r) ''group_id'' = sr_group r" "opt_str_field rt (sender_to_dict r) ''self_id'' = sr_self r"
    by (auto simp: sender_to_dict_def opt_str_field_def split: option.split)
  then show ?thesis by (simp add: Some sender_from_dict_def)
qed (simp add: sender_from_dict_def)

lemma typed_segments: "filter (\<lambda>v. is_dict v \<and> truthy (obj_get (dict_of v) ''type'')) (map (\<lambda>s. JDict (segment_to_dict s)) ss) =
    map (\<lambda>s. JDict (segment_to_dict s)) ss"
proof (rule filter_True, clarsimp)
  fix s
  have "segment_type_str t \<noteq> []" for t by (cases t) auto
  then show "truthy (obj_get (segment_to_dict s) ''type'')" by (simp add: segment_to_dict_def Let_def)
qed

lemma nonblank_groups: "list_all (\<lambda>g. py_strip g \<noteq> []) gs \<Longrightarrow> map the_str (filter nonblank (map JStr gs)) = gs"
  by (induction gs) (auto simp: nonblank_def)

interpretation inbound_codec: codec inbound_to_payload "inbound_from_payload rt" inbound_ok for rt
proof
  fix m assume ok: "inbound_ok m"
  have segs: "res_map (segment_from_dict rt) (map dict_of (map (\<lambda>s. JDict (segment_to_dict s)) (in_segments m))) = Inr (in_segments m)"
    using segment_codec.dec_list [of "in_segments m" rt] by (simp add: comp_def list_all_iff)
  have task: "(case json_opt JStr (in_task_type m) of JStr t \<Rightarrow> Some (py_strip t) | _ \<Rightarrow> None) = in_task_type m"
    using ok by (cases "in_task_type m") (auto simp: inbound_ok_def)
  have groups: "(case json_opt (\<lambda>gs. JList (map JStr gs)) (in_groups m) of JList gs \<Rightarrow> Some (map the_str (filter nonblank gs)) | _ \<Rightarrow> None) = in_groups m"
    using ok nonblank_groups by (cases "in_groups m") (auto simp: inbound_ok_def)
  show "inbound_from_payload rt (inbound_to_payload m) = Inr m"
    using segs task groups
    by (simp add: inbound_from_payload_def inbound_to_payload_def typed_segments sender_round_trip str_field_def py_or_def dict_field_def Let_def
        del: map_map)
qed

interpretation outbound_codec: codec outbound_to_payload "\<lambda>d. Inr (outbound_from_payload rt d)" outbound_ok for rt
proof
  fix m assume ok: "outbound_ok m"
  let ?d = "outbound_to_payload m"
  have a: "obj_get ?d ''adapter_key'' = json_opt JStr (ob_adapter m)" and s: "obj_get ?d ''sender_ref'' = json_opt JDict (ob_sender m)"
    by (auto simp: outbound_to_payload_def split: option.split)
  have "(if nonblank (obj_get ?d ''adapter_key'') then Some (py_strip (the_str (obj_get ?d ''adapter_key''))) else None) = ob_adapter m"
    using ok unfolding a by (cases "ob_adapter m") (auto simp: outbound_ok_def nonblank_def)
  moreover have "opt_dict_field ?d ''sender_ref'' = ob_sender m" using s by (rule opt_dict_field_json_opt)
  moreover have "str_field rt ?d ''session_id'' = ob_session m" "str_field rt ?d ''kind'' = ob_kind m"
    "dict_field ?d ''content'' = ob_content m" "dict_field ?d ''meta'' = ob_meta m" by (simp_all add: outbound_to_payload_def)
  ultimately show "Inr (outbound_from_payload rt ?d) = Inr m" by (simp add: outbound_from_payload_def)
qed

lemma session_open_round_trip:
  "so_platform s \<noteq> [] \<Longrightarrow> session_open_from_payload rt (session_open_to_dict s) = s"
  by (simp add: session_open_from_payload_def session_open_to_dict_def str_field_def opt_str_field_def dict_field_def py_or_def)
    (cases s; auto simp: json_opt_def split: option.splits)

interpretation put_init_codec: codec put_init_to_payload "put_init_from_payload rt" "\<lambda>_. True" for rt
  by unfold_locales (simp add: put_init_from_payload_def put_init_to_payload_def)

interpretation put_chunk_codec: codec put_chunk_to_payload "put_chunk_from_payload rt" "\<lambda>_. True" for rt
  by unfold_locales (simp add: put_chunk_from_payload_def put_chunk_to_payload_def)

interpretation put_commit_codec: codec put_commit_to_payload "put_commit_from_payload rt" "\<lambda>_. True" for rt
  by unfold_locales (simp add: put_commit_from_payload_def put_commit_to_payload_def)

lemma get_request_round_trip:
  "fg_request r \<noteq> [] \<Longrightarrow> get_request_from_payload rt frame_id (get_request_to_payload r) = r"
  by (simp add: get_request_from_payload_def get_request_to_payload_def py_or_def)

section \<open>Properties\<close>


lemma drop_none_only: "set (map fst (drop_none d)) = {k. \<exists>v. (k, v) \<in> set d \<and> v \<noteq> JNull}"
  by (force simp: drop_none_def)

lemma env_slice_whitelisted: "set (dkeys (validate_system_env_slice rt d)) \<subseteq> set SYSTEM_ENV_WHITELIST"
proof -
  let ?step = "\<lambda>out (k, v). if k \<notin> set SYSTEM_ENV_WHITELIST \<or> v = JNull then out else dset k (py_str rt v) out"
  have "set (dkeys (foldl ?step out d)) \<subseteq> set SYSTEM_ENV_WHITELIST" if "set (dkeys out) \<subseteq> set SYSTEM_ENV_WHITELIST" for out
    using that
  proof (induction d arbitrary: out)
    case (Cons kv d)
    have "set (dkeys (?step out kv)) \<subseteq> set SYSTEM_ENV_WHITELIST"
      using Cons.prems by (cases kv) (simp add: dkeys_dset del: set_map)
    from Cons.IH [OF this] show ?case by simp
  qed simp
  then show ?thesis by (simp add: validate_system_env_slice_def)
qed

section \<open>Witnesses\<close>


end
