(* ===== verification/Files.thy ===== *)
theory Files
  imports Frames
begin

text \<open>
  File transfer over the bridge: the business-side service (\<^verbatim>\<open>core/gateway_protocol/files.py\<close>) over the
  files table (\<open>FileRepository\<close> of \<^verbatim>\<open>infrastructure/database/repository.py\<close>), the gateway-side client
  (\<open>upload_file\<close> and \<open>download_file\<close> of \<^verbatim>\<open>gateway/bridge/ws_client.py\<close>), and base64 as both sides use
  it. Bytes are lists of 8-bit characters.

  Fresh identifiers come from the caller, SHA-256 is a parameter. An upload is modelled over a connection
  that stays up: every frame is answered before the next one is sent, as the client awaits it.
\<close>

section \<open>base64\<close>

definition B64_ALPHABET :: string where
  "B64_ALPHABET = ''ABCDEFGHIJKLMNOPQRSTUVWXYZabcdefghijklmnopqrstuvwxyz0123456789+/''"

definition b64_char :: "nat \<Rightarrow> char" where
  "b64_char n = B64_ALPHABET ! n"

definition b64_val :: "char \<Rightarrow> nat option" where
  "b64_val c = map_option fst (find (\<lambda>(i, d). d = c) (List.enumerate 0 B64_ALPHABET))"

abbreviation byte :: "char \<Rightarrow> nat" where
  "byte c \<equiv> of_char c"

fun b64encode :: "string \<Rightarrow> string" where
  "b64encode [] = []"
| "b64encode [a] = [b64_char (byte a div 4), b64_char (byte a mod 4 * 16), CHR ''='', CHR ''='']"
| "b64encode [a, b] = [b64_char (byte a div 4), b64_char (byte a mod 4 * 16 + byte b div 16), b64_char (byte b mod 16 * 4), CHR ''='']"
| "b64encode (a # b # c # rest) =
     [b64_char (byte a div 4), b64_char (byte a mod 4 * 16 + byte b div 16),
      b64_char (byte b mod 16 * 4 + byte c div 64), b64_char (byte c mod 64)] @ b64encode rest"

text \<open>
  \<open>binascii.a2b_base64\<close> in its lenient mode, as \<open>base64.b64decode\<close> calls it: other characters are
  skipped, a complete padding ends the input. \<open>q\<close> is the position in the quadruple, \<open>l\<close> the bits left
  over, \<open>p\<close> the padding seen.
\<close>

fun a2b :: "nat \<Rightarrow> nat \<Rightarrow> nat \<Rightarrow> string \<Rightarrow> string option" where
  "a2b q l p [] = (if q = 0 then Some [] else None)"
| "a2b q l p (c # cs) =
     (if c = CHR ''=''
      then (if 2 \<le> q then (if 4 \<le> q + p + 1 then Some [] else a2b q l (p + 1) cs) else a2b q l p cs)
      else case b64_val c of
             None \<Rightarrow> a2b q l p cs
           | Some v \<Rightarrow>
               (if q = 0 then a2b 1 v 0 cs
                else if q = 1 then map_option (Cons (char_of (l * 4 + v div 16))) (a2b 2 (v mod 16) 0 cs)
                else if q = 2 then map_option (Cons (char_of (l * 16 + v div 4))) (a2b 3 (v mod 4) 0 cs)
                else map_option (Cons (char_of (l * 64 + v))) (a2b 0 0 0 cs)))"

definition b64decode :: "string \<Rightarrow> string res" where
  "b64decode s = (case a2b 0 0 0 s of Some bs \<Rightarrow> Inr bs | None \<Rightarrow> Inl ValueError)"

lemma b64_val_char: "n < 64 \<Longrightarrow> b64_val (b64_char n) = Some n \<and> b64_char n \<noteq> CHR ''=''"
proof -
  assume "n < 64"
  moreover have "list_all (\<lambda>n. b64_val (b64_char n) = Some n \<and> b64_char n \<noteq> CHR ''='') [0..<64]" by code_simp
  ultimately show ?thesis by (simp add: list_all_iff)
qed

lemma byte_less: "byte c < 256"
  using nat_of_char_less_256 [of c] by simp

lemma a2b_val [simp]: "v < 64 \<Longrightarrow> a2b q l p (b64_char v # cs) =
    (if q = 0 then a2b 1 v 0 cs
     else if q = 1 then map_option (Cons (char_of (l * 4 + v div 16))) (a2b 2 (v mod 16) 0 cs)
     else if q = 2 then map_option (Cons (char_of (l * 16 + v div 4))) (a2b 3 (v mod 4) 0 cs)
     else map_option (Cons (char_of (l * 64 + v))) (a2b 0 0 0 cs))"
  using b64_val_char [of v] by simp

lemma a2b_pad [simp]: "a2b q l p (CHR ''='' # cs) =
    (if 2 \<le> q then (if 4 \<le> q + p + 1 then Some [] else a2b q l (p + 1) cs) else a2b q l p cs)"
  by simp

declare a2b.simps(2) [simp del]

lemma byte_parts: "byte a div 4 < 64" "byte a div 16 < 16" "byte a div 64 < 4"
  using byte_less [of a] by (simp_all add: less_mult_imp_div_less)

lemma b64_digits:
  "byte a div 4 < 64" "byte a mod 4 * 16 < 64" "byte b mod 16 * 4 < 64" "byte a mod 64 < 64"
  "byte a mod 4 * 16 + byte b div 16 < 64" "byte b mod 16 * 4 + byte c div 64 < 64"
proof -
  have m: "byte a mod 4 < 4" "byte b mod 16 < 16" by simp_all
  show "byte a div 4 < 64" "byte a mod 4 * 16 < 64" "byte b mod 16 * 4 < 64" "byte a mod 64 < 64"
    "byte a mod 4 * 16 + byte b div 16 < 64" "byte b mod 16 * 4 + byte c div 64 < 64"
    using byte_parts(1) [of a] byte_parts(2) [of b] byte_parts(3) [of c] m by linarith+
qed

lemma b64_join:
  "byte a div 4 * 4 + (byte a mod 4 * 16 + byte b div 16) div 16 = byte a"
  "(byte a mod 4 * 16 + byte b div 16) mod 16 * 16 + (byte b mod 16 * 4 + byte c div 64) div 4 = byte b"
  "(byte b mod 16 * 4 + byte c div 64) mod 4 * 64 + byte c mod 64 = byte c"
  "(byte a mod 4 * 16 + byte b div 16) mod 16 * 16 + byte b mod 16 * 4 div 4 = byte b"
proof -
  have "(byte a mod 4 * 16 + byte b div 16) div 16 = byte a mod 4" "(byte a mod 4 * 16 + byte b div 16) mod 16 = byte b div 16"
    using byte_parts(2) [of b] by simp_all
  moreover have "(byte b mod 16 * 4 + byte c div 64) div 4 = byte b mod 16" "(byte b mod 16 * 4 + byte c div 64) mod 4 = byte c div 64"
    using byte_parts(3) [of c] by simp_all
  ultimately show "byte a div 4 * 4 + (byte a mod 4 * 16 + byte b div 16) div 16 = byte a"
    "(byte a mod 4 * 16 + byte b div 16) mod 16 * 16 + (byte b mod 16 * 4 + byte c div 64) div 4 = byte b"
    "(byte b mod 16 * 4 + byte c div 64) mod 4 * 64 + byte c mod 64 = byte c"
    "(byte a mod 4 * 16 + byte b div 16) mod 16 * 16 + byte b mod 16 * 4 div 4 = byte b"
    by simp_all
qed

lemma a2b_encode: "a2b 0 0 0 (b64encode bs) = Some bs"
proof (induction bs rule: b64encode.induct)
  case (2 a)
  have "byte a div 4 * 4 + byte a mod 4 * 16 div 16 = byte a" by simp
  then show ?case by (simp add: b64_digits)
next
  case (3 a b)
  then show ?case using b64_join(1) [of a b] b64_join(4) [of a b] by (simp add: b64_digits)
next
  case (4 a b c rest)
  then show ?case using b64_join(1) [of a b] b64_join(2) [of a b c] b64_join(3) [of b c] by (simp add: b64_digits)
qed simp

interpretation base64: codec b64encode b64decode "\<lambda>_. True"
  by unfold_locales (simp add: b64decode_def a2b_encode)

section \<open>The files table\<close>

record file_row =
  fl_id :: string
  fl_session :: string
  fl_filename :: string
  fl_content :: string
  fl_size :: nat
  fl_mime :: "string option"

definition normalize_file_id :: "string \<Rightarrow> string" where
  "normalize_file_id fid = (if py_startswith fid ''file_'' then ''file_'' @ py_lower (drop 5 fid) else fid)"

definition file_create :: "string \<Rightarrow> string \<Rightarrow> string \<Rightarrow> string \<Rightarrow> string option \<Rightarrow> file_row list \<Rightarrow> file_row list" where
  "file_create fid sid filename content mime rows =
     rows @ [\<lparr>fl_id = fid, fl_session = sid, fl_filename = filename, fl_content = content, fl_size = length content, fl_mime = mime\<rparr>]"

definition file_get_for_session :: "string \<Rightarrow> string \<Rightarrow> file_row list \<Rightarrow> file_row option" where
  "file_get_for_session fid sid rows = find (\<lambda>r. fl_id r = normalize_file_id fid \<and> fl_session r = sid) rows"

section \<open>The service\<close>

record pending_upload =
  pu_session :: string
  pu_adapter :: string
  pu_message :: string
  pu_filename :: string
  pu_mime :: "string option"
  pu_size :: int
  pu_sha :: string
  pu_chunks :: "(int, string) dict"

text \<open>\<open>fs_events\<close> are the published upload events: session, payload and source.\<close>

record file_service =
  fs_uploads :: "(string, pending_upload) dict"
  fs_files :: "file_row list"
  fs_events :: "(string \<times> json_object \<times> string) list"

definition put_ack :: "string \<Rightarrow> string \<Rightarrow> int option \<Rightarrow> string option \<Rightarrow> (string \<times> string) option \<Rightarrow> file_put_ack" where
  "put_ack status uid seq fid err = \<lparr>fa_status = status, fa_upload = uid, fa_seq = seq, fa_file = fid,
     fa_error = map_option (\<lambda>(code, message). [(''code'', JStr code), (''message'', JStr message)]) err\<rparr>"

definition unknown_upload :: "string \<Rightarrow> string \<times> string" where
  "unknown_upload uid = (''upload_not_found'', ''Unknown upload_id: '' @ uid)"

definition put_init :: "string \<Rightarrow> file_put_init \<Rightarrow> file_service \<Rightarrow> file_put_ack \<times> file_service" where
  "put_init fresh r S = (put_ack ''ok'' fresh None None None,
     S\<lparr>fs_uploads := dset fresh \<lparr>pu_session = fi_session r, pu_adapter = fi_adapter r, pu_message = fi_message r,
        pu_filename = fi_filename r, pu_mime = fi_mime r, pu_size = fi_size r, pu_sha = fi_sha r, pu_chunks = []\<rparr> (fs_uploads S)\<rparr>)"

definition put_chunk :: "file_put_chunk \<Rightarrow> file_service \<Rightarrow> file_put_ack res \<times> file_service" where
  "put_chunk c S = (let uid = fc_upload c; seq = fc_seq c in case dget (fs_uploads S) uid of
      None \<Rightarrow> (Inr (put_ack ''invalid'' uid (Some seq) None (Some (unknown_upload uid))), S)
    | Some u \<Rightarrow>
       (if dget (pu_chunks u) seq \<noteq> None then (Inr (put_ack ''duplicate'' uid (Some seq) None None), S)
        else case b64decode (fc_data c) of
               Inl e \<Rightarrow> (Inl e, S)
             | Inr data \<Rightarrow>
                (if int (length data) \<noteq> fc_bytes c
                 then (Inr (put_ack ''invalid'' uid (Some seq) None (Some (''chunk_size_mismatch'', ''Decoded chunk size mismatch''))), S)
                 else (Inr (put_ack ''ok'' uid (Some seq) None None),
                       S\<lparr>fs_uploads := dset uid (u\<lparr>pu_chunks := dset seq data (pu_chunks u)\<rparr>) (fs_uploads S)\<rparr>))))"

text \<open>\<open>b"".join(upload.chunks[index] for index in range(total))\<close>: a missing index raises.\<close>

definition join_chunks :: "pending_upload \<Rightarrow> int \<Rightarrow> string res" where
  "join_chunks u n = res_bind
     (res_map (\<lambda>i. case dget (pu_chunks u) (int i) of Some d \<Rightarrow> Inr d | None \<Rightarrow> Inl KeyError) [0..<nat n])
     (\<lambda>pieces. Inr (concat pieces))"

definition upload_event :: "pending_upload \<Rightarrow> string \<Rightarrow> string \<times> json_object \<times> string" where
  "upload_event u fid = (pu_session u,
     [(''file_id'', JStr fid), (''filename'', JStr (pu_filename u)), (''mime_type'', json_opt JStr (pu_mime u)),
      (''message_id'', JStr (pu_message u))], ''gateway:'' @ pu_adapter u)"

text \<open>\<open>db_ok\<close> and \<open>bus_ok\<close> say whether storing the file and publishing its event raise.\<close>

definition put_commit :: "(string \<Rightarrow> string) \<Rightarrow> bool \<Rightarrow> bool \<Rightarrow> string \<Rightarrow> file_put_commit \<Rightarrow> file_service \<Rightarrow> file_put_ack res \<times> file_service" where
  "put_commit sha db_ok bus_ok fresh r S =
     (let uid = fm_upload r; invalid = (\<lambda>code message. (Inr (put_ack ''invalid'' uid None None (Some (code, message))), S))
      in case dget (fs_uploads S) uid of
           None \<Rightarrow> (Inr (put_ack ''invalid'' uid None None (Some (unknown_upload uid))), S)
         | Some u \<Rightarrow>
            (if int (length (pu_chunks u)) \<noteq> fm_total r then invalid ''chunk_count_mismatch'' ''Chunk count mismatch''
             else case join_chunks u (fm_total r) of
               Inl e \<Rightarrow> (Inl e, S)
             | Inr content \<Rightarrow>
                (if int (length content) \<noteq> pu_size u then invalid ''file_size_mismatch'' ''Final file size mismatch''
                 else if sha content \<noteq> pu_sha u then invalid ''sha256_mismatch'' ''SHA-256 checksum mismatch''
                 else if \<not> db_ok then (Inl (RuntimeError ''database''), S)
                 else let S1 = S\<lparr>fs_files := file_create fresh (pu_session u) (pu_filename u) content (pu_mime u) (fs_files S)\<rparr>
                      in if \<not> bus_ok then (Inl (RuntimeError ''bus''), S1)
                         else (Inr (put_ack ''ok'' uid None (Some fresh) None),
                               S1\<lparr>fs_events := fs_events S @ [upload_event u fresh], fs_uploads := dpop uid (fs_uploads S)\<rparr>))))"

text \<open>The pieces of a file: \<open>content[offset : offset + k]\<close> for the offsets of \<open>range(0, n, k)\<close>.\<close>

definition pieces :: "nat \<Rightarrow> string \<Rightarrow> string list" where
  "pieces k content = map (\<lambda>i. take k (drop (i * k) content)) [0..<(length content + k - 1) div k]"

definition split_content :: "int \<Rightarrow> string \<Rightarrow> string list res" where
  "split_content k content = (if k = 0 then Inl ValueError else if k < 0 then Inr [] else Inr (pieces (nat k) content))"

definition get_chunk :: "file_get_request \<Rightarrow> file_row \<Rightarrow> int \<Rightarrow> nat \<times> string \<Rightarrow> file_get_chunk" where
  "get_chunk r row k = (\<lambda>(seq, piece). \<lparr>gc_request = fg_request r, gc_file = fl_id row, gc_seq = int seq, gc_data = b64encode piece,
     gc_bytes = int (length piece), gc_last = (int (length (fl_content row)) \<le> int seq * k + k),
     gc_filename = Some (fl_filename row), gc_mime = fl_mime row\<rparr>)"

definition get_chunks :: "file_get_request \<Rightarrow> int \<Rightarrow> file_service \<Rightarrow> (file_get_chunk list \<times> file_get_ack) res" where
  "get_chunks r k S = (case file_get_for_session (fg_file r) (fg_session r) (fs_files S) of
      None \<Rightarrow> Inr ([], \<lparr>ga_request = fg_request r, ga_file = fg_file r, ga_status = ''invalid'',
                     ga_error = Some [(''code'', JStr ''file_not_found''), (''message'', JStr ''File not found'')]\<rparr>)
    | Some row \<Rightarrow> res_bind (split_content k (fl_content row)) (\<lambda>ps. Inr
        (map (get_chunk r row k) (List.enumerate 0 ps), \<lparr>ga_request = fg_request r, ga_file = fl_id row, ga_status = ''ok'', ga_error = None\<rparr>)))"

section \<open>The client\<close>

text \<open>The chunks of \<open>upload_file\<close>; \<open>put\<close> is one frame and its answer.\<close>

fun send_chunks :: "py_runtime \<Rightarrow> string \<Rightarrow> nat \<Rightarrow> string list \<Rightarrow> file_service \<Rightarrow> unit res \<times> file_service" where
  "send_chunks rt uid seq [] S = (Inr (), S)"
| "send_chunks rt uid seq (p # ps) S =
     (let payload = put_chunk_to_payload \<lparr>fc_upload = uid, fc_seq = int seq, fc_data = b64encode p, fc_bytes = int (length p)\<rparr>
      in case put_chunk_from_payload rt payload of
           Inl e \<Rightarrow> (Inl e, S)
         | Inr c \<Rightarrow> (case put_chunk c S of
             (Inl e, S') \<Rightarrow> (Inl e, S')
           | (Inr ack, S') \<Rightarrow> if str_field rt (put_ack_to_payload ack) ''status'' \<in> {''ok'', ''duplicate''} then send_chunks rt uid (seq + 1) ps S'
                             else (Inl (RuntimeError ''Bridge rejected file chunk''), S')))"

definition upload_file ::
  "py_runtime \<Rightarrow> (string \<Rightarrow> string) \<Rightarrow> int \<Rightarrow> int \<Rightarrow> string \<Rightarrow> string \<Rightarrow> file_put_init \<Rightarrow> string \<Rightarrow> file_service \<Rightarrow> string res \<times> file_service" where
  "upload_file rt sha max_bytes chunk_size fresh_upload fresh_file r content S =
     (if max_bytes < int (length content) then (Inl (RuntimeError ''File exceeds bridge max_file_bytes''), S)
      else case put_init_from_payload rt (put_init_to_payload (r\<lparr>fi_size := int (length content), fi_sha := sha content\<rparr>)) of
        Inl e \<Rightarrow> (Inl e, S)
      | Inr r' \<Rightarrow>
         (let (ack, S1) = put_init fresh_upload r' S
          in case obj_get (put_ack_to_payload ack) ''upload_id'' of
               JStr (c # cs) \<Rightarrow> (case split_content chunk_size content of
                   Inl e \<Rightarrow> (Inl e, S1)
                 | Inr ps \<Rightarrow> (case send_chunks rt (c # cs) 0 ps S1 of
                     (Inl e, S2) \<Rightarrow> (Inl e, S2)
                   | (Inr _, S2) \<Rightarrow> (case put_commit_from_payload rt (put_commit_to_payload \<lparr>fm_upload = c # cs, fm_total = int (length ps)\<rparr>) of
                       Inl e \<Rightarrow> (Inl e, S2)
                     | Inr m \<Rightarrow> (case put_commit sha True True fresh_file m S2 of
                         (Inl e, S3) \<Rightarrow> (Inl e, S3)
                       | (Inr ack', S3) \<Rightarrow> (case obj_get (put_ack_to_payload ack') ''file_id'' of
                           JStr (f # fs) \<Rightarrow> if str_field rt (put_ack_to_payload ack') ''status'' \<in> {''ok'', ''duplicate''} then (Inr (f # fs), S3)
                                           else (Inl (RuntimeError ''Bridge failed to commit file upload''), S3)
                         | _ \<Rightarrow> (Inl (RuntimeError ''Bridge failed to commit file upload''), S3))))))
             | _ \<Rightarrow> (Inl (RuntimeError ''Bridge did not return upload_id''), S1)))"

record download_state =
  dl_chunks :: "(int, string) dict"
  dl_filename :: "string option"
  dl_mime :: "string option"

text \<open>\<open>_handle_frame\<close> for a chunk of a pending download.\<close>

definition receive_chunk :: "py_runtime \<Rightarrow> json_object \<Rightarrow> download_state \<Rightarrow> download_state res" where
  "receive_chunk rt d st =
     res_bind (int_field rt d ''seq'') (\<lambda>q. res_bind (b64decode (str_field rt d ''data_b64'')) (\<lambda>data. Inr
       \<lparr>dl_chunks = dset q data (dl_chunks st),
        dl_filename = (case obj_get d ''filename'' of JStr f \<Rightarrow> Some f | _ \<Rightarrow> dl_filename st),
        dl_mime = (case obj_get d ''mime_type'' of JStr m \<Rightarrow> Some m | _ \<Rightarrow> dl_mime st)\<rparr>))"

fun receive_chunks :: "py_runtime \<Rightarrow> json_object list \<Rightarrow> download_state \<Rightarrow> download_state res" where
  "receive_chunks rt [] st = Inr st"
| "receive_chunks rt (d # ds) st = res_bind (receive_chunk rt d st) (receive_chunks rt ds)"

definition sorted_content :: "download_state \<Rightarrow> string" where
  "sorted_content st = concat (map (\<lambda>k. the (dget (dl_chunks st) k)) (sort (dkeys (dl_chunks st))))"

definition download_file ::
  "py_runtime \<Rightarrow> int \<Rightarrow> string \<Rightarrow> string \<Rightarrow> string \<Rightarrow> file_service \<Rightarrow> (string \<times> string option \<times> string option) res" where
  "download_file rt server_chunk fresh_request sid fid S =
     (let r = get_request_from_payload rt fresh_request (get_request_to_payload \<lparr>fg_session = sid, fg_file = fid, fg_request = fresh_request\<rparr>)
      in res_bind (get_chunks r server_chunk S) (\<lambda>(chunks, ack).
         res_bind (receive_chunks rt (map get_chunk_to_payload chunks) \<lparr>dl_chunks = [], dl_filename = None, dl_mime = None\<rparr>) (\<lambda>st.
           if str_field rt (get_ack_to_payload ack) ''status'' \<noteq> ''ok''
           then Inl (RuntimeError (let m = str_field rt (dict_field (get_ack_to_payload ack) ''error'') ''message''
                                   in if m \<noteq> [] then m else ''Bridge failed to download file''))
           else Inr (sorted_content st, dl_filename st, dl_mime st))))"

section \<open>Pieces\<close>

lemma concat_pieces_upto: "concat (map (\<lambda>i. take k (drop (i * k) xs)) [0..<m]) = take (m * k) xs"
proof (induction m)
  case (Suc m)
  have "take (m * k) xs @ take k (drop (m * k) xs) = take (m * k + k) xs" by (simp add: take_add)
  then show ?case using Suc by (simp add: add.commute)
qed simp

lemma concat_pieces: "0 < k \<Longrightarrow> concat (pieces k content) = content"
proof -
  assume k: "0 < k"
  let ?n = "length content"
  have "?n \<le> (?n + k - 1) div k * k"
  proof -
    have "?n + k - 1 < ((?n + k - 1) div k + 1) * k" using k by (metis Suc_eq_plus1 dividend_less_div_times mult.commute mult_Suc_right add.commute)
    then show ?thesis by simp
  qed
  then show ?thesis by (simp add: pieces_def concat_pieces_upto)
qed

lemma pieces_Nil: "0 < k \<Longrightarrow> pieces k [] = []"
  by (simp add: pieces_def)

lemma pieces_empty_iff: "0 < k \<Longrightarrow> pieces k content = [] \<longleftrightarrow> content = []"
  using concat_pieces [of k content] pieces_Nil by force

section \<open>Uploading\<close>

lemma put_chunk_fresh:
  assumes "dget (fs_uploads S) uid = Some u" and "dget (pu_chunks u) q = None"
  shows "put_chunk \<lparr>fc_upload = uid, fc_seq = q, fc_data = b64encode p, fc_bytes = int (length p)\<rparr> S =
    (Inr (put_ack ''ok'' uid (Some q) None None), S\<lparr>fs_uploads := dset uid (u\<lparr>pu_chunks := dset q p (pu_chunks u)\<rparr>) (fs_uploads S)\<rparr>)"
  using assms base64.dec_enc [of p] by (simp add: put_chunk_def)

lemma dset_fresh: "dget d k = None \<Longrightarrow> dset k v d = d @ [(k, v)]"
  by (induction d) (auto split: if_splits)

lemma dset_last: "k \<notin> fst ` set d \<Longrightarrow> dset k v (d @ [(k, w)]) = d @ [(k, v)]"
  by (induction d) auto

lemma dpop_dset: "dpop k (dset k v d) = dpop k d"
  by (induction d) (auto simp: AList.delete_eq)

text \<open>The chunks held after the first pieces were sent.\<close>

abbreviation numbered :: "nat \<Rightarrow> string list \<Rightarrow> (int, string) dict" where
  "numbered k ps \<equiv> map (\<lambda>(i, p). (int i, p)) (List.enumerate k ps)"

lemma dget_numbered: "dget (numbered k ps) q = (if int k \<le> q \<and> q < int (k + length ps) then Some (ps ! nat (q - int k)) else None)"
proof (induction ps arbitrary: k)
  case (Cons p ps)
  show ?case
  proof (cases "q = int k")
    case False
    then show ?thesis using Cons [of "Suc k"] by (auto simp: nth_Cons' nat_diff_distrib algebra_simps intro!: arg_cong [where f = "\<lambda>n. ps ! n"])
  qed simp
qed simp

lemma send_chunks_ok:
  assumes "dget (fs_uploads S) uid = Some (u\<lparr>pu_chunks := numbered 0 sent\<rparr>)"
  shows "\<exists>U. send_chunks rt uid (length sent) ps S = (Inr (), S\<lparr>fs_uploads := U\<rparr>) \<and>
    dget U uid = Some (u\<lparr>pu_chunks := numbered 0 (sent @ ps)\<rparr>) \<and> dpop uid U = dpop uid (fs_uploads S)"
  using assms
proof (induction ps arbitrary: sent S)
  case Nil
  then show ?case by (intro exI [of _ "fs_uploads S"]) simp
next
  case (Cons p ps)
  let ?q = "int (length sent)"
  have none: "dget (numbered 0 sent) ?q = None" by (simp add: dget_numbered)
  let ?S = "S\<lparr>fs_uploads := dset uid (u\<lparr>pu_chunks := numbered 0 (sent @ [p])\<rparr>) (fs_uploads S)\<rparr>"
  have "put_chunk \<lparr>fc_upload = uid, fc_seq = ?q, fc_data = b64encode p, fc_bytes = int (length p)\<rparr> S =
      (Inr (put_ack ''ok'' uid (Some ?q) None None), ?S)"
    using put_chunk_fresh [OF Cons.prems, of ?q p] none dset_fresh [OF none, of p] by (simp add: enumerate_append_eq)
  moreover have "dget (fs_uploads ?S) uid = Some (u\<lparr>pu_chunks := numbered 0 (sent @ [p])\<rparr>)" by simp
  from Cons.IH [OF this] obtain U where U: "send_chunks rt uid (length (sent @ [p])) ps ?S = (Inr (), ?S\<lparr>fs_uploads := U\<rparr>)"
    "dget U uid = Some (u\<lparr>pu_chunks := numbered 0 ((sent @ [p]) @ ps)\<rparr>)" "dpop uid U = dpop uid (fs_uploads ?S)" by blast
  ultimately show ?case
    by (intro exI [of _ U]) (simp add: dpop_dset put_chunk_codec.dec_enc put_ack_def put_ack_to_payload_def)
qed

lemma join_numbered: "join_chunks (u\<lparr>pu_chunks := numbered 0 ps\<rparr>) (int (length ps)) = Inr (concat ps)"
proof -
  have "res_map (\<lambda>i. case dget (numbered 0 ps) (int i) of Some d \<Rightarrow> Inr d | None \<Rightarrow> Inl KeyError) is = Inr (map ((!) ps) is)"
    if "\<forall>i \<in> set is. i < length ps" for "is"
    using that by (induction "is") (simp_all add: dget_numbered)
  from this [of "[0..<length ps]"] show ?thesis by (simp add: join_chunks_def map_nth)
qed

lemma upload_file_ok:
  assumes "int (length content) \<le> max_bytes" and "0 < k" and "uid \<noteq> []" and "fid \<noteq> []"
  shows "upload_file rt sha max_bytes k uid fid r content S =
    (Inr fid, S\<lparr>fs_files := file_create fid (fi_session r) (fi_filename r) content (fi_mime r) (fs_files S),
       fs_events := fs_events S @ [(fi_session r, [(''file_id'', JStr fid), (''filename'', JStr (fi_filename r)),
          (''mime_type'', json_opt JStr (fi_mime r)), (''message_id'', JStr (fi_message r))], ''gateway:'' @ fi_adapter r)],
       fs_uploads := dpop uid (fs_uploads S)\<rparr>)"
proof -
  let ?r = "r\<lparr>fi_size := int (length content), fi_sha := sha content\<rparr>"
  let ?u = "\<lparr>pu_session = fi_session r, pu_adapter = fi_adapter r, pu_message = fi_message r, pu_filename = fi_filename r,
      pu_mime = fi_mime r, pu_size = int (length content), pu_sha = sha content, pu_chunks = []\<rparr>"
  let ?S1 = "S\<lparr>fs_uploads := dset uid ?u (fs_uploads S)\<rparr>"
  let ?ps = "pieces (nat k) content"
  have init: "put_init uid ?r S = (put_ack ''ok'' uid None None None, ?S1)" by (simp add: put_init_def)
  have "dget (fs_uploads ?S1) uid = Some (?u\<lparr>pu_chunks := numbered 0 []\<rparr>)" by simp
  from send_chunks_ok [OF this, of rt ?ps] obtain U where U:
    "send_chunks rt uid 0 ?ps ?S1 = (Inr (), ?S1\<lparr>fs_uploads := U\<rparr>)" "dget U uid = Some (?u\<lparr>pu_chunks := numbered 0 ?ps\<rparr>)"
    "dpop uid U = dpop uid (fs_uploads S)" by (auto simp: dpop_dset)
  have join: "join_chunks (?u\<lparr>pu_chunks := numbered 0 ?ps\<rparr>) (int (length ?ps)) = Inr content"
    using join_numbered [where u = ?u and ps = ?ps] concat_pieces [of "nat k" content] assms(2) by simp
  have commit: "put_commit sha True True fid \<lparr>fm_upload = uid, fm_total = int (length ?ps)\<rparr> (?S1\<lparr>fs_uploads := U\<rparr>) =
      (Inr (put_ack ''ok'' uid None (Some fid) None), S\<lparr>fs_files := file_create fid (fi_session r) (fi_filename r) content (fi_mime r) (fs_files S),
       fs_events := fs_events S @ [upload_event (?u\<lparr>pu_chunks := numbered 0 ?ps\<rparr>) fid], fs_uploads := dpop uid (fs_uploads S)\<rparr>)"
    using U(2,3) join by (simp add: put_commit_def Let_def)
  obtain c cs where c: "uid = c # cs" using assms(3) by (cases uid) auto
  obtain f fs where f: "fid = f # fs" using assms(4) by (cases fid) auto
  have a1: "obj_get (put_ack_to_payload (put_ack ''ok'' uid None None None)) ''upload_id'' = JStr (c # cs)"
    and a2: "obj_get (put_ack_to_payload (put_ack ''ok'' uid None (Some fid) None)) ''file_id'' = JStr (f # fs)"
    and a3: "str_field rt (put_ack_to_payload (put_ack ''ok'' uid None (Some fid) None)) ''status'' = ''ok''"
    by (simp_all add: put_ack_to_payload_def put_ack_def c f)
  have s: "split_content k content = Inr ?ps" using assms(2) by (simp add: split_content_def)
  have "\<not> max_bytes < int (length content)" using assms(1) by simp
  then show ?thesis
    unfolding upload_file_def put_init_codec.dec_enc [OF TrueI] sum.case init Let_def prod.case a1 json.case s
    using U(1) commit a2 a3
    by (simp add: put_commit_codec.dec_enc c f upload_event_def)
qed

section \<open>Downloading\<close>

lemma receive_numbered:
  assumes "dl_chunks st = numbered 0 sent"
  shows "receive_chunks rt (map get_chunk_to_payload (map (get_chunk r row k) (List.enumerate (length sent) ps))) st =
    Inr \<lparr>dl_chunks = numbered 0 (sent @ ps), dl_filename = (if ps = [] then dl_filename st else Some (fl_filename row)),
         dl_mime = (if ps = [] \<or> fl_mime row = None then dl_mime st else fl_mime row)\<rparr>"
  using assms
proof (induction ps arbitrary: sent st)
  case Nil
  then show ?case by (cases st) simp
next
  case (Cons p ps)
  let ?q = "int (length sent)"
  let ?st = "\<lparr>dl_chunks = numbered 0 (sent @ [p]), dl_filename = Some (fl_filename row), dl_mime = (if fl_mime row = None then dl_mime st else fl_mime row)\<rparr>"
  have none: "dget (numbered 0 sent) ?q = None" by (simp add: dget_numbered)
  have "receive_chunk rt (get_chunk_to_payload (get_chunk r row k (length sent, p))) st = Inr ?st"
    using dset_fresh [OF none, of p] Cons.prems base64.dec_enc [of p]
    by (auto simp: receive_chunk_def get_chunk_to_payload_def get_chunk_def enumerate_append_eq split: option.split)
  then show ?case using Cons.IH [of ?st "sent @ [p]"] by auto
qed

lemma dkeys_numbered: "dkeys (numbered k ps) = map int [k..<k + length ps]"
  by (induction ps arbitrary: k) (simp_all add: upt_conv_Cons del: upt_Suc)

lemma sorted_numbered: "sorted_content \<lparr>dl_chunks = numbered 0 ps, dl_filename = f, dl_mime = m\<rparr> = concat ps"
proof -
  have keys: "dkeys (numbered 0 ps) = map int [0..<length ps]"
    using dkeys_numbered [of 0 ps] by simp
  have "sort (map int [0..<length ps]) = map int [0..<length ps]" by (simp add: sorted_sort_id sorted_map sorted_wrt_upt)
  moreover have "map (\<lambda>k. the (dget (numbered 0 ps) k)) (map int [0..<length ps]) = ps"
    by (rule nth_equalityI) (simp_all add: dget_numbered)
  ultimately show ?thesis by (simp only: sorted_content_def keys download_state.simps)
qed

lemma download_file_ok:
  assumes "file_get_for_session fid sid (fs_files S) = Some row" and "0 < k" and "rid \<noteq> []"
  shows "download_file rt k rid sid fid S =
    Inr (fl_content row, if fl_content row = [] then None else Some (fl_filename row), if fl_content row = [] then None else fl_mime row)"
proof -
  let ?r = "\<lparr>fg_session = sid, fg_file = fid, fg_request = rid\<rparr>"
  let ?ps = "pieces (nat k) (fl_content row)"
  have r: "get_request_from_payload rt rid (get_request_to_payload ?r) = ?r" by (rule get_request_round_trip) (simp add: assms(3))
  have g: "get_chunks ?r k S = Inr (map (get_chunk ?r row k) (List.enumerate 0 ?ps),
      \<lparr>ga_request = rid, ga_file = fl_id row, ga_status = ''ok'', ga_error = None\<rparr>)"
    using assms(1,2) by (simp add: get_chunks_def split_content_def)
  have c: "concat ?ps = fl_content row" "?ps = [] \<longleftrightarrow> fl_content row = []" using concat_pieces pieces_empty_iff assms(2) by auto
  have rec: "receive_chunks rt (map get_chunk_to_payload (map (get_chunk ?r row k) (List.enumerate 0 ?ps)))
      \<lparr>dl_chunks = [], dl_filename = None, dl_mime = None\<rparr> = Inr \<lparr>dl_chunks = numbered 0 ?ps,
        dl_filename = (if ?ps = [] then None else Some (fl_filename row)), dl_mime = (if ?ps = [] then None else fl_mime row)\<rparr>"
    using receive_numbered [of "\<lparr>dl_chunks = [], dl_filename = None, dl_mime = None\<rparr>" "[]" rt ?r row k ?ps] by (simp split: if_splits)
  have st: "str_field rt (get_ack_to_payload \<lparr>ga_request = rid, ga_file = fl_id row, ga_status = ''ok'', ga_error = None\<rparr>) ''status'' = ''ok''"
    by (simp add: get_ack_to_payload_def)
  show ?thesis
    unfolding download_file_def r Let_def g res_bind_simps prod.case rec st sorted_numbered c(1) c(2) by simp
qed

lemma find_new: "\<forall>x \<in> set xs. \<not> P x \<Longrightarrow> P y \<Longrightarrow> find P (xs @ [y]) = Some y"
  by (induction xs) auto

section \<open>Properties\<close>

text \<open>C24. A file survives the bridge: an upload that fits the limit succeeds for every chunk size of the
  client, and downloading the id it returns, in chunks of any size of the server, gives the bytes back
  (and, unless the file is empty, its name and type).\<close>

theorem file_transfer_round_trip:
  assumes "int (length content) \<le> max_bytes" and "0 < client_chunk" and "0 < server_chunk"
    and "uid \<noteq> []" and "rid \<noteq> []" and "fid \<noteq> []" and "normalize_file_id fid = fid" and "\<forall>row \<in> set (fs_files S). fl_id row \<noteq> fid"
  shows "\<exists>S'. upload_file rt sha max_bytes client_chunk uid fid r content S = (Inr fid, S') \<and>
    download_file rt server_chunk rid (fi_session r) fid S' =
      Inr (content, if content = [] then None else Some (fi_filename r), if content = [] then None else fi_mime r)"
proof -
  let ?row = "\<lparr>fl_id = fid, fl_session = fi_session r, fl_filename = fi_filename r, fl_content = content, fl_size = length content, fl_mime = fi_mime r\<rparr>"
  have "find (\<lambda>row. fl_id row = fid \<and> fl_session row = fi_session r) (fs_files S @ [?row]) = Some ?row"
    using assms(8) by (intro find_new) auto
  then have row: "file_get_for_session fid (fi_session r) (file_create fid (fi_session r) (fi_filename r) content (fi_mime r) (fs_files S)) = Some ?row"
    by (simp add: file_get_for_session_def file_create_def assms(7))
  have "download_file rt server_chunk rid (fi_session r) fid S' =
      Inr (content, if content = [] then None else Some (fi_filename r), if content = [] then None else fi_mime r)"
    if "fs_files S' = file_create fid (fi_session r) (fi_filename r) content (fi_mime r) (fs_files S)" for S'
    using download_file_ok [of fid "fi_session r" S' ?row server_chunk rid rt] row assms(3,5) that by simp
  note down = this
  show ?thesis
    unfolding upload_file_ok [OF assms(1,2,4,6)] by (intro exI conjI, rule refl, rule down) simp
qed

text \<open> Whatever chunks arrive, in whatever order, damaged or repeated: a file is only stored when its
  bytes have the size and the hash announced when the upload was opened, for the session that opened it,
  and then the upload is gone; a refused commit stores nothing.\<close>

theorem commit_stores_what_was_announced:
  assumes "put_commit sha db_ok bus_ok fid m S = (outcome, S')"
  shows "fs_files S' = fs_files S \<or>
    (\<exists>u content. dget (fs_uploads S) (fm_upload m) = Some u \<and> int (length content) = pu_size u \<and> sha content = pu_sha u \<and>
      fs_files S' = file_create fid (pu_session u) (pu_filename u) content (pu_mime u) (fs_files S) \<and>
      (outcome = Inr (put_ack ''ok'' (fm_upload m) None (Some fid) None) \<longleftrightarrow> bus_ok) \<and>
      (bus_ok \<longrightarrow> dget (fs_uploads S') (fm_upload m) = None \<and> fs_events S' = fs_events S @ [upload_event u fid]))"
  using assms by (auto simp: put_commit_def Let_def split: option.splits sum.splits if_splits)

section \<open>Witnesses\<close>

definition demo_service :: file_service where
  "demo_service = \<lparr>fs_uploads = [], fs_files = [], fs_events = []\<rparr>"

definition demo_init :: file_put_init where
  "demo_init = \<lparr>fi_session = ''s'', fi_adapter = ''http'', fi_message = ''m1'', fi_filename = ''a.txt'', fi_size = 0, fi_sha = [], fi_mime = Some ''text/plain''\<rparr>"

theorem file_transfer_round_trip_witness:
  "\<exists>S'. upload_file null_runtime (\<lambda>s. ''h'') 100 4 ''upload_1'' ''file_1'' demo_init ''hello world'' demo_service = (Inr ''file_1'', S') \<and>
     download_file null_runtime 5 ''get_1'' ''s'' ''file_1'' S' = Inr (''hello world'', Some ''a.txt'', Some ''text/plain'')"
proof -
  have "normalize_file_id ''file_1'' = ''file_1''" by code_simp
  then show ?thesis
    using file_transfer_round_trip [of "''hello world''" 100 4 5 "''upload_1''" "''get_1''" "''file_1''" demo_service null_runtime "\<lambda>s. ''h''" demo_init]
    by (simp add: demo_service_def demo_init_def)
qed

definition demo_pending :: file_service where
  "demo_pending = demo_service\<lparr>fs_uploads := [(''upload_1'', \<lparr>pu_session = ''s'', pu_adapter = ''http'', pu_message = ''m1'', pu_filename = ''a.txt'',
     pu_mime = None, pu_size = 3, pu_sha = ''h'', pu_chunks = [(1, ''c''), (0, ''ab'')]\<rparr>)]\<rparr>"

theorem commit_stores_what_was_announced_witness:
  "\<exists>u content. dget (fs_uploads demo_pending) ''upload_1'' = Some u \<and> int (length content) = 3 \<and>
     fs_files (snd (put_commit (\<lambda>s. ''h'') True True ''file_1'' \<lparr>fm_upload = ''upload_1'', fm_total = 2\<rparr> demo_pending)) =
       file_create ''file_1'' ''s'' ''a.txt'' content None []"
proof -
  let ?c = "put_commit (\<lambda>s. ''h'') True True ''file_1'' \<lparr>fm_upload = ''upload_1'', fm_total = 2\<rparr> demo_pending"
  have p: "?c = (fst ?c, snd ?c)" by simp
  have "fs_files (snd ?c) \<noteq> fs_files demo_pending" by code_simp
  moreover have "fs_files demo_pending = []" "dget (fs_uploads demo_pending) ''upload_1'' = Some \<lparr>pu_session = ''s'', pu_adapter = ''http'',
      pu_message = ''m1'', pu_filename = ''a.txt'', pu_mime = None, pu_size = 3, pu_sha = ''h'', pu_chunks = [(1, ''c''), (0, ''ab'')]\<rparr>"
    by (simp_all add: demo_pending_def demo_service_def)
  ultimately show ?thesis using commit_stores_what_was_announced [OF p] by auto
qed

end
