(* ===== verification/Ingress.thy ===== *)
theory Ingress
  imports Files EventBus
begin

text \<open>
  The business side of an inbound message: sessions and their metadata (\<open>SessionRepository\<close>), the
  workspace of a session (\<^verbatim>\<open>core/runtime/session_runtime_store.py\<close>), the routes from sessions to gateway
  adapters (\<open>GatewaySessionRouteRepository\<close>), the description of uploaded files
  (\<^verbatim>\<open>infrastructure/files/file_kind.py\<close>) and \<open>GatewayIngressService\<close>
  (\<^verbatim>\<open>core/gateway_protocol/ingress.py\<close>), which stores the message and publishes its event on the bus of
  \<open>EventBus\<close>.

  Tables are dictionaries by primary key. Path resolution, the magic-number sniffer and the guess by file
  name are parameters.
\<close>

section \<open>Sessions and workspaces\<close>

record session_row =
  se_platform :: string
  se_title :: "string option"
  se_meta :: json_object

type_synonym sessions = "(string, session_row) dict"

definition session_create :: "string \<Rightarrow> string \<Rightarrow> string option \<Rightarrow> json_object \<Rightarrow> sessions \<Rightarrow> sessions" where
  "session_create sid platform title meta rows = dset sid \<lparr>se_platform = platform, se_title = title, se_meta = meta\<rparr> rows"

definition set_meta_value :: "string \<Rightarrow> string \<Rightarrow> json \<Rightarrow> sessions \<Rightarrow> bool \<times> sessions" where
  "set_meta_value sid key v rows = (case dget rows sid of
      None \<Rightarrow> (False, rows)
    | Some r \<Rightarrow> (True, dset sid (r\<lparr>se_meta := dset key v (se_meta r)\<rparr>) rows))"

definition get_meta_value :: "string \<Rightarrow> string \<Rightarrow> sessions \<Rightarrow> json" where
  "get_meta_value sid key rows = (case dget rows sid of None \<Rightarrow> JNull | Some r \<Rightarrow> obj_get (se_meta r) key)"

definition get_workspace_root :: "string \<Rightarrow> sessions \<Rightarrow> string option" where
  "get_workspace_root sid rows = (case get_meta_value sid ''workspace_root'' rows of
      JStr v \<Rightarrow> (let t = py_strip v in if t = [] then None else Some t)
    | _ \<Rightarrow> None)"

definition short_session_id :: "string \<Rightarrow> string" where
  "short_session_id sid =
     (let raw = py_strip sid;
          raw1 = (if py_startswith raw ''sess_'' then drop 5 raw else raw);
          raw2 = filter (\<lambda>c. c \<noteq> CHR ''-'') raw1
      in if take 8 raw2 \<noteq> [] then take 8 raw2 else ''unknown'')"

record runtime_context =
  rc_session :: string
  rc_workspace :: string
  rc_short :: string

text \<open>\<open>pe_normalize\<close> resolves a requested path, \<open>pe_materialize\<close> creates the directory and resolves it.\<close>

record path_env =
  pe_state_root :: string
  pe_normalize :: "string \<Rightarrow> string"
  pe_materialize :: "string \<Rightarrow> string"

definition default_workspace :: "path_env \<Rightarrow> string \<Rightarrow> string" where
  "default_workspace pe sid = pe_normalize pe (pe_state_root pe @ ''/workspace/'' @ short_session_id sid)"

record runtime_store =
  rs_cache :: "(string, runtime_context) dict"
  rs_sessions :: sessions

definition initialize_session :: "path_env \<Rightarrow> string \<Rightarrow> string option \<Rightarrow> runtime_store \<Rightarrow> runtime_context \<times> runtime_store" where
  "initialize_session pe sid requested S =
     (let asked = py_strip (case requested of None \<Rightarrow> [] | Some w \<Rightarrow> w);
          raw = (if asked \<noteq> [] then Some asked else get_workspace_root sid (rs_sessions S));
          workspace = pe_materialize pe (case raw of Some w \<Rightarrow> pe_normalize pe w | None \<Rightarrow> default_workspace pe sid);
          ctx = \<lparr>rc_session = sid, rc_workspace = workspace, rc_short = short_session_id sid\<rparr>
      in (ctx, S\<lparr>rs_cache := dset sid ctx (rs_cache S),
               rs_sessions := snd (set_meta_value sid ''workspace_root'' (JStr workspace) (rs_sessions S))\<rparr>))"

definition get_context :: "path_env \<Rightarrow> string \<Rightarrow> runtime_store \<Rightarrow> runtime_context \<times> runtime_store" where
  "get_context pe sid S = (case dget (rs_cache S) sid of Some c \<Rightarrow> (c, S) | None \<Rightarrow> initialize_session pe sid None S)"

section \<open>Routes\<close>

record route_row =
  rt_adapter :: "string option"
  rt_sender :: json_object
  rt_parent :: "string option"

type_synonym routes = "(string, route_row) dict"

definition strip_or_none :: "string \<Rightarrow> string option" where
  "strip_or_none s = (let t = py_strip s in if t = [] then None else Some t)"

definition route_bind :: "string \<Rightarrow> string option \<Rightarrow> json_object \<Rightarrow> string option \<Rightarrow> routes \<Rightarrow> routes" where
  "route_bind sid adapter sender parent rows =
     (let old = (case dget rows sid of Some r \<Rightarrow> r | None \<Rightarrow> \<lparr>rt_adapter = None, rt_sender = [], rt_parent = None\<rparr>)
      in dset sid \<lparr>rt_adapter = (case adapter of None \<Rightarrow> rt_adapter old | Some a \<Rightarrow> strip_or_none a), rt_sender = sender,
                   rt_parent = (case parent of None \<Rightarrow> rt_parent old | Some p \<Rightarrow> strip_or_none p)\<rparr> rows)"

text \<open>\<open>resolve\<close>: the row of the session or of its nearest ancestor that has an adapter. The visited sessions
  stop the walk on a cycle of parents.\<close>

function resolve_from :: "routes \<Rightarrow> string set \<Rightarrow> string \<Rightarrow> route_row option" where
  "resolve_from rows visited cur =
     (if cur = [] \<or> cur \<in> visited then None
      else case dget rows cur of
             None \<Rightarrow> None
           | Some r \<Rightarrow> (case rt_adapter r of
               Some (c # cs) \<Rightarrow> Some r
             | _ \<Rightarrow> resolve_from rows (insert cur visited) (case rt_parent r of Some p \<Rightarrow> p | None \<Rightarrow> [])))"
  by pat_completeness auto

termination
proof (relation "measure (\<lambda>(rows, visited, cur). card (set (dkeys rows) - visited))", simp, goal_cases)
  case (1 rows visited cur r)
  then have "cur \<in> set (dkeys rows) - visited" by (force dest: map_of_SomeD)
  then have "card (set (dkeys rows) - visited - {cur}) < card (set (dkeys rows) - visited)" by (intro card_Diff1_less) auto
  moreover have "set (dkeys rows) - insert cur visited = set (dkeys rows) - visited - {cur}" by blast
  ultimately show ?case by simp
next
  case (2 rows visited cur r)
  then have "cur \<in> set (dkeys rows) - visited" by (force dest: map_of_SomeD)
  then have "card (set (dkeys rows) - visited - {cur}) < card (set (dkeys rows) - visited)" by (intro card_Diff1_less) auto
  moreover have "set (dkeys rows) - insert cur visited = set (dkeys rows) - visited - {cur}" by blast
  ultimately show ?case by simp
qed

declare resolve_from.simps [simp del]

definition route_resolve :: "routes \<Rightarrow> string \<Rightarrow> route_row option" where
  "route_resolve rows sid = resolve_from rows {} sid"

definition get_parent_session_id :: "routes \<Rightarrow> string \<Rightarrow> string option" where
  "get_parent_session_id rows sid = (case dget rows sid of
      Some r \<Rightarrow> (case rt_parent r of Some (c # cs) \<Rightarrow> Some (c # cs) | _ \<Rightarrow> None)
    | None \<Rightarrow> None)"

definition list_by_parent_session :: "routes \<Rightarrow> string \<Rightarrow> string list" where
  "list_by_parent_session rows parent = map fst (filter (\<lambda>(_, r). rt_parent r = Some parent) rows)"

section \<open>Describing an upload\<close>

definition label_from_mime :: "string option \<Rightarrow> string" where
  "label_from_mime mime = (case mime of
      None \<Rightarrow> ''unknown type''
    | Some [] \<Rightarrow> ''unknown type''
    | Some full \<Rightarrow>
       (let m = py_lower (py_strip (fst (py_split1 CHR '';'' full)));
            table = [(''image/png'', ''PNG image''), (''image/jpeg'', ''JPEG image''), (''image/jpg'', ''JPEG image''),
              (''image/gif'', ''GIF image''), (''image/webp'', ''WebP image''), (''image/svg+xml'', ''SVG vector image''),
              (''image/bmp'', ''BMP image''), (''image/tiff'', ''TIFF image''), (''application/pdf'', ''PDF document''),
              (''text/plain'', ''plain text''), (''text/markdown'', ''Markdown text''), (''text/html'', ''HTML document''),
              (''application/json'', ''JSON text''), (''application/zip'', ''ZIP archive''), (''application/x-tar'', ''TAR archive''),
              (''application/gzip'', ''GZIP archive''), (''audio/mpeg'', ''MP3 audio''), (''audio/wav'', ''WAV audio''),
              (''video/mp4'', ''MP4 video'')]
        in case dget table m of
             Some l \<Rightarrow> l
           | None \<Rightarrow> if py_startswith m ''image/'' then ''image'' else if py_startswith m ''video/'' then ''video''
                     else if py_startswith m ''audio/'' then ''audio'' else if py_startswith m ''text/'' then ''text'' else ''file''))"

record sniffer =
  sn_guess :: "string \<Rightarrow> string option"
  sn_guess_name :: "string \<Rightarrow> string option"

definition describe_user_upload :: "sniffer \<Rightarrow> string \<Rightarrow> string option \<Rightarrow> string \<Rightarrow> string" where
  "describe_user_upload sn content mime filename =
     (let sniffed = (if content \<noteq> [] then sn_guess sn content else None);
          declared = (case mime of Some (c # cs) \<Rightarrow> strip_or_none (py_lower (fst (py_split1 CHR '';'' (c # cs)))) | _ \<Rightarrow> None);
          named = (if filename \<noteq> [] then sn_guess_name sn filename else None);
          effective = (case sniffed of Some m \<Rightarrow> Some m | None \<Rightarrow> (case declared of Some m \<Rightarrow> Some m | None \<Rightarrow> named));
          base = ''The user uploaded a file of type '' @ label_from_mime effective @ ''.'';
          fn = py_strip filename
      in if fn \<noteq> [] \<and> fn \<notin> {''upload'', ''unnamed''} then base @ '' Original filename: '' @ fn @ ''.'' else base)"

section \<open>The ingress service\<close>

definition described :: "py_runtime \<Rightarrow> content_segment \<Rightarrow> bool" where
  "described rt s \<longleftrightarrow> truthy (sg_kind s) \<and> py_strip (py_str rt (sg_kind s)) \<noteq> []"

definition enrich_segment :: "py_runtime \<Rightarrow> sniffer \<Rightarrow> string \<Rightarrow> file_row list \<Rightarrow> content_segment \<Rightarrow> content_segment res" where
  "enrich_segment rt sn sid rows s =
     (if sg_type s \<noteq> SEG_FILE \<or> \<not> truthy (sg_file_id s) \<or> described rt s then Inr s
      else case sg_file_id s of
             JStr fid \<Rightarrow> Inr (case file_get_for_session fid sid rows of
                 None \<Rightarrow> s
               | Some r \<Rightarrow> file_segment fid (Some (describe_user_upload sn (fl_content r) (fl_mime r) (fl_filename r))))
           | _ \<Rightarrow> Inl AttributeError)"

definition enrich_inbound_file_segments :: "py_runtime \<Rightarrow> sniffer \<Rightarrow> string \<Rightarrow> file_row list \<Rightarrow> content_segment list \<Rightarrow> content_segment list res" where
  "enrich_inbound_file_segments rt sn sid rows ss = res_map (enrich_segment rt sn sid rows) ss"

record 'h business =
  bz_store :: runtime_store
  bz_rows :: "event_row list"
  bz_files :: file_service
  bz_routes :: routes
  bz_bus :: "'h bus"

record business_env =
  be_runtime :: py_runtime
  be_sniffer :: sniffer
  be_paths :: path_env
  be_exc_text :: "py_error \<Rightarrow> string"

definition open_session :: "business_env \<Rightarrow> string \<Rightarrow> string \<Rightarrow> string option \<Rightarrow> json_object \<Rightarrow> 'h business \<Rightarrow> string \<times> 'h business" where
  "open_session be fresh platform title meta B =
     (let requested = (case obj_get meta ''workspace_root'' of JStr w \<Rightarrow> Some w | _ \<Rightarrow> None);
          S1 = (bz_store B)\<lparr>rs_sessions := session_create fresh platform title meta (rs_sessions (bz_store B))\<rparr>
      in (fresh, B\<lparr>bz_store := snd (initialize_session (be_paths be) fresh requested S1)\<rparr>))"

definition message_event :: "py_runtime \<Rightarrow> string \<Rightarrow> int \<Rightarrow> inbound_message \<Rightarrow> runtime_event" where
  "message_event rt fresh now m =
     \<lparr>re_type = ETEnum USER_MESSAGE_RECEIVED, re_session_id = in_session m,
      re_payload = JDict [(''trigger_turn'', JBool True), (''task_type'', json_opt JStr (in_task_type m)),
         (''enabled_groups'', json_opt (\<lambda>gs. JList (map JStr gs)) (in_groups m)),
         (''gateway_message_id'', JStr (py_str rt (py_or (obj_get (in_meta m) ''message_id'') (JStr [])))),
         (''adapter_key'', JStr (in_adapter m))],
      re_source = ''gateway:'' @ in_adapter m, re_id = fresh, re_timestamp = now\<rparr>"

text \<open>The stored row of a message that has segments. \<open>db_ok\<close> says whether the insert goes through.\<close>

definition store_message :: "business_env \<Rightarrow> bool \<Rightarrow> string \<Rightarrow> int \<Rightarrow> inbound_message \<Rightarrow> 'h business \<Rightarrow> 'h business res" where
  "store_message be db_ok eid now m B =
     (if in_segments m = [] then Inr B
      else res_bind (enrich_inbound_file_segments (be_runtime be) (be_sniffer be) (in_session m) (fs_files (bz_files B)) (in_segments m)) (\<lambda>ss.
           case block_from_segments ROLE_USER ss of
             None \<Rightarrow> Inl ValueError
           | Some b \<Rightarrow>
               if \<not> db_ok then Inl (RuntimeError ''database'')
               else res_bind (memory_add_session_event eid now (in_session m) b \<lparr>use_prompt = None, use_completion = None, use_total = None\<rparr> (bz_rows B))
                 (\<lambda>rows. Inr (B\<lparr>bz_rows := rows\<rparr>))))"

definition submit_message :: "business_env \<Rightarrow> bool \<Rightarrow> string \<Rightarrow> int \<Rightarrow> inbound_message \<Rightarrow> 'h business \<Rightarrow> (string + unit) \<times> 'h business" where
  "submit_message be db_ok fresh now m B =
     (if dget (rs_sessions (bz_store B)) (in_session m) = None then (Inl (''Session not found: '' @ in_session m), B)
      else case store_message be db_ok fresh now m B of
             Inl e \<Rightarrow> (Inl (be_exc_text be e), B)
           | Inr B1 \<Rightarrow> (Inr (), if in_trigger m then B1\<lparr>bz_bus := publish (message_event (be_runtime be) fresh now m) (bz_bus B1)\<rparr> else B1))"

section \<open>Properties\<close>

subsection \<open>Routes\<close>

text \<open>The reference: the row \<open>n\<close> parents up, whatever it holds, cycles included.\<close>

fun route_walk :: "routes \<Rightarrow> nat \<Rightarrow> string \<Rightarrow> route_row option" where
  "route_walk rows 0 sid = (if sid = [] then None else dget rows sid)"
| "route_walk rows (Suc n) sid = (if sid = [] then None else case dget rows sid of
      None \<Rightarrow> None
    | Some r \<Rightarrow> route_walk rows n (case rt_parent r of Some p \<Rightarrow> p | None \<Rightarrow> []))"

definition has_adapter :: "route_row \<Rightarrow> bool" where
  "has_adapter r \<longleftrightarrow> (case rt_adapter r of Some (c # cs) \<Rightarrow> True | _ \<Rightarrow> False)"

definition parent_of :: "route_row \<Rightarrow> string" where
  "parent_of r = (case rt_parent r of Some p \<Rightarrow> p | None \<Rightarrow> [])"

lemma resolve_from_step:
  "resolve_from rows V cur = (if cur = [] \<or> cur \<in> V then None else case dget rows cur of None \<Rightarrow> None
     | Some r \<Rightarrow> if has_adapter r then Some r else resolve_from rows (insert cur V) (parent_of r))"
  by (subst resolve_from.simps) (auto simp: has_adapter_def parent_of_def split: option.splits list.splits)

lemma route_walk_Suc:
  "route_walk rows (Suc n) sid = (if sid = [] then None else case dget rows sid of None \<Rightarrow> None | Some r \<Rightarrow> route_walk rows n (parent_of r))"
  by (simp add: parent_of_def split: option.split)

declare route_walk.simps(2) [simp del]

lemma resolve_walk_induct:
  assumes "\<And>rows V cur. (\<And>q. cur \<noteq> [] \<Longrightarrow> cur \<notin> V \<Longrightarrow> dget rows cur = Some q \<Longrightarrow> \<not> has_adapter q \<Longrightarrow> P rows (insert cur V) (parent_of q)) \<Longrightarrow> P rows V cur"
  shows "P rows V cur"
proof (induction rows V cur rule: resolve_from.induct)
  case (1 rows V cur)
  show ?case
  proof (rule assms)
    fix q assume "cur \<noteq> []" "cur \<notin> V" "dget rows cur = Some q" "\<not> has_adapter q"
    with 1 show "P rows (insert cur V) (parent_of q)"
      by (cases "rt_adapter q") (auto simp: has_adapter_def parent_of_def split: list.splits)
  qed
qed

definition nearest :: "routes \<Rightarrow> nat \<Rightarrow> string \<Rightarrow> route_row \<Rightarrow> bool" where
  "nearest rows n sid r \<longleftrightarrow> route_walk rows n sid = Some r \<and> has_adapter r \<and>
     (\<forall>k < n. \<forall>q. route_walk rows k sid = Some q \<longrightarrow> \<not> has_adapter q)"

lemma nearest_0: "sid \<noteq> [] \<Longrightarrow> dget rows sid = Some r \<Longrightarrow> has_adapter r \<Longrightarrow> nearest rows 0 sid r"
  by (simp add: nearest_def)

lemma nearest_Suc:
  assumes "sid \<noteq> []" "dget rows sid = Some q" "\<not> has_adapter q" "nearest rows n (parent_of q) r"
  shows "nearest rows (Suc n) sid r"
proof -
  have "\<not> has_adapter p" if "k < Suc n" "route_walk rows k sid = Some p" for k p
    using that assms by (cases k) (auto simp: nearest_def route_walk_Suc)
  then show ?thesis using assms by (auto simp: nearest_def route_walk_Suc)
qed

lemma nearest_unique: "nearest rows n sid r \<Longrightarrow> nearest rows m sid q \<Longrightarrow> r = q"
  unfolding nearest_def by (metis linorder_neqE_nat option.inject)

lemma resolve_from_sound: "resolve_from rows V cur = Some r \<Longrightarrow> \<exists>n. nearest rows n cur r"
proof (induction rows V cur rule: resolve_walk_induct)
  case (1 rows V cur)
  from 1(2) obtain q where q: "cur \<noteq> []" "cur \<notin> V" "dget rows cur = Some q"
    and r: "if has_adapter q then r = q else resolve_from rows (insert cur V) (parent_of q) = Some r"
    by (subst (asm) resolve_from_step) (auto split: if_splits option.splits)
  with 1(1) show ?case by (cases "has_adapter q") (auto intro: nearest_0 nearest_Suc)
qed

lemma closed_walk:
  assumes "\<And>v. v \<in> V \<Longrightarrow> \<exists>q. dget rows v = Some q \<and> \<not> has_adapter q \<and> parent_of q \<in> V"
    and "cur \<in> V" "route_walk rows n cur = Some r"
  shows "\<not> has_adapter r"
  using assms(2,3)
proof (induction n arbitrary: cur)
  case 0 with assms(1) [of cur] show ?case by (auto split: if_splits)
next
  case (Suc n) with assms(1) [of cur] show ?case by (auto simp: route_walk_Suc split: if_splits)
qed

lemma resolve_from_complete:
  assumes "resolve_from rows V cur = None"
    and "\<And>v. v \<in> V \<Longrightarrow> \<exists>q. dget rows v = Some q \<and> \<not> has_adapter q \<and> parent_of q \<in> insert cur V"
    and "route_walk rows n cur = Some r"
  shows "\<not> has_adapter r"
  using assms
proof (induction rows V cur arbitrary: n rule: resolve_walk_induct)
  case (1 rows V cur)
  show ?case
  proof (cases "cur \<in> V")
    case True
    with 1(3) have "\<And>v. v \<in> V \<Longrightarrow> \<exists>q. dget rows v = Some q \<and> \<not> has_adapter q \<and> parent_of q \<in> V" by (metis insert_absorb)
    then show ?thesis using closed_walk True 1(4) by blast
  next
    case False
    with 1(4) obtain q where q: "cur \<noteq> []" "dget rows cur = Some q"
      by (cases n) (auto simp: route_walk_Suc split: if_splits option.splits)
    with 1(2) False have nq: "\<not> has_adapter q" and none: "resolve_from rows (insert cur V) (parent_of q) = None"
      by (subst (asm) resolve_from_step, auto split: if_splits)+
    show ?thesis
    proof (cases n)
      case 0 with 1(4) q nq show ?thesis by simp
    next
      case (Suc m)
      with 1(4) q have w: "route_walk rows m (parent_of q) = Some r" by (simp add: route_walk_Suc)
      have inv: "\<exists>p. dget rows v = Some p \<and> \<not> has_adapter p \<and> parent_of p \<in> insert (parent_of q) (insert cur V)"
        if "v \<in> insert cur V" for v using that q nq 1(3) [of v] by auto
      show ?thesis by (rule 1(1) [OF q(1) False q(2) nq none inv w])
    qed
  qed
qed

text \<open> Outbound routing finds the nearest session up the chain of parents, the session itself included,
  whose row names an adapter, and finds none exactly when there is none on the chain, whatever cycles the
  parents form.\<close>

theorem route_is_nearest_ancestor:
  "route_resolve rows sid = Some r \<longleftrightarrow>
     (\<exists>n. route_walk rows n sid = Some r \<and> has_adapter r \<and>
        (\<forall>k < n. \<forall>q. route_walk rows k sid = Some q \<longrightarrow> \<not> has_adapter q))"
proof -
  have "route_resolve rows sid = Some r \<longleftrightarrow> (\<exists>n. nearest rows n sid r)"
  proof
    assume "\<exists>n. nearest rows n sid r"
    then obtain n where n: "nearest rows n sid r" by blast
    then obtain q where "route_resolve rows sid = Some q"
      using resolve_from_complete [of rows "{}" sid n r] by (cases "resolve_from rows {} sid") (auto simp: nearest_def route_resolve_def)
    then show "route_resolve rows sid = Some r"
      using resolve_from_sound n nearest_unique by (auto simp: route_resolve_def) blast
  qed (simp add: route_resolve_def resolve_from_sound)
  then show ?thesis by (simp add: nearest_def)
qed

definition demo_routes :: routes where
  "demo_routes = [(''s1'', \<lparr>rt_adapter = Some ''http'', rt_sender = [], rt_parent = None\<rparr>),
     (''s2'', \<lparr>rt_adapter = None, rt_sender = [], rt_parent = Some ''s1''\<rparr>), (''s3'', \<lparr>rt_adapter = Some [], rt_sender = [], rt_parent = Some ''s2''\<rparr>),
     (''c1'', \<lparr>rt_adapter = None, rt_sender = [], rt_parent = Some ''c2''\<rparr>), (''c2'', \<lparr>rt_adapter = None, rt_sender = [], rt_parent = Some ''c1''\<rparr>)]"

theorem route_is_nearest_ancestor_witness:
  "route_resolve demo_routes ''s3'' = Some \<lparr>rt_adapter = Some ''http'', rt_sender = [], rt_parent = None\<rparr> \<and> route_resolve demo_routes ''c1'' = None"
proof
  have "route_walk demo_routes 2 ''s3'' = Some \<lparr>rt_adapter = Some ''http'', rt_sender = [], rt_parent = None\<rparr>" by code_simp
  moreover have "\<not> has_adapter q" if "k < 2" "route_walk demo_routes k ''s3'' = Some q" for k q
    using that by (cases k) (auto simp: demo_routes_def route_walk_Suc has_adapter_def parent_of_def)
  ultimately show "route_resolve demo_routes ''s3'' = Some \<lparr>rt_adapter = Some ''http'', rt_sender = [], rt_parent = None\<rparr>"
    unfolding route_is_nearest_ancestor by (intro exI [of _ 2]) (auto simp: has_adapter_def)
  show "route_resolve demo_routes ''c1'' = None"
    by (simp add: route_resolve_def resolve_from_step demo_routes_def has_adapter_def parent_of_def)
qed

subsection \<open>Accepted messages\<close>

lemma stored_block_reads_back:
  assumes "memory_add_session_event eid now sid b u rows = Inr rows'" and "canonical_block b"
  shows "\<exists>row. rows' = rows @ [row] \<and> ev_session row = sid \<and> ev_id row = eid \<and> items_of_row rt row = Inr [Block b]"
proof -
  obtain content where c: "serialize_message_content b = Inr content"
    and i: "\<And>r. ev_type r = ''session_event'' \<Longrightarrow> ev_role r = Some (role_str (mb_role b)) \<Longrightarrow> ev_content r = content \<Longrightarrow> items_of_row rt r = Inr [Block b]"
    using items_of_row_block [OF assms(2)] by blast
  from assms(1) c show ?thesis by (auto simp: memory_add_session_event_def repo_add_session_event_def intro!: i)
qed

lemma store_message_Inr:
  assumes "store_message be db_ok eid now m B = Inr B1"
  shows "bz_bus B1 = bz_bus B"
    and "in_segments m = [] \<Longrightarrow> B1 = B"
    and "in_segments m \<noteq> [] \<Longrightarrow> \<exists>ss b row. enrich_inbound_file_segments (be_runtime be) (be_sniffer be) (in_session m) (fs_files (bz_files B)) (in_segments m) = Inr ss \<and>
      block_from_segments ROLE_USER ss = Some b \<and> bz_rows B1 = bz_rows B @ [row] \<and> ev_session row = in_session m \<and> ev_id row = eid \<and> items_of_row rt row = Inr [Block b]"
  using assms stored_block_reads_back [OF _ block_from_segments_canonical, where rt = rt]
  by (auto simp: store_message_def res_bind_Inr_iff split: if_splits option.splits)

lemma message_event_parses:
  obtains p where "user_message_from_event (message_event rt fresh now m) = Inr p" "um_trigger_turn p" "ep_session_id p = in_session m"
  by (auto simp: user_message_from_event_def event_payload_obj_def message_event_def py_or_def)

text \<open>C23. A message that is accepted belongs to an existing session; it adds exactly one row to the event
  log when it has segments, from which the history reads the user's message back with its uploads
  described, and publishes exactly one event, behind the session's others, when it asks for a turn. The event is
  one the scheduler takes as a user message that triggers a turn. A message that is refused changes nothing.\<close>

theorem accepted_message_reaches_bus:
  assumes "submit_message be db_ok fresh now m B = (r, B')"
  shows "case r of
      Inl _ \<Rightarrow> B' = B
    | Inr _ \<Rightarrow> dget (rs_sessions (bz_store B)) (in_session m) \<noteq> None \<and>
        (if in_segments m = [] then bz_rows B' = bz_rows B
         else \<exists>ss b row. enrich_inbound_file_segments (be_runtime be) (be_sniffer be) (in_session m) (fs_files (bz_files B)) (in_segments m) = Inr ss \<and>
           block_from_segments ROLE_USER ss = Some b \<and> bz_rows B' = bz_rows B @ [row] \<and> ev_session row = in_session m \<and>
           ev_id row = fresh \<and> items_of_row rt row = Inr [Block b]) \<and>
        (if \<not> in_trigger m then bz_bus B' = bz_bus B
         else \<exists>e p. type_value e = ''user_message_received'' \<and> user_message_from_event e = Inr p \<and> um_trigger_turn p \<and>
           (\<forall>sid. pending (bz_bus B') sid = pending (bz_bus B) sid @ (if sid = in_session m then [e] else [])))"
proof (cases r)
  case (Inl x)
  with assms show ?thesis by (auto simp: submit_message_def split: if_splits sum.splits)
next
  case (Inr x)
  with assms obtain B1 where B1: "store_message be db_ok fresh now m B = Inr B1"
    and B': "B' = (if in_trigger m then B1\<lparr>bz_bus := publish (message_event (be_runtime be) fresh now m) (bz_bus B1)\<rparr> else B1)"
    and s: "dget (rs_sessions (bz_store B)) (in_session m) \<noteq> None"
    by (auto simp: submit_message_def split: if_splits sum.splits)
  note st = store_message_Inr [OF B1]
  let ?e = "message_event (be_runtime be) fresh now m"
  have rows: "bz_rows B' = bz_rows B1" by (simp add: B')
  obtain p where p: "user_message_from_event ?e = Inr p" "um_trigger_turn p" by (rule message_event_parses)
  have "type_value ?e = ''user_message_received''" by (simp add: message_event_def type_value_def)
  moreover have "\<forall>sid. pending (publish ?e (bz_bus B)) sid = pending (bz_bus B) sid @ (if sid = in_session m then [?e] else [])"
    by (simp add: pending_publish message_event_def)
  ultimately have "in_trigger m \<Longrightarrow> \<exists>e p. type_value e = ''user_message_received'' \<and> user_message_from_event e = Inr p \<and> um_trigger_turn p \<and>
      (\<forall>sid. pending (bz_bus B') sid = pending (bz_bus B) sid @ (if sid = in_session m then [e] else []))"
    using p by (intro exI [of _ ?e] exI [of _ p]) (simp add: B' st(1))
  moreover have "\<not> in_trigger m \<Longrightarrow> bz_bus B' = bz_bus B" by (simp add: B' st(1))
  moreover have "in_segments m = [] \<Longrightarrow> bz_rows B' = bz_rows B" using st(2) rows by simp
  moreover have "in_segments m \<noteq> [] \<Longrightarrow> \<exists>ss b row. enrich_inbound_file_segments (be_runtime be) (be_sniffer be) (in_session m) (fs_files (bz_files B)) (in_segments m) = Inr ss \<and>
           block_from_segments ROLE_USER ss = Some b \<and> bz_rows B' = bz_rows B @ [row] \<and> ev_session row = in_session m \<and>
           ev_id row = fresh \<and> items_of_row rt row = Inr [Block b]" using st(3) [of rt] rows by fastforce
  ultimately show ?thesis using Inr s by simp
qed

definition demo_business_env :: business_env where
  "demo_business_env = \<lparr>be_runtime = null_runtime, be_sniffer = \<lparr>sn_guess = (\<lambda>_. None), sn_guess_name = (\<lambda>_. None)\<rparr>,
     be_paths = \<lparr>pe_state_root = ''/data'', pe_normalize = id, pe_materialize = id\<rparr>, be_exc_text = (\<lambda>_. ''error'')\<rparr>"

definition demo_business :: "unit business" where
  "demo_business = \<lparr>bz_store = \<lparr>rs_cache = [], rs_sessions = [(''s1'', \<lparr>se_platform = ''web'', se_title = None, se_meta = []\<rparr>)]\<rparr>, bz_rows = [],
     bz_files = \<lparr>fs_uploads = [], fs_files = file_create ''file_1'' ''s1'' ''a.txt'' ''abc'' (Some ''text/plain'') [], fs_events = []\<rparr>,
     bz_routes = demo_routes, bz_bus = bus_init 1\<rparr>"

definition demo_message :: inbound_message where
  "demo_message = \<lparr>in_session = ''s1'', in_adapter = ''http'', in_segments = [file_segment ''file_1'' None, text_segment (JStr ''look'')],
     in_trigger = True, in_sender = None, in_task_type = None, in_groups = None, in_meta = []\<rparr>"

definition demo_submit :: "(string + unit) \<times> unit business" where
  "demo_submit = submit_message demo_business_env True ''e1'' 7 demo_message demo_business"

theorem accepted_message_reaches_bus_witness:
  "\<exists>b row e. block_from_segments ROLE_USER [file_segment ''file_1'' (Some ''The user uploaded a file of type plain text. Original filename: a.txt.''),
        text_segment (JStr ''look'')] = Some b \<and>
     bz_rows (snd demo_submit) = [row] \<and> items_of_row null_runtime row = Inr [Block b] \<and> pending (bz_bus (snd demo_submit)) ''s1'' = [e]"
proof -
  have ok: "submit_message demo_business_env True ''e1'' 7 demo_message demo_business = (Inr (), snd demo_submit)"
    unfolding demo_submit_def by (rule prod_eqI) (simp, code_simp, simp)
  have "enrich_inbound_file_segments (be_runtime demo_business_env) (be_sniffer demo_business_env) (in_session demo_message) (fs_files (bz_files demo_business)) (in_segments demo_message) =
      Inr [file_segment ''file_1'' (Some ''The user uploaded a file of type plain text. Original filename: a.txt.''), text_segment (JStr ''look'')]" by code_simp
  moreover have "bz_rows demo_business = []" "in_segments demo_message \<noteq> []" "in_trigger demo_message" "in_session demo_message = ''s1''"
    "pending (bz_bus demo_business) ''s1'' = []" by (simp_all add: demo_business_def demo_message_def pending_def bus_init_def)
  ultimately show ?thesis
    using accepted_message_reaches_bus [OF ok, where rt = null_runtime] by simp (metis append_Nil)
qed

end
