(* ===== verification/Bridge.thy ===== *)
theory Bridge
  imports Ingress Subtasks
begin

text \<open>
  The bridge between the two processes: the business side (\<open>UserGateway\<close> of \<^verbatim>\<open>bridge/user_gateway.py\<close>),
  the gateway side (\<open>WsBridgeClient\<close> of \<^verbatim>\<open>gateway/bridge/ws_client.py\<close>) and the connection between them,
  which may break at any time and is then set up again.

  A frame is handled in one step. What a handler sends is a list of frames, in order; identifiers of new
  frames and the time come from the caller. The gateway control plane and the adapters are parameters.
\<close>

section \<open>The business side\<close>

definition task_type_of_status :: "string \<Rightarrow> string" where
  "task_type_of_status status =
     (let raw = py_lower (py_strip status)
      in if py_startswith raw ''running:''
         then (let t = py_strip (snd (py_split1 CHR '':'' raw)) in if t \<noteq> [] then t else ''general'')
         else ''general'')"

definition status_display :: "string \<Rightarrow> string" where
  "status_display status =
     (let raw = py_lower (py_strip status)
      in if raw \<in> {''completed'', ''failed'', ''cancelled''} then raw
         else if py_startswith raw ''running'' then ''running''
         else if raw = ''active'' then ''running''
         else if raw \<noteq> [] then raw else ''running'')"

text \<open>\<open>_RecentFrameSet\<close>: the newest \<open>limit\<close> identifiers, oldest first.\<close>

record recent_set =
  rc_limit :: nat
  rc_data :: "string list"

definition new_recent_set :: "nat \<Rightarrow> recent_set" where
  "new_recent_set limit = \<lparr>rc_limit = max 1 limit, rc_data = []\<rparr>"

definition recent_add :: "string \<Rightarrow> recent_set \<Rightarrow> recent_set" where
  "recent_add fid R = (let d = filter (\<lambda>x. x \<noteq> fid) (rc_data R) @ [fid] in R\<lparr>rc_data := drop (length d - rc_limit R) d\<rparr>)"

definition recent_contains :: "recent_set \<Rightarrow> string \<Rightarrow> bool" where
  "recent_contains R fid \<longleftrightarrow> fid \<in> set (rc_data R)"

text \<open>What the settings say, and what lies behind the gateway: \<open>gv_control\<close> is \<open>GatewayControl.handle\<close>.\<close>

record 'h gateway_env =
  gv_business :: business_env
  gv_sha :: "string \<Rightarrow> string"
  gv_token :: string
  gv_limits :: json_object
  gv_chunk_bytes :: int
  gv_backlog_size :: nat
  gv_loads :: "string \<Rightarrow> json option"
  gv_control :: "(string \<Rightarrow> json_object \<Rightarrow> 'h business \<Rightarrow> (string + json) \<times> 'h business) option"

record 'h gateway =
  gw_active :: "nat option"
  gw_gateway_id :: "string option"
  gw_connection :: "string option"
  gw_processed :: recent_set
  gw_acked :: "string set"
  gw_backlog :: "bridge_frame list"
  gw_business :: "'h business"

definition mk_frame :: "string \<Rightarrow> json_object \<Rightarrow> string \<Rightarrow> int \<Rightarrow> bridge_frame" where
  "mk_frame ty payload fid now = \<lparr>fr_type = ty, fr_payload = payload, fr_id = fid, fr_ts = now, fr_v = PROTOCOL_VERSION, fr_trace = None\<rparr>"

definition ack_frame :: "string \<Rightarrow> string \<Rightarrow> string \<Rightarrow> (string \<times> string) option \<Rightarrow> string \<Rightarrow> int \<Rightarrow> bridge_frame" where
  "ack_frame ref_type ref_id status err fresh now = mk_frame ''ack'' (ack_to_dict
     \<lparr>ak_ref_type = ref_type, ak_ref_id = ref_id, ak_status = status,
      ak_error = map_option (\<lambda>(code, message). [(''code'', JStr code), (''message'', JStr message)]) err\<rparr>) fresh now"

section \<open>Sending to the gateway\<close>

definition OUTBOUND_BROADCAST :: string where
  "OUTBOUND_BROADCAST = ''__fc_broadcast__''"

definition nonempty :: "string option \<Rightarrow> bool" where
  "nonempty v \<longleftrightarrow> v \<noteq> None \<and> v \<noteq> Some []"

definition enrich_outbound :: "routes \<Rightarrow> outbound_message \<Rightarrow> outbound_message" where
  "enrich_outbound routes m =
     (if ob_session m = OUTBOUND_BROADCAST then m\<lparr>ob_adapter := Some ''http'', ob_sender := None\<rparr>
      else if nonempty (ob_adapter m) \<and> ob_sender m \<noteq> None then m
      else case route_resolve routes (ob_session m) of
             None \<Rightarrow> m
           | Some r \<Rightarrow> if \<not> nonempty (rt_adapter r) then m
               else m\<lparr>ob_adapter := (if nonempty (ob_adapter m) then ob_adapter m else rt_adapter r),
                      ob_sender := (if ob_sender m \<noteq> None then ob_sender m else if rt_sender r \<noteq> [] then Some (rt_sender r) else None)\<rparr>)"

text \<open>The frames that go out now: none without an active connection.\<close>

definition outbound_frame :: "string \<Rightarrow> int \<Rightarrow> outbound_message \<Rightarrow> 'h gateway \<Rightarrow> bridge_frame" where
  "outbound_frame fresh now m G = mk_frame ''outbound'' (outbound_to_payload (enrich_outbound (bz_routes (gw_business G)) m)) fresh now"

definition push_outbound :: "'h gateway_env \<Rightarrow> string \<Rightarrow> int \<Rightarrow> outbound_message \<Rightarrow> 'h gateway \<Rightarrow> bridge_frame list \<times> 'h gateway" where
  "push_outbound gv fresh now m G =
     (let frame = outbound_frame fresh now m G; backlog = gw_backlog G @ [frame]
      in (if gw_active G \<noteq> None then [frame] else [],
          G\<lparr>gw_backlog := drop (length backlog - gv_backlog_size gv) backlog\<rparr>))"

definition emit_file :: "'h gateway_env \<Rightarrow> string \<Rightarrow> int \<Rightarrow> string \<Rightarrow> string \<Rightarrow> 'h gateway \<Rightarrow> bridge_frame list \<times> 'h gateway" where
  "emit_file gv fresh now sid fid G =
     (if can_callback_user (resolve_session_role_policy sid) \<or> get_parent_session_id (bz_routes (gw_business G)) sid \<noteq> None
      then push_outbound gv fresh now (outbound_file sid fid) G else ([], G))"

definition emit_assistant_text :: "'h gateway_env \<Rightarrow> string \<Rightarrow> int \<Rightarrow> string \<Rightarrow> string \<Rightarrow> 'h gateway \<Rightarrow> bridge_frame list \<times> 'h gateway" where
  "emit_assistant_text gv fresh now sid text G =
     (if py_strip text = [] then ([], G) else push_outbound gv fresh now (outbound_text sid (py_strip text)) G)"

definition emit_tool_call ::
  "'h gateway_env \<Rightarrow> string \<Rightarrow> int \<Rightarrow> string \<Rightarrow> string \<Rightarrow> string \<Rightarrow> string \<Rightarrow> 'h gateway \<Rightarrow> bridge_frame list \<times> 'h gateway" where
  "emit_tool_call gv fresh now sid call_id name arguments G =
     push_outbound gv fresh now (outbound_event sid ''tool_call''
       (tool_call_content call_id name (parse_tool_arguments_json (gv_loads gv) arguments))) G"

definition emit_tool_result :: "'h gateway_env \<Rightarrow> string \<Rightarrow> int \<Rightarrow> string \<Rightarrow> tool_round \<Rightarrow> 'h gateway \<Rightarrow> bridge_frame list \<times> 'h gateway" where
  "emit_tool_result gv fresh now sid t G =
     push_outbound gv fresh now (outbound_event sid ''tool_result'' (tool_result_content
       \<lparr>te_call_id = tr_call_id t, te_name = tr_name t, te_ok = tr_success t, te_result = (if tr_success t then JStr (tr_result t) else JNull),
        te_error = (if tr_success t then None else Some (if tr_result t \<noteq> [] then tr_result t else ''error'')), te_duration = None\<rparr>)) G"

definition emit_timer_tick :: "'h gateway_env \<Rightarrow> string \<Rightarrow> int \<Rightarrow> string \<Rightarrow> timer_tick \<Rightarrow> 'h gateway \<Rightarrow> bridge_frame list \<times> 'h gateway" where
  "emit_timer_tick gv fresh now sid t G =
     push_outbound gv fresh now (outbound_event sid ''timer_tick'' (timer_tick_content
       (t\<lparr>tt_run := max 1 (tt_run t), tt_payload := strip_or_none (case tt_payload t of Some p \<Rightarrow> p | None \<Rightarrow> [])\<rparr>))) G"

definition emit_telemetry :: "'h gateway_env \<Rightarrow> string \<Rightarrow> int \<Rightarrow> json_object \<Rightarrow> bool option \<Rightarrow> 'h gateway \<Rightarrow> bridge_frame list \<times> 'h gateway" where
  "emit_telemetry gv fresh now heartbeat reins G =
     push_outbound gv fresh now (outbound_event OUTBOUND_BROADCAST ''telemetry'' (telemetry_to_dict heartbeat reins)) G"

text \<open>
  \<open>collect_subagent_task_rows\<close> for one child: its session (title, time, metadata), if it still exists,
  its event statistics and its record, if the main session knows it.
\<close>

record child_info =
  ch_session :: string
  ch_title :: "string option"
  ch_updated :: int
  ch_meta :: json_object
  ch_events :: int
  ch_last_event :: "int option"

definition meta_str :: "child_info \<Rightarrow> string \<Rightarrow> string option" where
  "meta_str ch k = (case obj_get (ch_meta ch) k of JStr s \<Rightarrow> Some s | _ \<Rightarrow> None)"

definition subagent_row :: "string \<Rightarrow> sub_task_record option \<Rightarrow> child_info \<Rightarrow> subagent_task" where
  "subagent_row parent record ch =
     (let title0 = (case ch_title ch of None \<Rightarrow> [] | Some t \<Rightarrow> t);
          status1 = (case record of Some r \<Rightarrow> py_strip (st_status r) | None \<Rightarrow> []);
          status2 = (if status1 = [] then (case meta_str ch ''subtask_status'' of Some s \<Rightarrow> py_strip s | None \<Rightarrow> []) else status1);
          status = (if status2 = [] then ''running:general'' else status2);
          task_type = (case (record, meta_str ch ''task_type'') of
              (None, Some t) \<Rightarrow> task_type_of_status (''running:'' @ t) | _ \<Rightarrow> task_type_of_status status);
          instruction1 = (case record of Some r \<Rightarrow> py_strip (st_instruction r) | None \<Rightarrow> []);
          instruction = (if instruction1 = [] then (case meta_str ch ''instruction'' of Some s \<Rightarrow> py_strip s | None \<Rightarrow> []) else instruction1);
          title = (if py_startswith (py_lower title0) ''sub-agent of '' then [] else title0);
          label = task_type @ '' | '' @ (if instruction \<noteq> [] then instruction else if title \<noteq> [] then title else ch_session ch)
      in \<lparr>sk_task = ch_session ch, sk_parent = parent, sk_label = take 128 label, sk_status = take 64 status, sk_updated = ch_updated ch,
          sk_display = Some (status_display status), sk_task_type = Some (take 32 task_type),
          sk_instruction = (if instruction \<noteq> [] then Some (take 200 instruction) else None), sk_child = Some (ch_session ch),
          sk_detail = (case record of Some r \<Rightarrow> if st_summary r \<noteq> [] then Some (st_summary r) else None | None \<Rightarrow> None),
          sk_events = Some (ch_events ch), sk_last_event = ch_last_event ch\<rparr>)"

definition collect_subagent_task_rows :: "string \<Rightarrow> subtask_state \<Rightarrow> child_info list \<Rightarrow> json_object list" where
  "collect_subagent_task_rows parent st children =
     (if \<not> can_callback_user (resolve_session_role_policy parent) then []
      else map (\<lambda>ch. subagent_task_to_dict (subagent_row parent
             (map_of (map (\<lambda>r. (st_sub_session_id r, r)) (rev (list_records st None))) (ch_session ch)) ch)) children)"

definition emit_subagent_tasks :: "'h gateway_env \<Rightarrow> string \<Rightarrow> int \<Rightarrow> string \<Rightarrow> json_object list \<Rightarrow> 'h gateway \<Rightarrow> bridge_frame list \<times> 'h gateway" where
  "emit_subagent_tasks gv fresh now parent rows G =
     push_outbound gv fresh now (outbound_event parent ''subagent_tasks'' [(''tasks'', JList (map JDict rows))]) G"

definition replay_backlog :: "'h gateway \<Rightarrow> bridge_frame list" where
  "replay_backlog G = filter (\<lambda>f. fr_id f \<notin> gw_acked G) (gw_backlog G)"

section \<open>Handling a frame\<close>

text \<open>\<open>Stopped\<close> is an exception that leaves the handler and ends the connection, \<open>Closed\<close> a refused hello.\<close>

datatype frame_outcome = Handled | Closed | Stopped py_error

definition handle_hello :: "'h gateway_env \<Rightarrow> string \<Rightarrow> int \<Rightarrow> nat \<Rightarrow> bridge_frame \<Rightarrow> 'h gateway \<Rightarrow> frame_outcome \<times> bridge_frame list \<times> 'h gateway" where
  "handle_hello gv fresh now ws f G =
     (let rt = be_runtime (gv_business gv)
      in if obj_get (fr_payload f) ''token'' \<noteq> JStr (gv_token gv)
         then (Closed, [mk_frame ''hello_ack'' (hello_ack_to_dict \<lparr>ha_ok = False, ha_connection = [], ha_limits = [],
                 ha_error = Some [(''code'', JStr ''auth_failed''), (''message'', JStr ''Invalid bridge token'')]\<rparr>) fresh now], G)
         else (Handled, [mk_frame ''hello_ack'' (hello_ack_to_dict \<lparr>ha_ok = True, ha_connection = ''conn_'' @ fresh, ha_limits = gv_limits gv, ha_error = None\<rparr>) fresh now],
               G\<lparr>gw_active := Some ws, gw_gateway_id := Some (str_field rt (fr_payload f) ''gateway_id''), gw_connection := Some (''conn_'' @ fresh)\<rparr>))"

definition handle_session_open :: "'h gateway_env \<Rightarrow> bool \<Rightarrow> string \<Rightarrow> int \<Rightarrow> bridge_frame \<Rightarrow> 'h gateway \<Rightarrow> bridge_frame list \<times> 'h gateway" where
  "handle_session_open gv db_ok fresh now f G =
     (let be = gv_business gv; p = session_open_from_payload (be_runtime be) (fr_payload f);
          reply = (\<lambda>a. mk_frame ''session_open_ack'' (session_open_ack_to_dict a) (fr_id f) now)
      in if db_ok
         then (let (sid, B) = open_session be (''sess_'' @ fresh) (so_platform p) (so_title p) (so_meta p) (gw_business G)
               in ([reply \<lparr>sa_ok = True, sa_session = Some sid, sa_error = None\<rparr>], G\<lparr>gw_business := B\<rparr>))
         else ([reply \<lparr>sa_ok = False, sa_session = None, sa_error = Some [(''code'', JStr ''session_open_failed''),
                  (''message'', JStr (be_exc_text be (RuntimeError ''database'')))]\<rparr>], G))"

text \<open>The two halves of handling an inbound frame: submitting takes time, the check comes before it.\<close>

definition submit_inbound :: "'h gateway_env \<Rightarrow> bool \<Rightarrow> string \<Rightarrow> int \<Rightarrow> bridge_frame \<Rightarrow> 'h gateway \<Rightarrow> bridge_frame list \<times> 'h gateway" where
  "submit_inbound gv db_ok fresh now f G =
     (let be = gv_business gv; failed = (\<lambda>text. ack_frame ''inbound'' (fr_id f) ''failed'' (Some (''inbound_failed'', text)) fresh now)
      in case inbound_from_payload (be_runtime be) (fr_payload f) of
           Inl e \<Rightarrow> ([failed (be_exc_text be e)], G)
         | Inr m \<Rightarrow> (case submit_message be db_ok fresh now m (gw_business G) of
             (Inl text, B) \<Rightarrow> ([failed text], G\<lparr>gw_business := B\<rparr>)
           | (Inr _, B) \<Rightarrow> ([ack_frame ''inbound'' (fr_id f) ''ok'' None fresh now],
                           G\<lparr>gw_business := B, gw_processed := recent_add (fr_id f) (gw_processed G)\<rparr>)))"

definition handle_inbound :: "'h gateway_env \<Rightarrow> bool \<Rightarrow> string \<Rightarrow> int \<Rightarrow> bridge_frame \<Rightarrow> 'h gateway \<Rightarrow> bridge_frame list \<times> 'h gateway" where
  "handle_inbound gv db_ok fresh now f G =
     (if recent_contains (gw_processed G) (fr_id f) then ([ack_frame ''inbound'' (fr_id f) ''duplicate'' None fresh now], G)
      else submit_inbound gv db_ok fresh now f G)"

definition handle_control :: "'h gateway_env \<Rightarrow> string \<Rightarrow> int \<Rightarrow> bridge_frame \<Rightarrow> 'h gateway \<Rightarrow> bridge_frame list \<times> 'h gateway" where
  "handle_control gv fresh now f G =
     (let reply = (\<lambda>rest. mk_frame ''gateway_control_ack'' ((''request_id'', JStr (fr_id f)) # rest) (''gca_'' @ fresh) now);
          refused = (\<lambda>code message. reply [(''ok'', JBool False), (''error'', JDict [(''code'', JStr code), (''message'', JStr message)])])
      in case gv_control gv of
           None \<Rightarrow> ([refused ''control_unavailable'' ''Gateway control is not configured''], G)
         | Some control \<Rightarrow>
            (case control (str_field (be_runtime (gv_business gv)) (fr_payload f) ''op'') (dict_field (fr_payload f) ''body'') (gw_business G) of
               (Inl text, B) \<Rightarrow> ([refused ''control_failed'' text], G\<lparr>gw_business := B\<rparr>)
             | (Inr result, B) \<Rightarrow> ([reply [(''ok'', JBool True), (''body'', result)]], G\<lparr>gw_business := B\<rparr>)))"

definition put_reply :: "int \<Rightarrow> bridge_frame \<Rightarrow> file_put_ack res \<times> file_service \<Rightarrow> 'h gateway \<Rightarrow> frame_outcome \<times> bridge_frame list \<times> 'h gateway" where
  "put_reply now f r G =
     (let G' = G\<lparr>gw_business := (gw_business G)\<lparr>bz_files := snd r\<rparr>\<rparr>
      in case fst r of Inl e \<Rightarrow> (Stopped e, [], G') | Inr ack \<Rightarrow> (Handled, [mk_frame ''file_put_ack'' (put_ack_to_payload ack) (fr_id f) now], G'))"

definition handle_file_put :: "'h gateway_env \<Rightarrow> bool \<Rightarrow> string \<Rightarrow> int \<Rightarrow> bridge_frame \<Rightarrow> 'h gateway \<Rightarrow> frame_outcome \<times> bridge_frame list \<times> 'h gateway" where
  "handle_file_put gv db_ok fresh now f G =
     (let rt = be_runtime (gv_business gv); S = bz_files (gw_business G); stop = (\<lambda>e. (Stopped e, [], G))
      in if fr_type f = ''file_put_init''
         then (case put_init_from_payload rt (fr_payload f) of Inl e \<Rightarrow> stop e
               | Inr r \<Rightarrow> (let (ack, S') = put_init (''upload_'' @ fresh) r S in put_reply now f (Inr ack, S') G))
         else if fr_type f = ''file_put_chunk''
         then (case put_chunk_from_payload rt (fr_payload f) of Inl e \<Rightarrow> stop e | Inr c \<Rightarrow> put_reply now f (put_chunk c S) G)
         else (case put_commit_from_payload rt (fr_payload f) of Inl e \<Rightarrow> stop e
               | Inr m \<Rightarrow> put_reply now f (put_commit (gv_sha gv) db_ok True (''file_'' @ take 12 fresh) m S) G))"

definition handle_file_get :: "'h gateway_env \<Rightarrow> string \<Rightarrow> int \<Rightarrow> bridge_frame \<Rightarrow> 'h gateway \<Rightarrow> frame_outcome \<times> bridge_frame list \<times> 'h gateway" where
  "handle_file_get gv fresh now f G =
     (case get_chunks (get_request_from_payload (be_runtime (gv_business gv)) (fr_id f) (fr_payload f)) (gv_chunk_bytes gv) (bz_files (gw_business G)) of
        Inl e \<Rightarrow> (Stopped e, [], G)
      | Inr (chunks, ack) \<Rightarrow> (Handled, map (\<lambda>c. mk_frame ''file_get_chunk'' (get_chunk_to_payload c) fresh now) chunks @
            [mk_frame ''file_get_ack'' (get_ack_to_payload ack) (fr_id f) now], G))"

definition handle_ack :: "'h gateway_env \<Rightarrow> bridge_frame \<Rightarrow> 'h gateway \<Rightarrow> 'h gateway" where
  "handle_ack gv f G =
     (let rt = be_runtime (gv_business gv); d = fr_payload f
      in if str_field rt d ''ref_type'' = ''outbound'' \<and> str_field rt d ''status'' \<in> {''ok'', ''duplicate''}
         then G\<lparr>gw_acked := insert (str_field rt d ''ref_id'') (gw_acked G)\<rparr> else G)"

definition handle_frame ::
  "'h gateway_env \<Rightarrow> bool \<Rightarrow> string \<Rightarrow> int \<Rightarrow> nat \<Rightarrow> bridge_frame \<Rightarrow> 'h gateway \<Rightarrow> frame_outcome \<times> bridge_frame list \<times> 'h gateway" where
  "handle_frame gv db_ok fresh now ws f G =
     (let ty = fr_type f; handled = (\<lambda>(out, G'). (Handled, out, G'))
      in if ty = ''hello'' then handle_hello gv fresh now ws f G
         else if ty = ''resume'' then (Handled, replay_backlog G, G)
         else if ty = ''session_open'' then handled (handle_session_open gv db_ok fresh now f G)
         else if ty = ''inbound'' then handled (handle_inbound gv db_ok fresh now f G)
         else if ty = ''gateway_control'' then handled (handle_control gv fresh now f G)
         else if ty \<in> {''file_put_init'', ''file_put_chunk'', ''file_put_commit''} then handle_file_put gv db_ok fresh now f G
         else if ty = ''file_get'' then handle_file_get gv fresh now f G
         else if ty = ''ack'' then (Handled, [], handle_ack gv f G)
         else if ty = ''heartbeat'' then (Handled, [mk_frame ''heartbeat'' (fr_payload f) fresh now], G)
         else (let message = ''Unsupported frame type: '' @ ty
               in (Handled, [mk_frame ''error'' (error_to_dict ''invalid_frame'' message None) fresh now,
                             ack_frame ''frame'' (fr_id f) ''invalid'' (Some (''invalid_frame'', message)) fresh now], G)))"

text \<open>The end of a connection (\<open>finally\<close> of \<open>handle_connection\<close>).\<close>

definition connection_closed :: "nat \<Rightarrow> 'h gateway \<Rightarrow> 'h gateway" where
  "connection_closed ws G = (if gw_active G = Some ws then G\<lparr>gw_active := None, gw_gateway_id := None, gw_connection := None\<rparr> else G)"

text \<open>The frame is an inbound message that is submitted now.\<close>

definition accepts :: "'h gateway_env \<Rightarrow> bool \<Rightarrow> string \<Rightarrow> int \<Rightarrow> bridge_frame \<Rightarrow> 'h gateway \<Rightarrow> bool" where
  "accepts gv db_ok fresh now f G \<longleftrightarrow> fr_type f = ''inbound'' \<and> \<not> recent_contains (gw_processed G) (fr_id f) \<and>
     (case inbound_from_payload (be_runtime (gv_business gv)) (fr_payload f) of
        Inl _ \<Rightarrow> False
      | Inr m \<Rightarrow> fst (submit_message (gv_business gv) db_ok fresh now m (gw_business G)) = Inr ())"

section \<open>What a handler changes\<close>

lemma recent_add_contains [simp]: "1 \<le> rc_limit R \<Longrightarrow> recent_contains (recent_add fid R) fid"
  by (simp add: recent_add_def recent_contains_def Let_def)

lemma recent_add_limit [simp]: "rc_limit (recent_add fid R) = rc_limit R"
  by (simp add: recent_add_def Let_def)

lemma recent_add_subset: "set (rc_data (recent_add fid R)) \<subseteq> insert fid (set (rc_data R))"
  by (auto simp: recent_add_def Let_def dest!: in_set_dropD)

lemma recent_add_room:
  "fid \<notin> set (rc_data R) \<Longrightarrow> length (rc_data R) < rc_limit R \<Longrightarrow> rc_data (recent_add fid R) = rc_data R @ [fid]"
proof -
  assume "fid \<notin> set (rc_data R)" "length (rc_data R) < rc_limit R"
  moreover from this have "filter (\<lambda>x. x \<noteq> fid) (rc_data R) = rc_data R" by (auto intro: filter_True)
  ultimately show ?thesis by (simp add: recent_add_def Let_def)
qed

lemma ack_fields [simp]:
  "fr_type (ack_frame ref_type ref_id status err fresh now) = ''ack''"
  "str_field rt (fr_payload (ack_frame ref_type ref_id status err fresh now)) ''ref_type'' = ref_type"
  "str_field rt (fr_payload (ack_frame ref_type ref_id status err fresh now)) ''ref_id'' = ref_id"
  "str_field rt (fr_payload (ack_frame ref_type ref_id status err fresh now)) ''status'' = status"
  by (simp_all add: ack_frame_def mk_frame_def ack_to_dict_def)

lemma mk_frame_type [simp]: "fr_type (mk_frame ty p fid now) = ty"
  by (simp add: mk_frame_def)

lemma mk_frame_id [simp]: "fr_id (mk_frame ty p fid now) = fid"
  by (simp add: mk_frame_def)

text \<open>An acknowledgement that settles its message.\<close>

definition settles :: "py_runtime \<Rightarrow> string \<Rightarrow> bridge_frame \<Rightarrow> bool" where
  "settles rt fid f \<longleftrightarrow> fr_type f = ''ack'' \<and> str_field rt (fr_payload f) ''ref_id'' = fid \<and> str_field rt (fr_payload f) ''status'' \<in> {''ok'', ''duplicate''}"

lemma settles_mk_frame [simp]: "ty \<noteq> ''ack'' \<Longrightarrow> \<not> settles rt fid (mk_frame ty p i now)"
  by (simp add: settles_def)

lemma settles_ack_frame [simp]:
  "settles rt fid (ack_frame ref_type ref_id status err fresh now) \<longleftrightarrow> fid = ref_id \<and> status \<in> {''ok'', ''duplicate''}"
  by (auto simp: settles_def)

lemma handle_inbound_effects:
  assumes "handle_inbound gv db_ok fresh now f G = (out, G')" and "fr_type f = ''inbound''"
  shows "gw_processed G' = (if accepts gv db_ok fresh now f G then recent_add (fr_id f) (gw_processed G) else gw_processed G)"
    and "gw_backlog G' = gw_backlog G" and "gw_acked G' = gw_acked G"
    and "g \<in> set out \<Longrightarrow> settles rt fid g \<Longrightarrow> 1 \<le> rc_limit (gw_processed G) \<Longrightarrow> recent_contains (gw_processed G') fid"
  using assms by (auto simp: handle_inbound_def submit_inbound_def accepts_def Let_def split: if_splits sum.splits prod.splits)

text \<open>Everything else leaves the memories of the link alone and settles no message.\<close>

definition inert :: "'h gateway \<Rightarrow> bridge_frame list \<Rightarrow> 'h gateway \<Rightarrow> bool" where
  "inert G out G' \<longleftrightarrow> gw_processed G' = gw_processed G \<and> gw_backlog G' = gw_backlog G \<and> gw_acked G' = gw_acked G \<and>
     (\<forall>g \<in> set out. \<forall>rt fid. \<not> settles rt fid g)"

lemma other_handlers:
  "handle_session_open gv db_ok fresh now f G = (out, G') \<Longrightarrow> inert G out G'"
  "handle_control gv fresh now f G = (out, G') \<Longrightarrow> inert G out G'"
  "handle_hello gv fresh now ws f G = (oc, out, G') \<Longrightarrow> inert G out G'"
  "handle_file_get gv fresh now f G = (oc, out, G') \<Longrightarrow> inert G out G'"
  "put_reply now f r G = (oc, out, G') \<Longrightarrow> inert G out G'"
  by (auto simp: inert_def handle_session_open_def handle_control_def handle_hello_def handle_file_get_def put_reply_def Let_def
      split: if_splits sum.splits prod.splits option.splits)

lemma file_put_handler: "handle_file_put gv db_ok fresh now f G = (oc, out, G') \<Longrightarrow> inert G out G'"
  by (auto simp: handle_file_put_def Let_def intro: other_handlers(5) split: if_splits sum.splits prod.splits) (auto simp: inert_def)

lemma handle_ack_effects:
  "gw_processed (handle_ack gv f G) = gw_processed G" "gw_backlog (handle_ack gv f G) = gw_backlog G"
  "fr_type f = ''ack'' \<Longrightarrow> gw_acked (handle_ack gv f G) \<subseteq> gw_acked G \<union>
     {fid. settles (be_runtime (gv_business gv)) fid f \<and> str_field (be_runtime (gv_business gv)) (fr_payload f) ''ref_type'' = ''outbound''}"
  by (auto simp: handle_ack_def Let_def settles_def)

lemma if_resultE:
  assumes "(if c then a else b) = x"
  obtains "c" "a = x" | "\<not> c" "b = x"
  using assms by (cases c) auto

lemma handled_resultE:
  assumes "(\<lambda>(out, G'). (Handled, out, G')) r = (oc, out, G')"
  obtains "r = (out, G')"
  using assms by (cases r) auto

lemma handle_frame_other:
  assumes "handle_frame gv db_ok fresh now ws f G = (oc, out, G')" and "fr_type f \<notin> {''inbound'', ''ack'', ''resume''}"
  shows "inert G out G'"
  using assms unfolding handle_frame_def Let_def
  by (elim if_resultE handled_resultE)
     ((erule other_handlers | blast)+, erule file_put_handler, erule other_handlers, auto simp: inert_def)

lemma handle_frame_effects:
  assumes "handle_frame gv db_ok fresh now ws f G = (oc, out, G')"
  shows "gw_processed G' = (if accepts gv db_ok fresh now f G then recent_add (fr_id f) (gw_processed G) else gw_processed G)"
    and "gw_backlog G' = gw_backlog G"
    and "gw_acked G' \<subseteq> gw_acked G \<union> {fid. settles (be_runtime (gv_business gv)) fid f \<and>
           str_field (be_runtime (gv_business gv)) (fr_payload f) ''ref_type'' = ''outbound''}"
    and "g \<in> set out \<Longrightarrow> settles rt fid g \<Longrightarrow> 1 \<le> rc_limit (gw_processed G) \<Longrightarrow>
           (\<And>b. b \<in> set (gw_backlog G) \<Longrightarrow> fr_type b \<noteq> ''ack'') \<Longrightarrow> recent_contains (gw_processed G') fid"
proof -
  consider (inbound) "fr_type f = ''inbound''" "handle_inbound gv db_ok fresh now f G = (out, G')"
    | (ack) "fr_type f = ''ack''" "out = []" "G' = handle_ack gv f G"
    | (replay) "fr_type f \<noteq> ''inbound''" "out = replay_backlog G" "G' = G"
    | (other) "fr_type f \<noteq> ''inbound''" "inert G out G'"
  proof -
    consider "fr_type f = ''inbound''" | "fr_type f = ''ack''" | "fr_type f = ''resume''" | "fr_type f \<notin> {''inbound'', ''ack'', ''resume''}" by blast
    then show thesis
    proof cases
      case 1 with assms show ?thesis by (intro that(1)) (simp_all add: handle_frame_def split: prod.splits)
    next
      case 2 with assms show ?thesis by (intro that(2)) (simp_all add: handle_frame_def)
    next
      case 3 with assms show ?thesis by (intro that(3)) (auto simp: handle_frame_def)
    next
      case 4 with handle_frame_other [OF assms] show ?thesis by (intro that(4)) simp_all
    qed
  qed
  note cases = this
  have ni: "\<not> accepts gv db_ok fresh now f G" if "fr_type f \<noteq> ''inbound''" using that by (simp add: accepts_def)
  show "gw_processed G' = (if accepts gv db_ok fresh now f G then recent_add (fr_id f) (gw_processed G) else gw_processed G)"
    by (cases rule: cases) (simp_all add: handle_inbound_effects ni handle_ack_effects inert_def)
  show "gw_backlog G' = gw_backlog G"
    by (cases rule: cases) (simp_all add: handle_inbound_effects handle_ack_effects inert_def)
  show "gw_acked G' \<subseteq> gw_acked G \<union> {fid. settles (be_runtime (gv_business gv)) fid f \<and>
           str_field (be_runtime (gv_business gv)) (fr_payload f) ''ref_type'' = ''outbound''}"
    by (cases rule: cases) (use handle_ack_effects(3) in \<open>auto simp: handle_inbound_effects inert_def\<close>)
  show "recent_contains (gw_processed G') fid" if "g \<in> set out" "settles rt fid g" "1 \<le> rc_limit (gw_processed G)"
      "\<And>b. b \<in> set (gw_backlog G) \<Longrightarrow> fr_type b \<noteq> ''ack''"
  proof (cases rule: cases)
    case inbound with that show ?thesis using handle_inbound_effects(4) by blast
  next
    case replay with that show ?thesis by (auto simp: replay_backlog_def settles_def)
  qed (use that in \<open>auto simp: inert_def\<close>)
qed

section \<open>A message sent again while it is being submitted\<close>

lemma submit_trigger:
  assumes "inbound_from_payload (be_runtime (gv_business gv)) (fr_payload f) = Inr m"
    and "dget (rs_sessions (bz_store (gw_business G))) (in_session m) \<noteq> None" and "in_segments m = []" and "in_trigger m"
  obtains G' where "submit_inbound gv db_ok fresh now f G = ([ack_frame ''inbound'' (fr_id f) ''ok'' None fresh now], G')"
    and "gw_processed G' = recent_add (fr_id f) (gw_processed G)"
    and "rs_sessions (bz_store (gw_business G')) = rs_sessions (bz_store (gw_business G))"
    and "pending (bz_bus (gw_business G')) (in_session m) = pending (bz_bus (gw_business G)) (in_session m) @ [message_event (be_runtime (gv_business gv)) fresh now m]"
  using assms
  by (auto simp: submit_inbound_def submit_message_def store_message_def Let_def pending_publish message_event_def)

text \<open> The check for a duplicate and the entry into the set of processed frames are separated by the
  submission: a frame that arrives again on a new connection while the handler of the old one is still
  submitting it passes the check, and its event is published twice. When the two handlers run one after the other,
  the second answers that it is a duplicate and publishes nothing.\<close>

theorem overlapping_resend_publishes_twice:
  assumes "\<not> recent_contains (gw_processed G) (fr_id f)" and "1 \<le> rc_limit (gw_processed G)"
    and "inbound_from_payload (be_runtime (gv_business gv)) (fr_payload f) = Inr m"
    and "dget (rs_sessions (bz_store (gw_business G))) (in_session m) \<noteq> None" and "in_segments m = []" and "in_trigger m"
  shows "length (pending (bz_bus (gw_business (snd (submit_inbound gv ok2 e2 t2 f (snd (submit_inbound gv ok1 e1 t1 f G)))))) (in_session m)) =
      length (pending (bz_bus (gw_business G)) (in_session m)) + 2 \<and>
    length (pending (bz_bus (gw_business (snd (handle_inbound gv ok2 e2 t2 f (snd (handle_inbound gv ok1 e1 t1 f G)))))) (in_session m)) =
      length (pending (bz_bus (gw_business G)) (in_session m)) + 1 \<and>
    fst (handle_inbound gv ok2 e2 t2 f (snd (handle_inbound gv ok1 e1 t1 f G))) = [ack_frame ''inbound'' (fr_id f) ''duplicate'' None e2 t2]"
proof -
  obtain G1 where 1: "submit_inbound gv ok1 e1 t1 f G = ([ack_frame ''inbound'' (fr_id f) ''ok'' None e1 t1], G1)"
    and p: "gw_processed G1 = recent_add (fr_id f) (gw_processed G)"
    and s: "rs_sessions (bz_store (gw_business G1)) = rs_sessions (bz_store (gw_business G))"
    and q: "pending (bz_bus (gw_business G1)) (in_session m) = pending (bz_bus (gw_business G)) (in_session m) @ [message_event (be_runtime (gv_business gv)) e1 t1 m]"
    by (rule submit_trigger [OF assms(3-6)])
  obtain G2 where 2: "submit_inbound gv ok2 e2 t2 f G1 = ([ack_frame ''inbound'' (fr_id f) ''ok'' None e2 t2], G2)"
    and q2: "pending (bz_bus (gw_business G2)) (in_session m) = pending (bz_bus (gw_business G1)) (in_session m) @ [message_event (be_runtime (gv_business gv)) e2 t2 m]"
    by (rule submit_trigger [OF assms(3) assms(4) [folded s] assms(5,6)])
  have "handle_inbound gv ok1 e1 t1 f G = ([ack_frame ''inbound'' (fr_id f) ''ok'' None e1 t1], G1)"
    using assms(1) 1 by (simp add: handle_inbound_def)
  moreover have "handle_inbound gv ok2 e2 t2 f G1 = ([ack_frame ''inbound'' (fr_id f) ''duplicate'' None e2 t2], G1)"
    using assms(2) p by (simp add: handle_inbound_def)
  ultimately show ?thesis using 1 2 q q2 by simp
qed

definition demo_gateway_env :: "unit gateway_env" where
  "demo_gateway_env = \<lparr>gv_business = demo_business_env, gv_sha = (\<lambda>s. ''h''), gv_token = ''t'', gv_limits = [], gv_chunk_bytes = 4,
     gv_backlog_size = 2, gv_loads = (\<lambda>_. None), gv_control = None\<rparr>"

definition demo_gateway :: "unit gateway" where
  "demo_gateway = \<lparr>gw_active = Some 0, gw_gateway_id = None, gw_connection = None, gw_processed = new_recent_set 2048, gw_acked = {},
     gw_backlog = [], gw_business = demo_business\<rparr>"

definition demo_wakeup :: inbound_message where
  "demo_wakeup = demo_message\<lparr>in_segments := []\<rparr>"

theorem overlapping_resend_publishes_twice_witness:
  "length (pending (bz_bus (gw_business (snd (submit_inbound demo_gateway_env True ''e2'' 2 (mk_frame ''inbound'' (inbound_to_payload demo_wakeup) ''m1'' 1)
      (snd (submit_inbound demo_gateway_env True ''e1'' 1 (mk_frame ''inbound'' (inbound_to_payload demo_wakeup) ''m1'' 1) demo_gateway)))))) ''s1'') = 2"
proof -
  have "pending (bz_bus (gw_business demo_gateway)) ''s1'' = []" "in_session demo_wakeup = ''s1''" by code_simp+
  moreover have "inbound_from_payload (be_runtime (gv_business demo_gateway_env)) (inbound_to_payload demo_wakeup) = Inr demo_wakeup"
    "\<not> recent_contains (gw_processed demo_gateway) ''m1''" "1 \<le> rc_limit (gw_processed demo_gateway)"
    "dget (rs_sessions (bz_store (gw_business demo_gateway))) (in_session demo_wakeup) \<noteq> None" "in_segments demo_wakeup = []" "in_trigger demo_wakeup"
    by code_simp+
  ultimately show ?thesis
    using overlapping_resend_publishes_twice [of demo_gateway "mk_frame ''inbound'' (inbound_to_payload demo_wakeup) ''m1'' 1" demo_gateway_env demo_wakeup True "''e2''" 2 True "''e1''" 1]
    by (simp add: mk_frame_def)
qed

end
