(* ===== verification/Client.thy ===== *)
theory Client
  imports Bridge
begin

text \<open>
  The gateway side of the bridge: \<open>WsBridgeClient\<close> (\<^verbatim>\<open>gateway/bridge/ws_client.py\<close>) with its handshake, its
  requests, the frames it receives and the delivery of outbound messages, over \<open>GatewayRuntime\<close>
  (\<^verbatim>\<open>gateway/runtime.py\<close>) and \<open>GatewaySessionRouteStore\<close> (\<^verbatim>\<open>gateway/route_store.py\<close>).

  A future is the entry of its waiter; the frame that resolves it is an effect of the step that received
  it, and so is the task started for an outbound message. The adapters are a parameter. Uploads and downloads
  over a stable connection are in \<open>Files\<close>.
\<close>

section \<open>State\<close>

datatype waiter = AckWaiter | SessionWaiter | FilePutWaiter | ControlWaiter

record client =
  cl_ready :: bool
  cl_waiters :: "(waiter \<times> string) set"
  cl_downloads :: "(string, download_state) dict"
  cl_download_done :: "string set"
  cl_pending :: "(string, bridge_frame) dict"
  cl_last_inbound :: "string option"
  cl_last_outbound :: "string option"
  cl_limits :: json_object

definition new_client :: "json_object \<Rightarrow> client" where
  "new_client limits = \<lparr>cl_ready = False, cl_waiters = {}, cl_downloads = [], cl_download_done = {}, cl_pending = [],
     cl_last_inbound = None, cl_last_outbound = None, cl_limits = limits\<rparr>"

datatype client_effect = Resolve waiter string bridge_frame | ResolveDownload string bridge_frame | StartDispatch bridge_frame

section \<open>Connecting\<close>

record client_env =
  ce_runtime :: py_runtime
  ce_gateway_id :: string
  ce_token :: string
  ce_adapters :: "adapter_descriptor list"

definition SUPPORTS :: json_object where
  "SUPPORTS = [(''resume'', JBool True), (''gateway_control_envelope_version'', JInt 2)]"

definition hello_frame :: "client_env \<Rightarrow> string \<Rightarrow> int \<Rightarrow> bridge_frame" where
  "hello_frame ce fresh now = mk_frame ''hello'' (hello_to_dict
     \<lparr>hl_gateway = ce_gateway_id ce, hl_token = ce_token ce, hl_adapters = ce_adapters ce, hl_supports = SUPPORTS\<rparr>) fresh now"

definition error_message :: "py_runtime \<Rightarrow> json_object \<Rightarrow> string \<Rightarrow> string" where
  "error_message rt d dflt = py_str rt (py_or (obj_get (dict_field d ''error'') ''message'') (JStr dflt))"

text \<open>The first frame that arrives must accept the hello.\<close>

definition receive_hello_ack :: "py_runtime \<Rightarrow> bridge_frame \<Rightarrow> client \<Rightarrow> client res" where
  "receive_hello_ack rt f C =
     (if fr_type f \<noteq> ''hello_ack'' then Inl (RuntimeError (''Unexpected handshake frame: '' @ fr_type f))
      else if \<not> truthy (obj_get (fr_payload f) ''ok'') then Inl (RuntimeError (error_message rt (fr_payload f) ''Bridge hello rejected''))
      else Inr (C\<lparr>cl_limits := fold (\<lambda>(k, v) d. dset k v d) (dict_field (fr_payload f) ''limits'') (cl_limits C), cl_ready := True\<rparr>))"

definition resume_frames :: "client_env \<Rightarrow> string \<Rightarrow> int \<Rightarrow> client \<Rightarrow> bridge_frame list" where
  "resume_frames ce fresh now C = mk_frame ''resume'' (resume_to_dict
     \<lparr>rs_gateway = ce_gateway_id ce, rs_last_inbound = cl_last_inbound C, rs_last_outbound = cl_last_outbound C\<rparr>) fresh now #
     map snd (cl_pending C)"

definition disconnected :: "client \<Rightarrow> client" where
  "disconnected C = C\<lparr>cl_ready := False\<rparr>"

section \<open>Requests and their answers\<close>

definition send_inbound :: "inbound_message \<Rightarrow> string \<Rightarrow> int \<Rightarrow> client \<Rightarrow> bridge_frame \<times> client" where
  "send_inbound m fresh now C =
     (let f = mk_frame ''inbound'' (inbound_to_payload m) fresh now
      in (f, C\<lparr>cl_waiters := insert (AckWaiter, fresh) (cl_waiters C), cl_pending := dset fresh f (cl_pending C)\<rparr>))"

definition inbound_result :: "py_runtime \<Rightarrow> bridge_frame \<Rightarrow> unit res" where
  "inbound_result rt f = (if str_field rt (fr_payload f) ''status'' \<in> {''ok'', ''duplicate''} then Inr ()
     else Inl (RuntimeError (error_message rt (fr_payload f) ''Inbound frame failed'')))"

definition open_session_request :: "session_open \<Rightarrow> string \<Rightarrow> int \<Rightarrow> client \<Rightarrow> bridge_frame \<times> client" where
  "open_session_request s fresh now C =
     (mk_frame ''session_open'' (session_open_to_dict s) fresh now, C\<lparr>cl_waiters := insert (SessionWaiter, fresh) (cl_waiters C)\<rparr>)"

definition open_session_result :: "py_runtime \<Rightarrow> bridge_frame \<Rightarrow> string res" where
  "open_session_result rt f =
     (if \<not> truthy (obj_get (fr_payload f) ''ok'') then Inl (RuntimeError (error_message rt (fr_payload f) ''Failed to open session''))
      else case obj_get (fr_payload f) ''session_id'' of
             JStr (c # cs) \<Rightarrow> Inr (c # cs)
           | _ \<Rightarrow> Inl (RuntimeError ''Bridge did not return a valid session_id''))"

definition control_request :: "string \<Rightarrow> json_object \<Rightarrow> string \<Rightarrow> int \<Rightarrow> client \<Rightarrow> bridge_frame \<times> client" where
  "control_request op body fresh now C =
     (mk_frame ''gateway_control'' [(''op'', JStr op), (''body'', JDict body)] fresh now, C\<lparr>cl_waiters := insert (ControlWaiter, fresh) (cl_waiters C)\<rparr>)"

text \<open>The answer, or \<open>None\<close> after 120 seconds (the timeout is raised as an error); the waiter is dropped either way.\<close>

definition control_result :: "py_runtime \<Rightarrow> string \<Rightarrow> bridge_frame option \<Rightarrow> client \<Rightarrow> json_object res \<times> client" where
  "control_result rt fid answer C =
     (case answer of
        None \<Rightarrow> Inl (RuntimeError ''timeout'')
      | Some f \<Rightarrow> if \<not> truthy (obj_get (fr_payload f) ''ok'') then Inl (RuntimeError (error_message rt (fr_payload f) ''gateway_control failed''))
                  else Inr (dict_field (fr_payload f) ''body''),
      C\<lparr>cl_waiters := cl_waiters C - {(ControlWaiter, fid)}\<rparr>)"

definition download_request :: "string \<Rightarrow> string \<Rightarrow> string \<Rightarrow> string \<Rightarrow> int \<Rightarrow> client \<Rightarrow> bridge_frame \<times> client" where
  "download_request sid fid request fresh now C =
     (mk_frame ''file_get'' (get_request_to_payload \<lparr>fg_session = sid, fg_file = fid, fg_request = request\<rparr>) fresh now,
      C\<lparr>cl_downloads := dset request \<lparr>dl_chunks = [], dl_filename = None, dl_mime = None\<rparr> (cl_downloads C),
        cl_download_done := cl_download_done C - {request}\<rparr>)"

section \<open>Receiving\<close>

definition resolve_waiter :: "waiter \<Rightarrow> string \<Rightarrow> bridge_frame \<Rightarrow> client \<Rightarrow> client_effect list \<times> client" where
  "resolve_waiter w ref f C =
     (if (w, ref) \<in> cl_waiters C then [Resolve w ref f] else [], C\<lparr>cl_waiters := cl_waiters C - {(w, ref)}\<rparr>)"

definition receive_ack :: "py_runtime \<Rightarrow> bridge_frame \<Rightarrow> client \<Rightarrow> client_effect list \<times> client" where
  "receive_ack rt f C =
     (let ref = str_field rt (fr_payload f) ''ref_id''; (es, C1) = resolve_waiter AckWaiter ref f C
      in (es, if str_field rt (fr_payload f) ''status'' \<in> {''ok'', ''duplicate''}
              then C1\<lparr>cl_last_inbound := Some ref, cl_pending := dpop ref (cl_pending C1)\<rparr> else C1))"

definition client_handle_frame :: "py_runtime \<Rightarrow> bridge_frame \<Rightarrow> client \<Rightarrow> (client_effect list \<times> client) res" where
  "client_handle_frame rt f C =
     (let ty = fr_type f; request = str_field rt (fr_payload f) ''request_id''
      in if ty = ''ack'' then Inr (receive_ack rt f C)
         else if ty = ''session_open_ack'' then Inr (resolve_waiter SessionWaiter (fr_id f) f C)
         else if ty = ''file_put_ack'' then Inr (resolve_waiter FilePutWaiter (fr_id f) f C)
         else if ty = ''file_get_chunk'' then (case dget (cl_downloads C) request of
             None \<Rightarrow> Inr ([], C)
           | Some st \<Rightarrow> res_bind (receive_chunk rt (fr_payload f) st) (\<lambda>st'. Inr ([], C\<lparr>cl_downloads := dset request st' (cl_downloads C)\<rparr>)))
         else if ty = ''file_get_ack'' then Inr
           (if dget (cl_downloads C) request \<noteq> None \<and> request \<notin> cl_download_done C
            then ([ResolveDownload request f], C\<lparr>cl_download_done := insert request (cl_download_done C)\<rparr>) else ([], C))
         else if ty = ''outbound'' then Inr ([StartDispatch f], C)
         else if ty = ''gateway_control_ack'' then Inr (resolve_waiter ControlWaiter request f C)
         else Inr ([], C))"

section \<open>Delivering outbound messages\<close>

definition route_store_resolve :: "routes \<Rightarrow> string \<Rightarrow> (string \<times> json_object) option" where
  "route_store_resolve routes sid = (case route_resolve routes sid of
      None \<Rightarrow> None
    | Some r \<Rightarrow> (case rt_adapter r of Some (c # cs) \<Rightarrow> Some (c # cs, rt_sender r) | _ \<Rightarrow> None))"

definition resolve_outbound_route :: "routes \<Rightarrow> outbound_message \<Rightarrow> string + string \<times> json_object" where
  "resolve_outbound_route routes m = (case route_store_resolve routes (ob_session m) of
      Some r \<Rightarrow> Inr r
    | None \<Rightarrow> if nonempty (ob_adapter m) then Inr (the (ob_adapter m), case ob_sender m of Some s \<Rightarrow> s | None \<Rightarrow> [])
              else Inl (''Missing gateway route for session: '' @ ob_session m))"

text \<open>The adapters by key, each with the text of the error it raises, if it raises.\<close>

type_synonym adapters = "(string, outbound_message \<Rightarrow> string option) dict"

definition dispatch_outbound :: "adapters \<Rightarrow> routes \<Rightarrow> outbound_message \<Rightarrow> string option" where
  "dispatch_outbound adapters routes m =
     (if ob_session m = OUTBOUND_BROADCAST
      then (case dget adapters ''http'' of None \<Rightarrow> Some ''Web UI adapter required for broadcast outbound'' | Some send \<Rightarrow> send m)
      else case resolve_outbound_route routes m of
             Inl text \<Rightarrow> Some text
           | Inr (key, _) \<Rightarrow> (case dget adapters key of None \<Rightarrow> Some (''Adapter not found: '' @ key) | Some send \<Rightarrow> send m))"

definition outbound_error_code :: "string \<Rightarrow> string" where
  "outbound_error_code text = (if py_contains ''Missing gateway route'' text then ''route_not_found'' else ''adapter_send_failed'')"

text \<open>
  \<open>_dispatch_outbound_and_ack\<close> while there is a socket (\<open>live\<close>) or not: the frames sent, and whether the
  message was delivered.
\<close>

definition dispatch_and_ack ::
  "py_runtime \<Rightarrow> adapters \<Rightarrow> routes \<Rightarrow> bool \<Rightarrow> string \<Rightarrow> int \<Rightarrow> bridge_frame \<Rightarrow> client \<Rightarrow> bridge_frame list \<times> bool \<times> client" where
  "dispatch_and_ack rt adapters routes live fresh now f C =
     (case dispatch_outbound adapters routes (outbound_from_payload rt (fr_payload f)) of
        None \<Rightarrow> if live then ([ack_frame ''outbound'' (fr_id f) ''ok'' None fresh now], True, C\<lparr>cl_last_outbound := Some (fr_id f)\<rparr>)
                else ([], True, C)
      | Some text \<Rightarrow> (if live then [ack_frame ''outbound'' (fr_id f) ''failed'' (Some (outbound_error_code text, text)) fresh now] else [], False, C))"

definition heartbeat_frame :: "int \<Rightarrow> string \<Rightarrow> int \<Rightarrow> bridge_frame" where
  "heartbeat_frame seq fresh now = mk_frame ''heartbeat'' [(''seq'', JInt seq)] fresh now"

end
