(* ===== verification/Link.thy ===== *)
theory Link
  imports Client
begin

text \<open>
  The two sides of the bridge over connections that come and go. The client opens one connection at a time
  and reconnects when it breaks. The server may go on reading the frames of an old connection after the
  client has left it, while the new one is already in use. Each side handles a frame in one step.

  Shown here: an inbound message is submitted at most once and is not forgotten before it is acknowledged,
  and an outbound message is delivered or will be replayed; all of it as long as the bounded memories
  (processed identifiers, backlog) hold what they are asked to.
\<close>

section \<open>The system\<close>

text \<open>
  \<open>lk_up n\<close> and \<open>lk_down n\<close> are the frames under way on connection \<open>n\<close>, \<open>lk_open\<close> the connections the
  server still serves, \<open>lk_tasks\<close> the outbound messages being delivered. The logs hold the inbound frames
  handed over, the identifiers submitted, the outbound frames pushed and the identifiers delivered.
\<close>

record 'h link =
  lk_client :: client
  lk_gateway :: "'h gateway"
  lk_socket :: "nat option"
  lk_count :: nat
  lk_up :: "nat \<Rightarrow> bridge_frame list"
  lk_down :: "nat \<Rightarrow> bridge_frame list"
  lk_open :: "nat set"
  lk_tasks :: "bridge_frame list"
  lk_sent :: "bridge_frame list"
  lk_submitted :: "string list"
  lk_pushed :: "bridge_frame list"
  lk_delivered :: "string set"

inductive link_step :: "client_env \<Rightarrow> 'h gateway_env \<Rightarrow> 'h link \<Rightarrow> 'h link \<Rightarrow> bool" for ce gv where
  connect: "lk_socket S = None \<Longrightarrow>
    link_step ce gv S (S\<lparr>lk_socket := Some (lk_count S), lk_count := Suc (lk_count S), lk_open := insert (lk_count S) (lk_open S),
      lk_up := (lk_up S)(lk_count S := [hello_frame ce fresh now]), lk_down := (lk_down S)(lk_count S := [])\<rparr>)"
| serve: "n \<in> lk_open S \<Longrightarrow> lk_up S n = f # fs \<Longrightarrow> handle_frame gv db_ok fresh now n f (lk_gateway S) = (outcome, out, G) \<Longrightarrow>
    link_step ce gv S (S\<lparr>lk_up := (lk_up S)(n := fs), lk_down := (lk_down S)(n := lk_down S n @ out),
      lk_gateway := (if outcome = Handled then G else connection_closed n G),
      lk_open := (if outcome = Handled then lk_open S else lk_open S - {n}),
      lk_submitted := lk_submitted S @ (if accepts gv db_ok fresh now f (lk_gateway S) then [fr_id f] else [])\<rparr>)"
| server_lost: "n \<in> lk_open S \<Longrightarrow>
    link_step ce gv S (S\<lparr>lk_open := lk_open S - {n}, lk_gateway := connection_closed n (lk_gateway S)\<rparr>)"
| client_lost: "lk_socket S = Some n \<Longrightarrow>
    link_step ce gv S (S\<lparr>lk_socket := None, lk_client := disconnected (lk_client S)\<rparr>)"
| greeted: "lk_socket S = Some n \<Longrightarrow> \<not> cl_ready (lk_client S) \<Longrightarrow> lk_down S n = f # fs \<Longrightarrow>
    receive_hello_ack (ce_runtime ce) f (lk_client S) = Inr C \<Longrightarrow>
    link_step ce gv S (S\<lparr>lk_client := C, lk_down := (lk_down S)(n := fs),
      lk_up := (lk_up S)(n := lk_up S n @ resume_frames ce fresh now C)\<rparr>)"
| receive: "lk_socket S = Some n \<Longrightarrow> cl_ready (lk_client S) \<Longrightarrow> lk_down S n = f # fs \<Longrightarrow>
    client_handle_frame (ce_runtime ce) f (lk_client S) = Inr (effects, C) \<Longrightarrow>
    link_step ce gv S (S\<lparr>lk_client := C, lk_down := (lk_down S)(n := fs),
      lk_tasks := lk_tasks S @ (if StartDispatch f \<in> set effects then [f] else [])\<rparr>)"
| deliver: "lk_tasks S = ts1 @ f # ts2 \<Longrightarrow>
    dispatch_and_ack (ce_runtime ce) adapters routes (lk_socket S \<noteq> None) fresh now f (lk_client S) = (out, delivered, C) \<Longrightarrow>
    link_step ce gv S (S\<lparr>lk_client := C, lk_tasks := ts1 @ ts2,
      lk_up := (case lk_socket S of None \<Rightarrow> lk_up S | Some n \<Rightarrow> (lk_up S)(n := lk_up S n @ out)),
      lk_delivered := (if delivered then insert (fr_id f) (lk_delivered S) else lk_delivered S)\<rparr>)"
| inbound: "lk_socket S = Some n \<Longrightarrow> cl_ready (lk_client S) \<Longrightarrow> fid \<notin> fr_id ` set (lk_sent S) \<Longrightarrow> send_inbound m fid now (lk_client S) = (f, C) \<Longrightarrow>
    link_step ce gv S (S\<lparr>lk_client := C, lk_up := (lk_up S)(n := lk_up S n @ [f]), lk_sent := lk_sent S @ [f]\<rparr>)"
| request: "lk_socket S = Some n \<Longrightarrow> cl_ready (lk_client S) \<Longrightarrow> fr_type f \<notin> {''hello'', ''resume'', ''inbound'', ''ack''} \<Longrightarrow>
    cl_pending C = cl_pending (lk_client S) \<Longrightarrow> cl_ready C \<Longrightarrow>
    link_step ce gv S (S\<lparr>lk_client := C, lk_up := (lk_up S)(n := lk_up S n @ [f])\<rparr>)"
| push: "fid \<notin> fr_id ` set (lk_pushed S) \<Longrightarrow> push_outbound gv fid now m (lk_gateway S) = (out, G) \<Longrightarrow>
    link_step ce gv S (S\<lparr>lk_gateway := G, lk_pushed := lk_pushed S @ [outbound_frame fid now m (lk_gateway S)],
      lk_down := (case gw_active (lk_gateway S) of None \<Rightarrow> lk_down S | Some n \<Rightarrow> (lk_down S)(n := lk_down S n @ out))\<rparr>)"

definition link_init :: "nat \<Rightarrow> json_object \<Rightarrow> 'h business \<Rightarrow> 'h link" where
  "link_init remembered limits B =
     \<lparr>lk_client = new_client limits,
      lk_gateway = \<lparr>gw_active = None, gw_gateway_id = None, gw_connection = None, gw_processed = new_recent_set remembered,
        gw_acked = {}, gw_backlog = [], gw_business = B\<rparr>,
      lk_socket = None, lk_count = 0, lk_up = (\<lambda>_. []), lk_down = (\<lambda>_. []), lk_open = {}, lk_tasks = [], lk_sent = [],
      lk_submitted = [], lk_pushed = [], lk_delivered = {}\<rparr>"

section \<open>Inbound messages\<close>

definition resume_ok :: "'h link \<Rightarrow> bool" where
  "resume_ok S \<longleftrightarrow> (\<forall>f \<in> set (lk_sent S). fr_type f = ''inbound'') \<and>
     set (dvalues (cl_pending (lk_client S))) \<subseteq> set (lk_sent S) \<and>
     (\<forall>n. \<forall>f \<in> set (lk_up S n). fr_type f = ''inbound'' \<longrightarrow> f \<in> set (lk_sent S))"

definition processed_ok :: "nat \<Rightarrow> 'h link \<Rightarrow> bool" where
  "processed_ok N S \<longleftrightarrow> rc_limit (gw_processed (lk_gateway S)) = max 1 N \<and>
     set (lk_submitted S) \<subseteq> fr_id ` set (lk_sent S) \<and>
     set (rc_data (gw_processed (lk_gateway S))) \<subseteq> set (lk_submitted S) \<and>
     (length (lk_sent S) \<le> max 1 N \<longrightarrow> distinct (lk_submitted S) \<and> rc_data (gw_processed (lk_gateway S)) = lk_submitted S)"

definition acked_ok :: "'h link \<Rightarrow> bool" where
  "acked_ok S \<longleftrightarrow> (\<forall>n. \<forall>f \<in> set (lk_down S n). \<forall>rt fid. settles rt fid f \<longrightarrow> fid \<in> set (lk_submitted S)) \<and>
     (\<forall>b \<in> set (gw_backlog (lk_gateway S)). fr_type b = ''outbound'') \<and>
     (\<forall>f \<in> set (lk_sent S). fr_id f \<in> set (lk_submitted S) \<or> dget (cl_pending (lk_client S)) (fr_id f) = Some f)"

lemma resume_ok_up: "resume_ok S \<Longrightarrow> f \<in> set (lk_up S n) \<Longrightarrow> fr_type f = ''inbound'' \<Longrightarrow> f \<in> set (lk_sent S)"
  unfolding resume_ok_def by blast

lemma acked_ok_down: "acked_ok S \<Longrightarrow> f \<in> set (lk_down S n) \<Longrightarrow> settles rt fid f \<Longrightarrow> fid \<in> set (lk_submitted S)"
  unfolding acked_ok_def by blast

lemma connection_closed_keeps [simp]:
  "gw_processed (connection_closed n G) = gw_processed G" "gw_backlog (connection_closed n G) = gw_backlog G"
  "gw_acked (connection_closed n G) = gw_acked G"
  by (simp_all add: connection_closed_def)

lemma disconnected_keeps [simp]: "cl_pending (disconnected C) = cl_pending C"
  by (simp add: disconnected_def)

lemma receive_hello_ack_keeps: "receive_hello_ack rt f C = Inr C' \<Longrightarrow> cl_pending C' = cl_pending C"
  by (auto simp: receive_hello_ack_def split: if_splits)

lemma client_handle_frame_pending:
  assumes "client_handle_frame rt f C = Inr (es, C')"
  shows "cl_pending C' = (if \<exists>fid. settles rt fid f then dpop (str_field rt (fr_payload f) ''ref_id'') (cl_pending C) else cl_pending C)"
  using assms
  by (auto simp: client_handle_frame_def receive_ack_def resolve_waiter_def settles_def Let_def res_bind_Inr_iff split: if_splits option.splits prod.splits)

lemma dispatch_and_ack_effects:
  assumes "dispatch_and_ack rt adapters routes live fresh now f C = (out, delivered, C')"
  shows "cl_pending C' = cl_pending C"
    and "g \<in> set out \<Longrightarrow> fr_type g = ''ack''"
    and "g \<in> set out \<Longrightarrow> settles rt' fid g \<Longrightarrow> delivered \<and> fid = fr_id f"
  using assms by (auto simp: dispatch_and_ack_def split: option.splits if_splits)

lemma push_outbound_effects:
  assumes "push_outbound gv fid now m G = (out, G')"
  shows "gw_processed G' = gw_processed G" "gw_acked G' = gw_acked G"
    and "gw_backlog G' = (let b = gw_backlog G @ [outbound_frame fid now m G] in drop (length b - gv_backlog_size gv) b)"
    and "out = (if gw_active G = None then [] else [outbound_frame fid now m G])"
  using assms by (auto simp: push_outbound_def Let_def)

lemma outbound_frame_fields [simp]: "fr_type (outbound_frame fid now m G) = ''outbound''" "fr_id (outbound_frame fid now m G) = fid"
  by (simp_all add: outbound_frame_def)

lemma send_inbound_effects:
  assumes "send_inbound m fid now C = (f, C')"
  shows "fr_type f = ''inbound''" "fr_id f = fid" "cl_pending C' = dset fid f (cl_pending C)"
  using assms by (auto simp: send_inbound_def Let_def)

lemma resume_frames_in: "f \<in> set (resume_frames ce fresh now C) \<Longrightarrow> fr_type f = ''resume'' \<or> f \<in> set (dvalues (cl_pending C))"
  by (auto simp: resume_frames_def)

lemma dvalues_dset: "set (dvalues (dset k w d)) \<subseteq> insert w (set (dvalues d))"
  by (induction d) auto

lemma dvalues_dpop: "set (dvalues (dpop k d)) \<subseteq> set (dvalues d)"
  by (auto simp: AList.delete_eq)

lemma resume_ok_step:
  assumes "link_step ce gv S T" "resume_ok S"
  shows "resume_ok T"
  using assms
proof cases
  case connect
  with assms(2) show ?thesis by (auto simp: resume_ok_def hello_frame_def)
next
  case (serve n f fs db_ok fresh now outcome out G)
  then have "g \<in> set (lk_sent S)" if "g \<in> set fs" "fr_type g = ''inbound''" for g
    using that by (intro resume_ok_up [OF assms(2), of _ n]) simp_all
  with serve(1) assms(2) show ?thesis by (simp add: resume_ok_def)
next
  case (greeted n f fs C fresh now)
  have "g \<in> set (lk_sent S)" if "g \<in> set (resume_frames ce fresh now C)" "fr_type g = ''inbound''" for g
    using resume_frames_in [OF that(1)] that(2) receive_hello_ack_keeps [OF greeted(5)] assms(2) by (auto simp: resume_ok_def simp del: set_map)
  with greeted(1) assms(2) receive_hello_ack_keeps [OF greeted(5)] show ?thesis by (auto simp: resume_ok_def simp del: set_map)
next
  case (receive n f fs effects C)
  have "set (dvalues (cl_pending C)) \<subseteq> set (dvalues (cl_pending (lk_client S)))"
    using client_handle_frame_pending [OF receive(5)] dvalues_dpop by (metis subset_refl)
  with receive(1) assms(2) show ?thesis by (simp add: resume_ok_def del: set_map) blast
next
  case (deliver ts1 f ts2 adapters routes fresh now out delivered C)
  then show ?thesis using assms(2) dispatch_and_ack_effects [OF deliver(3)]
    by (fastforce simp: resume_ok_def split: option.splits)
next
  case (inbound n fid m now f C)
  have "set (dvalues (cl_pending C)) \<subseteq> insert f (set (dvalues (cl_pending (lk_client S))))"
    using send_inbound_effects(3) [OF inbound(5)] dvalues_dset by (simp del: set_map)
  with inbound(1) assms(2) send_inbound_effects(1) [OF inbound(5)] show ?thesis by (auto simp: resume_ok_def simp del: set_map)
next
  case (request n f C)
  with assms(2) show ?thesis by (auto simp: resume_ok_def)
next
  case (push fid now m out G)
  with assms(2) show ?thesis by (auto simp: resume_ok_def)
qed (auto simp: resume_ok_def)

lemma processed_ok_step:
  assumes "link_step ce gv S T" "resume_ok S" "processed_ok N S"
  shows "processed_ok N T"
  using assms(1)
proof cases
  case (serve n f fs db_ok fresh now outcome out G)
  let ?acc = "accepts gv db_ok fresh now f (lk_gateway S)"
  have p: "gw_processed (lk_gateway T) = (if ?acc then recent_add (fr_id f) (gw_processed (lk_gateway S)) else gw_processed (lk_gateway S))"
    using serve handle_frame_effects(1) [OF serve(4)] by simp
  show ?thesis
  proof (cases ?acc)
    case False with serve p assms(3) show ?thesis by (simp add: processed_ok_def)
  next
    case True
    then have "fr_type f = ''inbound''" and new: "fr_id f \<notin> set (rc_data (gw_processed (lk_gateway S)))"
      by (simp_all add: accepts_def recent_contains_def)
    with serve have sent: "f \<in> set (lk_sent S)" by (intro resume_ok_up [OF assms(2), of _ n]) simp_all
    let ?R = "gw_processed (lk_gateway S)"
    have sub: "set (rc_data (recent_add (fr_id f) ?R)) \<subseteq> insert (fr_id f) (set (lk_submitted S))"
      using recent_add_subset [of "fr_id f" ?R] assms(3) by (auto simp: processed_ok_def)
    have "distinct (lk_submitted S @ [fr_id f]) \<and> rc_data (recent_add (fr_id f) ?R) = lk_submitted S @ [fr_id f]" if "length (lk_sent S) \<le> max 1 N"
    proof -
      from that assms(3) have d: "distinct (lk_submitted S)" "rc_data ?R = lk_submitted S" "set (lk_submitted S) \<subseteq> fr_id ` set (lk_sent S)" "rc_limit ?R = max 1 N"
        by (auto simp: processed_ok_def)
      then have "distinct (lk_submitted S @ [fr_id f])" "set (lk_submitted S @ [fr_id f]) \<subseteq> fr_id ` set (lk_sent S)" using new sent by auto
      then have "length (lk_submitted S @ [fr_id f]) \<le> card (fr_id ` set (lk_sent S))" by (metis card_mono distinct_card finite_imageI finite_set)
      also have "\<dots> \<le> length (lk_sent S)" using card_image_le card_length le_trans by blast
      finally have "length (rc_data ?R) < rc_limit ?R" using that d by simp
      with new d show ?thesis by (simp add: recent_add_room)
    qed
    then show ?thesis using True serve p sent sub assms(3) by (auto simp: processed_ok_def)
  qed
next
  case (inbound n fid m now f C)
  with assms(3) show ?thesis by (auto simp: processed_ok_def)
next
  case (push fid now m out G)
  with assms(3) push_outbound_effects [OF push(3)] show ?thesis by (simp add: processed_ok_def)
qed (use assms(3) in \<open>simp_all add: processed_ok_def\<close>)

lemma acked_ok_step:
  assumes "link_step ce gv S T" "resume_ok S" "processed_ok N S" "acked_ok S"
  shows "acked_ok T"
  using assms(1)
proof cases
  case (serve n f fs db_ok fresh now outcome out G)
  have T: "processed_ok N T" using processed_ok_step assms by blast
  have b: "\<And>x. x \<in> set (gw_backlog (lk_gateway S)) \<Longrightarrow> fr_type x \<noteq> ''ack''" using assms(4) by (auto simp: acked_ok_def)
  have "fid \<in> set (lk_submitted T)" if "g \<in> set out" "settles rt fid g" for g rt fid
  proof -
    have "1 \<le> rc_limit (gw_processed (lk_gateway S))" using assms(3) by (simp add: processed_ok_def)
    from handle_frame_effects(4) [OF serve(4) that this b] have "recent_contains (gw_processed G) fid" by blast
    then show ?thesis using T serve by (auto simp: processed_ok_def recent_contains_def split: if_splits)
  qed
  moreover have "gw_backlog (lk_gateway T) = gw_backlog (lk_gateway S)" using serve handle_frame_effects(2) [OF serve(4)] by simp
  ultimately show ?thesis using serve assms(4) by (auto simp: acked_ok_def)
next
  case (receive n f fs effects C)
  have "fr_id g \<in> set (lk_submitted S) \<or> dget (cl_pending C) (fr_id g) = Some g" if "g \<in> set (lk_sent S)" for g
  proof (cases "\<exists>fid. settles (ce_runtime ce) fid f")
    case False with that assms(4) client_handle_frame_pending [OF receive(5)] show ?thesis by (auto simp: acked_ok_def)
  next
    case True
    then have "str_field (ce_runtime ce) (fr_payload f) ''ref_id'' \<in> set (lk_submitted S)"
      using acked_ok_down [OF assms(4), of f n] receive by (auto simp: settles_def)
    with that assms(4) client_handle_frame_pending [OF receive(5)] True show ?thesis by (auto simp: acked_ok_def)
  qed
  moreover have "fid \<in> set (lk_submitted S)" if "g \<in> set fs" "settles rt fid g" for g rt fid
    using acked_ok_down [OF assms(4), of g n] that receive(4) by simp
  ultimately show ?thesis using receive(1) assms(4) by (simp add: acked_ok_def)
next
  case (greeted n f fs C fresh now)
  have "fid \<in> set (lk_submitted S)" if "g \<in> set fs" "settles rt fid g" for g rt fid
    using acked_ok_down [OF assms(4), of g n] that greeted(4) by simp
  with greeted(1) assms(4) receive_hello_ack_keeps [OF greeted(5)] show ?thesis by (simp add: acked_ok_def)
next
  case (deliver ts1 f ts2 adapters routes fresh now out delivered C)
  with assms(4) dispatch_and_ack_effects(1) [OF deliver(3)] show ?thesis by (simp add: acked_ok_def)
next
  case (inbound n fid m now f C)
  have "fr_id g \<in> set (lk_submitted S) \<or> dget (cl_pending C) (fr_id g) = Some g" if "g \<in> set (lk_sent S) \<or> g = f" for g
  proof (cases "g = f")
    case False
    with that inbound(4) have "g \<in> set (lk_sent S)" "fr_id g \<noteq> fid" by auto
    then show ?thesis using assms(4) send_inbound_effects(3) [OF inbound(5)] by (simp add: acked_ok_def)
  qed (simp add: send_inbound_effects(2,3) [OF inbound(5)])
  with inbound(1) assms(4) show ?thesis by (simp add: acked_ok_def)
next
  case (push fid now m out G)
  have b: "\<forall>b \<in> set (gw_backlog G). fr_type b = ''outbound''"
    using assms(4) push_outbound_effects(3) [OF push(3)] by (auto simp: acked_ok_def Let_def dest!: in_set_dropD)
  have out: "\<not> settles rt fid' g" if "g \<in> set out" for g rt fid'
    using that push_outbound_effects(4) [OF push(3)] by (simp add: settles_def split: if_splits)
  have "fid' \<in> set (lk_submitted S)" if "g \<in> set (lk_down T n)" "settles rt fid' g" for n g rt fid'
  proof -
    have "g \<in> set (lk_down S n) \<or> g \<in> set out" using that(1) push(1) by (auto split: option.splits if_splits)
    then show ?thesis using that(2) out acked_ok_down [OF assms(4)] by blast
  qed
  with push(1) b assms(4) show ?thesis by (simp add: acked_ok_def)
qed (use assms(4) in \<open>auto simp: acked_ok_def\<close>)

lemma processed_ok_init: "processed_ok N (link_init N limits B)" "resume_ok (link_init N limits B)" "acked_ok (link_init N limits B)"
  by (simp_all add: processed_ok_def resume_ok_def acked_ok_def link_init_def new_client_def new_recent_set_def)

interpretation inbound_link: step_system "\<lambda>S. \<exists>limits B. S = link_init N limits B" "link_step ce gv"
    "\<lambda>S. resume_ok S \<and> processed_ok N S \<and> acked_ok S" for N ce gv
  by unfold_locales (blast intro: processed_ok_init resume_ok_step processed_ok_step acked_ok_step)+

section \<open>Outbound messages\<close>

definition delivered_ok :: "'h gateway_env \<Rightarrow> 'h link \<Rightarrow> bool" where
  "delivered_ok gv S \<longleftrightarrow>
     gw_backlog (lk_gateway S) = drop (length (lk_pushed S) - gv_backlog_size gv) (lk_pushed S) \<and>
     gw_acked (lk_gateway S) \<subseteq> lk_delivered S \<and>
     (\<forall>n. \<forall>f \<in> set (lk_up S n). \<forall>rt fid. settles rt fid f \<longrightarrow> fid \<in> lk_delivered S)"

lemma delivered_ok_up: "delivered_ok gv S \<Longrightarrow> f \<in> set (lk_up S n) \<Longrightarrow> settles rt fid f \<Longrightarrow> fid \<in> lk_delivered S"
  unfolding delivered_ok_def by blast

lemma not_settles: "fr_type f \<noteq> ''ack'' \<Longrightarrow> \<not> settles rt fid f"
  by (simp add: settles_def)

lemma newest_of_newest:
  "(let b = drop (length xs - N) xs @ [x] in drop (length b - N) b) = drop (length (xs @ [x]) - N) (xs @ [x])"
  by (cases "length xs < N") (auto simp: Let_def Suc_diff_le not_less)

lemma delivered_ok_step:
  assumes "link_step ce gv S T" "resume_ok S" "delivered_ok gv S"
  shows "delivered_ok gv T"
  using assms(1)
proof cases
  case connect
  with assms(3) show ?thesis by (auto simp: delivered_ok_def hello_frame_def)
next
  case (serve n f fs db_ok fresh now outcome out G)
  note eff = handle_frame_effects [OF serve(4)]
  have "gw_acked G \<subseteq> lk_delivered S"
    using eff(3) delivered_ok_up [OF assms(3), of f n] serve(3) assms(3) by (auto simp: delivered_ok_def)
  moreover have "fid \<in> lk_delivered S" if "g \<in> set fs" "settles rt fid g" for g rt fid
    using delivered_ok_up [OF assms(3), of g n] that serve(3) by simp
  ultimately show ?thesis using serve(1) eff(2) assms(3) by (simp add: delivered_ok_def)
next
  case (greeted n f fs C fresh now)
  have "\<not> settles rt fid g" if "g \<in> set (resume_frames ce fresh now C)" for g rt fid
    using resume_frames_in [OF that] receive_hello_ack_keeps [OF greeted(5)] assms(2)
    by (auto simp: resume_ok_def intro!: not_settles simp del: set_map)
  with greeted(1) assms(3) show ?thesis by (auto simp: delivered_ok_def)
next
  case (deliver ts1 f ts2 adapters routes fresh now out delivered C)
  have "fid \<in> lk_delivered T" if "g \<in> set (lk_up T n)" "settles rt fid g" for g n rt fid
  proof -
    have "g \<in> set (lk_up S n) \<or> g \<in> set out" using that(1) deliver(1) by (auto split: option.splits if_splits)
    then show ?thesis
      using that(2) dispatch_and_ack_effects(3) [OF deliver(3)] delivered_ok_up [OF assms(3)] deliver(1) by auto
  qed
  with deliver(1) assms(3) show ?thesis by (auto simp: delivered_ok_def)
next
  case (inbound n fid m now f C)
  with assms(3) send_inbound_effects(1) [OF inbound(5)] show ?thesis by (auto simp: delivered_ok_def not_settles)
next
  case (request n f C)
  with assms(3) show ?thesis by (auto simp: delivered_ok_def not_settles)
next
  case (push fid now m out G)
  have "gw_backlog G = drop (length (lk_pushed T) - gv_backlog_size gv) (lk_pushed T)"
    using push(1) assms(3) push_outbound_effects(3) [OF push(3)] by (simp add: delivered_ok_def newest_of_newest del: length_append)
  with push(1) assms(3) push_outbound_effects(2) [OF push(3)] show ?thesis by (simp add: delivered_ok_def)
qed (use assms(3) in \<open>simp_all add: delivered_ok_def\<close>)

lemma delivered_ok_init: "delivered_ok gv (link_init N limits B)"
  by (simp add: delivered_ok_def link_init_def)

interpretation outbound_link: step_system "\<lambda>S. \<exists>N limits B. S = link_init N limits B" "link_step ce gv"
    "\<lambda>S. resume_ok S \<and> delivered_ok gv S" for ce gv
  by unfold_locales (blast intro: processed_ok_init delivered_ok_init resume_ok_step delivered_ok_step)+

section \<open>Properties\<close>


text \<open>C22. An outbound message is not lost while no more messages were pushed than the backlog holds: the gateway
  has delivered it, or the answer to the next resume sends it again, in the order in which the messages were
  pushed.\<close>

theorem outbound_delivered_or_replayed:
  assumes "(link_step ce gv)\<^sup>*\<^sup>* (link_init N limits B) S" and "length (lk_pushed S) \<le> gv_backlog_size gv"
  shows "replay_backlog (lk_gateway S) = filter (\<lambda>f. fr_id f \<notin> gw_acked (lk_gateway S)) (lk_pushed S) \<and>
    (\<forall>f \<in> set (lk_pushed S). fr_id f \<in> lk_delivered S \<or> f \<in> set (replay_backlog (lk_gateway S)))"
proof -
  have "resume_ok S \<and> delivered_ok gv S" by (rule outbound_link.reachable_inv [OF _ assms(1)]) blast
  with assms(2) show ?thesis by (auto simp: delivered_ok_def replay_backlog_def)
qed

section \<open>Witnesses\<close>

text \<open>Two runs by hand: the steps as functions.\<close>

definition demo_client_env :: client_env where
  "demo_client_env = \<lparr>ce_runtime = null_runtime, ce_gateway_id = ''g'', ce_token = ''t'', ce_adapters = []\<rparr>"

abbreviation demo_step :: "unit link \<Rightarrow> unit link \<Rightarrow> bool" where
  "demo_step \<equiv> link_step demo_client_env demo_gateway_env"

definition do_connect :: "unit link \<Rightarrow> unit link" where
  "do_connect S = S\<lparr>lk_socket := Some (lk_count S), lk_count := Suc (lk_count S), lk_open := insert (lk_count S) (lk_open S),
      lk_up := (lk_up S)(lk_count S := [hello_frame demo_client_env ''h'' 1]), lk_down := (lk_down S)(lk_count S := [])\<rparr>"

definition do_serve :: "nat \<Rightarrow> string \<Rightarrow> unit link \<Rightarrow> unit link" where
  "do_serve n fresh S = (let f = hd (lk_up S n); (outcome, out, G) = handle_frame demo_gateway_env True fresh 1 n f (lk_gateway S)
     in S\<lparr>lk_up := (lk_up S)(n := tl (lk_up S n)), lk_down := (lk_down S)(n := lk_down S n @ out),
      lk_gateway := (if outcome = Handled then G else connection_closed n G),
      lk_open := (if outcome = Handled then lk_open S else lk_open S - {n}),
      lk_submitted := lk_submitted S @ (if accepts demo_gateway_env True fresh 1 f (lk_gateway S) then [fr_id f] else [])\<rparr>)"

definition do_greet :: "nat \<Rightarrow> unit link \<Rightarrow> unit link" where
  "do_greet n S = (let C = projr (receive_hello_ack (ce_runtime demo_client_env) (hd (lk_down S n)) (lk_client S))
     in S\<lparr>lk_client := C, lk_down := (lk_down S)(n := tl (lk_down S n)), lk_up := (lk_up S)(n := lk_up S n @ resume_frames demo_client_env ''r'' 1 C)\<rparr>)"

definition do_receive :: "nat \<Rightarrow> unit link \<Rightarrow> unit link" where
  "do_receive n S = (let f = hd (lk_down S n); (effects, C) = projr (client_handle_frame (ce_runtime demo_client_env) f (lk_client S))
     in S\<lparr>lk_client := C, lk_down := (lk_down S)(n := tl (lk_down S n)), lk_tasks := lk_tasks S @ (if StartDispatch f \<in> set effects then [f] else [])\<rparr>)"

definition do_deliver :: "unit link \<Rightarrow> unit link" where
  "do_deliver S = (let f = hd (lk_tasks S);
       (out, delivered, C) = dispatch_and_ack (ce_runtime demo_client_env) [(''http'', \<lambda>_. None)] demo_routes (lk_socket S \<noteq> None) ''a'' 1 f (lk_client S)
     in S\<lparr>lk_client := C, lk_tasks := tl (lk_tasks S), lk_up := (case lk_socket S of None \<Rightarrow> lk_up S | Some n \<Rightarrow> (lk_up S)(n := lk_up S n @ out)),
      lk_delivered := (if delivered then insert (fr_id f) (lk_delivered S) else lk_delivered S)\<rparr>)"

definition do_push :: "string \<Rightarrow> unit link \<Rightarrow> unit link" where
  "do_push fid S = (let m = outbound_text ''s1'' ''hello''; (out, G) = push_outbound demo_gateway_env fid 1 m (lk_gateway S)
     in S\<lparr>lk_gateway := G, lk_pushed := lk_pushed S @ [outbound_frame fid 1 m (lk_gateway S)],
      lk_down := (case gw_active (lk_gateway S) of None \<Rightarrow> lk_down S | Some n \<Rightarrow> (lk_down S)(n := lk_down S n @ out))\<rparr>)"

lemma do_connect: "lk_socket S = None \<Longrightarrow> demo_step S (do_connect S)"
  unfolding do_connect_def by (rule link_step.connect)

lemma do_serve:
  assumes "n \<in> lk_open S" "lk_up S n \<noteq> []"
  shows "demo_step S (do_serve n fresh S)"
proof -
  obtain f fs where u: "lk_up S n = f # fs" using assms(2) by (cases "lk_up S n") auto
  obtain oc out G where h: "handle_frame demo_gateway_env True fresh 1 n f (lk_gateway S) = (oc, out, G)" by (metis prod_cases3)
  from link_step.serve [OF assms(1) u h, of demo_client_env] show ?thesis by (simp only: do_serve_def u h Let_def list.sel prod.case)
qed

lemma do_greet:
  assumes "lk_socket S = Some n" "\<not> cl_ready (lk_client S)" "lk_down S n \<noteq> []"
    "\<not> isl (receive_hello_ack (ce_runtime demo_client_env) (hd (lk_down S n)) (lk_client S))"
  shows "demo_step S (do_greet n S)"
proof -
  obtain f fs where u: "lk_down S n = f # fs" using assms(3) by (cases "lk_down S n") auto
  obtain C where h: "receive_hello_ack (ce_runtime demo_client_env) f (lk_client S) = Inr C" using assms(4) u by (auto simp: isl_def split: sum.splits) (meson sum.exhaust)
  from link_step.greeted [OF assms(1,2) u h, of demo_gateway_env "''r''" 1] show ?thesis by (simp only: do_greet_def u h Let_def list.sel sum.sel)
qed

lemma do_receive:
  assumes "lk_socket S = Some n" "cl_ready (lk_client S)" "lk_down S n \<noteq> []"
    "\<not> isl (client_handle_frame (ce_runtime demo_client_env) (hd (lk_down S n)) (lk_client S))"
  shows "demo_step S (do_receive n S)"
proof -
  obtain f fs where u: "lk_down S n = f # fs" using assms(3) by (cases "lk_down S n") auto
  obtain es C where h: "client_handle_frame (ce_runtime demo_client_env) f (lk_client S) = Inr (es, C)"
    using assms(4) u by (auto simp: isl_def) (metis prod.exhaust sum.exhaust)
  from link_step.receive [OF assms(1,2) u h, of demo_gateway_env] show ?thesis by (simp only: do_receive_def u h Let_def list.sel sum.sel prod.case)
qed

lemma do_deliver:
  assumes "lk_tasks S \<noteq> []"
  shows "demo_step S (do_deliver S)"
proof -
  obtain f fs where u: "lk_tasks S = [] @ f # fs" using assms by (cases "lk_tasks S") auto
  obtain out d C where h: "dispatch_and_ack (ce_runtime demo_client_env) [(''http'', \<lambda>_. None)] demo_routes (lk_socket S \<noteq> None) ''a'' 1 f (lk_client S) = (out, d, C)"
    by (metis prod_cases3)
  from link_step.deliver [OF u h, of demo_gateway_env] show ?thesis by (simp only: do_deliver_def u h Let_def list.sel prod.case append_Nil)
qed

lemma do_push:
  assumes "fid \<notin> fr_id ` set (lk_pushed S)"
  shows "demo_step S (do_push fid S)"
proof -
  obtain out G where h: "push_outbound demo_gateway_env fid 1 (outbound_text ''s1'' ''hello'') (lk_gateway S) = (out, G)" by (cases "push_outbound demo_gateway_env fid 1 (outbound_text ''s1'' ''hello'') (lk_gateway S)")
  from link_step.push [OF assms h, of demo_client_env] show ?thesis by (simp only: do_push_def h Let_def prod.case)
qed

text \<open>A connection that is up; a message that is sent and submitted, but whose acknowledgement is lost; the
  same message sent again on the next connection.\<close>

definition demo_up :: "unit link" where
  "demo_up = do_greet 0 (do_serve 0 ''c0'' (do_connect (link_init 2 [] demo_business)))"

definition demo_sent :: "unit link" where
  "demo_sent = (let (f, C) = send_inbound demo_message ''m1'' 1 (lk_client demo_up)
     in demo_up\<lparr>lk_client := C, lk_up := (lk_up demo_up)(0 := lk_up demo_up 0 @ [f]), lk_sent := lk_sent demo_up @ [f]\<rparr>)"

definition demo_lost :: "unit link" where
  "demo_lost = (let S = do_serve 0 ''e1'' (do_serve 0 ''x'' demo_sent) in S\<lparr>lk_socket := None, lk_client := disconnected (lk_client S)\<rparr>)"

definition demo_resent :: "unit link" where
  "demo_resent = do_serve 1 ''e2'' (do_serve 1 ''x'' (do_greet 1 (do_serve 1 ''c1'' (do_connect demo_lost))))"

lemmas then_step = rtranclp.rtrancl_into_rtrancl [of demo_step]

lemma demo_up_reached: "demo_step\<^sup>*\<^sup>* (link_init 2 [] demo_business) demo_up"
  unfolding demo_up_def
  by (rule then_step [OF _ do_greet], rule then_step [OF _ do_serve], rule then_step [OF _ do_connect], rule rtranclp.rtrancl_refl) code_simp+

lemma demo_sent_reached: "demo_step\<^sup>*\<^sup>* (link_init 2 [] demo_business) demo_sent"
proof (rule then_step [OF demo_up_reached])
  obtain f C where h: "send_inbound demo_message ''m1'' 1 (lk_client demo_up) = (f, C)" by (cases "send_inbound demo_message ''m1'' 1 (lk_client demo_up)")
  have "lk_socket demo_up = Some 0" "cl_ready (lk_client demo_up)" "lk_sent demo_up = []" by code_simp+
  with link_step.inbound [of demo_up 0 "''m1''" demo_message 1 f C demo_client_env demo_gateway_env] h
  show "demo_step demo_up demo_sent" by (simp add: demo_sent_def)
qed

lemma demo_lost_reached: "demo_step\<^sup>*\<^sup>* (link_init 2 [] demo_business) demo_lost"
proof -
  let ?S = "do_serve 0 ''e1'' (do_serve 0 ''x'' demo_sent)"
  have "demo_step\<^sup>*\<^sup>* (link_init 2 [] demo_business) ?S"
    by (rule then_step [OF _ do_serve], rule then_step [OF _ do_serve], rule demo_sent_reached) code_simp+
  moreover have "demo_step ?S demo_lost"
    unfolding demo_lost_def Let_def by (rule link_step.client_lost [of _ 0]) code_simp
  ultimately show ?thesis by (rule then_step)
qed

lemma demo_resent_reached: "demo_step\<^sup>*\<^sup>* (link_init 2 [] demo_business) demo_resent"
  unfolding demo_resent_def
  by (rule then_step [OF _ do_serve], rule then_step [OF _ do_serve], rule then_step [OF _ do_greet], rule then_step [OF _ do_serve],
      rule then_step [OF _ do_connect], rule demo_lost_reached) code_simp+


text \<open>Two outbound messages: the first delivered and acknowledged, the second lost with the connection.\<close>

definition demo_replay :: "unit link" where
  "demo_replay = (let S = do_push ''o2'' (do_serve 0 ''x'' (do_serve 0 ''x'' (do_deliver (do_receive 0 (do_push ''o1'' demo_up)))))
     in S\<lparr>lk_socket := None, lk_client := disconnected (lk_client S)\<rparr>)"

lemma demo_replay_reached: "demo_step\<^sup>*\<^sup>* (link_init 2 [] demo_business) demo_replay"
proof -
  let ?S = "do_push ''o2'' (do_serve 0 ''x'' (do_serve 0 ''x'' (do_deliver (do_receive 0 (do_push ''o1'' demo_up)))))"
  have "demo_step\<^sup>*\<^sup>* (link_init 2 [] demo_business) ?S"
    by (rule then_step [OF _ do_push], rule then_step [OF _ do_serve], rule then_step [OF _ do_serve], rule then_step [OF _ do_deliver],
        rule then_step [OF _ do_receive], rule then_step [OF _ do_push], rule demo_up_reached) code_simp+
  moreover have "demo_step ?S demo_replay"
    unfolding demo_replay_def Let_def by (rule link_step.client_lost [of _ 0]) code_simp
  ultimately show ?thesis by (rule then_step)
qed

theorem outbound_delivered_or_replayed_witness:
  "map fr_id (lk_pushed demo_replay) = [''o1'', ''o2''] \<and> lk_delivered demo_replay = {''o1''} \<and>
     map fr_id (replay_backlog (lk_gateway demo_replay)) = [''o2'']"
proof -
  have "map fr_id (lk_pushed demo_replay) = [''o1'', ''o2'']" "lk_delivered demo_replay = {''o1''}" "length (lk_pushed demo_replay) \<le> gv_backlog_size demo_gateway_env"
    "map fr_id (filter (\<lambda>f. fr_id f \<notin> gw_acked (lk_gateway demo_replay)) (lk_pushed demo_replay)) = [''o2'']" by code_simp+
  with outbound_delivered_or_replayed [OF demo_replay_reached] show ?thesis by simp
qed

end
