(* ===== verification/Patch.thy ===== *)
theory Patch
  imports History
begin

text \<open>
  The patch engine of the code-repair tools (\<open>_apply_patch\<close> and its helpers in
  \<^verbatim>\<open>capabilities/code_repair_ops/scripts/repair_apply_unified_patch.py\<close>), over Python's \<open>str.splitlines\<close>.

  Shown here: a unified diff applied to the text it was made from gives the text it was made for, as long
  as every hunk's old lines are first met at their place, and where an insertion without removals goes.
\<close>

section \<open>Lines\<close>

definition is_line_break :: "char \<Rightarrow> bool" where
  "is_line_break c = (let n = (of_char c :: nat) in 10 \<le> n \<and> n \<le> 13 \<or> 28 \<le> n \<and> n \<le> 30 \<or> n = 133)"

text \<open>\<open>s.splitlines(keepends=True)\<close> and \<open>s.splitlines()\<close>; a carriage return and line feed are one break.\<close>

fun splitlines_keep :: "string \<Rightarrow> string list" where
  "splitlines_keep [] = []"
| "splitlines_keep (c # cs) =
     (if is_line_break c
      then (if of_char c = (13 :: nat) \<and> take 1 cs = LF then (c # LF) # splitlines_keep (drop 1 cs) else [c] # splitlines_keep cs)
      else (case splitlines_keep cs of [] \<Rightarrow> [[c]] | l # ls \<Rightarrow> (c # l) # ls))"

definition strip_break :: "string \<Rightarrow> string" where
  "strip_break l = takeWhile (\<lambda>c. \<not> is_line_break c) l"

definition py_splitlines :: "string \<Rightarrow> string list" where
  "py_splitlines s = map strip_break (splitlines_keep s)"

text \<open>\<open>l.rstrip("\n")\<close>\<close>

definition rstrip_lf :: "string \<Rightarrow> string" where
  "rstrip_lf l = rev (dropWhile (\<lambda>c. [c] = LF) (rev l))"

definition nl :: "string \<Rightarrow> string" where
  "nl l = l @ LF"

section \<open>Applying a patch\<close>

definition find_sequence :: "string list \<Rightarrow> string list \<Rightarrow> nat \<Rightarrow> nat option" where
  "find_sequence lines seq start =
     (if seq = [] then Some start
      else find (\<lambda>i. take (length seq) (drop i (map rstrip_lf lines)) = map rstrip_lf seq) [start ..< Suc (length lines) - length seq])"

definition find_anchor :: "string list \<Rightarrow> string list \<Rightarrow> nat \<Rightarrow> nat option" where
  "find_anchor lines ctxt start =
     (if ctxt = [] then Some (min start (length lines)) else find_sequence (map rstrip_lf lines) (map rstrip_lf ctxt) start)"

text \<open>The hunks: from a line that starts with \<open>@@\<close> to the next one; lines before the first are skipped.\<close>

fun split_hunks :: "string list \<Rightarrow> string list \<Rightarrow> string list list" where
  "split_hunks current [] = (if current \<noteq> [] then [current] else [])"
| "split_hunks current (l # ls) =
     (if py_startswith l ''@@'' then (if current \<noteq> [] then [current] else []) @ split_hunks [l] ls
      else split_hunks (if current \<noteq> [] then current @ [l] else current) ls)"

text \<open>What a line of a hunk adds to the lines it expects and to those it leaves; a line without a mark is context.\<close>

definition old_of_line :: "string \<Rightarrow> string list" where
  "old_of_line l = (if py_startswith l '' '' \<or> py_startswith l ''-'' then [drop 1 l]
     else if py_startswith l ''+'' then [] else if l \<noteq> [] \<and> \<not> py_startswith l ''@@'' then [l] else [])"

definition new_of_line :: "string \<Rightarrow> string list" where
  "new_of_line l = (if py_startswith l '' '' then [drop 1 l] else if py_startswith l ''-'' then []
     else if py_startswith l ''+'' then [drop 1 l] else if l \<noteq> [] \<and> \<not> py_startswith l ''@@'' then [l] else [])"

definition marked :: "string \<Rightarrow> string list \<Rightarrow> bool" where
  "marked m body \<longleftrightarrow> list_ex (\<lambda>l. py_startswith l m) body"

definition apply_hunk :: "string list \<Rightarrow> string list \<times> nat \<Rightarrow> (string list \<times> nat) option" where
  "apply_hunk body = (\<lambda>(lines, cursor).
     (let old = concat (map old_of_line body); new = concat (map new_of_line body)
      in if \<not> marked ''-'' body \<and> \<not> marked ''+'' body then Some (lines, cursor)
         else if marked ''-'' body
         then (case (case find_sequence lines old cursor of Some i \<Rightarrow> Some i | None \<Rightarrow> find_sequence lines old 0) of
                 None \<Rightarrow> None
               | Some i \<Rightarrow> Some (take i lines @ map nl new @ drop (i + length old) lines, i + length new))
         else (let i = (case find_anchor lines old cursor of Some i \<Rightarrow> i | None \<Rightarrow> min cursor (length lines));
                   add = map (\<lambda>l. nl (drop 1 l)) (filter (\<lambda>l. py_startswith l ''+'') body)
               in Some (take i lines @ add @ drop i lines, i + length add))))"

fun apply_hunks :: "string list list \<Rightarrow> string list \<times> nat \<Rightarrow> (string list \<times> nat) option" where
  "apply_hunks [] st = Some st"
| "apply_hunks (h # hs) st = (case apply_hunk (tl h) st of None \<Rightarrow> None | Some st' \<Rightarrow> apply_hunks hs st')"

definition apply_patch :: "string \<Rightarrow> string \<Rightarrow> string + string" where
  "apply_patch source patch_text =
     (let hunks = split_hunks [] (py_splitlines patch_text)
      in if hunks = [] then Inl ''patch has no @@ hunks''
         else case apply_hunks hunks (splitlines_keep source, 0) of
                None \<Rightarrow> Inl ''removal lines do not match target file''
              | Some (lines, _) \<Rightarrow> Inr (concat lines))"

definition line_at :: "string list \<Rightarrow> nat \<Rightarrow> string option" where
  "line_at ls i = (if i < length ls then Some (ls ! i) else None)"

definition changed_line_count :: "string \<Rightarrow> string \<Rightarrow> nat" where
  "changed_line_count before after =
     (let b = py_splitlines before; a = py_splitlines after
      in length (filter (\<lambda>i. line_at b i \<noteq> line_at a i) [0 ..< max (length b) (length a)]))"

section \<open>Facts about lines\<close>

lemma concat_splitlines_keep [simp]: "concat (splitlines_keep s) = s"
proof (induction s rule: splitlines_keep.induct)
  case (2 c cs)
  have "take 1 cs = LF \<Longrightarrow> LF @ drop 1 cs = cs" by (metis append_take_drop_id)
  with 2 show ?case by (auto split: list.splits) 
qed simp

definition plain :: "string \<Rightarrow> bool" where
  "plain l \<longleftrightarrow> list_all (\<lambda>c. \<not> is_line_break c) l"

lemma plain_simps [simp]: "plain []" "plain (c # l) \<longleftrightarrow> \<not> is_line_break c \<and> plain l"
  by (simp_all add: plain_def)

lemma LF_break [simp]: "is_line_break (CHR 0x0A)" "LF = [CHR 0x0A]"
  by code_simp+

lemma splitlines_keep_nl: "plain l \<Longrightarrow> splitlines_keep (nl l @ s) = nl l # splitlines_keep s"
  by (induction l) (auto simp: nl_def)

definition text_of :: "string list \<Rightarrow> string" where
  "text_of ls = concat (map nl ls)"

lemma splitlines_keep_text: "list_all plain ls \<Longrightarrow> splitlines_keep (text_of ls) = map nl ls"
  by (induction ls) (auto simp: text_of_def splitlines_keep_nl)

lemma strip_break_nl: "plain l \<Longrightarrow> strip_break (nl l) = l"
  by (induction l) (auto simp: strip_break_def nl_def)

lemma py_splitlines_text: "list_all plain ls \<Longrightarrow> py_splitlines (text_of ls) = ls"
  unfolding py_splitlines_def by (subst splitlines_keep_text) (induction ls; auto simp: strip_break_nl)+

lemma rstrip_plain: "plain l \<Longrightarrow> rstrip_lf l = l"
  by (cases l rule: rev_cases) (auto simp: rstrip_lf_def plain_def)

lemma rstrip_nl: "plain l \<Longrightarrow> rstrip_lf (nl l) = l"
  by (cases l rule: rev_cases) (auto simp: rstrip_lf_def nl_def plain_def)

section \<open>Rendering a diff\<close>

datatype edit = Keep string | Del string | Add string

fun old_edit :: "edit \<Rightarrow> string list" where
  "old_edit (Keep l) = [l]" | "old_edit (Del l) = [l]" | "old_edit (Add l) = []"

fun new_edit :: "edit \<Rightarrow> string list" where
  "new_edit (Keep l) = [l]" | "new_edit (Del l) = []" | "new_edit (Add l) = [l]"

fun edit_text :: "edit \<Rightarrow> string" where
  "edit_text (Keep l) = CHR '' '' # l" | "edit_text (Del l) = CHR ''-'' # l" | "edit_text (Add l) = CHR ''+'' # l"

fun is_del :: "edit \<Rightarrow> bool" where
  "is_del (Del l) = True" | "is_del _ = False"

definition old_lines :: "edit list \<Rightarrow> string list" where
  "old_lines es = concat (map old_edit es)"

definition new_lines :: "edit list \<Rightarrow> string list" where
  "new_lines es = concat (map new_edit es)"

text \<open>A diff: for every hunk the unchanged lines before it, and its edits. \<open>tl\<close> are the lines after the last one.\<close>

fun before_lines :: "(string list \<times> edit list) list \<Rightarrow> string list \<Rightarrow> string list" where
  "before_lines [] tail = tail"
| "before_lines ((gap, es) # d) tail = gap @ old_lines es @ before_lines d tail"

fun after_lines :: "(string list \<times> edit list) list \<Rightarrow> string list \<Rightarrow> string list" where
  "after_lines [] tail = tail"
| "after_lines ((gap, es) # d) tail = gap @ new_lines es @ after_lines d tail"

definition hunk_lines :: "edit list \<Rightarrow> string list" where
  "hunk_lines es = ''@@ @@'' # map edit_text es"

lemma tl_hunk_lines [simp]: "tl (hunk_lines es) = map edit_text es"
  by (simp add: hunk_lines_def)

definition render_diff :: "(string list \<times> edit list) list \<Rightarrow> string" where
  "render_diff d = text_of (concat (map (hunk_lines \<circ> snd) d))"

text \<open>Every hunk removes something and its old lines do not occur earlier, counted from the end of the hunk before.\<close>

fun placed :: "(string list \<times> edit list) list \<Rightarrow> string list \<Rightarrow> bool" where
  "placed [] tail \<longleftrightarrow> True"
| "placed ((gap, es) # d) tail \<longleftrightarrow> list_ex is_del es \<and>
     list_all (\<lambda>j. take (length (old_lines es)) (drop j (gap @ old_lines es @ before_lines d tail)) \<noteq> old_lines es) [0 ..< length gap] \<and>
     placed d tail"

section \<open>Applying what was rendered\<close>

lemma edit_text_marks [simp]:
  "old_of_line (edit_text e) = old_edit e" "new_of_line (edit_text e) = new_edit e"
  "py_startswith (edit_text e) ''-'' \<longleftrightarrow> is_del e" "\<not> py_startswith (edit_text e) ''@@''"
  by (cases e; simp add: old_of_line_def new_of_line_def py_startswith_def)+

lemma split_hunks_edits: "current \<noteq> [] \<Longrightarrow> split_hunks current (map edit_text es @ ls) = split_hunks (current @ map edit_text es) ls"
  by (induction es arbitrary: current) auto

lemma split_hunks_diff: "split_hunks current (concat (map (hunk_lines \<circ> snd) d)) = (if current \<noteq> [] then [current] else []) @ map (hunk_lines \<circ> snd) d"
proof (induction d arbitrary: current)
  case (Cons a d)
  have "py_startswith ''@@ @@'' ''@@''" by (simp add: py_startswith_def)
  with Cons show ?case by (simp add: hunk_lines_def split_hunks_edits)
qed simp

lemma find_append: "find P (xs @ ys) = (case find P xs of None \<Rightarrow> find P ys | Some x \<Rightarrow> Some x)"
  by (induction xs) auto

lemma find_at:
  assumes "P i" "a \<le> i" "i < b" "\<And>j. a \<le> j \<Longrightarrow> j < i \<Longrightarrow> \<not> P j"
  shows "find P [a ..< b] = Some i"
proof -
  have "[a ..< b] = [a ..< i] @ i # [Suc i ..< b]" using assms(2,3) by (metis le_add_diff_inverse less_imp_le_nat upt_add_eq_append upt_conv_Cons)
  moreover have "find P [a ..< i] = None" using assms(4) by (auto simp: find_None_iff)
  ultimately show ?thesis using assms(1) by (simp add: find_append)
qed

lemma rstrip_nl_map: "list_all plain ls \<Longrightarrow> map (rstrip_lf \<circ> nl) ls = ls" "list_all plain ls \<Longrightarrow> map rstrip_lf ls = ls"
  by (induction ls) (auto simp: rstrip_nl rstrip_plain)

lemma find_placed:
  assumes "list_all plain (front @ gap @ old @ rest)" and "old \<noteq> []"
    and "\<And>j. j < length gap \<Longrightarrow> take (length old) (drop j (gap @ old @ rest)) \<noteq> old"
  shows "find_sequence (map nl (front @ gap @ old @ rest)) old (length front) = Some (length front + length gap)"
proof -
  have p: "list_all plain old" using assms(1) by simp
  have n: "map rstrip_lf (map nl (front @ gap @ old @ rest)) = front @ gap @ old @ rest" using rstrip_nl_map(1) [OF assms(1)] by simp
  have "find (\<lambda>i. take (length old) (drop i (front @ gap @ old @ rest)) = old) [length front ..< Suc (length (front @ gap @ old @ rest)) - length old] = Some (length front + length gap)"
  proof (rule find_at)
    fix j assume "length front \<le> j" "j < length front + length gap"
    then obtain k where "j = length front + k" "k < length gap" by (metis le_iff_add nat_add_left_cancel_less)
    with assms(3) show "take (length old) (drop j (front @ gap @ old @ rest)) \<noteq> old" by simp
  qed simp_all
  then show ?thesis using assms(2) by (simp only: find_sequence_def if_False n rstrip_nl_map(2) [OF p] length_map)
qed

lemma old_lines_del: "list_ex is_del es \<Longrightarrow> old_lines es \<noteq> []"
  by (induction es) (auto simp: old_lines_def elim: is_del.elims)

lemma marked_lines: "concat (map old_of_line (map edit_text es)) = old_lines es" "concat (map new_of_line (map edit_text es)) = new_lines es"
  by (simp_all add: old_lines_def new_lines_def comp_def)

lemma apply_rendered_hunk:
  assumes "list_all plain (front @ gap @ old_lines es @ rest)" and "list_ex is_del es"
    and "\<And>j. j < length gap \<Longrightarrow> take (length (old_lines es)) (drop j (gap @ old_lines es @ rest)) \<noteq> old_lines es"
  shows "apply_hunk (map edit_text es) (map nl (front @ gap @ old_lines es @ rest), length front) =
    Some (map nl (front @ gap @ new_lines es @ rest), length (front @ gap @ new_lines es))"
proof -
  have "marked ''-'' (map edit_text es)" using assms(2) by (simp add: marked_def list_ex_iff)
  moreover have "find_sequence (map nl (front @ gap @ old_lines es @ rest)) (old_lines es) (length front) = Some (length front + length gap)"
    using find_placed [OF assms(1) old_lines_del [OF assms(2)] assms(3)] .
  ultimately show ?thesis by (simp add: apply_hunk_def Let_def marked_lines [unfolded map_map])
qed

lemma apply_rendered_hunks:
  assumes "list_all plain (front @ before_lines d tail)" and "list_all plain (after_lines d tail)" and "placed d tail"
  shows "\<exists>c. apply_hunks (map (hunk_lines \<circ> snd) d) (map nl (front @ before_lines d tail), length front) = Some (map nl (front @ after_lines d tail), c)"
  using assms
proof (induction d arbitrary: front)
  case (Cons a d)
  obtain gap es where a: "a = (gap, es)" by (cases a)
  have h: "apply_hunk (map edit_text es) (map nl (front @ gap @ old_lines es @ before_lines d tail), length front) =
    Some (map nl (front @ gap @ new_lines es @ before_lines d tail), length (front @ gap @ new_lines es))"
    using Cons.prems by (intro apply_rendered_hunk) (auto simp: a list_all_iff)
  have "\<exists>c. apply_hunks (map (hunk_lines \<circ> snd) d) (map nl ((front @ gap @ new_lines es) @ before_lines d tail), length (front @ gap @ new_lines es)) =
      Some (map nl ((front @ gap @ new_lines es) @ after_lines d tail), c)"
    using Cons.prems by (intro Cons.IH) (auto simp: a)
  with h show ?case by (simp add: a comp_def)
qed simp

lemma plain_edit: "plain (edit_text e) \<longleftrightarrow> list_all plain (old_edit e @ new_edit e)"
  by (cases e) (auto simp: is_line_break_def)

lemma plain_hunk: "list_all plain (hunk_lines es) \<longleftrightarrow> list_all plain (old_lines es) \<and> list_all plain (new_lines es)"
proof -
  have "plain ''@@ @@''" by code_simp
  moreover have "list_all plain (map edit_text es) \<longleftrightarrow> list_all plain (old_lines es) \<and> list_all plain (new_lines es)"
    by (induction es) (auto simp: plain_edit old_lines_def new_lines_def)
  ultimately show ?thesis by (simp add: hunk_lines_def)
qed

lemma plain_diff: "list_all plain (before_lines d tail) \<Longrightarrow> list_all plain (after_lines d tail) \<Longrightarrow> list_all plain (concat (map (hunk_lines \<circ> snd) d))"
proof (induction d)
  case (Cons a d) then show ?case by (cases a) (auto simp: plain_hunk simp del: list.pred_inject)
qed simp

text \<open>C26. A unified diff applied to the text it was made from gives the text it was made for: with lines free of
  line breaks, every hunk removing something and first matching at its place, whatever the number of hunks and the
  distance between them.\<close>

theorem rendered_patch_applies:
  assumes "d \<noteq> []" and "placed d tail"
    and "list_all plain (before_lines d tail)" and "list_all plain (after_lines d tail)"
  shows "apply_patch (text_of (before_lines d tail)) (render_diff d) = Inr (text_of (after_lines d tail))"
proof -
  have hs: "split_hunks [] (py_splitlines (render_diff d)) = map (hunk_lines \<circ> snd) d"
    using py_splitlines_text [OF plain_diff [OF assms(3,4)]] by (simp add: render_diff_def split_hunks_diff)
  obtain c where "apply_hunks (map (hunk_lines \<circ> snd) d) (map nl ([] @ before_lines d tail), length []) = Some (map nl ([] @ after_lines d tail), c)"
    using apply_rendered_hunks [of "[]" d tail] assms by auto
  then show ?thesis using assms(1) hs splitlines_keep_text [OF assms(3)] by (simp add: apply_patch_def text_of_def)
qed

text \<open> A hunk that only inserts puts its lines in front of the context it gives, wherever the context stood in the
  hunk: with the context lines first, as in a diff that appends after them, the new lines end up before them.\<close>

theorem insertion_goes_before_context:
  assumes "list_all plain (front @ ctxt @ rest)" and "ctxt \<noteq> []" and "added \<noteq> []"
    and "\<forall>j < length front. take (length ctxt) (drop j (front @ ctxt @ rest)) \<noteq> ctxt"
  shows "apply_hunk (map edit_text (map Keep ctxt @ map Add added)) (map nl (front @ ctxt @ rest), 0) =
    Some (map nl (front @ added @ ctxt @ rest), length (front @ added))"
proof -
  let ?es = "map Keep ctxt @ map Add added"
  have "old_lines (map Keep ctxt) = ctxt" "old_lines (map Add added) = []"
    by (induction ctxt; simp add: old_lines_def) (induction added; simp add: old_lines_def)
  then have "concat (map old_of_line (map edit_text ?es)) = ctxt" unfolding marked_lines by (simp add: old_lines_def)
  moreover have "\<not> marked ''-'' (map edit_text ?es)" "marked ''+'' (map edit_text ?es)" "filter (\<lambda>l. py_startswith l ''+'') (map edit_text ?es) = map (\<lambda>l. CHR ''+'' # l) added"
    using assms(3) by (auto simp: marked_def list_ex_iff py_startswith_def filter_map comp_def neq_Nil_conv)
  moreover have "find_sequence (map rstrip_lf (map nl (front @ ctxt @ rest))) (map rstrip_lf ctxt) 0 = Some (length front)"
  proof -
    have "list_all plain ctxt" using assms(1) by simp
    moreover have "map rstrip_lf (map nl (front @ ctxt @ rest)) = front @ ctxt @ rest" using rstrip_nl_map(1) [OF assms(1)] by simp
    moreover have "find_sequence (front @ ctxt @ rest) ctxt 0 = find_sequence (map nl (front @ ctxt @ rest)) ctxt 0"
      using rstrip_nl_map [OF assms(1)] by (simp add: find_sequence_def)
    ultimately show ?thesis using find_placed [of "[]" front ctxt rest] assms by (simp add: rstrip_nl_map(2))
  qed
  ultimately show ?thesis using assms(2) by (simp add: apply_hunk_def Let_def find_anchor_def comp_def)
qed

section \<open>Witnesses\<close>

definition demo_diff :: "(string list \<times> edit list) list" where
  "demo_diff = [([''def f():''], [Del ''  return 0'', Add ''  return 1'']), ([''''], [Keep ''def g():'', Del ''  pass'', Add ''  return f()''])]"

theorem rendered_patch_applies_witness:
  "apply_patch (text_of [''def f():'', ''  return 0'', '''', ''def g():'', ''  pass'', ''# end'']) (render_diff demo_diff) =
     Inr (text_of [''def f():'', ''  return 1'', '''', ''def g():'', ''  return f()'', ''# end''])"
proof -
  have "demo_diff \<noteq> []" "placed demo_diff [''# end'']" "list_all plain (before_lines demo_diff [''# end''])" "list_all plain (after_lines demo_diff [''# end''])"
    by code_simp+
  from rendered_patch_applies [OF this] show ?thesis by (simp add: demo_diff_def old_lines_def new_lines_def)
qed

theorem insertion_goes_before_context_witness:
  "apply_hunk ['' import os'', ''+import sys''] (map nl [''import os'', ''run()''], 0) = Some (map nl [''import sys'', ''import os'', ''run()''], 1)"
proof -
  have "list_all plain ([] @ [''import os''] @ [''run()''])" by code_simp
  from insertion_goes_before_context [OF this, of "[''import sys'']"] show ?thesis by simp
qed

end
