(* ===== verification/CodeRepair.thy ===== *)
theory CodeRepair
  imports Patch Planner
begin

text \<open>
  The code-repair capability (\<^verbatim>\<open>capabilities/code_repair_ops/\<close>): the state it keeps in a session's metadata
  (\<^verbatim>\<open>scripts/_state.py\<close>), its four tools (collect evidence, apply a patch, run verification, write
  artifacts) and its four hooks, which drive a subtask from reproducing a failure to the report.

  The world is that of the contract hooks in \<open>Contracts\<close>. The file system, the shell, Python's regular
  expressions, \<open>json.loads\<close> and the indenting serialiser are a record of functions; a tool's exception is an error value.
\<close>

section \<open>Outside\<close>

record 'e shop =
  sh_cwd :: string
  sh_resolve :: "string \<Rightarrow> 'e \<Rightarrow> string"
  sh_exists :: "string \<Rightarrow> 'e \<Rightarrow> bool"
  sh_is_file :: "string \<Rightarrow> 'e \<Rightarrow> bool"
  sh_size :: "string \<Rightarrow> 'e \<Rightarrow> int"
  sh_hash :: "string \<Rightarrow> 'e \<Rightarrow> string"
  sh_read :: "string \<Rightarrow> 'e \<Rightarrow> string"
  sh_write :: "string \<Rightarrow> string \<Rightarrow> 'e \<Rightarrow> 'e"
  sh_run :: "string \<Rightarrow> string \<Rightarrow> 'e \<Rightarrow> (int \<times> string \<times> string) \<times> 'e"
  sh_search :: "string \<Rightarrow> string \<Rightarrow> bool option"
  sh_loads :: "string \<Rightarrow> json option"
  sh_dumps_indented :: "json \<Rightarrow> string"
  sh_runtime :: py_runtime

section \<open>Configuration\<close>

record repair_config =
  cr_max_changed_lines :: int
  cr_protected_globs :: "string list"
  cr_command_prefixes :: "string list"
  cr_evidence_prefixes :: "string list"

definition default_repair_config :: repair_config where
  "default_repair_config = \<lparr>cr_max_changed_lines = 60,
     cr_protected_globs = [''**/test_*.py'', ''**/*_test.py'', ''**/fixtures/**/test_*.py''],
     cr_command_prefixes = [''pytest'', ''python'', ''python3'', ''test '', ''git status'', ''git diff'', ''git log'', ''git merge-base'',
       ''git rev-parse'', ''sed -n'', ''rg'', ''ls'', ''cat'', ''pwd''],
     cr_evidence_prefixes = [''pytest'', ''python'', ''python3'', ''git status'', ''git diff'', ''git log'', ''git merge-base'',
       ''git rev-parse'', ''rg'', ''ls'', ''cat'', ''sed -n'', ''pwd'']\<rparr>"

section \<open>The state of a repair\<close>

definition default_state :: json_object where
  "default_state = [(''phase'', JStr ''reproduce''), (''verification_passed'', JBool False), (''last_failure_signature'', JStr []),
     (''produced_artifacts'', JList []), (''required_artifacts'', JList []), (''gate_fail_reasons'', JList []),
     (''last_tool_name'', JStr []), (''last_tool_status'', JStr []), (''last_tool_ts_ms'', JInt 0)]"

definition load_session_meta :: "string \<Rightarrow> 'e dc_world \<Rightarrow> json_object" where
  "load_session_meta sid W = (case dw_meta W sid of Some (JDict m) \<Rightarrow> m | _ \<Rightarrow> [])"

definition load_repair :: "string \<Rightarrow> 'e dc_world \<Rightarrow> json_object" where
  "load_repair sid W = (case obj_get (load_session_meta sid W) ''code_repair_state'' of
      JDict raw \<Rightarrow> dict_update default_state raw | _ \<Rightarrow> default_state)"

definition save_repair :: "string \<Rightarrow> json_object \<Rightarrow> 'e dc_world \<Rightarrow> 'e dc_world" where
  "save_repair sid st W = (case dw_meta W sid of
      None \<Rightarrow> W
    | Some m \<Rightarrow> W\<lparr>dw_meta := (dw_meta W)(sid \<mapsto> JDict (dset ''code_repair_state'' (JDict (dict_update default_state st)) (dict_of m)))\<rparr>)"

definition state_str :: "py_runtime \<Rightarrow> json_object \<Rightarrow> string \<Rightarrow> string \<Rightarrow> string" where
  "state_str rt st k dflt = py_str rt (py_or (obj_get st k) (JStr dflt))"

definition state_list :: "json_object \<Rightarrow> string \<Rightarrow> json list" where
  "state_list st k = (case obj_get st k of JList vs \<Rightarrow> vs | _ \<Rightarrow> [])"

definition repair_workspace_root :: "'e shop \<Rightarrow> json_object \<Rightarrow> string option \<Rightarrow> string" where
  "repair_workspace_root sh meta fallback =
     (let wdir = py_strip (state_str (sh_runtime sh) meta ''workspace_root'' []);
          fb = py_strip (case fallback of None \<Rightarrow> [] | Some f \<Rightarrow> f)
      in if wdir \<noteq> [] then wdir else if fb \<noteq> [] then fb else sh_cwd sh)"

definition repair_path :: "'e shop \<Rightarrow> string \<Rightarrow> string \<Rightarrow> 'e \<Rightarrow> string" where
  "repair_path sh wdir raw e =
     (let p = py_strip raw in if py_startswith p ''/'' then sh_resolve sh p e else sh_resolve sh (wdir @ ''/'' @ p) e)"

definition infer_required_artifacts :: "json \<Rightarrow> string list" where
  "infer_required_artifacts done_when = (case done_when of
      JList rules \<Rightarrow> py_unique (concat (map (\<lambda>r. case obj_get (dict_of r) ''args'' of
          JDict args \<Rightarrow> (case obj_get args ''path'' of JStr p \<Rightarrow> if py_strip p \<noteq> [] then [py_strip p] else [] | _ \<Rightarrow> [])
        | _ \<Rightarrow> []) (filter is_dict rules)))
    | _ \<Rightarrow> [])"

text \<open>\<open>fnmatch\<close> with \<open>*\<close> and \<open>?\<close>; character classes, which no configured pattern has, are not modelled.\<close>

fun fnmatch :: "string \<Rightarrow> string \<Rightarrow> bool" where
  "fnmatch [] s = (s = [])"
| "fnmatch (p # ps) [] = (p = CHR ''*'' \<and> fnmatch ps [])"
| "fnmatch (p # ps) (c # cs) =
     (if p = CHR ''*'' then fnmatch ps (c # cs) \<or> fnmatch (p # ps) cs
      else (p = CHR ''?'' \<or> p = c) \<and> fnmatch ps cs)"

text \<open>\<open>Path.relative_to\<close> for resolved paths.\<close>

definition relative_to :: "string \<Rightarrow> string \<Rightarrow> string option" where
  "relative_to p wdir = (if p = wdir then Some ''.''
     else if py_startswith p (if py_endswith wdir ''/'' then wdir else wdir @ ''/'')
          then Some (drop (length (if py_endswith wdir ''/'' then wdir else wdir @ ''/'')) p) else None)"

definition is_protected_path :: "'e shop \<Rightarrow> string \<Rightarrow> string \<Rightarrow> string list \<Rightarrow> 'e \<Rightarrow> bool" where
  "is_protected_path sh path wdir patterns e =
     (let rel = (case relative_to (sh_resolve sh path e) (sh_resolve sh wdir e) of Some r \<Rightarrow> r | None \<Rightarrow> path);
          normalized = map (\<lambda>c. if c = CHR 0x5C then CHR ''/'' else c) rel
      in list_ex (\<lambda>g. fnmatch g normalized) patterns)"

definition set_tool :: "string \<Rightarrow> string \<Rightarrow> json_object \<Rightarrow> json_object" where
  "set_tool name status st = dset ''last_tool_status'' (JStr status) (dset ''last_tool_name'' (JStr name) st)"

section \<open>The patch tool\<close>

definition repair_apply_unified_patch ::
  "'e shop \<Rightarrow> repair_config \<Rightarrow> string \<Rightarrow> string option \<Rightarrow> json_object \<Rightarrow> 'e dc_world \<Rightarrow> string \<times> 'e dc_world" where
  "repair_apply_unified_patch sh cfg sid wroot args W =
     (let rt = sh_runtime sh; file_path = py_strip (state_str rt args ''file_path'' []); patch_text = state_str rt args ''patch_text'' [];
          wdir = repair_workspace_root sh (load_session_meta sid W) wroot;
          path = repair_path sh wdir file_path (dw_env W);
          source = sh_read sh path (dw_env W)
      in if file_path = [] \<or> patch_text = [] then (''Error: file_path and patch_text are required.'', W)
         else if \<not> sh_is_file sh path (dw_env W) then (''Error: target file not found: '' @ path, W)
         else if is_protected_path sh path wdir (cr_protected_globs cfg) (dw_env W) then (''Error: protected path cannot be edited: '' @ path, W)
         else if source \<noteq> [] \<and> \<not> marked ''-'' (py_splitlines patch_text)
         then (''Error: unified patch must contain at least one removal line for existing files.'', W)
         else case apply_patch source patch_text of
           Inl detail \<Rightarrow> (''Error: failed to apply patch: '' @ detail, W)
         | Inr updated \<Rightarrow>
            (let changed = changed_line_count source updated
             in if cr_max_changed_lines cfg < int changed
                then (''Error: changed lines exceed max policy. changed_lines='' @ show_nat changed @ '', max_changed_lines='' @ show_int (cr_max_changed_lines cfg), W)
                else (let e1 = sh_write sh path updated (dw_env W);
                          st = set_tool ''repair_apply_unified_patch'' ''ok'' (dset ''phase'' (JStr ''verify'') (load_repair sid W))
                      in (json_dumps rt (JDict [(''ok'', JBool True), (''file_path'', JStr path), (''changed_lines'', JInt (int changed)),
                                                (''new_hash'', JStr (sh_hash sh path e1))]),
                          save_repair sid st (W\<lparr>dw_env := e1\<rparr>)))))"

section \<open>Verification\<close>

text \<open>\<open>_command_policy_violation\<close>\<close>

definition command_policy_violation :: "string \<Rightarrow> string option" where
  "command_policy_violation command =
     (let lowered = py_lower command; padded = '' '' @ lowered @ '' ''
      in if py_contains ''&&'' command \<or> py_contains ''||'' command \<or> py_contains '';'' command
         then Some ''command not allowed by policy: command chaining is forbidden''
         else if list_ex (\<lambda>t. py_contains t padded) ['' sed -i'', '' rm '', '' mv '', '' cp '', '' touch '', '' tee '', '' >'', ''>>'']
         then Some ''command not allowed by policy: mutating shell command is forbidden''
         else if (py_startswith lowered ''python -c'' \<or> py_startswith lowered ''python3 -c'') \<and>
              list_ex (\<lambda>t. py_contains t lowered) [''open('', ''.write('', ''pathlib.path('', ''write_text('', ''append('', ''unlink('', ''rename('', ''replace('', ''mkdir('', ''rmdir('']
         then Some ''command not allowed by policy: mutating python -c command is forbidden''
         else None)"

definition check_result :: "string \<Rightarrow> string \<Rightarrow> bool \<Rightarrow> string \<Rightarrow> json_object" where
  "check_result name ty passed detail = [(''name'', JStr name), (''type'', JStr ty), (''passed'', JBool passed), (''detail'', JStr detail)]"

definition stripped_arg :: "py_runtime \<Rightarrow> json_object \<Rightarrow> string \<Rightarrow> string" where
  "stripped_arg rt args k = py_strip (state_str rt args k [])"

definition run_command_check ::
  "'e shop \<Rightarrow> string \<Rightarrow> string list \<Rightarrow> string \<Rightarrow> string \<Rightarrow> json_object \<Rightarrow> 'e \<Rightarrow> json_object res \<times> 'e" where
  "run_command_check sh wdir allow name ty args e =
     (let command = stripped_arg (sh_runtime sh) args ''command''
      in case py_int (sh_runtime sh) (obj_get_or args ''exit_code'' (JInt 0)) of
           Inl err \<Rightarrow> (Inl err, e)
         | Inr expected \<Rightarrow>
             (if command = [] then (Inr (check_result name ty False ''command is required''), e)
              else if allow \<noteq> [] \<and> \<not> list_ex (py_startswith command) allow
              then (Inr (check_result name ty False ''command not allowed by policy''), e)
              else case command_policy_violation command of
                Some policy_error \<Rightarrow> (Inr (check_result name ty False policy_error), e)
              | None \<Rightarrow>
                 (let ((rc, _, _), e1) = sh_run sh command wdir e
                  in (Inr (check_result name ty (rc = expected) (''exit_code='' @ show_int rc @ '', expected='' @ show_int expected) @
                           [(''exit_code'', JInt rc)]), e1))))"

definition run_file_check :: "'e shop \<Rightarrow> string \<Rightarrow> string \<Rightarrow> string \<Rightarrow> json_object \<Rightarrow> 'e \<Rightarrow> json_object" where
  "run_file_check sh wdir name ty args e =
     (let rt = sh_runtime sh; file_path = stripped_arg rt args ''file_path''; target = repair_path sh wdir file_path e;
          result = check_result name ty; not_file = result False (''not file: '' @ target)
      in if ty = ''file_hash_unchanged''
         then (let wanted = stripped_arg rt args ''expected_hash''
               in if file_path = [] \<or> wanted = [] then result False ''file_path and expected_hash required''
                  else if \<not> sh_is_file sh target e then not_file
                  else result (sh_hash sh target e = wanted) (''hash='' @ sh_hash sh target e))
         else if ty = ''text_contains''
         then (case obj_get args ''terms'' of
                 JList terms \<Rightarrow>
                   (if file_path = [] then result False ''file_path and terms[] required''
                    else if \<not> sh_is_file sh target e then not_file
                    else let missed = filter (\<lambda>t. \<not> py_contains t (sh_read sh target e)) (map (py_str rt) terms)
                         in result (missed = []) (if missed = [] then ''ok'' else ''missing terms: '' @ rt_repr rt (JList (map JStr missed))))
               | _ \<Rightarrow> result False ''file_path and terms[] required'')
         else (let prefix = stripped_arg rt args ''prefix''
               in if file_path = [] \<or> prefix = [] then result False ''file_path and prefix required''
                  else if \<not> sh_is_file sh target e then not_file
                  else let first = (case find (\<lambda>l. py_strip l \<noteq> []) (py_splitlines (sh_read sh target e)) of Some l \<Rightarrow> py_strip l | None \<Rightarrow> [])
                       in result (py_startswith first prefix) (''first_line='' @ rt_repr rt (JStr first))))"

definition run_git_check :: "'e shop \<Rightarrow> string \<Rightarrow> string \<Rightarrow> string \<Rightarrow> json_object \<Rightarrow> 'e \<Rightarrow> json_object \<times> 'e" where
  "run_git_check sh wdir name ty args e =
     (let ancestor = stripped_arg (sh_runtime sh) args ''ancestor''; descendant = stripped_arg (sh_runtime sh) args ''descendant''
      in if ancestor = [] \<or> descendant = [] then (check_result name ty False ''ancestor and descendant required'', e)
         else let ((rc, _, _), e1) = sh_run sh (''git merge-base --is-ancestor '' @ ancestor @ '' '' @ descendant) wdir e
              in (check_result name ty (rc = 0) (if rc = 0 then ''ok'' else ''merge-base rc='' @ show_int rc), e1))"

definition run_check :: "'e shop \<Rightarrow> string \<Rightarrow> string list \<Rightarrow> json \<Rightarrow> 'e \<Rightarrow> json_object res \<times> 'e" where
  "run_check sh wdir allow raw e = (case raw of
      JDict d \<Rightarrow>
        (let name = state_str (sh_runtime sh) d ''name'' ''unnamed''; ty = state_str (sh_runtime sh) d ''type'' [];
             args = (case obj_get d ''args'' of JDict a \<Rightarrow> a | _ \<Rightarrow> filter (\<lambda>(k, v). k \<notin> {''name'', ''type''}) d)
         in if ty = ''command'' then run_command_check sh wdir allow name ty args e
            else if ty \<in> {''file_hash_unchanged'', ''text_contains'', ''text_first_line_startswith''} then (Inr (run_file_check sh wdir name ty args e), e)
            else if ty = ''git_ancestor'' then (let (r, e1) = run_git_check sh wdir name ty args e in (Inr r, e1))
            else (Inr (check_result name ty False (''unsupported check type: '' @ ty)), e))
    | _ \<Rightarrow> (Inr (check_result ''unknown'' ''unknown'' False ''check must be an object''), e))"

definition check_passed :: "json_object \<Rightarrow> bool" where
  "check_passed r \<longleftrightarrow> truthy (obj_get_or r ''passed'' (JBool False))"

fun run_checks :: "'e shop \<Rightarrow> string \<Rightarrow> string list \<Rightarrow> bool \<Rightarrow> json list \<Rightarrow> 'e \<Rightarrow> json_object list res \<times> 'e" where
  "run_checks sh wdir allow stop [] e = (Inr [], e)"
| "run_checks sh wdir allow stop (raw # checks) e =
     (case run_check sh wdir allow raw e of
        (Inl err, e1) \<Rightarrow> (Inl err, e1)
      | (Inr r, e1) \<Rightarrow>
          (if \<not> check_passed r \<and> stop then (Inr [r], e1)
           else case run_checks sh wdir allow stop checks e1 of
             (Inl err, e2) \<Rightarrow> (Inl err, e2) | (Inr rs, e2) \<Rightarrow> (Inr (r # rs), e2)))"

definition failed_check :: "py_runtime \<Rightarrow> json_object \<Rightarrow> string" where
  "failed_check rt r = py_str rt (obj_get r ''name'') @ '': '' @ py_str rt (obj_get r ''detail'')"

definition repair_run_verification ::
  "'e shop \<Rightarrow> repair_config \<Rightarrow> string \<Rightarrow> string option \<Rightarrow> json_object \<Rightarrow> 'e dc_world \<Rightarrow> string res \<times> 'e dc_world" where
  "repair_run_verification sh cfg sid wroot args W = (case obj_get args ''checks'' of
      JList (c # cs) \<Rightarrow>
        (let rt = sh_runtime sh; wdir = repair_workspace_root sh (load_session_meta sid W) wroot
         in case run_checks sh wdir (cr_command_prefixes cfg) (truthy (obj_get_or args ''stop_on_fail'' (JBool False))) (c # cs) (dw_env W) of
              (Inl err, e1) \<Rightarrow> (Inl err, W\<lparr>dw_env := e1\<rparr>)
            | (Inr results, e1) \<Rightarrow>
               (let all_passed = list_all check_passed results;
                    reasons = map (failed_check rt) (filter (\<lambda>r. \<not> check_passed r) results);
                    st = dset ''gate_fail_reasons'' (JList (if all_passed then [] else JStr ''verification_not_passed'' # map JStr (take 6 reasons)))
                      (set_tool ''repair_run_verification'' (if all_passed then ''ok'' else ''failed'')
                      (dset ''verification_passed'' (JBool all_passed)
                      (dset ''phase'' (JStr (if all_passed then ''report'' else ''patch'')) (load_repair sid W))))
                in (Inr (json_dumps rt (JDict [(''ok'', JBool True), (''all_passed'', JBool all_passed), (''results'', JList (map JDict results)),
                                               (''fail_reasons'', JList (map JStr reasons))])),
                    save_repair sid st (W\<lparr>dw_env := e1\<rparr>))))
    | _ \<Rightarrow> (Inr ''Error: checks must be a non-empty array.'', W))"

section \<open>Collecting evidence\<close>

definition py_tail :: "int \<Rightarrow> 'a list \<Rightarrow> 'a list" where
  "py_tail n xs = (if 0 < n then drop (length xs - nat n) xs else drop (nat (- n)) xs)"

definition DEFAULT_PATTERNS :: "string list" where
  "DEFAULT_PATTERNS = [''AssertionError'', ''Traceback'', ''FAILED'', ''ERROR'', ''E   '']"

definition extract_lines :: "'e shop \<Rightarrow> string list \<Rightarrow> string list \<Rightarrow> string list" where
  "extract_lines sh lines patterns =
     (let ps = (if patterns = [] then DEFAULT_PATTERNS else patterns);
          hit = (\<lambda>l. list_ex (\<lambda>p. case sh_search sh p l of Some b \<Rightarrow> b | None \<Rightarrow> py_contains p l) ps)
      in take 20 (py_unique (map py_strip (filter hit lines))))"

definition is_safe_evidence_command :: "string \<Rightarrow> string list \<Rightarrow> bool" where
  "is_safe_evidence_command command allow =
     (let normalized = py_strip command
      in normalized \<noteq> [] \<and> (allow = [] \<or> list_ex (py_startswith normalized) allow) \<and>
         \<not> list_ex (\<lambda>t. py_contains t normalized)
             [''>'', ''>>'', ''<<'', ''|'', ''&&'', '';'', ''tee '', ''chmod '', ''chown '', ''rm '', ''mv '', ''cp '', ''touch ''])"

definition str_list :: "py_runtime \<Rightarrow> json \<Rightarrow> string list" where
  "str_list rt v = (case v of JList vs \<Rightarrow> map (py_str rt) vs | _ \<Rightarrow> [])"

definition evidence_command ::
  "'e shop \<Rightarrow> repair_config \<Rightarrow> string \<Rightarrow> int \<Rightarrow> string list \<Rightarrow> json_object \<Rightarrow> 'e \<Rightarrow> (string + json_object) \<times> 'e" where
  "evidence_command sh cfg wdir limit patterns args e =
     (let command = stripped_arg (sh_runtime sh) args ''command''; cwd = stripped_arg (sh_runtime sh) args ''cwd'';
          cwd_path = (if cwd \<noteq> [] then repair_path sh wdir cwd e else wdir)
      in if command = [] then (Inl ''Error: command is required when mode=command.'', e)
         else if \<not> is_safe_evidence_command command (cr_evidence_prefixes cfg)
         then (Inl ''Error: command is not allowed for repair_collect_evidence (read/test-only).'', e)
         else let ((rc, out, err), e1) = sh_run sh command cwd_path e;
                  lines = py_tail limit (py_splitlines (out @ LF @ err));
                  extracted = extract_lines sh lines patterns
              in (Inr [(''command'', JStr command), (''cwd'', JStr cwd_path), (''exit_code'', JInt rc),
                       (''failure_signature'', JStr (if extracted \<noteq> [] then hd extracted else if lines \<noteq> [] then last lines else [])),
                       (''captured_lines'', JList (map JStr lines)), (''extracted_lines'', JList (map JStr extracted))], e1))"

definition scan_log :: "'e shop \<Rightarrow> string \<Rightarrow> int \<Rightarrow> string list \<Rightarrow> 'e \<Rightarrow> string \<Rightarrow> string list \<times> json_object" where
  "scan_log sh wdir limit patterns e raw =
     (let path = repair_path sh wdir raw e
      in if \<not> sh_is_file sh path e then ([], [(''path'', JStr path), (''error'', JStr ''not_file'')])
         else let lines = py_tail limit (py_splitlines (sh_read sh path e)); extracted = extract_lines sh lines patterns
              in (extracted, [(''path'', JStr path), (''extracted_lines'', JList (map JStr extracted)), (''tail_lines'', JList (map JStr (py_tail 20 lines)))]))"

definition evidence_logs :: "'e shop \<Rightarrow> string \<Rightarrow> int \<Rightarrow> string list \<Rightarrow> string list \<Rightarrow> 'e \<Rightarrow> string + json_object" where
  "evidence_logs sh wdir limit patterns targets e =
     (if targets = [] then Inl ''Error: targets is required when mode=log_scan.''
      else let scans = map (scan_log sh wdir limit patterns e) targets
           in Inr [(''scans'', JList (map (JDict \<circ> snd) scans)),
                   (''failure_signature'', JStr (case find (\<lambda>(x, _). x \<noteq> []) scans of Some (x, _) \<Rightarrow> hd x | None \<Rightarrow> []))])"

definition evidence_snapshot :: "'e shop \<Rightarrow> string \<Rightarrow> string list \<Rightarrow> 'e \<Rightarrow> json_object" where
  "evidence_snapshot sh wdir targets e = [(''snapshots'', JList (map (\<lambda>raw.
     let path = repair_path sh wdir raw e
     in JDict (if \<not> sh_exists sh path e then [(''path'', JStr path), (''exists'', JBool False)]
        else if sh_is_file sh path e then [(''path'', JStr path), (''exists'', JBool True), (''hash'', JStr (sh_hash sh path e)), (''size'', JInt (sh_size sh path e))]
        else [(''path'', JStr path), (''exists'', JBool True), (''type'', JStr ''dir'')])) targets))]"

definition repair_collect_evidence ::
  "'e shop \<Rightarrow> repair_config \<Rightarrow> string \<Rightarrow> string option \<Rightarrow> json_object \<Rightarrow> 'e dc_world \<Rightarrow> string res \<times> 'e dc_world" where
  "repair_collect_evidence sh cfg sid wroot args W =
     (let rt = sh_runtime sh; mode = py_lower (stripped_arg rt args ''mode'');
          wdir = repair_workspace_root sh (load_session_meta sid W) wroot; st = load_repair sid W;
          patterns = str_list rt (obj_get args ''extract_patterns''); targets = str_list rt (obj_get args ''targets'')
      in if mode \<notin> {''command'', ''log_scan'', ''file_snapshot''} then (Inr ''Error: mode must be one of command|log_scan|file_snapshot.'', W)
         else case py_int rt (py_or (obj_get_or args ''capture_limit'' (JInt 120)) (JInt 120)) of
           Inl err \<Rightarrow> (Inl err, W)
         | Inr limit \<Rightarrow>
            (case (if mode = ''command'' then evidence_command sh cfg wdir limit patterns args (dw_env W)
                   else if mode = ''log_scan'' then (evidence_logs sh wdir limit patterns targets (dw_env W), dw_env W)
                   else (Inr (evidence_snapshot sh wdir targets (dw_env W)), dw_env W)) of
               (Inl text, e1) \<Rightarrow> (Inr text, W\<lparr>dw_env := e1\<rparr>)
             | (Inr found, e1) \<Rightarrow>
                (let result = [(''mode'', JStr mode), (''workspace_root'', JStr wdir)] @ found;
                     phase = state_str rt st ''phase'' ''reproduce'';
                     st1 = dset ''phase'' (JStr (if mode \<in> {''command'', ''log_scan''} \<and> phase = ''reproduce'' then ''patch'' else phase)) st;
                     sig = py_str rt (py_or (obj_get result ''failure_signature'') (py_or (obj_get st ''last_failure_signature'') (JStr [])));
                     st2 = set_tool ''repair_collect_evidence'' ''ok'' (dset ''last_failure_signature'' (JStr sig) st1)
                 in (Inr (json_dumps rt (JDict result)), save_repair sid st2 (W\<lparr>dw_env := e1\<rparr>)))))"

section \<open>Writing artifacts\<close>

definition render_content :: "'e shop \<Rightarrow> string \<Rightarrow> string \<Rightarrow> json_object \<Rightarrow> string" where
  "render_content sh ty content st =
     (let signature = py_str (sh_runtime sh) (obj_get_or st ''last_failure_signature'' (JStr []));
          verdict = (if truthy (obj_get st ''verification_passed'') then ''passed'' else ''failed'')
      in if ty = ''progress_md''
         then ''# Progress Report'' @ LF @ LF @ ''## Task'' @ LF @ ''code_repair'' @ LF @ LF @ ''## Root Cause'' @ LF @ signature @ LF @ LF @ ''## Steps'' @ LF @
              py_join LF [''- Reproduce failure'', ''- Apply patch'', ''- Re-run verification''] @ LF @ LF @ ''## Verification'' @ LF @ verdict @ LF
         else if ty = ''review_txt'' then ''APPROVE'' @ LF @ content @ LF
         else if ty = ''rca_md''
         then ''# RCA Report'' @ LF @ LF @ ''## Symptom'' @ LF @ content @ LF @ LF @ ''## Root Cause'' @ LF @ signature @ LF @ LF @
              ''## Fix'' @ LF @ ''Applied repair patch.'' @ LF @ LF @ ''## Verification'' @ LF @ verdict @ LF
         else if ty = ''runtime_summary_json'' then sh_dumps_indented sh (JDict [(''repair_state'', JDict st)]) @ LF
         else content)"

definition repair_write_artifacts :: "'e shop \<Rightarrow> string \<Rightarrow> string option \<Rightarrow> json_object \<Rightarrow> 'e dc_world \<Rightarrow> string \<times> 'e dc_world" where
  "repair_write_artifacts sh sid wroot args W =
     (let rt = sh_runtime sh; ty = stripped_arg rt args ''artifact_type''; output_path = stripped_arg rt args ''output_path'';
          st = load_repair sid W; path = repair_path sh (repair_workspace_root sh (load_session_meta sid W) wroot) output_path (dw_env W);
          produced = state_list st ''produced_artifacts'';
          st1 = set_tool ''repair_write_artifacts'' ''ok'' (dset ''phase'' (JStr ''report'')
            (dset ''produced_artifacts'' (JList (if JStr path \<in> set produced then produced else produced @ [JStr path])) st))
      in if ty = [] \<or> output_path = [] then (''Error: artifact_type and output_path are required.'', W)
         else (json_dumps rt (JDict [(''ok'', JBool True), (''output_path'', JStr path), (''artifact_type'', JStr ty)]),
               save_repair sid st1 (W\<lparr>dw_env := sh_write sh path (render_content sh ty (state_str rt args ''content'' []) st) (dw_env W)\<rparr>)))"

section \<open>The hooks\<close>

definition allowed_tools_for_phase :: "string \<Rightarrow> string list" where
  "allowed_tools_for_phase phase =
     (if phase = ''reproduce'' then [''repair_collect_evidence'']
      else if phase = ''diagnose'' then [''repair_collect_evidence'', ''repair_apply_unified_patch'']
      else if phase = ''patch'' then [''repair_collect_evidence'', ''repair_apply_unified_patch'']
      else if phase = ''verify'' then [''repair_run_verification'']
      else if phase = ''report'' then [''repair_write_artifacts'', ''report_subtask_done'']
      else [''repair_collect_evidence''])"

definition GUIDANCE :: "string list" where
  "GUIDANCE = [''- Follow workflow strictly: reproduce -> patch -> verify -> report.'',
     ''- Do not claim completion without verification evidence.'',
     ''- If required artifact files are configured, make sure they exist before finishing.'',
     ''- Use patching only via repair_apply_unified_patch.'',
     ''- For repair_run_verification, each check must be {name, type, args}.'',
     ''- For repair_run_verification with type=command, allowed command prefixes are only: pytest, python, python3, test , git status, git diff, git log, git merge-base, git rev-parse, sed -n, rg, ls, cat, pwd.'',
     ''- Verification commands are read/test only. Do NOT use mutating commands (e.g. sed -i, rm, mv, cp, touch) and do NOT chain commands with &&.'']"

definition repair_guidance :: "py_runtime \<Rightarrow> string \<Rightarrow> tool_spec list \<Rightarrow> json list \<Rightarrow> string" where
  "repair_guidance rt phase tools reasons = py_join LF (
     [''[CodeRepairOpsWorkflow]'', ''- Current phase: '' @ phase, ''- Allowed tools this turn: '' @ py_join '', '' (sort (map ts_name tools))] @ GUIDANCE @
     (if reasons \<noteq> [] then [''- Must resolve gate failures first: '' @ rt_repr rt (JList (take 6 reasons))] else []))"

definition repair_before_llm_call :: "'e shop \<Rightarrow> bool \<Rightarrow> before_llm_payload \<Rightarrow> 'e dc_world \<Rightarrow> before_llm_payload hook_output \<times> 'e dc_world" where
  "repair_before_llm_call sh is_sub p W =
     (if \<not> is_sub then (dc_output HOOK_SKIP p, W)
      else let rt = sh_runtime sh; st0 = load_repair (bl_session p) W;
               st = (if truthy (obj_get st0 ''required_artifacts'') then st0
                     else dset ''required_artifacts'' (JList (map JStr (infer_required_artifacts (obj_get (load_session_meta (bl_session p) W) ''done_when'')))) st0);
               phase = state_str rt st ''phase'' ''reproduce'';
               allowed = filter (\<lambda>t. ts_name t \<in> set (allowed_tools_for_phase phase)) (bl_tools p);
               tools = (if allowed = [] then bl_tools p else allowed)
           in (dc_output HOOK_OK (p\<lparr>bl_messages := bl_messages p @ [plain_message ''user'' (JStr (repair_guidance rt phase tools (state_list st ''gate_fail_reasons'')))],
                                    bl_tools := tools\<rparr>),
               save_repair (bl_session p) st W))"

definition ensure_json_object :: "(string \<Rightarrow> json option) \<Rightarrow> string \<Rightarrow> json_object" where
  "ensure_json_object loads raw = (case loads raw of Some (JDict d) \<Rightarrow> d | _ \<Rightarrow> [])"

definition force_tool :: "string \<Rightarrow> before_tool_payload \<Rightarrow> before_tool_payload hook_output" where
  "force_tool reason p = dc_output HOOK_OK (p\<lparr>bt_force := True, bt_reason := Some reason\<rparr>)"

definition repair_before_tool_call :: "'e shop \<Rightarrow> bool \<Rightarrow> before_tool_payload \<Rightarrow> 'e dc_world \<Rightarrow> before_tool_payload hook_output" where
  "repair_before_tool_call sh is_sub p W =
     (let r = bt_request p; name = tc_name r; rt = sh_runtime sh; args = ensure_json_object (sh_loads sh) (tc_arguments r);
          wdir = repair_workspace_root sh (load_session_meta (bt_session p) W) (Some []);
          file_path = stripped_arg rt args ''file_path''; target = repair_path sh wdir file_path (dw_env W);
          hunk_missing = \<not> py_contains ''@@'' (state_str rt args ''patch_text'' [])
      in if \<not> is_sub then dc_output HOOK_SKIP p
         else if name = ''repair_apply_unified_patch''
         then (if file_path \<noteq> [] \<and> is_protected_path sh target wdir (cr_protected_globs default_repair_config) (dw_env W)
               then dc_output HOOK_OK (p\<lparr>bt_request := \<lparr>tc_call_id = tc_call_id r, tc_name = ''repair_write_artifacts'',
                      tc_arguments = json_dumps rt (JDict [(''artifact_type'', JStr ''custom_text''), (''output_path'', JStr ''progress.md''),
                        (''content'', JStr (''[CodeRepair Guard] blocked edit on protected path: '' @ target @ ''. Continue by editing allowed source files.''))])\<rparr>\<rparr>)
               else if file_path \<noteq> [] \<and> \<not> sh_exists sh target (dw_env W)
               then force_tool ''unified_patch_target_not_found_use_write_artifacts'' p
               else if hunk_missing then force_tool ''unified_patch_requires_context_hunk'' p
               else dc_output HOOK_SKIP p)
         else if name = ''repair_run_verification''
         then (case obj_get args ''checks'' of JList (c # cs) \<Rightarrow> dc_output HOOK_SKIP p | _ \<Rightarrow> force_tool ''verification_checks_missing'' p)
         else dc_output HOOK_SKIP p)"

definition PYTEST :: string where
  "PYTEST = ''pytest fixtures/app/test_config.py -q''"

definition forced_call :: "py_runtime \<Rightarrow> string \<Rightarrow> tool_call_request option" where
  "forced_call rt phase =
     (if phase = ''reproduce'' then Some \<lparr>tc_call_id = ''repair_force_collect'', tc_name = ''repair_collect_evidence'',
         tc_arguments = json_dumps rt (JDict [(''mode'', JStr ''command''), (''command'', JStr PYTEST)])\<rparr>
      else if phase = ''verify'' then Some \<lparr>tc_call_id = ''repair_force_verify'', tc_name = ''repair_run_verification'',
         tc_arguments = json_dumps rt (JDict [(''checks'', JList [JDict [(''name'', JStr ''pytest_target''), (''type'', JStr ''command''),
            (''args'', JDict [(''command'', JStr PYTEST), (''exit_code'', JInt 0)])]]), (''stop_on_fail'', JBool False)])\<rparr>
      else None)"

definition followup :: "string \<Rightarrow> string list \<Rightarrow> string \<Rightarrow> json_object" where
  "followup task_type groups text = [(''trigger_turn'', JBool True), (''task_type'', JStr (if task_type = [] then ''code'' else task_type)),
     (''enabled_groups'', JList (map JStr groups)), (''internal_user_text'', JStr text)]"

definition repair_after_llm_response :: "'e shop \<Rightarrow> bool \<Rightarrow> after_llm_payload \<Rightarrow> 'e dc_world \<Rightarrow> after_llm_payload hook_output \<times> 'e dc_world" where
  "repair_after_llm_response sh is_sub p W =
     (if \<not> is_sub \<or> al_calls p \<noteq> [] then (dc_output HOOK_SKIP p, W)
      else let rt = sh_runtime sh; st = load_repair (al_session p) W; phase = state_str rt st ''phase'' ''reproduce'';
               reasons = state_list st ''gate_fail_reasons''
           in if phase = ''report'' \<and> reasons \<noteq> []
              then (dc_output HOOK_OK (p\<lparr>al_force := True, al_reason := Some ''code_repair_gate_not_satisfied''\<rparr>),
                    dw_publish (al_session p) (followup (al_task_type p) (al_groups p)
                      (''CodeRepair gate not satisfied. Resolve these first: '' @ py_join ''; '' (map (py_str rt) (take 6 reasons)))) W)
              else case forced_call rt phase of
                None \<Rightarrow> (dc_output HOOK_SKIP p, W)
              | Some c \<Rightarrow> (dc_output HOOK_OK (p\<lparr>al_calls := [c]\<rparr>), W))"

text \<open>\<open>_done_gate\<close>: the reasons why the repair is not finished.\<close>

definition done_gate :: "'e shop \<Rightarrow> string \<Rightarrow> json_object \<Rightarrow> 'e dc_world \<Rightarrow> string list" where
  "done_gate sh sid st W =
     (let rt = sh_runtime sh; wdir = repair_workspace_root sh (load_session_meta sid W) (Some [])
      in if \<not> truthy (obj_get st ''verification_passed'') then [''verification_not_passed'']
         else concat (map (\<lambda>raw. if sh_exists sh (repair_path sh wdir (py_str rt raw) (dw_env W)) (dw_env W) then []
                                 else [''artifact_missing:'' @ py_str rt raw]) (state_list st ''required_artifacts'')))"

definition repair_after_tool_call ::
  "'e shop \<Rightarrow> bool \<Rightarrow> string \<Rightarrow> string list \<Rightarrow> int \<Rightarrow> after_tool_payload \<Rightarrow> 'e dc_world \<Rightarrow> after_tool_payload hook_output \<times> 'e dc_world" where
  "repair_after_tool_call sh is_sub task_type groups now p W =
     (if \<not> is_sub then (dc_output HOOK_SKIP p, W)
      else let sid = at_session p; name = tc_name (at_request p);
               st0 = dset ''last_tool_ts_ms'' (JInt now) (set_tool name (at_status p) (load_repair sid W));
               st = (if name = ''repair_apply_unified_patch'' then dset ''phase'' (JStr (if at_status p = ''ok'' then ''verify'' else ''patch'')) st0
                     else if name = ''repair_run_verification''
                     then dset ''phase'' (JStr (if truthy (obj_get st0 ''verification_passed'') then ''report'' else ''patch'')) st0
                     else if name = ''repair_write_artifacts'' then dset ''phase'' (JStr ''report'') st0 else st0);
               reasons = done_gate sh sid st W;
               W1 = save_repair sid (dset ''gate_fail_reasons'' (JList (map JStr reasons)) st) W
           in if reasons = [] then (dc_output HOOK_SKIP p, W1)
              else (dc_output HOOK_OK (p\<lparr>at_force := True, at_reason := Some ''code_repair_followup_required''\<rparr>),
                    dw_publish sid (followup task_type groups (''CodeRepair gate pending: '' @ py_join ''; '' (take 8 reasons))) W1))"

section \<open>The stored state\<close>

definition is_phase :: "json \<Rightarrow> bool" where
  "is_phase v \<longleftrightarrow> v \<in> set (map JStr [''reproduce'', ''patch'', ''verify'', ''report''])"

fun is_str_list :: "json \<Rightarrow> bool" where
  "is_str_list (JList vs) = list_all is_str vs"
| "is_str_list _ = False"

fun is_bool :: "json \<Rightarrow> bool" where
  "is_bool (JBool b) = True"
| "is_bool _ = False"

definition FIELDS :: "(string \<times> (json \<Rightarrow> bool)) list" where
  "FIELDS = [(''phase'', is_phase), (''verification_passed'', is_bool), (''last_failure_signature'', is_str), (''produced_artifacts'', is_str_list),
     (''required_artifacts'', is_str_list), (''gate_fail_reasons'', is_str_list), (''last_tool_name'', is_str), (''last_tool_status'', is_str), (''last_tool_ts_ms'', is_int)]"

definition well_typed :: "json_object \<Rightarrow> bool" where
  "well_typed st \<longleftrightarrow> dict_ok st \<and> list_all (\<lambda>(k, ok). ok (obj_get st k)) FIELDS"

lemma well_typed_default: "well_typed default_state"
  by code_simp

lemma well_typed_update: "well_typed st \<Longrightarrow> well_typed (dict_update default_state st)"
proof -
  assume st: "well_typed st"
  have "obj_get (dict_update default_state st) k = obj_get st k" if "(k, ok) \<in> set FIELDS" for k ok
  proof -
    have "\<not> ok JNull" using that by (auto simp: FIELDS_def is_phase_def)
    with st that have "dget st k \<noteq> None" by (auto simp: well_typed_def list_all_iff obj_get_def split: option.splits)
    with st show ?thesis by (auto simp: obj_get_def dget_update well_typed_def)
  qed
  with st show ?thesis using well_typed_default by (auto simp: well_typed_def list_all_iff dict_ok_update)
qed

lemma well_typed_iff:
  "well_typed st \<longleftrightarrow> dict_ok st \<and> is_phase (obj_get st ''phase'') \<and> is_bool (obj_get st ''verification_passed'') \<and> is_str (obj_get st ''last_failure_signature'') \<and>
     is_str_list (obj_get st ''produced_artifacts'') \<and> is_str_list (obj_get st ''required_artifacts'') \<and> is_str_list (obj_get st ''gate_fail_reasons'') \<and>
     is_str (obj_get st ''last_tool_name'') \<and> is_str (obj_get st ''last_tool_status'') \<and> is_int (obj_get st ''last_tool_ts_ms'')"
  by (simp add: well_typed_def FIELDS_def)

definition stored_ok :: "string \<Rightarrow> 'e dc_world \<Rightarrow> bool" where
  "stored_ok sid W \<longleftrightarrow> (case obj_get (load_session_meta sid W) ''code_repair_state'' of JDict raw \<Rightarrow> well_typed raw | _ \<Rightarrow> True)"

lemma stored_ok_load: "stored_ok sid W \<Longrightarrow> well_typed (load_repair sid W)"
  by (auto simp: stored_ok_def load_repair_def well_typed_default well_typed_update split: json.splits)

lemma stored_ok_save: "stored_ok sid W \<Longrightarrow> well_typed st \<Longrightarrow> stored_ok sid (save_repair sid st W)"
  by (auto simp: stored_ok_def save_repair_def load_session_meta_def well_typed_update split: option.splits)

lemma stored_ok_frame [simp]: "stored_ok sid (W\<lparr>dw_env := e\<rparr>) = stored_ok sid W" "stored_ok sid (dw_publish s p W) = stored_ok sid W"
  by (simp_all add: stored_ok_def load_session_meta_def dw_publish_def)

lemma well_typed_set_tool: "well_typed st \<Longrightarrow> well_typed (set_tool name status st)"
  by (simp add: set_tool_def well_typed_iff dict_ok_dset)

lemma well_typed_phase: "well_typed st \<Longrightarrow> phase \<in> {''reproduce'', ''patch'', ''verify'', ''report''} \<Longrightarrow> well_typed (dset ''phase'' (JStr phase) st)"
  by (auto simp: well_typed_iff dict_ok_dset is_phase_def)

lemma well_typed_strs:
  assumes "well_typed st" and "list_all is_str vs"
  shows "well_typed (dset ''produced_artifacts'' (JList vs) st)" and "well_typed (dset ''required_artifacts'' (JList vs) st)"
    and "well_typed (dset ''gate_fail_reasons'' (JList vs) st)"
  using assms by (simp_all add: well_typed_iff dict_ok_dset)

lemma well_typed_flags:
  assumes "well_typed st"
  shows "well_typed (dset ''verification_passed'' (JBool b) st)" and "well_typed (dset ''last_failure_signature'' (JStr s) st)"
    and "well_typed (dset ''last_tool_ts_ms'' (JInt i) st)"
  using assms by (simp_all add: well_typed_iff dict_ok_dset)

lemma well_typed_produced: "well_typed st \<Longrightarrow> list_all is_str (state_list st ''produced_artifacts'')"
  by (cases "obj_get st ''produced_artifacts''") (simp_all add: well_typed_iff state_list_def)

lemma well_typed_phase_str: "well_typed st \<Longrightarrow> state_str rt st ''phase'' ''reproduce'' \<in> {''reproduce'', ''patch'', ''verify'', ''report''}"
  by (auto simp: well_typed_iff is_phase_def state_str_def)

lemma list_all_JStr [simp]: "list_all is_str (map JStr ss)"
  by (induction ss) auto

lemmas well_typed_intros = well_typed_set_tool well_typed_phase well_typed_strs well_typed_flags well_typed_phase_str stored_ok_load

section \<open>Every operation keeps it\<close>

lemma patch_keeps: "stored_ok sid W \<Longrightarrow> stored_ok sid (snd (repair_apply_unified_patch sh cfg sid wroot args W))"
  by (auto simp: repair_apply_unified_patch_def Let_def split: sum.splits intro!: stored_ok_save well_typed_intros)

lemma verification_keeps: "stored_ok sid W \<Longrightarrow> stored_ok sid (snd (repair_run_verification sh cfg sid wroot args W))"
  by (auto simp: repair_run_verification_def Let_def split: sum.splits json.splits list.splits prod.splits intro!: stored_ok_save well_typed_intros)

lemma evidence_keeps: "stored_ok sid W \<Longrightarrow> stored_ok sid (snd (repair_collect_evidence sh cfg sid wroot args W))"
  unfolding repair_collect_evidence_def Let_def
  by (simp split: sum.splits prod.splits) (auto intro!: stored_ok_save well_typed_intros)

lemma artifacts_keep: "stored_ok sid W \<Longrightarrow> stored_ok sid (snd (repair_write_artifacts sh sid wroot args W))"
  by (auto simp: repair_write_artifacts_def Let_def intro!: stored_ok_save well_typed_intros well_typed_produced)

lemma before_llm_keeps: "bl_session p = sid \<Longrightarrow> stored_ok sid W \<Longrightarrow> stored_ok sid (snd (repair_before_llm_call sh is_sub p W))"
  by (auto simp: repair_before_llm_call_def Let_def intro!: stored_ok_save well_typed_intros)

lemma after_llm_keeps: "stored_ok sid W \<Longrightarrow> stored_ok sid (snd (repair_after_llm_response sh is_sub p W))"
  by (auto simp: repair_after_llm_response_def Let_def split: option.splits)

lemma after_tool_keeps: "at_session p = sid \<Longrightarrow> stored_ok sid W \<Longrightarrow> stored_ok sid (snd (repair_after_tool_call sh is_sub task_type groups now p W))"
  by (auto simp: repair_after_tool_call_def Let_def intro!: stored_ok_save well_typed_intros)

section \<open>The stored state is always well typed\<close>

text \<open>
  Everything that happens in the session of a repair: its tools and its hooks, and changes by other
  code, which leave the entry \<open>code_repair_state\<close> of the session alone.
\<close>

inductive repair_step :: "'e shop \<Rightarrow> bool \<Rightarrow> string \<Rightarrow> 'e dc_world \<Rightarrow> 'e dc_world \<Rightarrow> bool" for sh is_sub sid where
  patch_tool: "repair_step sh is_sub sid W (snd (repair_apply_unified_patch sh cfg sid wroot args W))"
| verification_tool: "repair_step sh is_sub sid W (snd (repair_run_verification sh cfg sid wroot args W))"
| evidence_tool: "repair_step sh is_sub sid W (snd (repair_collect_evidence sh cfg sid wroot args W))"
| artifacts_tool: "repair_step sh is_sub sid W (snd (repair_write_artifacts sh sid wroot args W))"
| before_llm: "bl_session p = sid \<Longrightarrow> repair_step sh is_sub sid W (snd (repair_before_llm_call sh is_sub p W))"
| after_llm: "repair_step sh is_sub sid W (snd (repair_after_llm_response sh is_sub al W))"
| after_tool: "at_session ap = sid \<Longrightarrow> repair_step sh is_sub sid W (snd (repair_after_tool_call sh is_sub task_type groups now ap W))"
| elsewhere: "obj_get (load_session_meta sid W') ''code_repair_state'' = obj_get (load_session_meta sid W) ''code_repair_state'' \<Longrightarrow>
    repair_step sh is_sub sid W W'"

inductive_simps repair_step_simps: "repair_step sh is_sub sid W W'"

definition no_repair_yet :: "string \<Rightarrow> 'e dc_world \<Rightarrow> bool" where
  "no_repair_yet sid W \<longleftrightarrow> obj_get (load_session_meta sid W) ''code_repair_state'' = JNull"

interpretation repair: step_system "no_repair_yet sid" "repair_step sh is_sub sid" "stored_ok sid"
proof
  show "stored_ok sid W" if "no_repair_yet sid W" for W :: "'a dc_world"
    using that by (simp add: no_repair_yet_def stored_ok_def)
next
  fix W W' :: "'a dc_world"
  assume st: "stored_ok sid W" and step: "repair_step sh is_sub sid W W'"
  from step show "stored_ok sid W'"
  proof cases
    case elsewhere
    with st show ?thesis by (simp add: stored_ok_def)
  qed (use st in \<open>simp_all add: patch_keeps verification_keeps evidence_keeps artifacts_keep before_llm_keeps after_llm_keeps after_tool_keeps\<close>)
qed

text \<open>C27. Whatever the tools and hooks of a code repair do, in any order, the state that is loaded for the
  session has every field with its type: one of the four phases, a flag, lists of strings, strings and
  a time.
\<close>

theorem repair_state_well_typed:
  assumes "no_repair_yet sid W" and "(repair_step sh is_sub sid)\<^sup>*\<^sup>* W W'"
  shows "well_typed (load_repair sid W')"
  using assms by (rule stored_ok_load [OF repair.reachable_inv])

section \<open>The gate at the end\<close>

lemma dict_ok_default [simp]: "dict_ok default_state"
  by code_simp

lemma load_after_save:
  assumes "dw_meta W sid \<noteq> None" and "dict_ok st"
  shows "load_repair sid (save_repair sid st W) = dict_update default_state (dict_update default_state st)"
  using assms by (auto simp: load_repair_def save_repair_def load_session_meta_def)

lemma load_save_get:
  assumes "dw_meta W sid \<noteq> None" and "dict_ok st" and "dget st k = Some v"
  shows "obj_get (load_repair sid (save_repair sid st W)) k = v"
  using assms using dict_ok_update [OF dict_ok_default, of st] by (simp add: load_after_save dget_update obj_get_def)

lemma dict_ok_load [simp]: "dict_ok (load_repair sid W)"
  using dict_ok_update [OF dict_ok_default] by (simp add: load_repair_def split: json.splits)

text \<open>When a repair is finished.\<close>

definition repair_finished :: "'e shop \<Rightarrow> string \<Rightarrow> json_object \<Rightarrow> 'e dc_world \<Rightarrow> bool" where
  "repair_finished sh sid st W \<longleftrightarrow> truthy (obj_get st ''verification_passed'') \<and>
     list_all (\<lambda>raw. sh_exists sh (repair_path sh (repair_workspace_root sh (load_session_meta sid W) (Some [])) (py_str (sh_runtime sh) raw) (dw_env W)) (dw_env W))
       (state_list st ''required_artifacts'')"

lemma done_gate_Nil: "done_gate sh sid st W = [] \<longleftrightarrow> repair_finished sh sid st W"
  by (auto simp: done_gate_def repair_finished_def Let_def list_all_iff)

lemma repair_finished_frame [simp]:
  "repair_finished sh sid (dset ''phase'' v st) W = repair_finished sh sid st W"
  "repair_finished sh sid (dset ''last_tool_ts_ms'' v st) W = repair_finished sh sid st W"
  "repair_finished sh sid (set_tool a b st) W = repair_finished sh sid st W"
  by (simp_all add: repair_finished_def set_tool_def state_list_def)

lemma published_save [simp]: "dw_published (save_repair sid st W) = dw_published W" "dw_bus (save_repair sid st W) = dw_bus W"
  by (simp_all add: save_repair_def split: option.splits)


section \<open>A refused patch\<close>

lemma object_text_no_error: "\<not> py_startswith (json_dumps rt (JDict d)) ''Error: ''"
  by (simp add: py_startswith_def)

lemma refused_patch_changes_nothing:
  assumes "py_startswith (fst (repair_apply_unified_patch sh cfg sid wroot args W)) ''Error: ''"
  shows "snd (repair_apply_unified_patch sh cfg sid wroot args W) = W"
  using assms unfolding repair_apply_unified_patch_def Let_def
  by (auto simp: object_text_no_error simp del: json_dumps.simps split: sum.splits if_splits)

lemma refused_patch_status:
  assumes "\<And>T. fst (pl_execute pl (tc_name r) (tc_arguments r) sid T) = Inr t"
  shows "fst (snd (fst (execute_call pl sid index r usage T))) = ''ok''"
  by (simp add: execute_call_def Let_def case_prod_beta assms)

text \<open> A patch that the tool refuses changes no file and not the stored state, but its answer is a
  text and no exception, so the planner reports the call as \<open>ok\<close> and the hook after it moves the repair
  from patching to verification.
\<close>

theorem refused_patch_moves_to_verify:
  assumes "tc_name r = ''repair_apply_unified_patch''"
    and refused: "py_startswith (fst (repair_apply_unified_patch sh cfg sid wroot args W)) ''Error: ''"
    and tool: "\<And>T. fst (pl_execute pl (tc_name r) (tc_arguments r) sid T) = Inr (fst (repair_apply_unified_patch sh cfg sid wroot args W))"
    and hook: "at_request p = r" "at_session p = sid" "at_status p = fst (snd (fst (execute_call pl sid index r usage T)))"
    and "dw_meta W sid \<noteq> None"
  shows "snd (repair_apply_unified_patch sh cfg sid wroot args W) = W \<and>
    obj_get (load_repair sid (snd (repair_after_tool_call sh True task_type groups now p W))) ''phase'' = JStr ''verify''"
proof
  show "snd (repair_apply_unified_patch sh cfg sid wroot args W) = W" using refused by (rule refused_patch_changes_nothing)
next
  have ok: "at_status p = ''ok''" unfolding hook(3) using tool by (rule refused_patch_status)
  have keep: "load_repair sid (dw_publish s q V) = load_repair sid V" for s q and V :: "'a dc_world"
    by (simp add: load_repair_def load_session_meta_def dw_publish_def)
  show "obj_get (load_repair sid (snd (repair_after_tool_call sh True task_type groups now p W))) ''phase'' = JStr ''verify''"
    using assms(1) ok hook assms(7)
    by (auto simp: repair_after_tool_call_def Let_def keep load_save_get dict_ok_dset set_tool_def)
qed

section \<open>What may be edited and run\<close>

lemma fnmatch_needs: "fnmatch p s \<Longrightarrow> c \<in> set p \<Longrightarrow> c \<noteq> CHR ''*'' \<Longrightarrow> c \<noteq> CHR ''?'' \<Longrightarrow> c \<in> set s"
  by (induction p s rule: fnmatch.induct) (auto split: if_splits)

text \<open> With the default patterns a test file directly in the workspace is not protected: every pattern
  contains a slash, and the path that is matched has none.
\<close>

theorem root_tests_unprotected:
  assumes "relative_to (sh_resolve sh path e) (sh_resolve sh wdir e) = Some rel" and "CHR ''/'' \<notin> set rel" and "CHR 0x5C \<notin> set rel"
  shows "\<not> is_protected_path sh path wdir (cr_protected_globs default_repair_config) e"
proof -
  have "map (\<lambda>c. if c = CHR 0x5C then CHR ''/'' else c) rel = rel" using assms(3) by (intro map_idI) auto
  moreover have "\<not> fnmatch g rel" if "CHR ''/'' \<in> set g" for g using fnmatch_needs [OF _ that, of rel] assms(2) by auto
  ultimately show ?thesis using assms(1) by (simp add: is_protected_path_def default_repair_config_def del: fnmatch.simps)
qed

lemma policy_refuses: "py_contains '';'' command \<Longrightarrow> command_policy_violation command \<noteq> None"
  by (simp add: command_policy_violation_def Let_def)

text \<open> A check of type \<open>git_ancestor\<close> runs whatever shell command follows a semicolon in its
  argument, although the same command as a check of type \<open>command\<close> is refused without running anything.
\<close>

theorem git_check_escapes_policy:
  assumes "py_strip command = command" and "command \<noteq> []"
    and "line = ''git merge-base --is-ancestor HEAD HEAD; '' @ command"
  shows "snd (run_check sh wdir allow (JDict [(''type'', JStr ''git_ancestor''), (''ancestor'', JStr ''HEAD''), (''descendant'', JStr (''HEAD; '' @ command))]) e)
      = snd (sh_run sh line wdir e) \<and>
    snd (run_check sh wdir allow (JDict [(''type'', JStr ''command''), (''command'', JStr line)]) e) = e"
proof -
  define d where "d = ''HEAD; '' @ command"
  have "\<not> is_space (last command)" using py_strip_edges [of command] assms(1,2) by simp
  then have strip: "py_strip d = d" "py_strip line = line" "d \<noteq> []" "line \<noteq> []"
    unfolding d_def assms(3) by (auto simp: assms(2) is_space_def intro!: py_strip_id)
  have "line = ''git merge-base --is-ancestor '' @ ''HEAD'' @ '' '' @ d" by (simp add: d_def assms(3))
  then have "snd (run_check sh wdir allow (JDict [(''type'', JStr ''git_ancestor''), (''ancestor'', JStr ''HEAD''), (''descendant'', JStr (''HEAD; '' @ command))]) e)
      = snd (sh_run sh line wdir e)"
    unfolding d_def [symmetric] using strip(1,3)
    by (simp add: run_check_def run_git_check_def stripped_arg_def state_str_def py_or_def py_str_def py_strip_id is_space_def split: prod.splits)
  moreover have "py_contains '';'' line" by (simp add: assms(3) py_startswith_def)
  then obtain m where m: "command_policy_violation line = Some m" using policy_refuses by fastforce
  moreover have "snd (run_check sh wdir allow (JDict [(''type'', JStr ''command''), (''command'', JStr line)]) e) = e"
    using strip(2,4) m
    by (simp add: run_check_def run_command_check_def stripped_arg_def state_str_def py_or_def py_str_def obj_get_or_def Let_def split: sum.splits)
  ultimately show ?thesis by blast
qed

section \<open>Witnesses\<close>

text \<open>A file system of named texts in which every command leaves a trace.\<close>

definition demo_shop :: "(string, string) dict shop" where
  "demo_shop = \<lparr>sh_cwd = ''/w'', sh_resolve = \<lambda>p e. p, sh_exists = \<lambda>p e. dget e p \<noteq> None, sh_is_file = \<lambda>p e. dget e p \<noteq> None,
     sh_size = \<lambda>p e. 0, sh_hash = \<lambda>p e. ''h'', sh_read = \<lambda>p e. (case dget e p of Some t \<Rightarrow> t | None \<Rightarrow> []), sh_write = dset,
     sh_run = \<lambda>c d e. ((0, [], []), dset ''ran'' c e), sh_search = \<lambda>p l. None, sh_loads = \<lambda>t. None, sh_dumps_indented = \<lambda>v. ''{}'',
     sh_runtime = null_runtime\<rparr>"

definition demo_repair :: "(string, string) dict dc_world" where
  "demo_repair = \<lparr>dw_env = [(''/w/app.py'', ''x'' @ LF)], dw_meta = \<lambda>_. Some (JDict [(''workspace_root'', JStr ''/w'')]), dw_bus = True, dw_published = []\<rparr>"

definition demo_after :: "string \<Rightarrow> string \<Rightarrow> after_tool_payload" where
  "demo_after name status = \<lparr>at_request = demo_call name ''{}'', at_session = ''m_sub_1'', at_index = 0, at_result = [], at_status = status, at_force = False, at_reason = None\<rparr>"

definition demo_patch_args :: json_object where
  "demo_patch_args = [(''file_path'', JStr ''gone.py''), (''patch_text'', JStr ''x'')]"

definition refused_answer :: string where
  "refused_answer = fst (repair_apply_unified_patch demo_shop default_repair_config ''m_sub_1'' None demo_patch_args demo_repair)"

theorem repair_state_well_typed_witness:
  "well_typed (load_repair ''m_sub_1'' (snd (repair_write_artifacts demo_shop ''m_sub_1'' None [(''artifact_type'', JStr ''rca_md''), (''output_path'', JStr ''rca.md'')] demo_repair)))"
proof (rule repair_state_well_typed)
  show "no_repair_yet ''m_sub_1'' demo_repair" by code_simp
qed (rule r_into_rtranclp, rule repair_step.artifacts_tool [of demo_shop True])


theorem refused_patch_moves_to_verify_witness:
  "obj_get (load_repair ''m_sub_1'' (snd (repair_after_tool_call demo_shop True ''code'' [] 5 (demo_after ''repair_apply_unified_patch'' ''ok'') demo_repair))) ''phase'' = JStr ''verify''"
proof -
  let ?pl = "demo_planner\<lparr>pl_execute := \<lambda>n a s T. (Inr refused_answer, T)\<rparr>"
  let ?r = "demo_call ''repair_apply_unified_patch'' ''{}''"
  let ?p = "demo_after ''repair_apply_unified_patch'' ''ok''"
  have 1: "tc_name ?r = ''repair_apply_unified_patch''" by (simp add: demo_call_def)
  have 2: "py_startswith (fst (repair_apply_unified_patch demo_shop default_repair_config ''m_sub_1'' None demo_patch_args demo_repair)) ''Error: ''" by code_simp
  have 3: "fst (pl_execute ?pl (tc_name ?r) (tc_arguments ?r) ''m_sub_1'' T) =
      Inr (fst (repair_apply_unified_patch demo_shop default_repair_config ''m_sub_1'' None demo_patch_args demo_repair))" for T
    by (simp add: refused_answer_def)
  have 4: "at_request ?p = ?r" "at_session ?p = ''m_sub_1''" by (simp_all add: demo_after_def)
  have 5: "at_status ?p = fst (snd (fst (execute_call ?pl ''m_sub_1'' 0 ?r no_usage demo_turn)))"
    unfolding refused_patch_status [of ?pl ?r "''m_sub_1''", OF 3] by (simp add: demo_after_def)
  have 6: "dw_meta demo_repair ''m_sub_1'' \<noteq> None" by (simp add: demo_repair_def)
  show ?thesis using refused_patch_moves_to_verify [OF 1 2 3 4 5 6] by blast
qed

theorem root_tests_unprotected_witness:
  "\<not> is_protected_path demo_shop ''/w/test_config.py'' ''/w'' (cr_protected_globs default_repair_config) [] \<and>
   is_protected_path demo_shop ''/w/tests/test_config.py'' ''/w'' (cr_protected_globs default_repair_config) []"
proof
  have "relative_to (sh_resolve demo_shop ''/w/test_config.py'' []) (sh_resolve demo_shop ''/w'' []) = Some ''test_config.py''" by code_simp
  then show "\<not> is_protected_path demo_shop ''/w/test_config.py'' ''/w'' (cr_protected_globs default_repair_config) []"
    by (rule root_tests_unprotected) simp_all
  show "is_protected_path demo_shop ''/w/tests/test_config.py'' ''/w'' (cr_protected_globs default_repair_config) []" by code_simp
qed

theorem git_check_escapes_policy_witness:
  "dget (snd (run_check demo_shop ''/w'' [''pytest''] (JDict [(''type'', JStr ''git_ancestor''), (''ancestor'', JStr ''HEAD''), (''descendant'', JStr (''HEAD; '' @ ''rm -r src''))]) [])) ''ran''
     = Some ''git merge-base --is-ancestor HEAD HEAD; rm -r src''"
proof -
  have "py_strip ''rm -r src'' = ''rm -r src''" by code_simp
  from git_check_escapes_policy [OF this _ refl, of demo_shop "''/w''" "[''pytest'']" "[]"] show ?thesis
    by (simp add: demo_shop_def)
qed

end
