(* ===== verification/Llm.thy ===== *)
theory Llm
  imports Planner
begin

text \<open>
  The model client (\<^verbatim>\<open>infrastructure/llm/client.py\<close>, \<^verbatim>\<open>config.py\<close>, \<^verbatim>\<open>factory.py\<close>): endpoint profiles and
  their configuration document, one request with its retries and its fallback profile, and the parsers
  that turn an answer of either API into the response the planner works on.

  The OpenAI SDK, the environment variables and the clock are a record of functions over a state
  \<open>'e\<close>; what the SDK answers is the dictionary that \<open>model_dump()\<close> returns.
\<close>

section \<open>Profiles\<close>

record llm_profile =
  pf_name :: string
  pf_api_base :: string
  pf_model :: string
  pf_key_env :: string
  pf_timeout :: int
  pf_temperature :: rat
  pf_type :: string
  pf_api_path :: "string option"
  pf_image_field :: "string option"
  pf_request_format :: "string option"
  pf_multipart_field :: "string option"

record endpoint_config =
  ec_default :: string
  ec_fallback :: "string option"
  ec_profiles :: "(string, llm_profile) dict"

definition opt_text :: "py_runtime \<Rightarrow> json_object \<Rightarrow> string \<Rightarrow> string option" where
  "opt_text rt raw k = (case obj_get raw k of JNull \<Rightarrow> None | v \<Rightarrow> Some (py_str rt v))"

definition parse_profile :: "py_runtime \<Rightarrow> string \<Rightarrow> json \<Rightarrow> llm_profile res" where
  "parse_profile rt name v =
     res_bind (as_obj v) (\<lambda>raw.
     res_bind (py_int rt (obj_get_or raw ''timeout_seconds'' (JInt 30))) (\<lambda>timeout.
     res_bind (py_float rt (obj_get_or raw ''temperature'' (JFloat (1 / 5)))) (\<lambda>temperature.
       Inr \<lparr>pf_name = name,
            pf_api_base = py_str rt (obj_get_or raw ''api_base'' (JStr ''https://api.openai.com/v1'')),
            pf_model = py_str rt (obj_get_or raw ''model'' (JStr ''gpt-4o-mini'')),
            pf_key_env = py_str rt (obj_get_or raw ''api_key_env'' (JStr ''OPENAI_API_KEY'')),
            pf_timeout = timeout, pf_temperature = temperature,
            pf_type = py_str rt (obj_get_or raw ''type'' (JStr ''chat'')),
            pf_api_path = opt_text rt raw ''api_path'', pf_image_field = opt_text rt raw ''response_image_field'',
            pf_request_format = opt_text rt raw ''request_format'', pf_multipart_field = opt_text rt raw ''multipart_image_field''\<rparr>)))"

text \<open>The document is \<open>None\<close> when the file does not exist; a default profile that is no text is not modelled.\<close>

definition load_endpoint_config :: "py_runtime \<Rightarrow> json_object option \<Rightarrow> endpoint_config res" where
  "load_endpoint_config rt document = (case document of
      None \<Rightarrow> Inr \<lparr>ec_default = ''main'', ec_fallback = None, ec_profiles = []\<rparr>
    | Some data \<Rightarrow>
        res_bind (as_obj (py_or (obj_get data ''profiles'') (JDict []))) (\<lambda>raw.
        res_bind (res_map (\<lambda>(name, v). res_bind (parse_profile rt name v) (\<lambda>p. Inr (name, p))) raw) (\<lambda>profiles.
          Inr \<lparr>ec_default = (case obj_get_or data ''default_profile'' (JStr ''main'') of JStr d \<Rightarrow> d | v \<Rightarrow> py_str rt v),
               ec_fallback = (case obj_get data ''fallback_profile'' of
                   JStr f \<Rightarrow> if py_strip f \<noteq> [] then Some (py_strip f) else None | _ \<Rightarrow> None),
               ec_profiles = profiles\<rparr>)))"

definition resolve_fallback_profile :: "endpoint_config \<Rightarrow> string \<Rightarrow> llm_profile option" where
  "resolve_fallback_profile cfg current = (case ec_fallback cfg of
      None \<Rightarrow> None
    | Some f \<Rightarrow> if f = [] \<or> f = current then None else dget (ec_profiles cfg) f)"

text \<open>The two profiles of a client; \<open>None\<close> is the \<open>RuntimeError\<close> for a profile that is not configured.\<close>

definition create_llm_client :: "endpoint_config \<Rightarrow> string \<Rightarrow> (llm_profile \<times> llm_profile option) option" where
  "create_llm_client cfg name = (case dget (ec_profiles cfg) name of
      None \<Rightarrow> None | Some p \<Rightarrow> Some (p, resolve_fallback_profile cfg name))"

definition create_default_llm_client :: "endpoint_config \<Rightarrow> (llm_profile \<times> llm_profile option) option" where
  "create_default_llm_client cfg = create_llm_client cfg (ec_default cfg)"

text \<open>\<open>re.search(r"(^|/)gpt-5([.-]|$)", model)\<close>; \<open>start\<close> says that the text before is empty or ends in a slash.\<close>

fun names_gpt5 :: "bool \<Rightarrow> string \<Rightarrow> bool" where
  "names_gpt5 start [] = False"
| "names_gpt5 start (c # cs) =
     (start \<and> py_startswith (c # cs) ''gpt-5'' \<and> (case drop 5 (c # cs) of [] \<Rightarrow> True | d # _ \<Rightarrow> d = CHR ''.'' \<or> d = CHR ''-'') \<or>
      names_gpt5 (c = CHR ''/'') cs)"

definition is_responses_profile :: "llm_profile \<Rightarrow> bool" where
  "is_responses_profile pf = names_gpt5 True (py_lower (py_strip (pf_model pf)))"

section \<open>Exceptions\<close>

datatype llm_exc =
    ApiStatusError int
  | ApiConnectionError
  | ApiTimeoutError
  | OtherError string
  | PyError py_error

text \<open>
  Without the SDK every error class of the client is \<open>Exception\<close>, so an error of any kind is taken for a
  status error without a status.
\<close>

record 'e llm_env =
  le_sdk :: bool
  le_key :: "string \<Rightarrow> string"
  le_call :: "llm_profile \<Rightarrow> string \<Rightarrow> json_object \<Rightarrow> 'e \<Rightarrow> (llm_exc + json_object) \<times> 'e"
  le_sleep :: "nat \<Rightarrow> 'e \<Rightarrow> 'e"
  le_uuid :: "nat \<Rightarrow> string"
  le_tag :: string
  le_runtime :: py_runtime

definition RETRYABLE :: "int list" where
  "RETRYABLE = [429, 500, 502, 503, 504]"

definition MAX_RETRIES :: nat where
  "MAX_RETRIES = 3"

definition BASE_DELAY :: nat where
  "BASE_DELAY = 2"

definition sdk_call :: "'e llm_env \<Rightarrow> llm_profile \<Rightarrow> string \<Rightarrow> json_object \<Rightarrow> 'e \<Rightarrow> (llm_exc + json_object) \<times> 'e" where
  "sdk_call le pf key payload e =
     (if le_sdk le then le_call le pf key payload e
      else (Inl (OtherError ''openai SDK is not available; please install project dependencies.''), e))"

fun retry_again :: "bool \<Rightarrow> llm_exc \<Rightarrow> bool" where
  "retry_again sdk (ApiStatusError code) = (sdk \<and> code \<in> set RETRYABLE)"
| "retry_again sdk ApiConnectionError = sdk"
| "retry_again sdk ApiTimeoutError = sdk"
| "retry_again sdk _ = False"

text \<open>\<open>_should_try_fallback\<close>\<close>

definition should_try_fallback :: "bool \<Rightarrow> llm_exc \<Rightarrow> bool" where
  "should_try_fallback sdk x = (\<not> sdk \<or> retry_again sdk x)"

text \<open>\<open>_raise_if_payload_error\<close>\<close>

definition payload_error :: "py_runtime \<Rightarrow> json_object \<Rightarrow> llm_exc option" where
  "payload_error rt data = (case dget data ''error'' of
      None \<Rightarrow> None
    | Some err \<Rightarrow>
        (let code = (case err of JDict d \<Rightarrow> obj_get_or d ''code'' (JStr ''unknown_code'') | _ \<Rightarrow> JStr ''unknown_code'');
             msg = (case err of JDict d \<Rightarrow> obj_get_or d ''message'' (JStr (py_str rt err)) | _ \<Rightarrow> JStr (py_str rt err))
         in Some (OtherError (''LLM API Payload Error: ['' @ py_str rt code @ ''] '' @ py_str rt msg))))"

section \<open>Parsing an answer\<close>

definition py :: "'a res \<Rightarrow> llm_exc + 'a" where
  "py r = (case r of Inl x \<Rightarrow> Inl (PyError x) | Inr v \<Rightarrow> Inr v)"

fun int_or_none :: "json \<Rightarrow> int option" where
  "int_or_none (JInt i) = Some i"
| "int_or_none (JBool b) = Some (if b then 1 else 0)"
| "int_or_none _ = None"

definition build_usage :: "json \<Rightarrow> json \<Rightarrow> json \<Rightarrow> usage_tokens" where
  "build_usage p c t = \<lparr>use_prompt = int_or_none p, use_completion = int_or_none c, use_total = int_or_none t\<rparr>"

definition text_part :: "json \<Rightarrow> string list" where
  "text_part v = (case obj_get (dict_of v) ''text'' of JStr t \<Rightarrow> if py_strip t \<noteq> [] then [py_strip t] else [] | _ \<Rightarrow> [])"

definition normalize_message_content :: "py_runtime \<Rightarrow> json \<Rightarrow> string" where
  "normalize_message_content rt content = (case content of
      JStr s \<Rightarrow> py_strip s
    | JList vs \<Rightarrow> py_strip (py_join LF (concat (map text_part (filter is_dict vs))))
    | _ \<Rightarrow> py_strip (py_str rt (py_or content (JStr []))))"

text \<open>
  The regular expressions of \<open>_parse_dsml_tool_calls\<close> as matchers that give what they matched and the rest of
  the text. \<open>tag\<close> is the word that starts every tag name (its fullwidth bars are no characters of the model).
\<close>

definition expect :: "string \<Rightarrow> string \<Rightarrow> string option" where
  "expect p s = (if py_startswith s p then Some (drop (length p) s) else None)"

fun until_text :: "string \<Rightarrow> string \<Rightarrow> (string \<times> string) option" where
  "until_text stop [] = (if stop = [] then Some ([], []) else None)"
| "until_text stop (c # cs) =
     (if py_startswith (c # cs) stop then Some ([], drop (length stop) (c # cs))
      else map_option (\<lambda>(a, b). (c # a, b)) (until_text stop cs))"

definition is_quote :: "char \<Rightarrow> bool" where
  "is_quote c \<longleftrightarrow> c = CHR 0x27 \<or> c = CHR 0x22"

text \<open>\<open>\s+name=['"]([^'"]+)['"]\<close>\<close>

definition name_attribute :: "string \<Rightarrow> (string \<times> string) option" where
  "name_attribute s = (case s of
      [] \<Rightarrow> None
    | c # _ \<Rightarrow> if \<not> is_space c then None else
        (case expect ''name='' (dropWhile is_space s) of
           Some (q # r) \<Rightarrow>
             (let name = takeWhile (\<lambda>c. \<not> is_quote c) r; r1 = dropWhile (\<lambda>c. \<not> is_quote c) r
              in if is_quote q \<and> name \<noteq> [] \<and> r1 \<noteq> [] then Some (name, tl r1) else None)
         | _ \<Rightarrow> None))"

definition match_element :: "string \<Rightarrow> string \<Rightarrow> bool \<Rightarrow> string \<Rightarrow> ((string \<times> string) \<times> string) option" where
  "match_element tag elem more_attributes s =
     Option.bind (expect (''<'' @ tag @ elem) s) (\<lambda>s1.
     Option.bind (name_attribute s1) (\<lambda>(name, s2).
     Option.bind (if more_attributes then map_option snd (until_text ''>'' s2) else expect ''>'' s2) (\<lambda>s3.
     Option.bind (until_text (''</'' @ tag @ elem @ ''>'') s3) (\<lambda>(body, s4). Some ((name, body), s4)))))"

text \<open>\<open>finditer\<close>: the matches from left to right, each search starting after the match before it.\<close>

function find_iter :: "(string \<Rightarrow> ('a \<times> string) option) \<Rightarrow> string \<Rightarrow> 'a list" where
  "find_iter m [] = []"
| "find_iter m (c # cs) = (case m (c # cs) of
      None \<Rightarrow> find_iter m cs
    | Some (x, rest) \<Rightarrow> x # (if length rest \<le> length cs then find_iter m rest else []))"
  by pat_completeness auto
termination
  by (relation "measure (\<lambda>(m, s). length s)") auto

definition parse_dsml_tool_calls :: "'e llm_env \<Rightarrow> string \<Rightarrow> tool_call_request list" where
  "parse_dsml_tool_calls le reasoning =
     (if reasoning = [] \<or> \<not> py_contains (''<'' @ le_tag le) reasoning then []
      else map (\<lambda>(i, name, body).
          \<lparr>tc_call_id = ''dsml_'' @ take 8 (le_uuid le i), tc_name = py_strip name,
           tc_arguments = json_dumps (le_runtime le) (JDict (fold (\<lambda>(k, v) d. dset (py_strip k) (JStr (py_strip v)) d)
             (find_iter (match_element (le_tag le) ''parameter'' True) body) []))\<rparr>)
        (List.enumerate 0 (find_iter (match_element (le_tag le) ''invoke'' False) reasoning)))"

fun first_item :: "json \<Rightarrow> json res" where
  "first_item (JList (c # cs)) = Inr c"
| "first_item (JStr (c # cs)) = Inr (JStr [c])"
| "first_item (JDict d) = Inl KeyError"
| "first_item _ = Inl TypeError"

definition parse_tool_call :: "py_runtime \<Rightarrow> json \<Rightarrow> tool_call_request res" where
  "parse_tool_call rt v =
     res_bind (as_obj v) (\<lambda>call.
     res_bind (as_obj (obj_get_or call ''function'' (JDict []))) (\<lambda>function.
       Inr \<lparr>tc_call_id = py_str rt (obj_get_or call ''id'' (JStr [])), tc_name = py_str rt (obj_get_or function ''name'' (JStr [])),
            tc_arguments = py_str rt (obj_get_or function ''arguments'' (JStr ''{}''))\<rparr>))"

definition reasoning_calls :: "'e llm_env \<Rightarrow> json \<Rightarrow> tool_call_request list res" where
  "reasoning_calls le reasoning = (case py_or reasoning (JStr []) of
      JStr s \<Rightarrow> Inr (parse_dsml_tool_calls le s)
    | JList vs \<Rightarrow> if JStr (''<'' @ le_tag le) \<in> set vs then Inl TypeError else Inr []
    | JDict d \<Rightarrow> if dget d (''<'' @ le_tag le) \<noteq> None then Inl TypeError else Inr []
    | _ \<Rightarrow> Inl TypeError)"

definition usage_of :: "string \<Rightarrow> string \<Rightarrow> json \<Rightarrow> usage_tokens" where
  "usage_of p c raw = build_usage (obj_get (dict_of raw) p) (obj_get (dict_of raw) c) (obj_get (dict_of raw) ''total_tokens'')"

definition parse_chat_completion_result :: "'e llm_env \<Rightarrow> json_object \<Rightarrow> llm_response res" where
  "parse_chat_completion_result le data =
     (let rt = le_runtime le; choices = obj_get_or data ''choices'' (JList [])
      in if \<not> truthy choices then Inr \<lparr>lr_text = [], lr_calls = [], lr_usage = no_usage, lr_finish = None\<rparr>
         else
           res_bind (first_item choices) (\<lambda>c.
           res_bind (as_obj c) (\<lambda>choice.
           res_bind (as_obj (obj_get_or choice ''message'' (JDict []))) (\<lambda>message.
           res_bind (iter_items (py_or (obj_get_or message ''tool_calls'' (JList [])) (JList []))) (\<lambda>raw.
           res_bind (res_map (parse_tool_call rt) raw) (\<lambda>calls.
           res_bind (if calls = [] then reasoning_calls le (obj_get message ''reasoning_content'') else Inr calls) (\<lambda>calls'.
             Inr \<lparr>lr_text = normalize_message_content rt (obj_get message ''content''), lr_calls = calls',
                  lr_usage = usage_of ''prompt_tokens'' ''completion_tokens'' (obj_get_or data ''usage'' (JDict [])),
                  lr_finish = Some (py_str rt (obj_get choice ''finish_reason''))\<rparr>)))))))"

text \<open>The Responses API.\<close>

definition output_call :: "py_runtime \<Rightarrow> json_object \<Rightarrow> tool_call_request" where
  "output_call rt item =
     \<lparr>tc_call_id = py_str rt (py_or (obj_get item ''call_id'') (py_or (obj_get item ''id'') (JStr []))),
      tc_name = py_str rt (py_or (obj_get item ''name'') (JStr [])),
      tc_arguments = py_str rt (py_or (obj_get item ''arguments'') (JStr ''{}''))\<rparr>"

definition output_type :: "py_runtime \<Rightarrow> json_object \<Rightarrow> string" where
  "output_type rt item = py_str rt (py_or (obj_get item ''type'') (JStr []))"

definition is_call_type :: "string \<Rightarrow> bool" where
  "is_call_type ty \<longleftrightarrow> ty = ''function_call'' \<or> ty = ''tool_call''"

definition output_text :: "json \<Rightarrow> string list" where
  "output_text part = (case part of
      JDict d \<Rightarrow> if obj_get d ''type'' = JStr ''output_text'' \<or> obj_get d ''type'' = JStr ''text'' then text_part part else []
    | _ \<Rightarrow> [])"

definition item_texts :: "py_runtime \<Rightarrow> json_object \<Rightarrow> string list res" where
  "item_texts rt item =
     (if output_type rt item = ''message''
      then res_bind (iter_items (py_or (obj_get item ''content'') (JList []))) (\<lambda>parts. Inr (concat (map output_text parts)))
      else Inr [])"

definition finish_reason_of :: "string \<Rightarrow> string \<Rightarrow> bool \<Rightarrow> string option" where
  "finish_reason_of status reason has_calls =
     (if status = ''incomplete'' \<and> reason \<in> {''max_output_tokens'', ''max_completion_tokens'', ''length''} then Some ''length''
      else if has_calls then Some ''tool_calls''
      else if status = [] then None else Some status)"

definition parse_responses_result :: "'e llm_env \<Rightarrow> json_object \<Rightarrow> llm_response res" where
  "parse_responses_result le data =
     (let rt = le_runtime le;
          items = (case obj_get data ''output'' of JList vs \<Rightarrow> map dict_of (filter is_dict vs) | _ \<Rightarrow> []);
          calls = map (output_call rt) (filter (\<lambda>i. is_call_type (output_type rt i)) items);
          status = py_str rt (py_or (obj_get data ''status'') (JStr []));
          reason = (case obj_get data ''incomplete_details'' of
              JDict d \<Rightarrow> py_lower (py_strip (py_str rt (py_or (obj_get d ''reason'') (JStr [])))) | _ \<Rightarrow> [])
      in res_bind (res_map (item_texts rt) items) (\<lambda>texts.
           Inr \<lparr>lr_text = py_strip (py_join LF (concat texts)), lr_calls = calls,
                lr_usage = usage_of ''input_tokens'' ''output_tokens'' (obj_get data ''usage''),
                lr_finish = finish_reason_of status reason (calls \<noteq> [])\<rparr>))"

section \<open>One request\<close>

definition responses_tool :: "json \<Rightarrow> json" where
  "responses_tool x = (case x of
      JDict d \<Rightarrow> (case (obj_get d ''type'', obj_get d ''function'') of
          (JStr t, JDict f) \<Rightarrow> if t = ''function'' then JDict (fold (\<lambda>(k, v) d. dset k v d) f [(''type'', JStr ''function'')]) else x
        | _ \<Rightarrow> x)
    | _ \<Rightarrow> x)"

definition request_payload :: "llm_profile \<Rightarrow> json list \<Rightarrow> json list \<Rightarrow> json_object" where
  "request_payload pf messages tools =
     (if is_responses_profile pf
      then [(''model'', JStr (pf_model pf)), (''input'', JList messages)] @
           (if tools \<noteq> [] then [(''tools'', JList (map responses_tool tools)), (''tool_choice'', JStr ''auto'')] else [])
      else [(''model'', JStr (pf_model pf)), (''messages'', JList messages), (''temperature'', JFloat (pf_temperature pf))] @
           (if tools \<noteq> [] then [(''tools'', JList tools), (''tool_choice'', JStr ''auto'')] else []))"

text \<open>One attempt, and the attempts that are left after \<open>attempt\<close> earlier ones.\<close>

definition try_once :: "'e llm_env \<Rightarrow> llm_profile \<Rightarrow> string \<Rightarrow> json_object \<Rightarrow> 'e \<Rightarrow> (llm_exc + json_object) \<times> 'e" where
  "try_once le pf key payload e = (case sdk_call le pf key payload e of
      (Inl x, e1) \<Rightarrow> (Inl x, e1)
    | (Inr data, e1) \<Rightarrow> ((case payload_error (le_runtime le) data of Some x \<Rightarrow> Inl x | None \<Rightarrow> Inr data), e1))"

fun attempts :: "'e llm_env \<Rightarrow> llm_profile \<Rightarrow> string \<Rightarrow> json_object \<Rightarrow> nat \<Rightarrow> nat \<Rightarrow> 'e \<Rightarrow> (llm_exc + json_object) \<times> 'e" where
  "attempts le pf key payload attempt 0 e = (Inr [], e)"
| "attempts le pf key payload attempt (Suc left) e = (case try_once le pf key payload e of
      (Inr data, e1) \<Rightarrow> (Inr data, e1)
    | (Inl x, e1) \<Rightarrow>
        (if retry_again (le_sdk le) x \<and> left \<noteq> 0
         then attempts le pf key payload (attempt + 1) left (le_sleep le (BASE_DELAY * 2 ^ attempt) e1)
         else (Inl x, e1)))"

definition chat_with_profile :: "'e llm_env \<Rightarrow> llm_profile \<Rightarrow> json list \<Rightarrow> json list \<Rightarrow> 'e \<Rightarrow> (llm_exc + llm_response) \<times> 'e" where
  "chat_with_profile le pf messages tools e =
     (let key = py_strip (le_key le (pf_key_env pf))
      in if key = [] then (Inl (OtherError (''Missing API key env: '' @ pf_key_env pf)), e)
         else case attempts le pf key (request_payload pf messages tools) 0 MAX_RETRIES e of
           (Inl x, e1) \<Rightarrow> (Inl x, e1)
         | (Inr data, e1) \<Rightarrow>
             (py (if is_responses_profile pf then parse_responses_result le data else parse_chat_completion_result le data), e1))"

definition is_available :: "'e llm_env \<Rightarrow> llm_profile \<Rightarrow> bool" where
  "is_available le pf \<longleftrightarrow> py_strip (le_key le (pf_key_env pf)) \<noteq> []"

definition chat_with_tools ::
  "'e llm_env \<Rightarrow> llm_profile \<Rightarrow> llm_profile option \<Rightarrow> json list \<Rightarrow> json list \<Rightarrow> 'e \<Rightarrow> (llm_exc + llm_response) \<times> 'e" where
  "chat_with_tools le pf fallback messages tools e = (case chat_with_profile le pf messages tools e of
      (Inr r, e1) \<Rightarrow> (Inr r, e1)
    | (Inl x, e1) \<Rightarrow>
        (if \<not> should_try_fallback (le_sdk le) x then (Inl x, e1)
         else case fallback of
           None \<Rightarrow> (Inl x, e1)
         | Some fb \<Rightarrow> if is_available le fb then chat_with_profile le fb messages tools e1 else (Inl x, e1)))"

definition chat :: "'e llm_env \<Rightarrow> llm_profile \<Rightarrow> llm_profile option \<Rightarrow> json list \<Rightarrow> 'e \<Rightarrow> (llm_exc + string) \<times> 'e" where
  "chat le pf fallback messages e = (case chat_with_tools le pf fallback messages [] e of
      (Inl x, e1) \<Rightarrow> (Inl x, e1) | (Inr r, e1) \<Rightarrow> (Inr (lr_text r), e1))"

section \<open>How often an endpoint is called\<close>

text \<open>
  Both loops of the client, for texts and for images, repeat a request while it fails in a way worth
  repeating. \<open>nth_state\<close> is the state before attempt \<open>k\<close> when all attempts before it were repeated.
\<close>

primrec nth_state :: "('e \<Rightarrow> ('x + 'a) \<times> 'e) \<Rightarrow> (nat \<Rightarrow> 'e \<Rightarrow> 'e) \<Rightarrow> 'e \<Rightarrow> nat \<Rightarrow> 'e" where
  "nth_state once pause e 0 = e"
| "nth_state once pause e (Suc k) = pause k (snd (once (nth_state once pause e k)))"

definition nth_repeated :: "('e \<Rightarrow> ('x + 'a) \<times> 'e) \<Rightarrow> ('x \<Rightarrow> bool) \<Rightarrow> (nat \<Rightarrow> 'e \<Rightarrow> 'e) \<Rightarrow> 'e \<Rightarrow> nat \<Rightarrow> bool" where
  "nth_repeated once again pause e k = (case fst (once (nth_state once pause e k)) of Inl x \<Rightarrow> again x | Inr _ \<Rightarrow> False)"

locale retrying =
  fixes once :: "'e \<Rightarrow> ('x + 'a) \<times> 'e"
    and again :: "'x \<Rightarrow> bool"
    and pause :: "nat \<Rightarrow> 'e \<Rightarrow> 'e"
    and loop :: "nat \<Rightarrow> nat \<Rightarrow> 'e \<Rightarrow> ('x + 'a) \<times> 'e"
  assumes loop_step: "loop k (Suc n) e = (case once e of
      (Inr a, e1) \<Rightarrow> (Inr a, e1)
    | (Inl x, e1) \<Rightarrow> if again x \<and> n \<noteq> 0 then loop (Suc k) n (pause k e1) else (Inl x, e1))"
begin

lemma loop_from:
  "loop k (Suc n) (nth_state once pause e k) =
     (if nth_repeated once again pause e k \<and> n \<noteq> 0 then loop (Suc k) n (nth_state once pause e (Suc k)) else once (nth_state once pause e k))"
  by (auto simp: loop_step nth_repeated_def split: prod.splits sum.splits)

lemma three_attempts:
  "\<exists>n < 3. loop 0 3 e = once (nth_state once pause e n) \<and> list_all (nth_repeated once again pause e) [0..<n] \<and>
     (n = 2 \<or> \<not> nth_repeated once again pause e n)"
proof -
  have a: "loop 0 3 e = loop 0 (Suc (Suc (Suc 0))) (nth_state once pause e 0)" by (simp add: numeral_3_eq_3)
  consider (first) "\<not> nth_repeated once again pause e 0" | (second) "nth_repeated once again pause e 0" "\<not> nth_repeated once again pause e 1"
    | (third) "nth_repeated once again pause e 0" "nth_repeated once again pause e 1" by blast
  then show ?thesis
  proof cases
    case first
    then show ?thesis unfolding a loop_from by (intro exI [of _ 0]) simp
  next
    case second
    then show ?thesis unfolding a loop_from by (intro exI [of _ 1]) (simp del: nth_state.simps)
  next
    case third
    then show ?thesis unfolding a loop_from by (intro exI [of _ 2]) (simp add: numeral_2_eq_2 del: nth_state.simps)
  qed
qed

end

abbreviation chat_pause :: "'e llm_env \<Rightarrow> nat \<Rightarrow> 'e \<Rightarrow> 'e" where
  "chat_pause le k \<equiv> le_sleep le (BASE_DELAY * 2 ^ k)"

interpretation chat_retries: retrying "try_once le pf key payload" "retry_again (le_sdk le)" "chat_pause le" "attempts le pf key payload"
  by unfold_locales (auto split: prod.splits sum.splits)

text \<open> A request is answered by the first attempt that does not fail in a way worth repeating, and by
  the third at the latest; before attempt two and three the client waits two and four seconds.
\<close>

theorem attempts_spec:
  "\<exists>n < 3. attempts le pf key payload 0 MAX_RETRIES e = try_once le pf key payload (nth_state (try_once le pf key payload) (chat_pause le) e n) \<and>
     list_all (nth_repeated (try_once le pf key payload) (retry_again (le_sdk le)) (chat_pause le) e) [0..<n] \<and>
     (n = 2 \<or> \<not> nth_repeated (try_once le pf key payload) (retry_again (le_sdk le)) (chat_pause le) e n)"
  unfolding MAX_RETRIES_def by (rule chat_retries.three_attempts)

section \<open>The fallback profile\<close>

text \<open> The fallback profile is asked only after the primary one failed with a connection error, a
  timeout or a status worth repeating; every other failure, an error in the answer itself included, is the answer.
\<close>

theorem fallback_only_when_unreachable:
  assumes "le_sdk le" and "chat_with_profile le pf messages tools e = (Inl x, e1)"
  shows "chat_with_tools le pf fallback messages tools e =
    (case fallback of
       Some fb \<Rightarrow> if (x = ApiConnectionError \<or> x = ApiTimeoutError \<or> (\<exists>code \<in> set RETRYABLE. x = ApiStatusError code)) \<and> is_available le fb
                  then chat_with_profile le fb messages tools e1 else (Inl x, e1)
     | None \<Rightarrow> (Inl x, e1))"
  using assms by (cases x) (auto simp: chat_with_tools_def should_try_fallback_def split: option.splits)

text \<open> With a model of the GPT-5 family no request ever succeeds: the Responses API carries the key
  \<open>error\<close> in every answer, null when there is none, and the client takes the key for an error.
\<close>

theorem responses_profile_always_fails:
  assumes "is_responses_profile pf" and "\<And>key payload e data. fst (le_call le pf key payload e) = Inr data \<Longrightarrow> dget data ''error'' \<noteq> None"
  shows "isl (fst (chat_with_profile le pf messages tools e))"
proof -
  have once: "isl (fst (try_once le pf key payload e))" for key payload e
    using assms(2) [of key payload e]
    by (cases "le_call le pf key payload e") (auto simp: try_once_def sdk_call_def payload_error_def Let_def split: sum.splits option.splits)
  have "isl (fst (attempts le pf key payload 0 MAX_RETRIES e))" for key payload
    using chat_retries.three_attempts [of le pf key payload e] once by (metis MAX_RETRIES_def)
  from this [of "py_strip (le_key le (pf_key_env pf))" "request_payload pf messages tools"] show ?thesis
    by (cases "attempts le pf (py_strip (le_key le (pf_key_env pf))) (request_payload pf messages tools) 0 MAX_RETRIES e")
      (auto simp: chat_with_profile_def Let_def isl_def)
qed

section \<open>Calls written as text\<close>

text \<open>The text in which a model writes calls, and what it may contain.\<close>

definition dsml_param :: "string \<Rightarrow> string \<times> string \<Rightarrow> string" where
  "dsml_param tag p = ''<'' @ tag @ ''parameter name='' @ [CHR 0x22] @ fst p @ [CHR 0x22] @ '' string='' @ [CHR 0x22] @ ''true'' @ [CHR 0x22] @ ''>'' @
     snd p @ ''</'' @ tag @ ''parameter>''"

definition dsml_call :: "string \<Rightarrow> string \<times> (string \<times> string) list \<Rightarrow> string" where
  "dsml_call tag c = ''<'' @ tag @ ''invoke name='' @ [CHR 0x22] @ fst c @ [CHR 0x22] @ ''>'' @ concat (map (dsml_param tag) (snd c)) @ ''</'' @ tag @ ''invoke>''"

definition dsml_text :: "string \<Rightarrow> (string \<times> (string \<times> string) list) list \<Rightarrow> string" where
  "dsml_text tag calls = concat (map (dsml_call tag) calls)"

definition plain_name :: "string \<Rightarrow> bool" where
  "plain_name s \<longleftrightarrow> s \<noteq> [] \<and> py_strip s = s \<and> list_all (\<lambda>c. \<not> is_quote c \<and> c \<noteq> CHR ''<'' ) s"

definition plain_value :: "string \<Rightarrow> string \<Rightarrow> bool" where
  "plain_value tag s \<longleftrightarrow> py_strip s = s \<and> \<not> py_contains (''</'' @ tag) s"

definition plain_tag :: "string \<Rightarrow> bool" where
  "plain_tag tag \<longleftrightarrow> tag \<noteq> [] \<and> CHR ''<'' \<notin> set tag \<and> CHR ''/'' \<notin> set tag"

definition plain_call :: "string \<Rightarrow> string \<times> (string \<times> string) list \<Rightarrow> bool" where
  "plain_call tag c \<longleftrightarrow> plain_name (fst c) \<and> distinct (map fst (snd c)) \<and> list_all (\<lambda>p. plain_name (fst p) \<and> plain_value tag (snd p)) (snd c)"

lemma startswith_append [simp]: "py_startswith (p @ s) p"
  by (simp add: py_startswith_def)

lemma until_skip:
  assumes "\<And>a b. x = a @ b \<Longrightarrow> b \<noteq> [] \<Longrightarrow> \<not> py_startswith (b @ r) stop"
  shows "until_text stop (x @ r) = map_option (\<lambda>(a, b). (x @ a, b)) (until_text stop r)"
  using assms
proof (induction x)
  case Nil
  then show ?case by (cases "until_text stop r") auto
next
  case (Cons c x)
  have "\<not> py_startswith (b @ r) stop" if "x = a @ b" "b \<noteq> []" for a b using Cons.prems [of "c # a" b] that by simp
  moreover have "\<not> py_startswith (c # x @ r) stop" using Cons.prems [of "[]" "c # x"] by simp
  ultimately show ?case using Cons.IH by (cases "until_text stop r") (auto simp: comp_def)
qed

lemma until_here: "stop \<noteq> [] \<Longrightarrow> until_text stop (stop @ r) = Some ([], r)"
  by (cases stop) (auto simp: py_startswith_def)

lemma contains_suffix: "py_contains p b \<Longrightarrow> py_contains p (a @ b)"
  by (induction a) auto

lemma startswith_contains: "py_startswith b p \<Longrightarrow> py_contains p b"
  by (cases b) (auto simp: py_startswith_def)

lemma value_skip:
  assumes tag: "plain_tag tag" and v: "\<not> py_contains (''</'' @ tag) v" and split: "v = a @ b" "b \<noteq> []"
  shows "\<not> py_startswith (b @ CHR ''<'' # r) (''</'' @ tag @ q)"
proof
  let ?p = "''</'' @ tag"
  assume st: "py_startswith (b @ CHR ''<'' # r) (''</'' @ tag @ q)"
  then have t: "take (length ?p) (b @ CHR ''<'' # r) = ?p"
    unfolding py_startswith_def by (metis append.assoc append_eq_conv_conj length_append take_add)
  show False
  proof (cases "length ?p \<le> length b")
    case True
    with t have "py_startswith b ?p" by (simp add: py_startswith_def)
    with v split(1) show False using startswith_contains contains_suffix by blast
  next
    case False
    with t have "?p ! length b = CHR ''<''" by (metis nth_append_length nth_take not_le)
    moreover have "?p ! length b \<in> set (tl ?p)"
    proof -
      obtain c d where b: "b = c # d" using split(2) by (cases b) auto
      have "(CHR ''/'' # tag) ! length d \<in> set (CHR ''/'' # tag)" using False b by (intro nth_mem) simp
      then show ?thesis by (simp add: b)
    qed
    ultimately show False using tag by (auto simp: plain_tag_def)
  qed
qed

lemma until_value:
  assumes "plain_tag tag" and "plain_value tag v"
  shows "until_text (''</'' @ tag @ q) (v @ ''</'' @ tag @ q @ r) = Some (v, r)"
proof -
  have "until_text (''</'' @ tag @ q) (v @ ''</'' @ tag @ q @ r) = map_option (\<lambda>(a, b). (v @ a, b)) (until_text (''</'' @ tag @ q) (''</'' @ tag @ q @ r))"
  proof (rule until_skip)
    fix a b assume "v = a @ b" "b \<noteq> []"
    then show "\<not> py_startswith (b @ ''</'' @ tag @ q @ r) (''</'' @ tag @ q)"
      using value_skip [OF assms(1), of v a b "''/'' @ tag @ q @ r" q] assms(2) by (simp add: plain_value_def)
  qed
  then show ?thesis using until_here [of "''</'' @ tag @ q" r] by simp
qed

lemma plain_name_take:
  assumes "plain_name s" shows "takeWhile (\<lambda>c. \<not> is_quote c) (s @ CHR 0x22 # r) = s" "dropWhile (\<lambda>c. \<not> is_quote c) (s @ CHR 0x22 # r) = CHR 0x22 # r"
  using assms by (simp_all add: plain_name_def list_all_iff is_quote_def takeWhile_append dropWhile_append)

lemma name_attribute_plain: "plain_name s \<Longrightarrow> name_attribute ('' name='' @ CHR 0x22 # s @ CHR 0x22 # r) = Some (s, r)"
  using plain_name_take [of s r]
  by (simp add: name_attribute_def expect_def py_startswith_def is_space_def Let_def is_quote_def plain_name_def)

lemma match_param:
  assumes "plain_tag tag" and "plain_name (fst p)" and "plain_value tag (snd p)"
  shows "match_element tag ''parameter'' True (dsml_param tag p @ r) = Some (p, r)"
proof -
  let ?rest = "'' string='' @ [CHR 0x22] @ ''true'' @ [CHR 0x22] @ ''>'' @ snd p @ ''</'' @ tag @ ''parameter>'' @ r"
  have "expect (''<'' @ tag @ ''parameter'') (dsml_param tag p @ r) = Some ('' name='' @ CHR 0x22 # fst p @ CHR 0x22 # ?rest)"
    by (simp add: expect_def dsml_param_def py_startswith_def)
  moreover have "until_text ''>'' ?rest = Some ('' string='' @ [CHR 0x22] @ ''true'' @ [CHR 0x22], snd p @ ''</'' @ tag @ ''parameter>'' @ r)"
    by (simp add: py_startswith_def)
  ultimately show ?thesis
    using name_attribute_plain [OF assms(2), of ?rest] until_value [OF assms(1,3), of "''parameter>''" r]
    by (simp add: match_element_def del: until_text.simps)
qed

lemma find_iter_one: "m s = Some (x, r) \<Longrightarrow> length r < length s \<Longrightarrow> find_iter m s = x # find_iter m r"
  by (cases s) auto

lemma find_params:
  assumes "plain_tag tag" and "list_all (\<lambda>p. plain_name (fst p) \<and> plain_value tag (snd p)) ps"
  shows "find_iter (match_element tag ''parameter'' True) (concat (map (dsml_param tag) ps)) = ps"
  using assms(2)
proof (induction ps)
  case (Cons p ps)
  have "length (concat (map (dsml_param tag) ps)) < length (dsml_param tag p @ concat (map (dsml_param tag) ps))" by (simp add: dsml_param_def)
  with Cons show ?case using match_param [OF assms(1), of p] by (simp add: find_iter_one)
qed simp

lemma until_skip_plain:
  assumes "CHR ''<'' \<notin> set x"
  shows "until_text (CHR ''<'' # q) (x @ r) = map_option (\<lambda>(a, b). (x @ a, b)) (until_text (CHR ''<'' # q) r)"
proof (rule until_skip)
  fix a b assume "x = a @ b" "b \<noteq> []"
  then show "\<not> py_startswith (b @ r) (CHR ''<'' # q)" using assms by (cases b) (auto simp: py_startswith_def)
qed

lemma until_skip_tag:
  assumes "CHR ''<'' \<notin> set x" and "\<not> py_startswith (CHR ''<'' # x @ r) (CHR ''<'' # q)"
  shows "until_text (CHR ''<'' # q) (CHR ''<'' # x @ r) = map_option (\<lambda>(a, b). (CHR ''<'' # x @ a, b)) (until_text (CHR ''<'' # q) r)"
  using assms until_skip_plain [OF assms(1), of q r] by (cases "until_text (CHR ''<'' # q) r") auto

lemma skip_param:
  assumes tag: "plain_tag tag" and p: "plain_name (fst p)" "plain_value tag (snd p)"
  shows "until_text (''</'' @ tag @ ''invoke>'') (dsml_param tag p @ r) =
    map_option (\<lambda>(a, b). (dsml_param tag p @ a, b)) (until_text (''</'' @ tag @ ''invoke>'') r)" (is "until_text ?stop _ = _")
proof -
  define op where op:
    "op = tag @ ''parameter name='' @ [CHR 0x22] @ fst p @ [CHR 0x22] @ '' string='' @ [CHR 0x22] @ ''true'' @ [CHR 0x22] @ ''>''"
  define cl where cl:
    "cl = ''/'' @ tag @ ''parameter>''"
  have stop: "?stop = CHR ''<'' # CHR ''/'' # tag @ ''invoke>''" by simp
  have p': "CHR ''<'' \<notin> set op" "CHR ''<'' \<notin> set cl" using tag p(1) by (auto simp: op cl plain_tag_def plain_name_def list_all_iff)
  have n1: "\<not> py_startswith (CHR ''<'' # op @ x) ?stop" for x
  proof -
    obtain c cs where "tag = c # cs" "c \<noteq> CHR ''/''" using tag by (cases tag) (auto simp: plain_tag_def)
    then show ?thesis by (simp add: op py_startswith_def)
  qed
  have n2: "\<not> py_startswith (CHR ''<'' # cl @ r) ?stop" by (simp add: cl py_startswith_def)
  have v: "until_text ?stop (snd p @ CHR ''<'' # cl @ r) = map_option (\<lambda>(a, b). (snd p @ a, b)) (until_text ?stop (CHR ''<'' # cl @ r))"
  proof (rule until_skip)
    fix a b assume "snd p = a @ b" "b \<noteq> []"
    with value_skip [OF tag, of "snd p" a b "cl @ r" "''invoke>''"] p(2) show "\<not> py_startswith (b @ CHR ''<'' # cl @ r) ?stop" by (simp add: plain_value_def)
  qed
  have eq: "dsml_param tag p @ x = CHR ''<'' # op @ snd p @ CHR ''<'' # cl @ x" for x by (simp add: dsml_param_def op cl)
  show ?thesis
    unfolding eq using until_skip_tag [OF p'(1) n1 [unfolded stop]] v until_skip_tag [OF p'(2) n2 [unfolded stop]]
    by (cases "until_text ?stop r") (simp_all add: split_beta del: until_text.simps)
qed

lemma until_params:
  assumes "plain_tag tag" and "list_all (\<lambda>p. plain_name (fst p) \<and> plain_value tag (snd p)) ps"
  shows "until_text (''</'' @ tag @ ''invoke>'') (concat (map (dsml_param tag) ps) @ ''</'' @ tag @ ''invoke>'' @ r) = Some (concat (map (dsml_param tag) ps), r)"
  using assms(2)
proof (induction ps)
  case Nil
  then show ?case using until_here [of "''</'' @ tag @ ''invoke>''" r] by simp
next
  case (Cons p ps)
  then show ?case using skip_param [OF assms(1), of p] by (simp del: until_text.simps)
qed

lemma match_call:
  assumes "plain_tag tag" and "plain_call tag c"
  shows "match_element tag ''invoke'' False (dsml_call tag c @ r) = Some ((fst c, concat (map (dsml_param tag) (snd c))), r)"
proof -
  let ?rest = "''>'' @ concat (map (dsml_param tag) (snd c)) @ ''</'' @ tag @ ''invoke>'' @ r"
  have c: "plain_name (fst c)" "list_all (\<lambda>p. plain_name (fst p) \<and> plain_value tag (snd p)) (snd c)" using assms(2) by (simp_all add: plain_call_def)
  have "expect (''<'' @ tag @ ''invoke'') (dsml_call tag c @ r) = Some ('' name='' @ CHR 0x22 # fst c @ CHR 0x22 # ?rest)"
    by (simp add: expect_def dsml_call_def py_startswith_def)
  moreover have "expect ''>'' ?rest = Some (concat (map (dsml_param tag) (snd c)) @ ''</'' @ tag @ ''invoke>'' @ r)"
    by (simp add: expect_def py_startswith_def)
  ultimately show ?thesis
    using name_attribute_plain [OF c(1), of ?rest] until_params [OF assms(1) c(2), of r]
    by (simp add: match_element_def del: until_text.simps)
qed

lemma find_calls:
  assumes "plain_tag tag" and "list_all (plain_call tag) cs"
  shows "find_iter (match_element tag ''invoke'' False) (dsml_text tag cs) = map (\<lambda>c. (fst c, concat (map (dsml_param tag) (snd c)))) cs"
  using assms(2)
proof (induction cs)
  case (Cons c cs)
  have "length (dsml_text tag cs) < length (dsml_call tag c @ dsml_text tag cs)" by (simp add: dsml_call_def)
  with Cons show ?case using match_call [OF assms(1), of c] by (simp add: find_iter_one dsml_text_def)
qed (simp add: dsml_text_def)

lemma map_enumerate_map: "map F (List.enumerate n (map f xs)) = map (\<lambda>(i, x). F (i, f x)) (List.enumerate n xs)"
  by (induction xs arbitrary: n) auto

lemma fold_dset_fresh:
  assumes "distinct (map fst ps)" and "list_all (\<lambda>p. plain_name (fst p) \<and> plain_value tag (snd p)) ps"
    and "fst ` set ps \<inter> fst ` set d = {}"
  shows "fold (\<lambda>(k, v) d. dset (py_strip k) (JStr (py_strip v)) d) ps d = d @ map (\<lambda>(k, v). (k, JStr v)) ps"
  using assms
proof (induction ps arbitrary: d)
  case (Cons p ps)
  obtain k v where p: "p = (k, v)" by (cases p)
  then have "k \<notin> fst ` set d" "py_strip k = k" "py_strip v = v" using Cons.prems by (auto simp: plain_name_def plain_value_def)
  moreover from this(1) have "dset k (JStr v) d = d @ [(k, JStr v)]" by (induction d) auto
  moreover have "fst ` set ps \<inter> fst ` set (d @ [(k, JStr v)]) = {}" using Cons.prems p by auto
  ultimately show ?case using Cons p by simp
qed simp


section \<open>Witnesses\<close>

definition demo_profile :: "string \<Rightarrow> string \<Rightarrow> llm_profile" where
  "demo_profile name model = \<lparr>pf_name = name, pf_api_base = ''http://h/v1'', pf_model = model, pf_key_env = ''KEY'', pf_timeout = 30, pf_temperature = 1 / 5,
     pf_type = ''chat'', pf_api_path = None, pf_image_field = None, pf_request_format = None, pf_multipart_field = None\<rparr>"

text \<open>An endpoint that answers from a list of outcomes; the state is what is left of it and the waits.\<close>

definition demo_llm :: "(llm_profile \<Rightarrow> bool) \<Rightarrow> ((llm_exc + json_object) list \<times> nat list) llm_env" where
  "demo_llm down = \<lparr>le_sdk = True, le_key = \<lambda>k. ''secret'',
     le_call = (\<lambda>pf key payload (answers, waits). if down pf then (Inl (ApiStatusError 401), (answers, waits)) else
        case answers of [] \<Rightarrow> (Inl ApiTimeoutError, ([], waits)) | a # as \<Rightarrow> (a, (as, waits))),
     le_sleep = (\<lambda>n (answers, waits). (answers, waits @ [n])), le_uuid = \<lambda>i. ''0123456789'', le_tag = ''|DSML|'', le_runtime = null_runtime\<rparr>"

definition demo_answer :: json_object where
  "demo_answer = [(''choices'', JList [JDict [(''message'', JDict [(''content'', JStr ''hi'')]), (''finish_reason'', JStr ''stop'')]])]"

abbreviation demo_main :: llm_profile where
  "demo_main \<equiv> demo_profile ''main'' ''gpt-4o-mini''"

theorem attempts_spec_witness:
  "attempts (demo_llm (\<lambda>_. False)) demo_main ''k'' [] 0 MAX_RETRIES ([Inl ApiConnectionError, Inr demo_answer], []) = (Inr demo_answer, ([], [2]))"
proof -
  let ?le = "demo_llm (\<lambda>_. False)" and ?e = "([Inl ApiConnectionError, Inr demo_answer], [])"
  let ?once = "try_once ?le demo_main ''k'' []"
  let ?repeated = "nth_repeated ?once (retry_again (le_sdk ?le)) (chat_pause ?le) ?e"
  obtain n where n: "n < 3" "attempts ?le demo_main ''k'' [] 0 MAX_RETRIES ?e = ?once (nth_state ?once (chat_pause ?le) ?e n)"
    "list_all ?repeated [0..<n]" "n = 2 \<or> \<not> ?repeated n"
    using attempts_spec [of ?le demo_main "''k''" "[]" ?e] by blast
  have "?repeated 0" "\<not> ?repeated 1" by code_simp+
  moreover have "n \<in> {0, 1, 2}" using n(1) by auto
  ultimately have "n = 1" using n(3,4) by (auto simp: upt_rec numeral_2_eq_2)
  moreover have "?once (nth_state ?once (chat_pause ?le) ?e 1) = (Inr demo_answer, ([], [2]))" by code_simp
  ultimately show ?thesis using n(2) by simp
qed

theorem fallback_only_when_unreachable_witness:
  "fst (chat_with_tools (demo_llm (\<lambda>pf. pf_name pf = ''main'')) demo_main (Some (demo_profile ''backup'' ''m'')) [] [] ([Inr demo_answer], [])) = Inl (ApiStatusError 401)"
proof -
  let ?le = "demo_llm (\<lambda>pf. pf_name pf = ''main'')"
  have "le_sdk ?le" by (simp add: demo_llm_def)
  moreover have "chat_with_profile ?le demo_main [] [] ([Inr demo_answer], []) = (Inl (ApiStatusError 401), ([Inr demo_answer], []))" by code_simp
  ultimately show ?thesis
    using fallback_only_when_unreachable [of ?le demo_main "[]" "[]" "([Inr demo_answer], [])" "ApiStatusError 401" "([Inr demo_answer], [])" "Some (demo_profile ''backup'' ''m'')"]
    by (simp add: RETRYABLE_def)
qed

theorem responses_profile_always_fails_witness:
  "isl (fst (chat_with_profile ((demo_llm (\<lambda>_. False))\<lparr>le_call := \<lambda>pf key payload e. (Inr [(''status'', JStr ''completed''), (''error'', JNull)], e)\<rparr>)
     (demo_profile ''main'' ''openai/gpt-5-mini'') [] [] ([], [])))"
proof (rule responses_profile_always_fails)
  show "is_responses_profile (demo_profile ''main'' ''openai/gpt-5-mini'')" by code_simp
qed auto


end
