(* ===== verification/Images.thy ===== *)
theory Images
  imports Llm Files
begin

text \<open>
  Image generation and editing (\<^verbatim>\<open>infrastructure/llm/image_edit_transport.py\<close> and the image part of
  \<^verbatim>\<open>client.py\<close>): the request for each configured format, the search for an image in whatever shape an
  endpoint answers with, and the request loop. HTTP is a parameter; base64 is that of \<open>Files\<close>.
\<close>

section \<open>The request\<close>

datatype image_transport =
    JsonPost string json_object
  | MultipartPost string "(string \<times> string) list" string string string string

definition strip_slashes_left :: "string \<Rightarrow> string" where
  "strip_slashes_left s = dropWhile (\<lambda>c. c = CHR ''/'') s"

definition strip_slashes_right :: "string \<Rightarrow> string" where
  "strip_slashes_right s = rev (dropWhile (\<lambda>c. c = CHR ''/'') (rev s))"

definition join_url :: "string \<Rightarrow> string \<Rightarrow> string" where
  "join_url base path = strip_slashes_right base @ ''/'' @ strip_slashes_left path"

definition input_data_url :: "string \<Rightarrow> string \<Rightarrow> string" where
  "input_data_url bytes mime = ''data:'' @ mime @ '';base64,'' @ b64encode bytes"

definition size_entry :: "string option \<Rightarrow> json_object" where
  "size_entry dims = (case dims of None \<Rightarrow> [] | Some s \<Rightarrow> if s = [] then [] else [(''size'', JStr s)])"

definition generations_json_body :: "string \<Rightarrow> string \<Rightarrow> string option \<Rightarrow> json_object" where
  "generations_json_body model prompt dims =
     [(''model'', JStr model), (''prompt'', JStr prompt), (''n'', JInt 1), (''response_format'', JStr ''b64_json'')] @ size_entry dims"

definition text_or :: "string option \<Rightarrow> string \<Rightarrow> string" where
  "text_or v dflt = (case v of None \<Rightarrow> dflt | Some s \<Rightarrow> if s = [] then dflt else s)"

definition file_extension :: "string \<Rightarrow> string" where
  "file_extension mime = (case dropWhile (\<lambda>c. c \<noteq> CHR ''/'') mime of
      [] \<Rightarrow> ''png''
    | _ # sub \<Rightarrow> if py_strip (py_lower sub) = [] then ''png'' else py_strip (py_lower sub))"

text \<open>\<open>input\<close> is the empty text when there is no image to edit.\<close>

definition resolve_image_edit_transport :: "llm_profile \<Rightarrow> string \<Rightarrow> string \<Rightarrow> string \<Rightarrow> string option \<Rightarrow> llm_exc + image_transport" where
  "resolve_image_edit_transport pf prompt input mime dims =
     (let fmt = py_strip (text_or (pf_request_format pf) ''openai_images_edits_json'');
          base = strip_slashes_right (pf_api_base pf);
          field = py_strip (text_or (pf_multipart_field pf) ''image'');
          generations = generations_json_body (pf_model pf) prompt dims
      in if fmt \<notin> {''openai_images_edits_json'', ''openai_images_edits_multipart'', ''images_edits_img_urls_json''}
         then Inl (OtherError (''Unsupported image request_format: '' @ fmt))
         else if fmt = ''images_edits_img_urls_json''
         then Inr (if input \<noteq> []
                   then JsonPost (join_url base (strip_slashes_left (text_or (pf_api_path pf) ''images/edits'')))
                          ([(''model'', JStr (pf_model pf)), (''img_urls'', JList [JStr (input_data_url input mime)]), (''prompt'', JStr prompt)] @ size_entry dims)
                   else JsonPost (join_url base ''images/generations'') generations)
         else (let path = strip_slashes_left (text_or (pf_api_path pf) ''/images/edits'');
                   url = join_url base (if input = [] \<and> py_endswith (strip_slashes_right path) ''images/edits'' then ''images/generations'' else path)
               in Inr (if fmt = ''openai_images_edits_json''
                       then JsonPost url ([(''model'', JStr (pf_model pf)), (''prompt'', JStr prompt)] @
                              (if input \<noteq> [] then [(''image'', JStr (input_data_url input mime))] else []) @ size_entry dims)
                       else if input \<noteq> []
                       then MultipartPost url ([(''model'', pf_model pf), (''prompt'', prompt)] @ (case dims of None \<Rightarrow> [] | Some s \<Rightarrow> if s = [] then [] else [(''size'', s)]))
                              (if field = [] then ''image'' else field) (''input.'' @ file_extension mime) input mime
                       else JsonPost url generations)))"

section \<open>Addresses in a text\<close>

text \<open>The regular expressions are case-insensitive; each has one way to match from a given place.\<close>

definition expect_ci :: "string \<Rightarrow> string \<Rightarrow> string option" where
  "expect_ci p s = (if py_lower (take (length p) s) = p then Some (drop (length p) s) else None)"

definition span :: "(char \<Rightarrow> bool) \<Rightarrow> string \<Rightarrow> (string \<times> string) option" where
  "span P s = (if takeWhile P s = [] then None else Some (takeWhile P s, dropWhile P s))"

definition web_scheme :: "string \<Rightarrow> string option" where
  "web_scheme s = (case expect_ci ''https://'' s of Some r \<Rightarrow> Some r | None \<Rightarrow> expect_ci ''http://'' s)"

definition matched :: "string \<Rightarrow> string \<Rightarrow> string" where
  "matched s rest = take (length s - length rest) s"

definition markdown_image :: "string \<Rightarrow> (string \<times> string) option" where
  "markdown_image s =
     Option.bind (expect ''!['' s) (\<lambda>s1.
     Option.bind (expect ''](''  (dropWhile (\<lambda>c. c \<noteq> CHR '']'') s1)) (\<lambda>s2.
     Option.bind (web_scheme s2) (\<lambda>s3.
     Option.bind (span (\<lambda>c. c \<noteq> CHR '')'' \<and> \<not> is_space c) s3) (\<lambda>(_, s4).
     Option.bind (expect '')'' s4) (\<lambda>s5. Some (matched s2 s4, s5))))))"

definition url_char :: "char \<Rightarrow> bool" where
  "url_char c \<longleftrightarrow> \<not> is_space c \<and> c \<notin> {CHR '')'', CHR '']'', CHR 0x22, CHR 0x27, CHR ''<'', CHR ''>''}"

fun image_suffix :: "string list \<Rightarrow> string \<Rightarrow> string option" where
  "image_suffix [] s = None"
| "image_suffix (e # es) s = (case expect_ci e s of Some r \<Rightarrow> Some r | None \<Rightarrow> image_suffix es s)"

fun up_to_suffix :: "string \<Rightarrow> string option" where
  "up_to_suffix [] = None"
| "up_to_suffix (c # cs) =
     (if \<not> url_char c then None
      else case image_suffix [''.png'', ''.jpg'', ''.jpeg'', ''.webp''] cs of Some r \<Rightarrow> Some r | None \<Rightarrow> up_to_suffix cs)"

definition image_file_url :: "string \<Rightarrow> (string \<times> string) option" where
  "image_file_url s =
     Option.bind (web_scheme s) (\<lambda>s1.
     Option.bind (up_to_suffix s1) (\<lambda>s2.
       let s3 = (case s2 of c # r \<Rightarrow> if c = CHR ''?'' then dropWhile url_char r else s2 | [] \<Rightarrow> [])
       in Some (matched s s3, s3)))"

definition b64_text_char :: "char \<Rightarrow> bool" where
  "b64_text_char c \<longleftrightarrow> c \<in> set B64_ALPHABET \<or> c = CHR ''=''"

definition data_image :: "string \<Rightarrow> (string \<times> string) option" where
  "data_image s =
     Option.bind (expect_ci ''data:image/'' s) (\<lambda>s1.
     Option.bind (span (\<lambda>c. c \<noteq> CHR '';'' \<and> \<not> is_space c) s1) (\<lambda>(_, s2).
     Option.bind (expect_ci '';base64,'' s2) (\<lambda>s3.
     Option.bind (span b64_text_char s3) (\<lambda>(_, s4). Some (matched s s4, s4)))))"

definition dedupe_preserve_order :: "string list \<Rightarrow> string list" where
  "dedupe_preserve_order urls = py_unique (filter (\<lambda>u. u \<noteq> []) (map py_strip urls))"

definition rstrip_of :: "string \<Rightarrow> string \<Rightarrow> string" where
  "rstrip_of chars s = rev (dropWhile (\<lambda>c. c \<in> set chars) (rev s))"

definition http_image_urls_in_text :: "string \<Rightarrow> string list" where
  "http_image_urls_in_text t = dedupe_preserve_order
     (map py_strip (find_iter markdown_image t) @
      map (\<lambda>u. rstrip_of ('').,;'' @ [CHR 0x22, CHR 0x27]) (py_strip u)) (find_iter image_file_url t))"

definition data_image_urls_in_text :: "string \<Rightarrow> string list" where
  "data_image_urls_in_text t = find_iter data_image t"

section \<open>Images in an answer\<close>

definition dig_json_path :: "py_runtime \<Rightarrow> json \<Rightarrow> string \<Rightarrow> json" where
  "dig_json_path rt v path = foldl (\<lambda>cur part. case cur of
      JDict d \<Rightarrow> obj_get d part
    | JList vs \<Rightarrow> (case rt_int rt part of None \<Rightarrow> JNull | Some i \<Rightarrow> if i < 0 \<or> int (length vs) \<le> i then JNull else vs ! nat i)
    | _ \<Rightarrow> JNull) v (py_split CHR ''.'' path)"

definition values_at :: "json_object \<Rightarrow> string list \<Rightarrow> json list" where
  "values_at d ks = map (obj_get d) (filter (\<lambda>k. dget d k \<noteq> None) ks)"

definition url_value :: "json \<Rightarrow> json list" where
  "url_value v = (case v of JStr s \<Rightarrow> [v] | JDict d \<Rightarrow> [obj_get d ''url''] | _ \<Rightarrow> [])"

definition image_item_values :: "json_object \<Rightarrow> json list" where
  "image_item_values item = values_at item [''b64_json'', ''image_base64'', ''base64'', ''url'', ''data''] @ url_value (obj_get item ''image_url'')"

definition content_part_values :: "json_object \<Rightarrow> json list" where
  "content_part_values part =
     (case obj_get part ''type'' of
        JStr ty \<Rightarrow>
          if ty = ''image_url'' then url_value (obj_get part ''image_url'')
          else if py_contains ''image'' (py_lower ty)
          then map (\<lambda>v. case v of JDict d \<Rightarrow> if dget d ''url'' \<noteq> None then obj_get d ''url'' else v | _ \<Rightarrow> v)
                 (values_at part [''url'', ''uri'', ''image_url'', ''b64_json'', ''image_base64'', ''base64''])
          else []
      | _ \<Rightarrow> []) @
     (case py_or (obj_get part ''inline_data'') (obj_get part ''inlineData'') of
        JDict d \<Rightarrow> if obj_get d ''data'' \<noteq> JNull then [obj_get d ''data''] else []
      | _ \<Rightarrow> [])"

definition dicts_in :: "json \<Rightarrow> json_object list" where
  "dicts_in v = (case v of JList vs \<Rightarrow> map dict_of (filter is_dict vs) | _ \<Rightarrow> [])"

definition media_candidates :: "json_object \<Rightarrow> json list" where
  "media_candidates message =
     concat (map image_item_values (dicts_in (obj_get message ''images''))) @
     (case obj_get message ''content'' of
        JStr t \<Rightarrow> map JStr (data_image_urls_in_text t)
      | v \<Rightarrow> concat (map (\<lambda>p. content_part_values p @ values_at p [''b64_json'', ''image_base64'', ''base64'', ''image_url'']) (dicts_in v))) @
     concat (map content_part_values (dicts_in (obj_get message ''parts''))) @
     (case obj_get message ''reasoning_content'' of
        JStr t \<Rightarrow> if py_strip t = [] then [] else map JStr (data_image_urls_in_text t @ http_image_urls_in_text t)
      | _ \<Rightarrow> [])"

text \<open>The message of the first choice, where there is one.\<close>

definition first_message :: "json_object \<Rightarrow> json_object option" where
  "first_message payload = (case obj_get payload ''choices'' of
      JList (JDict c # _) \<Rightarrow> (case obj_get c ''message'' of JDict m \<Rightarrow> Some m | _ \<Rightarrow> None)
    | _ \<Rightarrow> None)"

lemma size_dget [termination_simp]: "dget d k = Some v \<Longrightarrow> size v < Suc (size_list (size_prod (\<lambda>_. 0) size) d)"
  by (induction d) (auto split: if_splits)

text \<open>\<open>_decode_candidate\<close>\<close>

definition b64_opt :: "string \<Rightarrow> string option" where
  "b64_opt s = (case b64decode s of Inr b \<Rightarrow> Some b | Inl _ \<Rightarrow> None)"

definition decode_text :: "string \<Rightarrow> string option" where
  "decode_text value =
     (let t = py_strip value
      in if t = [] then None
         else if py_startswith t ''data:image/''
         then (case dropWhile (\<lambda>c. c \<noteq> CHR '','') t of _ # body \<Rightarrow> if body = [] then None else b64_opt body | [] \<Rightarrow> None)
         else b64_opt t)"

definition image_key :: "json_object \<Rightarrow> string option" where
  "image_key d = find (\<lambda>k. dget d k \<noteq> None) [''b64_json'', ''image_base64'', ''base64'', ''data'', ''url'']"

function decode_candidate :: "json \<Rightarrow> string option" where
  "decode_candidate (JDict d) = (case image_key d of None \<Rightarrow> None
     | Some k \<Rightarrow> (case dget d k of None \<Rightarrow> None | Some v \<Rightarrow> decode_candidate v))"
| "decode_candidate (JStr s) = decode_text s"
| "decode_candidate JNull = None"
| "decode_candidate (JBool b) = None"
| "decode_candidate (JInt i) = None"
| "decode_candidate (JFloat r) = None"
| "decode_candidate (JList vs) = None"
  by pat_completeness auto
termination
  by (relation "measure size") (auto simp: size_dget)

definition IMAGE_PATHS :: "string list" where
  "IMAGE_PATHS = [''data.0.b64_json'', ''data.0.image_base64'', ''data.0.base64'', ''output.0.b64_json'', ''images.0.b64_json'', ''images.0.image_base64'',
     ''choices.0.message.content.0.image_base64'', ''choices.0.message.content.0.image_url.url'', ''choices.0.message.images.0.b64_json'',
     ''candidates.0.content.parts.0.inline_data.data'', ''result.images.0.b64_json'']"

definition image_candidates :: "py_runtime \<Rightarrow> json_object \<Rightarrow> string option \<Rightarrow> json list" where
  "image_candidates rt payload hint =
     (case hint of Some h \<Rightarrow> if h = [] then [] else [dig_json_path rt (JDict payload) h] | None \<Rightarrow> []) @
     (case first_message payload of Some m \<Rightarrow> media_candidates m | None \<Rightarrow> []) @
     map (dig_json_path rt (JDict payload)) IMAGE_PATHS"

text \<open>\<open>echo\<close> is the image that was sent, if any.\<close>

definition usable :: "string option \<Rightarrow> string option \<Rightarrow> bool" where
  "usable echo b \<longleftrightarrow> (case b of None \<Rightarrow> False | Some bytes \<Rightarrow> bytes \<noteq> [] \<and> echo \<noteq> Some bytes)"

definition extract_image_bytes :: "py_runtime \<Rightarrow> json_object \<Rightarrow> string option \<Rightarrow> string option \<Rightarrow> string option" where
  "extract_image_bytes rt payload hint echo =
     (case find (usable echo) (map decode_candidate (image_candidates rt payload hint)) of Some b \<Rightarrow> b | None \<Rightarrow> None)"

definition is_web_url :: "string \<Rightarrow> bool" where
  "is_web_url u \<longleftrightarrow> py_startswith u ''http://'' \<or> py_startswith u ''https://''"

definition stripped_text :: "json \<Rightarrow> string option" where
  "stripped_text v = (case v of JStr s \<Rightarrow> Some (py_strip s) | _ \<Rightarrow> None)"

definition URL_PATHS :: "string list" where
  "URL_PATHS = [''data.0.url'', ''images.0.url'', ''output.0.url'', ''choices.0.message.content.0.image_url.url'', ''choices.0.message.content.0.image_url'',
     ''choices.0.message.images.0.url'', ''result.images.0.url'']"

definition extract_image_url :: "py_runtime \<Rightarrow> json_object \<Rightarrow> string option" where
  "extract_image_url rt payload = find is_web_url
     (List.map_filter stripped_text (map (dig_json_path rt (JDict payload)) URL_PATHS @
        (case first_message payload of Some m \<Rightarrow> media_candidates m | None \<Rightarrow> [])) @
      (case first_message payload of
         Some m \<Rightarrow> (case obj_get m ''content'' of JStr t \<Rightarrow> http_image_urls_in_text t | _ \<Rightarrow> [])
       | None \<Rightarrow> []))"

section \<open>The request loop\<close>

text \<open>What one POST comes to; an exception the client does not handle is \<open>HttpCrash\<close>.\<close>

datatype http_failure = HttpStatus int string | HttpNetwork string | HttpCrash llm_exc

record 'e image_env =
  ie_key :: "string \<Rightarrow> string"
  ie_post :: "image_transport \<Rightarrow> 'e \<Rightarrow> (http_failure + json_object) \<times> 'e"
  ie_get :: "string \<Rightarrow> 'e \<Rightarrow> string option \<times> 'e"
  ie_sleep :: "nat \<Rightarrow> 'e \<Rightarrow> 'e"
  ie_summary :: "json_object \<Rightarrow> string"
  ie_runtime :: py_runtime

fun post_again :: "http_failure \<Rightarrow> bool" where
  "post_again (HttpStatus code body) = (code \<in> set RETRYABLE)"
| "post_again (HttpNetwork msg) = True"
| "post_again (HttpCrash x) = False"

fun post_error :: "http_failure \<Rightarrow> llm_exc" where
  "post_error (HttpStatus code body) = OtherError (''Image endpoint HTTP error '' @ show_int code @ '': '' @ body)"
| "post_error (HttpNetwork msg) = OtherError (''Image endpoint network error: '' @ msg)"
| "post_error (HttpCrash x) = x"

fun posts :: "'e image_env \<Rightarrow> image_transport \<Rightarrow> nat \<Rightarrow> nat \<Rightarrow> 'e \<Rightarrow> (http_failure + json_object) \<times> 'e" where
  "posts ie tr attempt 0 e = (Inr [], e)"
| "posts ie tr attempt (Suc left) e = (case ie_post ie tr e of
      (Inr data, e1) \<Rightarrow> (Inr data, e1)
    | (Inl x, e1) \<Rightarrow> (if post_again x \<and> left \<noteq> 0 then posts ie tr (attempt + 1) left (ie_sleep ie (BASE_DELAY * 2 ^ attempt) e1) else (Inl x, e1)))"

definition fetch_image :: "'e image_env \<Rightarrow> json_object \<Rightarrow> string option \<Rightarrow> 'e \<Rightarrow> string option \<times> 'e" where
  "fetch_image ie payload echo e = (case extract_image_url (ie_runtime ie) payload of
      None \<Rightarrow> (None, e)
    | Some url \<Rightarrow> (let (got, e1) = ie_get ie url e in (if usable echo got then got else None, e1)))"

definition generate_image_edit ::
  "'e image_env \<Rightarrow> llm_profile \<Rightarrow> string \<Rightarrow> string \<Rightarrow> string option \<Rightarrow> string option \<Rightarrow> 'e \<Rightarrow> (llm_exc + string) \<times> 'e" where
  "generate_image_edit ie pf prompt input mime dims e =
     (let echo = (if input = [] then None else Some input);
          mime' = (case mime of Some m \<Rightarrow> if py_strip m = [] then ''image/png'' else m | None \<Rightarrow> ''image/png'')
      in if py_strip (ie_key ie (pf_key_env pf)) = [] then (Inl (OtherError (''Missing API key env: '' @ pf_key_env pf)), e)
         else if py_strip prompt = [] then (Inl (OtherError ''prompt is required for image generation/edit.''), e)
         else case resolve_image_edit_transport pf prompt input mime' dims of
           Inl x \<Rightarrow> (Inl x, e)
         | Inr tr \<Rightarrow> (case posts ie tr 0 MAX_RETRIES e of
             (Inl x, e1) \<Rightarrow> (Inl (post_error x), e1)
           | (Inr payload, e1) \<Rightarrow>
               (let (image, e2) = (case extract_image_bytes (ie_runtime ie) payload (pf_image_field pf) echo of
                      Some b \<Rightarrow> (Some b, e1) | None \<Rightarrow> fetch_image ie payload echo e1)
                in case image of
                     Some b \<Rightarrow> (Inr b, e2)
                   | None \<Rightarrow> (Inl (OtherError (''Image endpoint returned no usable edited image. '' @
                       (if echo \<noteq> None then ''Every decodable image matched the input bytes (model echoed the source). '' else []) @ ie_summary ie payload)), e2))))"

interpretation post_retries: retrying "ie_post ie tr" post_again "\<lambda>k. ie_sleep ie (BASE_DELAY * 2 ^ k)" "posts ie tr"
  by unfold_locales (auto split: prod.splits sum.splits)

section \<open>What comes back\<close>

lemma extract_usable: "extract_image_bytes rt payload hint echo = Some b \<Longrightarrow> usable echo (Some b)"
  by (auto simp: extract_image_bytes_def find_Some_iff split: option.splits)

lemma fetch_usable: "fetch_image ie payload echo e = (Some b, e') \<Longrightarrow> usable echo (Some b)"
  by (auto simp: fetch_image_def split: option.splits prod.splits if_splits)

text \<open> An edited image is never empty and never the image that was sent: an endpoint that echoes its
  input, in whatever field, as a data address or behind a link, leads to another candidate or to an error.
\<close>

theorem edited_image_is_new:
  assumes "generate_image_edit ie pf prompt input mime dims e = (Inr res, e')"
  shows "res \<noteq> [] \<and> res \<noteq> input"
proof -
  have "usable (if input = [] then None else Some input) (Some res)"
    using assms by (auto simp: generate_image_edit_def Let_def split: if_splits sum.splits prod.splits option.splits dest: extract_usable fetch_usable)
  then show ?thesis by (auto simp: usable_def split: if_splits)
qed

text \<open>The image that was sent as a data address is what the receiver of the address decodes.\<close>

lemma b64_char_plain: "n < 64 \<Longrightarrow> \<not> is_space (b64_char n)"
proof -
  assume "n < 64"
  then have "b64_char n \<in> set B64_ALPHABET" unfolding b64_char_def by (intro nth_mem) (simp add: B64_ALPHABET_def)
  moreover have "list_all (\<lambda>c. \<not> is_space c) B64_ALPHABET" by (simp add: B64_ALPHABET_def is_space_def)
  ultimately show ?thesis by (auto simp: list_all_iff)
qed

lemma b64encode_plain: "list_all (\<lambda>c. \<not> is_space c) (b64encode bs)"
proof -
  have "\<not> is_space (CHR ''='')" by code_simp
  then show ?thesis by (induction bs rule: b64encode.induct) (auto simp: b64_char_plain b64_digits)
qed

lemma b64encode_Nil: "b64encode bs = [] \<longleftrightarrow> bs = []"
  by (cases bs rule: b64encode.cases) auto

lemma data_url_decodes:
  assumes "input \<noteq> []" and "CHR '','' \<notin> set mime"
  shows "decode_candidate (JStr (input_data_url input (''image/'' @ mime))) = Some input"
proof -
  let ?u = "input_data_url input (''image/'' @ mime)"
  have enc: "b64encode input \<noteq> []" using assms(1) by (simp add: b64encode_Nil)
  then have "\<not> is_space (last ?u)" using b64encode_plain [of input] by (auto simp: input_data_url_def list_all_iff)
  then have "py_strip ?u = ?u" by (intro py_strip_id) (simp add: input_data_url_def is_space_def)
  moreover have "dropWhile (\<lambda>c. c \<noteq> CHR '','') ?u = CHR '','' # b64encode input"
    using assms(2) by (simp add: input_data_url_def dropWhile_append)
  moreover have "py_startswith ?u ''data:image/''" by (simp add: input_data_url_def py_startswith_def)
  moreover have "?u \<noteq> []" by (simp add: input_data_url_def)
  ultimately show ?thesis using enc by (simp add: decode_text_def b64_opt_def b64decode_def a2b_encode)
qed

lemma echoed_data_url_rejected:
  assumes "input \<noteq> []" and "CHR '','' \<notin> set mime"
  shows "\<not> usable (Some input) (decode_candidate (JStr (input_data_url input (''image/'' @ mime))))"
  unfolding data_url_decodes [OF assms] by (simp add: usable_def)

text \<open>
  An image request is sent at most three times, with waits of two and four seconds, and only a
  status worth repeating or a network error leads to another attempt.
\<close>

lemma image_posts_spec:
  "\<exists>n < 3. posts ie tr 0 MAX_RETRIES e = ie_post ie tr (nth_state (ie_post ie tr) (\<lambda>k. ie_sleep ie (BASE_DELAY * 2 ^ k)) e n) \<and>
     list_all (nth_repeated (ie_post ie tr) post_again (\<lambda>k. ie_sleep ie (BASE_DELAY * 2 ^ k)) e) [0..<n]"
  unfolding MAX_RETRIES_def using post_retries.three_attempts [where ie = ie and tr = tr and e = e] by (elim exE conjE) (intro exI conjI)

section \<open>Witnesses\<close>

definition demo_images :: "string \<Rightarrow> string \<Rightarrow> unit image_env" where
  "demo_images answer linked = \<lparr>ie_key = \<lambda>k. ''secret'', ie_post = \<lambda>tr e. (Inr [(''choices'', JList [JDict [(''message'', JDict [(''content'', JStr answer)])]])], e),
     ie_get = \<lambda>url e. (Some linked, e), ie_sleep = \<lambda>n e. e, ie_summary = \<lambda>p. ''keys'', ie_runtime = null_runtime\<rparr>"

theorem edited_image_is_new_witness:
  "\<exists>res. fst (generate_image_edit (demo_images ''here: data:image/png;base64,b2xk and ![x](http://h/a.png)'' ''new'') (demo_profile ''img'' ''m'') ''draw'' ''old'' None None ()) = Inr res \<and>
     res \<noteq> [] \<and> res \<noteq> ''old''"
proof -
  have g: "generate_image_edit (demo_images ''here: data:image/png;base64,b2xk and ![x](http://h/a.png)'' ''new'') (demo_profile ''img'' ''m'') ''draw'' ''old'' None None () = (Inr ''new'', ())"
    by code_simp
  show ?thesis using edited_image_is_new [OF g] unfolding g by simp
qed

end
