(* ===== verification/EnvFile.thy ===== *)
theory EnvFile
  imports Patch Frames "HOL-Library.List_Lexorder" "HOL-Library.Char_ord"
begin

text \<open>
  The environment file \<^verbatim>\<open>config/fairyclaw.env\<close>: reading and writing it (\<^verbatim>\<open>config/loader.py\<close>) and making
  its paths absolute in place (\<^verbatim>\<open>config/env_normalize.py\<close>). A file is its text; the atomic replacement
  of a file is not modelled. Path resolution is a parameter.
\<close>

section \<open>Reading and writing\<close>

definition is_quote_char :: "char \<Rightarrow> bool" where
  "is_quote_char c \<longleftrightarrow> c = CHR 0x27 \<or> c = CHR 0x22"

definition quoted :: "string \<Rightarrow> bool" where
  "quoted v \<longleftrightarrow> 2 \<le> length v \<and> hd v = last v \<and> is_quote_char (hd v)"

definition unquote :: "string \<Rightarrow> string" where
  "unquote v = (if quoted v then butlast (tl v) else v)"

definition before_eq :: "string \<Rightarrow> string" where
  "before_eq s = takeWhile (\<lambda>c. c \<noteq> CHR ''='') s"

definition after_eq :: "string \<Rightarrow> string" where
  "after_eq s = tl (dropWhile (\<lambda>c. c \<noteq> CHR ''='') s)"

text \<open>What a line assigns; comments, blank lines and lines without an equals sign assign nothing.\<close>

definition assigns :: "string \<Rightarrow> bool" where
  "assigns s \<longleftrightarrow> s \<noteq> [] \<and> hd s \<noteq> CHR ''#'' \<and> CHR ''='' \<in> set s"

definition read_env_line :: "string \<Rightarrow> (string \<times> string) option" where
  "read_env_line line =
     (let s = py_strip line; k = py_strip (before_eq s)
      in if \<not> assigns s \<or> k = [] then None else Some (k, unquote (py_strip (after_eq s))))"

definition put_line :: "string \<Rightarrow> (string, string) dict \<Rightarrow> (string, string) dict" where
  "put_line line m = (case read_env_line line of None \<Rightarrow> m | Some (k, v) \<Rightarrow> dset k v m)"

definition read_env :: "string \<Rightarrow> (string, string) dict" where
  "read_env t = fold put_line (py_splitlines t) []"

definition env_line :: "string \<times> string \<Rightarrow> string" where
  "env_line p = fst p @ ''='' @ snd p"

definition write_env :: "(string, string) dict \<Rightarrow> string" where
  "write_env m = (let lines = map env_line (sort_key fst m) in py_join LF lines @ (if lines \<noteq> [] then LF else []))"

text \<open>A missing file is \<open>None\<close>.\<close>

definition read_env_file :: "string option \<Rightarrow> (string, string) dict" where
  "read_env_file f = (case f of None \<Rightarrow> [] | Some t \<Rightarrow> read_env t)"

definition merge_env_keys :: "(string, string) dict \<Rightarrow> string option \<Rightarrow> string" where
  "merge_env_keys updates f = write_env (dict_update (read_env_file f) updates)"

definition merge_whitelisted_env :: "string list \<Rightarrow> (string, string) dict \<Rightarrow> string option \<Rightarrow> string option" where
  "merge_whitelisted_env whitelist updates f =
     (let kept = filter (\<lambda>(k, v). k \<in> set whitelist) updates
      in if kept = [] then f else Some (merge_env_keys kept f))"

section \<open>Absolute paths\<close>

definition PATH_VALUE_KEYS :: "string list" where
  "PATH_VALUE_KEYS = [''FAIRYCLAW_DATA_DIR'', ''FAIRYCLAW_LLM_ENDPOINTS_CONFIG_PATH'', ''FAIRYCLAW_LOG_FILE_PATH'', ''FAIRYCLAW_CAPABILITIES_DIR'']"

text \<open>\<open>resolve\<close> is \<open>Path.resolve\<close> of an absolute path.\<close>

definition resolve_path_value :: "(string \<Rightarrow> string) \<Rightarrow> string \<Rightarrow> string \<Rightarrow> string" where
  "resolve_path_value resolve anchor raw =
     (let v = unquote (py_strip raw)
      in if v = [] then raw else if py_startswith v ''/'' then resolve v else resolve (anchor @ ''/'' @ v))"

text \<open>\<open>^(sqlite+aiosqlite:///)(./[^?#]+)(.*)$\<close>, ignoring case; a value is one line.\<close>

definition SQLITE_PREFIX :: string where
  "SQLITE_PREFIX = ''sqlite+aiosqlite:///''"

definition normalize_database_url :: "(string \<Rightarrow> string) \<Rightarrow> string \<Rightarrow> string \<Rightarrow> string" where
  "normalize_database_url resolve anchor raw =
     (let v = py_strip raw; head = take (length SQLITE_PREFIX) v; rest = drop (length SQLITE_PREFIX) v;
          rel = takeWhile (\<lambda>c. c \<noteq> CHR ''?'' \<and> c \<noteq> CHR ''#'') (drop 2 rest);
          suffix = dropWhile (\<lambda>c. c \<noteq> CHR ''?'' \<and> c \<noteq> CHR ''#'') (drop 2 rest)
      in if py_lower head = SQLITE_PREFIX \<and> py_startswith rest ''./'' \<and> rel \<noteq> []
         then head @ resolve (anchor @ ''/./'' @ rel) @ suffix else raw)"

definition normalized_path_updates :: "(string \<Rightarrow> string) \<Rightarrow> string \<Rightarrow> (string, string) dict \<Rightarrow> (string, string) dict" where
  "normalized_path_updates resolve anchor current =
     (let paths = List.map_filter (\<lambda>k. map_option (\<lambda>v. (k, resolve_path_value resolve anchor v)) (dget current k)) PATH_VALUE_KEYS;
          db = (case dget current ''FAIRYCLAW_DATABASE_URL'' of
              Some u \<Rightarrow> if normalize_database_url resolve anchor u \<noteq> u then [(''FAIRYCLAW_DATABASE_URL'', normalize_database_url resolve anchor u)] else []
            | None \<Rightarrow> [])
      in paths @ db)"

text \<open>\<open>merge_env_keys_preserve_lines\<close>: every line that assigns an updated key is rewritten, the other lines stay.\<close>

definition line_key :: "string \<Rightarrow> string option" where
  "line_key line = (let s = py_strip line in if assigns s then Some (py_strip (before_eq s)) else None)"

definition ends_line :: "string \<Rightarrow> bool" where
  "ends_line l \<longleftrightarrow> l \<noteq> [] \<and> (last l = CHR 0x0A \<or> last l = CHR 0x0D)"

definition rewrite_line :: "(string, string) dict \<Rightarrow> string \<Rightarrow> string" where
  "rewrite_line updates line = (case Option.bind (line_key line) (dget updates) of
      None \<Rightarrow> line
    | Some v \<Rightarrow> (let l = before_eq line @ ''='' @ v in if ends_line l then l else l @ LF))"

definition rewritten :: "(string, string) dict \<Rightarrow> string list \<Rightarrow> string list" where
  "rewritten updates lines = filter (\<lambda>k. Some k \<in> set (map line_key lines)) (dkeys updates)"

definition merge_env_keys_preserve_lines :: "(string, string) dict \<Rightarrow> string \<Rightarrow> string" where
  "merge_env_keys_preserve_lines updates t =
     (let lines = splitlines_keep t; new = map (rewrite_line updates) lines;
          missing = filter (\<lambda>(k, v). k \<notin> set (rewritten updates lines)) updates;
          new' = (if missing \<noteq> [] \<and> new \<noteq> [] \<and> \<not> py_startswith (rev (last new)) LF then butlast new @ [last new @ LF] else new)
      in if updates = [] then t else concat (new' @ map (\<lambda>p. env_line p @ LF) missing))"

definition normalize_env_file :: "(string \<Rightarrow> string) \<Rightarrow> string \<Rightarrow> string option \<Rightarrow> string option" where
  "normalize_env_file resolve anchor f = (case f of
      None \<Rightarrow> None
    | Some t \<Rightarrow> (let updates = normalized_path_updates resolve anchor (read_env t)
                 in if updates = [] then Some t else Some (merge_env_keys_preserve_lines updates t)))"

section \<open>What is written is read back\<close>

definition clean_key :: "string \<Rightarrow> bool" where
  "clean_key k \<longleftrightarrow> k \<noteq> [] \<and> py_strip k = k \<and> CHR ''='' \<notin> set k \<and> hd k \<noteq> CHR ''#'' \<and> plain k"

definition clean_value :: "string \<Rightarrow> bool" where
  "clean_value v \<longleftrightarrow> py_strip v = v \<and> \<not> quoted v \<and> plain v"

definition clean_env :: "(string, string) dict \<Rightarrow> bool" where
  "clean_env m \<longleftrightarrow> dict_ok m \<and> list_all (\<lambda>p. clean_key (fst p) \<and> clean_value (snd p)) m"

lemma not_space_edges: "py_strip s = s \<Longrightarrow> s \<noteq> [] \<Longrightarrow> \<not> is_space (hd s) \<and> \<not> is_space (last s)"
  using py_strip_edges [of s] by simp

lemma eq_no_space [simp]: "\<not> is_space (CHR ''='')" "\<not> is_line_break (CHR ''='')"
  by code_simp+

lemma env_line_strip: "clean_key k \<Longrightarrow> clean_value v \<Longrightarrow> py_strip (env_line (k, v)) = env_line (k, v)"
  using not_space_edges [of k] not_space_edges [of v]
  by (intro py_strip_id) (auto simp: env_line_def clean_key_def clean_value_def)

lemma eq_split [simp]: "CHR ''='' \<notin> set k \<Longrightarrow> before_eq (k @ CHR ''='' # v) = k" "CHR ''='' \<notin> set k \<Longrightarrow> after_eq (k @ CHR ''='' # v) = v"
  by (auto simp: before_eq_def after_eq_def takeWhile_append dropWhile_append)

lemma read_env_line_clean: "clean_key k \<Longrightarrow> clean_value v \<Longrightarrow> read_env_line (env_line (k, v)) = Some (k, v)"
  using env_line_strip [of k v]
  by (simp add: read_env_line_def Let_def) (auto simp: env_line_def assigns_def clean_key_def clean_value_def unquote_def)

lemma plain_append [simp]: "plain (a @ b) \<longleftrightarrow> plain a \<and> plain b"
  by (simp add: plain_def)

lemma plain_env_line: "clean_key (fst p) \<Longrightarrow> clean_value (snd p) \<Longrightarrow> plain (env_line p)"
  by (simp add: env_line_def clean_key_def clean_value_def)

lemma plain_env_lines: "list_all (\<lambda>p. clean_key (fst p) \<and> clean_value (snd p)) m \<Longrightarrow> list_all plain (map env_line m)"
  by (induction m) (auto simp: plain_env_line)

lemma join_text: "ls \<noteq> [] \<Longrightarrow> py_join LF ls @ LF = text_of ls"
  by (induction ls rule: induct_list012) (auto simp: text_of_def nl_def)

lemma write_env_text: "write_env m = text_of (map env_line (sort_key fst m))"
proof (cases "sort_key fst m = []")
  case False
  then show ?thesis using join_text [of "map env_line (sort_key fst m)"] by (simp add: write_env_def Let_def del: LF_break)
qed (simp add: write_env_def text_of_def)

lemma fold_put_line:
  assumes "list_all (\<lambda>p. clean_key (fst p) \<and> clean_value (snd p)) m" and "distinct (map fst m)" and "fst ` set m \<inter> fst ` set d = {}"
  shows "fold put_line (map env_line m) d = d @ m"
  using assms
proof (induction m arbitrary: d)
  case (Cons p m)
  obtain k v where p: "p = (k, v)" by (cases p)
  then have "k \<notin> fst ` set d" using Cons.prems by auto
  then have "dset k v d = d @ [(k, v)]" by (induction d) auto
  moreover have "fst ` set m \<inter> fst ` set (d @ [(k, v)]) = {}" using Cons.prems p by auto
  ultimately show ?case using Cons p read_env_line_clean [of k v] by (simp add: put_line_def)
qed simp

lemma read_write_env: "clean_env m \<Longrightarrow> read_env (write_env m) = sort_key fst m"
proof -
  assume m: "clean_env m"
  let ?m = "sort_key fst m"
  have c: "list_all (\<lambda>p. clean_key (fst p) \<and> clean_value (snd p)) ?m" using m by (auto simp: clean_env_def list_all_iff)
  have "mset (map fst ?m) = mset (map fst m)" by simp
  then have d: "distinct (map fst ?m)" using m unfolding clean_env_def dict_ok_def by (metis mset_eq_imp_distinct_iff)
  have "list_all plain (map env_line ?m)" using c by (rule plain_env_lines)
  then show ?thesis using fold_put_line [OF c d, of "[]"] by (simp add: read_env_def write_env_text py_splitlines_text del: LF_break)
qed

lemma dget_sort: "dict_ok m \<Longrightarrow> dget (sort_key fst m) k = dget m k"
proof -
  assume m: "dict_ok m"
  have "mset (map fst (sort_key fst m)) = mset (map fst m)" by simp
  then have "dict_ok (sort_key fst m)" using m unfolding dict_ok_def by (metis mset_eq_imp_distinct_iff)
  then show ?thesis using m dget_Some_set [of "sort_key fst m" k] dget_Some_set [of m k]
    by (metis not_None_eq set_sort)
qed

text \<open> Merging settings into the environment file and reading the file again gives the settings of the
  file with the merged ones in their place, for keys and values that fit on a line and carry no quotes of their own.
\<close>

theorem env_merge_round_trip:
  assumes "clean_env (read_env t)" and "clean_env updates"
  shows "dget (read_env (merge_env_keys updates (Some t))) k = (case dget updates k of Some v \<Rightarrow> Some v | None \<Rightarrow> dget (read_env t) k)"
proof -
  let ?m = "dict_update (read_env t) updates"
  have clean: "clean_env (dict_update m u)" if "clean_env m" "list_all (\<lambda>p. clean_key (fst p) \<and> clean_value (snd p)) u" for u m
    using that
  proof (induction u arbitrary: m)
    case (Cons p u)
    have "clean_env (dset (fst p) (snd p) m)" using Cons.prems set_dset [of m "fst p" "snd p"] by (auto simp: clean_env_def list_all_iff dict_ok_dset)
    with Cons show ?case by (cases p) auto
  qed simp
  have "clean_env ?m" using clean assms unfolding clean_env_def by blast
  then have "dget (read_env (write_env ?m)) k = dget ?m k" by (simp add: read_write_env dget_sort clean_env_def)
  then show ?thesis using dget_update [of updates "read_env t" k] assms(2) by (simp add: merge_env_keys_def read_env_file_def clean_env_def)
qed

section \<open>A value that is not one line\<close>

lemma fold_put_other:
  assumes "list_all (\<lambda>p. clean_key (fst p) \<and> clean_value (snd p)) B" and "k \<notin> fst ` set B"
  shows "dget (fold put_line (map env_line B) d) k = dget d k"
  using assms
proof (induction B arbitrary: d)
  case (Cons p B)
  then show ?case using read_env_line_clean [of "fst p" "snd p"] by (cases p) (simp add: put_line_def)
qed simp

text \<open>
  A value with a line feed in it is written as it is: what follows the line feed is read back as an
  assignment of its own, also to a key that nobody asked to change.
\<close>

lemma line_feed_assigns_another_key:
  assumes "clean_env (read_env_file f)" and "clean_key key" and "clean_value v" and "clean_key other" and "clean_value forged" and "other < key"
  shows "dget (read_env (merge_env_keys [(key, v @ LF @ env_line (other, forged))] f)) other = Some forged"
proof -
  define W where "W = v @ LF @ env_line (other, forged)"
  define M where "M = sort_key fst (dset key W (read_env_file f))"
  have m: "dict_ok (read_env_file f)" "list_all (\<lambda>p. clean_key (fst p) \<and> clean_value (snd p)) (read_env_file f)"
    using assms(1) by (simp_all add: clean_env_def)
  have set: "set M = insert (key, W) {p \<in> set (read_env_file f). fst p \<noteq> key}" unfolding M_def set_sort by (rule set_dset [OF m(1)])
  then have "(key, W) \<in> set M" by blast
  then obtain A B where AB: "M = A @ (key, W) # B" by (meson split_list)
  have "mset (map fst M) = mset (map fst (dset key W (read_env_file f)))" unfolding M_def mset_map mset_sort ..
  moreover have "distinct (map fst (dset key W (read_env_file f)))" using dict_ok_dset [OF m(1), of key W] unfolding dict_ok_def .
  ultimately have "distinct (map fst M)" by (metis mset_eq_imp_distinct_iff)
  with AB have fresh: "key \<notin> fst ` set A" "key \<notin> fst ` set B" by auto
  have clean: "list_all (\<lambda>p. clean_key (fst p) \<and> clean_value (snd p)) (A @ B)"
  proof -
    have "p \<in> set (read_env_file f)" if "p \<in> set (A @ B)" for p
    proof -
      have "p \<in> set M" "fst p \<noteq> key" using that fresh by (auto simp: AB)
      then show ?thesis unfolding set by auto
    qed
    with m(2) show ?thesis unfolding list_all_iff by blast
  qed
  have "sorted (map fst M)" by (simp add: M_def)
  with AB have "\<forall>p \<in> set B. key \<le> fst p" by (auto simp: sorted_append)
  with assms(6) have other: "other \<notin> fst ` set B" by auto
  let ?lines = "map env_line A @ [env_line (key, v), env_line (other, forged)] @ map env_line B"
  have "plain (env_line (key, v))" "plain (env_line (other, forged))" using assms(2-5) by (simp_all add: plain_env_line)
  then have "list_all plain ?lines" using plain_env_lines [OF clean] by simp
  moreover have "write_env (dset key W (read_env_file f)) = text_of ?lines"
    unfolding write_env_text M_def [symmetric] AB by (simp add: W_def text_of_def nl_def env_line_def)
  ultimately have "read_env (merge_env_keys [(key, W)] f) = fold put_line ?lines []"
    by (simp add: merge_env_keys_def read_env_def py_splitlines_text del: LF_break)
  also have "dget \<dots> other = Some forged"
    using fold_put_other [OF _ other] clean read_env_line_clean [OF assms(4,5)] by (simp add: put_line_def)
  finally show ?thesis unfolding W_def .
qed

section \<open>Rewriting lines in place\<close>

lemma strip_LF: "py_strip (l @ LF) = py_strip l"
proof -
  have "is_space (CHR 0x0A)" by code_simp
  then show ?thesis by (cases "dropWhile is_space l = []") (auto simp: py_strip_def py_lstrip_def py_rstrip_def dropWhile_append dest: set_dropWhileD)
qed

lemma clean_get: "list_all (\<lambda>p. clean_key (fst p) \<and> clean_value (snd p)) m \<Longrightarrow> dget m k = Some v \<Longrightarrow> clean_key k \<and> clean_value v"
  by (induction m) (auto split: if_splits)

lemma lstrip_split: "l = takeWhile is_space l @ py_lstrip l"
  by (simp add: py_lstrip_def)

lemma rstrip_split: "\<exists>t. x = py_rstrip x @ t \<and> list_all is_space t"
proof (intro exI conjI)
  show "x = py_rstrip x @ rev (takeWhile is_space (rev x))" by (metis py_rstrip_def rev_append rev_rev_ident takeWhile_dropWhile_id)
  show "list_all is_space (rev (takeWhile is_space (rev x)))" by (auto simp: list_all_iff dest: set_takeWhileD)
qed

lemma before_eq_strip:
  assumes "CHR ''='' \<in> set l"
  shows "before_eq l = takeWhile is_space l @ before_eq (py_strip l)" and "CHR ''='' \<in> set (py_strip l)"
proof -
  obtain t where t: "py_lstrip l = py_strip l @ t" "list_all is_space t" using rstrip_split by (metis py_strip_def)
  have "CHR ''='' \<notin> set (takeWhile is_space l)" by (auto dest: set_takeWhileD)
  then have "CHR ''='' \<in> set (py_lstrip l)" using assms lstrip_split [of l] by (metis Un_iff set_append)
  then show eq: "CHR ''='' \<in> set (py_strip l)" using t by (auto simp: list_all_iff)
  have "before_eq l = takeWhile is_space l @ before_eq (py_lstrip l)"
    using \<open>CHR ''='' \<notin> set (takeWhile is_space l)\<close> unfolding before_eq_def by (subst lstrip_split) (auto simp: takeWhile_append)
  moreover have "before_eq (py_lstrip l) = before_eq (py_strip l)" using eq unfolding before_eq_def t(1) by (auto simp: takeWhile_append)
  ultimately show "before_eq l = takeWhile is_space l @ before_eq (py_strip l)" by simp
qed

lemma assigns_eq: "assigns (py_strip l) \<Longrightarrow> CHR ''='' \<in> set l"
proof -
  assume "assigns (py_strip l)"
  then have "CHR ''='' \<in> set (dropWhile is_space (rev (dropWhile is_space l)))" by (simp add: assigns_def py_strip_def py_lstrip_def py_rstrip_def)
  then show ?thesis by (auto dest!: set_dropWhileD)
qed

text \<open>The content of a rewritten line.\<close>

definition rewritten_line :: "(string, string) dict \<Rightarrow> string \<Rightarrow> string" where
  "rewritten_line updates l = (case Option.bind (line_key l) (dget updates) of None \<Rightarrow> l | Some v \<Rightarrow> before_eq l @ ''='' @ v)"

lemma rewrite_nl:
  assumes "list_all (\<lambda>p. clean_key (fst p) \<and> clean_value (snd p)) updates"
  shows "rewrite_line updates (nl l) = nl (rewritten_line updates l)"
proof -
  have key: "line_key (nl l) = line_key l" by (simp add: line_key_def nl_def strip_LF del: LF_break)
  show ?thesis
  proof (cases "Option.bind (line_key l) (dget updates)")
    case None
    then show ?thesis by (simp add: rewrite_line_def rewritten_line_def key)
  next
    case (Some v)
    then obtain k where k: "line_key l = Some k" "dget updates k = Some v" by (cases "line_key l") auto
    then have "CHR ''='' \<in> set l" using assigns_eq by (auto simp: line_key_def Let_def split: if_splits)
    then have b: "before_eq (nl l) = before_eq l" by (auto simp: before_eq_def nl_def takeWhile_append)
    have "plain v" using clean_get [OF assms k(2)] by (simp add: clean_value_def)
    then have "\<not> ends_line (before_eq l @ ''='' @ v)"
      by (cases v rule: rev_cases) (auto simp: ends_line_def plain_def is_line_break_def)
    with Some b show ?thesis unfolding rewrite_line_def rewritten_line_def key Let_def by (simp add: nl_def)
  qed
qed

lemma read_rewritten:
  assumes "list_all (\<lambda>p. clean_key (fst p) \<and> clean_value (snd p)) updates" and "line_key l = Some k" and "dget updates k = Some v"
  shows "read_env_line (rewritten_line updates l) = Some (k, v)"
proof -
  have c: "clean_key k" "clean_value v" using clean_get [OF assms(1,3)] by simp_all
  from assms(2) have s: "assigns (py_strip l)" and k: "k = py_strip (before_eq (py_strip l))" by (auto simp: line_key_def Let_def split: if_splits)
  let ?b = "before_eq (py_strip l)" and ?lead = "takeWhile is_space l"
  have eq: "before_eq l = ?lead @ ?b" using before_eq_strip(1) [OF assigns_eq [OF s]] .
  have b: "?b \<noteq> []" "CHR ''='' \<notin> set ?b" using c(1) k by (auto simp: clean_key_def before_eq_def dest: set_takeWhileD)
  then have hd: "hd ?b = hd (py_strip l)" by (cases "py_strip l") (auto simp: before_eq_def split: if_splits)
  have "py_strip l \<noteq> []" using s by (simp add: assigns_def)
  then have "\<not> is_space (hd ?b)" using py_strip_edges [of l] hd by simp
  then have "py_lstrip (?lead @ ?b @ ''='' @ v) = ?b @ ''='' @ v"
    using b(1) by (auto simp: py_lstrip_def dropWhile_append hd_append dest: set_takeWhileD split: if_splits)
      (simp add: dropWhile_eq_self_iff)
  moreover have "py_rstrip (?b @ ''='' @ v) = ?b @ ''='' @ v"
    using c(2) not_space_edges [of v] by (intro py_rstrip_id) (auto simp: clean_value_def)
  ultimately have "py_strip (rewritten_line updates l) = ?b @ ''='' @ v"
    using assms(2,3) eq by (simp add: rewritten_line_def py_strip_def)
  moreover have "assigns (?b @ ''='' @ v)" using s b(1) hd by (auto simp: assigns_def)
  ultimately show ?thesis using b c k [symmetric] by (simp add: read_env_line_def Let_def) (auto simp: clean_key_def clean_value_def unquote_def)
qed

lemma plain_rewritten:
  assumes "list_all (\<lambda>p. clean_key (fst p) \<and> clean_value (snd p)) updates" and "plain l"
  shows "plain (rewritten_line updates l)"
proof (cases "Option.bind (line_key l) (dget updates)")
  case (Some v)
  then obtain k where "dget updates k = Some v" by (cases "line_key l") auto
  then have "plain v" using clean_get [OF assms(1)] by (auto simp: clean_value_def)
  moreover have "plain (before_eq l)" using assms(2) by (auto simp: plain_def before_eq_def list_all_iff dest: set_takeWhileD)
  ultimately show ?thesis using Some by (simp add: rewritten_line_def)
qed (use assms(2) in \<open>simp add: rewritten_line_def\<close>)

lemma read_not_key: "line_key l \<noteq> Some k \<Longrightarrow> dget (put_line l d) k = dget d k"
  by (auto simp: line_key_def put_line_def read_env_line_def Let_def split: if_splits)

lemma put_rewritten:
  assumes "list_all (\<lambda>p. clean_key (fst p) \<and> clean_value (snd p)) updates"
  shows "dget (put_line (rewritten_line updates l) d) k = (case dget updates k of
      Some v \<Rightarrow> if line_key l = Some k then Some v else dget d k
    | None \<Rightarrow> dget (put_line l d) k)"
proof (cases "Option.bind (line_key l) (dget updates)")
  case None
  then show ?thesis using read_not_key [of l k d] by (cases "line_key l") (auto simp: rewritten_line_def split: option.splits)
next
  case (Some v)
  then obtain k' where k': "line_key l = Some k'" "dget updates k' = Some v" by (cases "line_key l") auto
  then have "put_line (rewritten_line updates l) d = dset k' v d" using read_rewritten [OF assms k'] by (simp add: put_line_def)
  then show ?thesis using k' read_not_key [of l k d] by (auto split: option.splits)
qed

lemma fold_rewritten:
  assumes "list_all (\<lambda>p. clean_key (fst p) \<and> clean_value (snd p)) updates"
    and "dget updates k = None \<Longrightarrow> dget d k = dget d' k"
  shows "dget (fold put_line (map (rewritten_line updates) ls) d) k = (case dget updates k of
      Some v \<Rightarrow> if Some k \<in> set (map line_key ls) then Some v else dget d k
    | None \<Rightarrow> dget (fold put_line ls d') k)"
  using assms(2)
proof (induction ls arbitrary: d d')
  case (Cons l ls)
  have same: "dget (put_line l d) k = dget (put_line l d') k" if "dget updates k = None"
    using Cons.prems that by (auto simp: put_line_def split: option.splits prod.splits)
  have "dget updates k = None \<Longrightarrow> dget (put_line (rewritten_line updates l) d) k = dget (put_line l d') k"
    using same by (simp add: put_rewritten [OF assms(1)])
  from Cons.IH [OF this] show ?case using put_rewritten [OF assms(1), of l d k] by (auto split: option.splits)
qed (auto split: option.splits)

text \<open> Rewriting settings in place, with the other lines of the file kept, and reading the file again
  gives the settings of the file with the rewritten ones in their place, wherever and however often the file assigns them.
\<close>

theorem rewriting_round_trip:
  assumes "list_all plain ls" and "clean_env updates"
  shows "dget (read_env (merge_env_keys_preserve_lines updates (text_of ls))) k =
    (case dget updates k of Some v \<Rightarrow> Some v | None \<Rightarrow> dget (read_env (text_of ls)) k)"
proof (cases "updates = []")
  case False
  have u: "list_all (\<lambda>p. clean_key (fst p) \<and> clean_value (snd p)) updates" using assms(2) by (simp add: clean_env_def)
  define missing where "missing = filter (\<lambda>(k, v). k \<notin> set (rewritten updates (map nl ls))) updates"
  let ?lines = "map (rewritten_line updates) ls"
  have new: "map (rewrite_line updates) (map nl ls) = map nl ?lines"
    using rewrite_nl [OF u] by simp
  have ends: "\<not> (missing \<noteq> [] \<and> map nl ?lines \<noteq> [] \<and> \<not> py_startswith (rev (last (map nl ?lines))) LF)"
    by (cases "ls = []") (simp_all add: last_map nl_def py_startswith_def)
  have "merge_env_keys_preserve_lines updates (text_of ls) = concat (map nl ?lines @ map (\<lambda>p. env_line p @ LF) missing)"
    unfolding merge_env_keys_preserve_lines_def Let_def splitlines_keep_text [OF assms(1)] missing_def [symmetric] new if_not_P [OF False] if_not_P [OF ends] ..
  then have t: "merge_env_keys_preserve_lines updates (text_of ls) = text_of (?lines @ map env_line missing)"
    by (simp add: text_of_def nl_def comp_def del: LF_break)
  have m: "list_all (\<lambda>p. clean_key (fst p) \<and> clean_value (snd p)) missing" using u by (auto simp: missing_def list_all_iff)
  have "list_all plain (?lines @ map env_line missing)"
    using assms(1) plain_rewritten [OF u] plain_env_lines [OF m] by (auto simp: list_all_iff)
  then have read: "read_env (merge_env_keys_preserve_lines updates (text_of ls)) = fold put_line (map env_line missing) (fold put_line ?lines [])"
    unfolding t read_env_def by (simp add: py_splitlines_text del: LF_break)
  have put: "dget (fold put_line (map env_line m) d) k = (case dget m k of Some v \<Rightarrow> Some v | None \<Rightarrow> dget d k)"
    if "dict_ok m" "list_all (\<lambda>p. clean_key (fst p) \<and> clean_value (snd p)) m" for m d
  proof -
    have "fold put_line (map env_line m) d = dict_update d m"
      using that(2) by (induction m arbitrary: d) (auto simp: put_line_def read_env_line_clean)
    then show ?thesis using dget_update [OF that(1), of d k] by simp
  qed
  have key: "line_key (nl x) = line_key x" for x by (simp add: line_key_def nl_def strip_LF del: LF_break)
  have "dict_ok missing" using assms(2) unfolding clean_env_def dict_ok_def missing_def by (simp add: distinct_map_filter)
  moreover have "dget missing k = (if Some k \<in> set (map line_key ls) then None else dget updates k)"
  proof -
    have "dget missing k = (if k \<in> set (rewritten updates (map nl ls)) then None else dget updates k)"
    proof -
      have "dget (filter (\<lambda>(k, v). k \<notin> A) m) k = (if k \<in> A then None else dget m k)" for A and m :: "(string, string) dict"
        by (induction m) auto
      then show ?thesis unfolding missing_def .
    qed
    moreover have "dget updates k = None" if "k \<notin> set (dkeys updates)" using that by (simp add: map_of_eq_None_iff)
    ultimately show ?thesis by (auto simp: rewritten_def key)
  qed
  ultimately show ?thesis
    unfolding read put [OF \<open>dict_ok missing\<close> m] using fold_rewritten [OF u, of k "[]" "[]" ls] assms(1)
    by (auto simp: read_env_def py_splitlines_text split: option.splits)
qed (simp add: merge_env_keys_preserve_lines_def Let_def)

section \<open>Witnesses\<close>

theorem env_merge_round_trip_witness:
  "dget (read_env (merge_env_keys [(''B'', ''2'')] (Some (''# c'' @ LF @ ''A = x'' @ LF)))) ''A'' = Some ''x''"
proof -
  have 1: "clean_env (read_env (''# c'' @ LF @ ''A = x'' @ LF))" and 2: "clean_env [(''B'', ''2'')]" by code_simp+
  have "dget (read_env (''# c'' @ LF @ ''A = x'' @ LF)) ''A'' = Some ''x''" by code_simp
  then show ?thesis unfolding env_merge_round_trip [OF 1 2] by simp
qed

theorem rewriting_round_trip_witness:
  "dget (read_env (merge_env_keys_preserve_lines [(''A'', ''1'')] (text_of [''# c'', '' A = x'', ''B=y'', ''A=z'']))) ''A'' = Some ''1''"
proof -
  have "list_all plain [''# c'', '' A = x'', ''B=y'', ''A=z'']" "clean_env [(''A'', ''1'')]" by code_simp+
  from rewriting_round_trip [OF this, of "''A''"] show ?thesis by simp
qed

end
