(* ===== verification/Registry.thy ===== *)
theory Registry
  imports Hooks
begin

text \<open>
  Loading the capability groups (\<^verbatim>\<open>core/capabilities/registry.py\<close>, \<^verbatim>\<open>core/capabilities/models.py\<close>,
  \<^verbatim>\<open>sdk/group_runtime.py\<close>): manifests and the models they are validated against, the registration of tools,
  event types, hooks and their executors, the queries as they are answered from the manifests, and the group
  policy that is written back. \<open>Hooks\<close> answers the same queries from parsed groups; \<open>view_queries\<close> below says when
  the two agree.

  How pydantic reads a flag or a number is a parameter, and so are the modules behind the scripts.
\<close>

section \<open>The models of a manifest\<close>

record pydantic =
  pd_bool :: "json \<Rightarrow> bool option"
  pd_int :: "json \<Rightarrow> int option"

text \<open>A validated field: required, or with a default; \<open>None\<close> is the \<open>ValidationError\<close>.\<close>

definition needed :: "json_object \<Rightarrow> string \<Rightarrow> (json \<Rightarrow> 'a option) \<Rightarrow> 'a option" where
  "needed d k f = Option.bind (dget d k) f"

definition optional :: "json_object \<Rightarrow> string \<Rightarrow> (json \<Rightarrow> 'a option) \<Rightarrow> 'a \<Rightarrow> 'a option" where
  "optional d k f dflt = (case dget d k of None \<Rightarrow> Some dflt | Some v \<Rightarrow> f v)"

fun of_str :: "json \<Rightarrow> string option" where
  "of_str (JStr s) = Some s"
| "of_str _ = None"

fun of_dict :: "json \<Rightarrow> json_object option" where
  "of_dict (JDict d) = Some d"
| "of_dict _ = None"

fun traverse :: "('a \<Rightarrow> 'b option) \<Rightarrow> 'a list \<Rightarrow> 'b list option" where
  "traverse f [] = Some []"
| "traverse f (x # xs) = Option.bind (f x) (\<lambda>y. map_option (Cons y) (traverse f xs))"

fun of_dicts :: "json \<Rightarrow> json_object list option" where
  "of_dicts (JList vs) = traverse of_dict vs"
| "of_dicts _ = None"

fun str_or_null :: "json \<Rightarrow> json option" where
  "str_or_null JNull = Some JNull"
| "str_or_null (JStr s) = Some (JStr s)"
| "str_or_null _ = None"

text \<open>
  The four fields a policy can change hold the values they were given: \<open>model_copy\<close> does not validate.
\<close>

record group_doc =
  gd_name :: string
  gd_description :: string
  gd_planner :: json
  gd_subagent :: json
  gd_version :: json
  gd_hint :: json
  gd_capabilities :: "json_object list"
  gd_hooks :: "json_object list"
  gd_events :: "json_object list"

definition parse_group :: "pydantic \<Rightarrow> json_object \<Rightarrow> group_doc option" where
  "parse_group pd d =
     Option.bind (needed d ''name'' of_str) (\<lambda>name.
     Option.bind (needed d ''description'' of_str) (\<lambda>description.
     Option.bind (needed d ''always_enable_planner'' (pd_bool pd)) (\<lambda>planner.
     Option.bind (needed d ''always_enable_subagent'' (pd_bool pd)) (\<lambda>subagent.
     Option.bind (optional d ''manifest_version'' of_str ''1.0'') (\<lambda>version.
     Option.bind (optional d ''routing_hint'' str_or_null JNull) (\<lambda>hint.
     Option.bind (needed d ''capabilities'' of_dicts) (\<lambda>capabilities.
     Option.bind (optional d ''hooks'' of_dicts []) (\<lambda>hooks.
     Option.bind (optional d ''event_types'' of_dicts []) (\<lambda>events.
       Some \<lparr>gd_name = name, gd_description = description, gd_planner = JBool planner, gd_subagent = JBool subagent,
             gd_version = JStr version, gd_hint = hint, gd_capabilities = capabilities, gd_hooks = hooks, gd_events = events\<rparr>)))))))))"

record tool_manifest =
  tm_tool :: tool_capability
  tm_script :: string

definition parse_tool :: "pydantic \<Rightarrow> json_object \<Rightarrow> tool_manifest option" where
  "parse_tool pd d =
     Option.bind (needed d ''name'' of_str) (\<lambda>name.
     Option.bind (needed d ''description'' of_str) (\<lambda>description.
     Option.bind (optional d ''type'' of_str ''Tool'') (\<lambda>_.
     Option.bind (needed d ''schema'' of_dict) (\<lambda>schema.
     Option.bind (needed d ''script'' of_str) (\<lambda>script.
     Option.bind (optional d ''record_event'' (pd_bool pd) True) (\<lambda>record_event.
       Some \<lparr>tm_tool = \<lparr>tl_name = name, tl_description = description, tl_schema = schema, tl_record_event = record_event\<rparr>, tm_script = script\<rparr>))))))"

record hook_manifest =
  hm_hook :: hook_definition
  hm_script :: string
  hm_timeout_ms :: int
  hm_config :: json_object

definition of_policy :: "json \<Rightarrow> hook_error_policy option" where
  "of_policy v = (if v = JStr ''continue'' then Some POLICY_CONTINUE else if v = JStr ''fail'' then Some POLICY_FAIL
     else if v = JStr ''warn'' then Some POLICY_WARN else None)"

definition parse_hook :: "pydantic \<Rightarrow> json_object \<Rightarrow> hook_manifest option" where
  "parse_hook pd d =
     Option.bind (needed d ''name'' of_str) (\<lambda>name.
     Option.bind (needed d ''stage'' of_str) (\<lambda>stage.
     Option.bind (needed d ''script'' of_str) (\<lambda>script.
     Option.bind (optional d ''priority'' (pd_int pd) 100) (\<lambda>priority.
     Option.bind (optional d ''enabled'' (pd_bool pd) True) (\<lambda>enabled.
     Option.bind (optional d ''timeout_ms'' (pd_int pd) 300) (\<lambda>timeout.
     Option.bind (optional d ''on_error'' of_policy POLICY_CONTINUE) (\<lambda>on_error.
     Option.bind (optional d ''config'' of_dict []) (\<lambda>config.
       Some \<lparr>hm_hook = \<lparr>hd_name = name, hd_stage = stage, hd_priority = priority, hd_enabled = enabled, hd_on_error = on_error\<rparr>,
             hm_script = script, hm_timeout_ms = timeout, hm_config = config\<rparr>))))))))"

text \<open>\<open>HookCapability\<close> has a description and a type besides.\<close>

definition parse_hook_capability :: "pydantic \<Rightarrow> json_object \<Rightarrow> hook_manifest option" where
  "parse_hook_capability pd d =
     Option.bind (needed d ''description'' of_str) (\<lambda>_.
     Option.bind (optional d ''type'' of_str ''Hook'') (\<lambda>_. parse_hook pd d))"

record event_type_definition =
  et_name :: string
  et_description :: string
  et_schema :: json_object

definition parse_event_type :: "json_object \<Rightarrow> event_type_definition option" where
  "parse_event_type d =
     Option.bind (needed d ''name'' of_str) (\<lambda>name.
     Option.bind (optional d ''description'' of_str []) (\<lambda>description.
     Option.bind (optional d ''schema'' of_dict [(''type'', JStr ''object''), (''properties'', JDict [])]) (\<lambda>schema.
       Some \<lparr>et_name = name, et_description = description, et_schema = schema\<rparr>)))"

definition of_kind :: "string \<Rightarrow> json_object list \<Rightarrow> json_object list" where
  "of_kind kind = filter (\<lambda>c. obj_get c ''type'' = JStr kind)"

definition group_tools :: "pydantic \<Rightarrow> group_doc \<Rightarrow> tool_manifest list option" where
  "group_tools pd g = traverse (parse_tool pd) (of_kind ''Tool'' (gd_capabilities g))"

definition hook_definitions :: "pydantic \<Rightarrow> group_doc \<Rightarrow> hook_manifest list option" where
  "hook_definitions pd g =
     Option.bind (traverse (parse_hook pd) (gd_hooks g)) (\<lambda>top.
     map_option ((@) top) (traverse (parse_hook_capability pd) (of_kind ''Hook'' (gd_capabilities g))))"

text \<open>The items of a validated group are dictionaries: its branch for plain names is never taken.\<close>

definition event_type_definitions :: "group_doc \<Rightarrow> event_type_definition list option" where
  "event_type_definitions g = traverse parse_event_type (gd_events g)"

section \<open>Group configuration\<close>

definition upper_char :: "char \<Rightarrow> char" where
  "upper_char c = (let n = (of_char c :: nat) in if 97 \<le> n \<and> n \<le> 122 then char_of (n - 32) else c)"

text \<open>\<open>_LEGACY_KEY_MAP\<close>\<close>

definition legacy_keys :: "string \<Rightarrow> (string, string) dict" where
  "legacy_keys grp =
     (if grp = ''web_tools'' \<or> grp = ''sourced_research'' then [(''FAIRYCLAW_WEB_PROXY'', ''web_proxy'')]
      else if grp = ''core_ops'' then [(''FAIRYCLAW_EXECUTION_TIMEOUT_SECONDS'', ''execution_timeout_seconds'')] else [])"

text \<open>\<open>environ\<close> is the process environment; a group name is the name of an ASCII directory.\<close>

definition collect_env_overrides :: "(string, string) dict \<Rightarrow> string \<Rightarrow> json_object" where
  "collect_env_overrides environ grp =
     (let prefix = ''FAIRYCLAW_CAP_'' @ map upper_char grp @ ''__'';
          legacy = List.map_filter (\<lambda>(k, field). map_option (\<lambda>v. (field, JStr v)) (dget environ k)) (legacy_keys grp);
          named = map (\<lambda>(k, v). (py_lower (drop (length prefix) k), JStr v)) (filter (\<lambda>(k, v). py_startswith k prefix) environ)
      in dict_update (dict_update [] legacy) named)"

text \<open>\<open>yaml\<close> is the group's \<^verbatim>\<open>config.yaml\<close>, empty when it is missing or unreadable.\<close>

definition load_group_runtime_config ::
  "(string, string) dict \<Rightarrow> json_object \<Rightarrow> string \<Rightarrow> (json_object \<Rightarrow> 'c option) \<Rightarrow> (string \<times> json) option \<Rightarrow> 'c option" where
  "load_group_runtime_config environ yaml grp validate data_dir =
     (let found = dict_update (dict_update [] yaml) (collect_env_overrides environ grp)
      in validate (case data_dir of
           Some (k, v) \<Rightarrow> if dget found k = None then dset k v found else found
         | None \<Rightarrow> found))"

definition expect_group_config :: "'c option \<Rightarrow> ('c \<Rightarrow> bool) \<Rightarrow> 'c res" where
  "expect_group_config cfg is_model = (case cfg of Some c \<Rightarrow> if is_model c then Inr c else Inl TypeError | None \<Rightarrow> Inl TypeError)"

section \<open>Modules\<close>

definition is_segment_char :: "char \<Rightarrow> bool" where
  "is_segment_char c = (let n = (of_char c :: nat) in 48 \<le> n \<and> n \<le> 57 \<or> 65 \<le> n \<and> n \<le> 90 \<or> 97 \<le> n \<and> n \<le> 122 \<or> n = 95)"

definition sanitize_segment :: "string \<Rightarrow> string" where
  "sanitize_segment raw =
     (let s = map (\<lambda>c. if is_segment_char c then c else CHR ''_'') (py_strip raw);
          s' = (case s of c # _ \<Rightarrow> if c \<in> set ''0123456789'' then CHR ''_'' # s else s | [] \<Rightarrow> [])
      in if s' = [] then ''_'' else s')"

text \<open>The search path of every package, by name; scripts stand directly in the \<^verbatim>\<open>scripts\<close> directory of their group.\<close>

definition ensure_package :: "string \<Rightarrow> string \<Rightarrow> (string, string list) dict \<Rightarrow> (string, string list) dict" where
  "ensure_package name dir pkgs = (case dget pkgs name of
      Some paths \<Rightarrow> if dir \<in> set paths then pkgs else dset name (paths @ [dir]) pkgs
    | None \<Rightarrow> dset name [dir] pkgs)"

definition package_of :: "string \<Rightarrow> string" where
  "package_of dir = ''fairyclaw_cap_'' @ sanitize_segment dir"

text \<open>
  What executing a script file leaves: the event type of its first \<open>EventHookHandler\<close> subclass, if it has one,
  and which of the two functions it defines. \<open>ScriptBroken\<close> is a script that raises or cannot be instantiated.
\<close>

record script_module =
  sm_handler :: "string option"
  sm_execute_hook :: bool
  sm_execute :: bool

datatype script_file = ScriptMissing | ScriptBroken | ScriptModule script_module

text \<open>An executor is known by its directory, its script and what is called there.\<close>

datatype entry_point = HandlerRun | ExecuteHook | Execute

type_synonym executor_id = "string \<times> string \<times> entry_point"

datatype 'c config_module = ConfigMissing | ConfigBroken | ConfigPlain | ConfigModel "json_object \<Rightarrow> 'c option"

record 'c load_env =
  lv_pydantic :: pydantic
  lv_script :: "string \<Rightarrow> string \<Rightarrow> script_file"
  lv_config_module :: "string \<Rightarrow> string \<Rightarrow> 'c config_module"
  lv_yaml :: "string \<Rightarrow> json_object"
  lv_environ :: "(string, string) dict"

record 'c loaded =
  ld_groups :: "(string, group_doc) dict"
  ld_configs :: "(string, 'c option) dict"
  ld_paths :: "(string, string) dict"
  ld_tools :: "(string, tool_manifest) dict"
  ld_events :: "(string, event_type_definition) dict"
  ld_hooks :: "(string, hook_manifest list) dict"
  ld_tool_exec :: "(string, executor_id) dict"
  ld_hook_exec :: "(string, executor_id) dict"
  ld_packages :: "(string, string list) dict"

section \<open>Loading\<close>

text \<open>\<open>_load_group_runtime_config\<close>: a candidate that fails in any way is passed over.\<close>

fun first_config :: "'c load_env \<Rightarrow> string \<Rightarrow> string list \<Rightarrow> 'c option" where
  "first_config le dir [] = None"
| "first_config le dir (f # fs) = (case lv_config_module le dir f of
      ConfigModel validate \<Rightarrow>
        (case load_group_runtime_config (lv_environ le) (lv_yaml le dir) dir validate None of
           Some c \<Rightarrow> Some c | None \<Rightarrow> first_config le dir fs)
    | _ \<Rightarrow> first_config le dir fs)"

definition load_config :: "'c load_env \<Rightarrow> string \<Rightarrow> 'c option" where
  "load_config le dir = first_config le dir [''config.py'', ''__init__.py'']"

definition load_tool_executor :: "'c load_env \<Rightarrow> string \<Rightarrow> string \<Rightarrow> string \<Rightarrow> 'c loaded \<Rightarrow> 'c loaded" where
  "load_tool_executor le dir name script L = (case lv_script le dir script of
      ScriptMissing \<Rightarrow> L
    | ScriptBroken \<Rightarrow> L\<lparr>ld_packages := ensure_package (package_of dir) dir (ld_packages L)\<rparr>
    | ScriptModule m \<Rightarrow>
        L\<lparr>ld_packages := ensure_package (package_of dir) dir (ld_packages L),
          ld_tool_exec := if sm_execute m then dset name (dir, script, Execute) (ld_tool_exec L) else ld_tool_exec L\<rparr>)"

definition removeprefix :: "string \<Rightarrow> string \<Rightarrow> string" where
  "removeprefix p s = (if py_startswith s p then drop (length p) s else s)"

text \<open>The function of a hook script that is registered; none for a handler of another event type.\<close>

definition hook_entry :: "string \<Rightarrow> script_module \<Rightarrow> entry_point option" where
  "hook_entry stage m = (case sm_handler m of
      Some et \<Rightarrow> if et = removeprefix ''event:'' stage then Some HandlerRun else None
    | None \<Rightarrow> if sm_execute_hook m then Some ExecuteHook else if sm_execute m then Some Execute else None)"

definition load_hook_executor :: "'c load_env \<Rightarrow> string \<Rightarrow> hook_manifest \<Rightarrow> 'c loaded \<Rightarrow> 'c loaded" where
  "load_hook_executor le dir h L = (case lv_script le dir (hm_script h) of
      ScriptMissing \<Rightarrow> L
    | ScriptBroken \<Rightarrow> L\<lparr>ld_packages := ensure_package (package_of dir) dir (ld_packages L)\<rparr>
    | ScriptModule m \<Rightarrow>
        L\<lparr>ld_packages := ensure_package (package_of dir) dir (ld_packages L),
          ld_hook_exec := (case hook_entry (hd_stage (hm_hook h)) m of
              Some ep \<Rightarrow> dset (hd_name (hm_hook h)) (dir, hm_script h, ep) (ld_hook_exec L)
            | None \<Rightarrow> ld_hook_exec L)\<rparr>)"

definition register_tool :: "'c load_env \<Rightarrow> string \<Rightarrow> tool_manifest \<Rightarrow> 'c loaded \<Rightarrow> 'c loaded" where
  "register_tool le dir t L =
     (let name = tl_name (tm_tool t); L1 = L\<lparr>ld_tools := dset name t (ld_tools L)\<rparr>
      in if tm_script t \<noteq> [] then load_tool_executor le dir name (tm_script t) L1 else L1)"

definition register_event :: "event_type_definition \<Rightarrow> 'c loaded \<Rightarrow> 'c loaded" where
  "register_event et L = L\<lparr>ld_events := dset (et_name et) et (ld_events L)\<rparr>"

definition register_hooks :: "'c load_env \<Rightarrow> string \<Rightarrow> string \<Rightarrow> hook_manifest list \<Rightarrow> 'c loaded \<Rightarrow> 'c loaded" where
  "register_hooks le dir name hs L = fold (load_hook_executor le dir) hs (L\<lparr>ld_hooks := dset name hs (ld_hooks L)\<rparr>)"

definition register_group :: "'c load_env \<Rightarrow> string \<Rightarrow> group_doc \<Rightarrow> 'c loaded \<Rightarrow> 'c loaded" where
  "register_group le dir g L = L\<lparr>ld_groups := dset (gd_name g) g (ld_groups L), ld_configs := dset (gd_name g) (load_config le dir) (ld_configs L),
     ld_paths := dset (gd_name g) dir (ld_paths L)\<rparr>"

text \<open>
  One directory. A manifest that is missing, unreadable or no object is \<open>None\<close>. Whatever raises ends the
  directory and keeps what was registered before it.
\<close>

definition load_group :: "'c load_env \<Rightarrow> string \<times> json_object option \<Rightarrow> 'c loaded \<Rightarrow> 'c loaded" where
  "load_group le p L = (case Option.bind (snd p) (parse_group (lv_pydantic le)) of
      None \<Rightarrow> L
    | Some g \<Rightarrow>
        (let dir = fst p; L1 = register_group le dir g L
         in case group_tools (lv_pydantic le) g of
              None \<Rightarrow> L1
            | Some ts \<Rightarrow>
                (let L2 = fold (register_tool le dir) ts L1
                 in case event_type_definitions g of
                      None \<Rightarrow> L2
                    | Some ets \<Rightarrow>
                        (let L3 = fold register_event ets L2
                         in case hook_definitions (lv_pydantic le) g of
                              None \<Rightarrow> L3
                            | Some hs \<Rightarrow> register_hooks le dir (gd_name g) hs L3))))"

definition empty_registry :: "'c loaded" where
  "empty_registry = \<lparr>ld_groups = [], ld_configs = [], ld_paths = [], ld_tools = [], ld_events = [], ld_hooks = [],
     ld_tool_exec = [], ld_hook_exec = [], ld_packages = []\<rparr>"

definition load_capabilities :: "'c load_env \<Rightarrow> (string \<times> json_object option) list \<Rightarrow> 'c loaded" where
  "load_capabilities le dirs = fold (load_group le) dirs empty_registry"

section \<open>Queries\<close>

text \<open>A group reads its tools and event types from the manifest each time: \<open>None\<close> is the error this raises.\<close>

definition tool_profile :: "pydantic \<Rightarrow> group_doc \<Rightarrow> json option" where
  "tool_profile pd g = map_option (\<lambda>ts. JDict
     [(''group_name'', JStr (gd_name g)), (''description'', JStr (gd_description g)), (''always_enable_planner'', gd_planner g),
      (''always_enable_subagent'', gd_subagent g), (''contains_tools'', JList (map (\<lambda>t. JStr (tl_name (tm_tool t))) ts))]) (group_tools pd g)"

definition get_group_profiles :: "pydantic \<Rightarrow> 'c loaded \<Rightarrow> json list option" where
  "get_group_profiles pd L = traverse (tool_profile pd) (dvalues (ld_groups L))"

definition enabled_for :: "bool \<Rightarrow> group_doc \<Rightarrow> bool" where
  "enabled_for is_sub g = truthy (if is_sub then gd_subagent g else gd_planner g)"

definition enabled_groups :: "'c loaded \<Rightarrow> string list option \<Rightarrow> bool \<Rightarrow> string list" where
  "enabled_groups L selected is_sub =
     (let always = dkeys (filter (\<lambda>(_, g). enabled_for is_sub g) (ld_groups L))
      in py_unique (case selected of None \<Rightarrow> always | Some gs \<Rightarrow> always @ filter (\<lambda>g. g \<in> set (dkeys (ld_groups L))) gs))"

definition names_or_all :: "'c loaded \<Rightarrow> string list option \<Rightarrow> string list" where
  "names_or_all L names = (case names of Some (g # gs) \<Rightarrow> g # gs | _ \<Rightarrow> dkeys (ld_groups L))"

definition hooks_for :: "'c loaded \<Rightarrow> string \<Rightarrow> string list option \<Rightarrow> hook_definition list" where
  "hooks_for L stage names = sort_key hook_key (filter (\<lambda>h. hd_stage h = stage \<and> hd_enabled h)
     (concat (map (\<lambda>g. case dget (ld_hooks L) g of None \<Rightarrow> [] | Some hs \<Rightarrow> map hm_hook hs) (names_or_all L names))))"

definition group_event_names :: "group_doc \<Rightarrow> string list option" where
  "group_event_names g = map_option (map et_name) (event_type_definitions g)"

definition declared_event_types :: "'c loaded \<Rightarrow> string list option \<Rightarrow> string set option" where
  "declared_event_types L names =
     map_option (\<lambda>ns. set (concat ns)) (traverse group_event_names (List.map_filter (dget (ld_groups L)) (names_or_all L names)))"

definition groups_for_event_type :: "'c loaded \<Rightarrow> string \<Rightarrow> string list option" where
  "groups_for_event_type L et =
     map_option (\<lambda>ps. map fst (filter (\<lambda>(_, ns). et \<in> set ns) ps))
       (traverse (\<lambda>(k, g). map_option (Pair k) (group_event_names g)) (ld_groups L))"

definition openai_tools :: "pydantic \<Rightarrow> 'c loaded \<Rightarrow> string list option \<Rightarrow> string list \<Rightarrow> json list option" where
  "openai_tools pd L names exclude =
     (let targets = (case names of None \<Rightarrow> dvalues (ld_groups L) | Some ns \<Rightarrow> filter (\<lambda>g. gd_name g \<in> set ns) (dvalues (ld_groups L)))
      in map_option (\<lambda>tss. map (\<lambda>(n, t). tool_json (n, tm_tool t))
           (filter (\<lambda>(n, t). n \<notin> set exclude \<and> (names = None \<or> n \<in> set (map (\<lambda>t. tl_name (tm_tool t)) (concat tss)))) (ld_tools L)))
         (traverse (group_tools pd) targets))"

section \<open>The policy of a group\<close>

text \<open>\<open>files\<close> are the manifests on disk, by the directory of their group.\<close>

definition POLICY_KEYS :: "string list" where
  "POLICY_KEYS = [''always_enable_planner'', ''always_enable_subagent'', ''routing_hint'', ''manifest_version'']"

definition set_policy_field :: "string \<times> json \<Rightarrow> group_doc \<Rightarrow> group_doc" where
  "set_policy_field p g =
     (if fst p = ''always_enable_planner'' then g\<lparr>gd_planner := snd p\<rparr>
      else if fst p = ''always_enable_subagent'' then g\<lparr>gd_subagent := snd p\<rparr>
      else if fst p = ''routing_hint'' then g\<lparr>gd_hint := snd p\<rparr>
      else if fst p = ''manifest_version'' then g\<lparr>gd_version := snd p\<rparr> else g)"

definition policy_patch :: "json_object \<Rightarrow> json_object" where
  "policy_patch patch = filter (\<lambda>(k, v). k \<in> set POLICY_KEYS) patch"

definition apply_group_policy ::
  "string \<Rightarrow> json_object \<Rightarrow> (string, json_object) dict \<Rightarrow> 'c loaded \<Rightarrow> string + ((string, json_object) dict \<times> 'c loaded)" where
  "apply_group_policy name patch files L = (case dget (ld_groups L) name of
      None \<Rightarrow> Inl (''Unknown capability group: '' @ name)
    | Some g \<Rightarrow> (case Option.bind (dget (ld_paths L) name) (\<lambda>dir. map_option (Pair dir) (dget files dir)) of
        None \<Rightarrow> Inl (''Manifest path not found for group: '' @ name)
      | Some (dir, raw) \<Rightarrow>
          (if policy_patch patch = [] then Inl ''No valid policy keys in patch''
           else Inr (dset dir (dict_update raw (policy_patch patch)) files,
                     L\<lparr>ld_groups := dset name (fold set_policy_field (policy_patch patch) g) (ld_groups L)\<rparr>))))"

section \<open>Facts\<close>

lemma traverse_Some: "traverse f xs = Some ys \<longleftrightarrow> map f xs = map Some ys"
proof (induction xs arbitrary: ys)
  case (Cons x xs)
  show ?case by (cases ys; cases "f x"; cases "traverse f xs") (use Cons in auto)
qed auto

lemma traverse_None: "traverse f xs = None \<longleftrightarrow> (\<exists>x \<in> set xs. f x = None)"
  by (induction xs) (auto split: bind_splits)

lemma traverse_values: "(\<And>x. x \<in> set xs \<Longrightarrow> f x = Some (g x)) \<Longrightarrow> traverse f xs = Some (map g xs)"
  by (simp add: traverse_Some)

section \<open>The registry the rest of the program sees\<close>

definition values_of :: "'a list option \<Rightarrow> 'a list" where
  "values_of r = (case r of None \<Rightarrow> [] | Some xs \<Rightarrow> xs)"

definition view_group :: "pydantic \<Rightarrow> group_doc \<Rightarrow> capability_group" where
  "view_group pd g = \<lparr>cg_name = gd_name g, cg_always_planner = enabled_for False g, cg_always_subagent = enabled_for True g,
     cg_tools = map tm_tool (values_of (group_tools pd g)), cg_event_types = values_of (group_event_names g)\<rparr>"

definition view :: "pydantic \<Rightarrow> 'c loaded \<Rightarrow> registry" where
  "view pd L = \<lparr>rg_groups = map (\<lambda>(k, g). (k, view_group pd g)) (ld_groups L), rg_tools = map (\<lambda>(n, t). (n, tm_tool t)) (ld_tools L),
     rg_hooks = map (\<lambda>(k, hs). (k, map hm_hook hs)) (ld_hooks L)\<rparr>"

definition readable :: "pydantic \<Rightarrow> 'c loaded \<Rightarrow> bool" where
  "readable pd L \<longleftrightarrow> list_all (\<lambda>(k, g). group_tools pd g \<noteq> None \<and> group_event_names g \<noteq> None) (ld_groups L)"

lemma traverse_readable: "\<forall>x \<in> set xs. f x \<noteq> None \<Longrightarrow> traverse f xs = Some (map (\<lambda>x. the (f x)) xs)"
  by (rule traverse_values) auto

lemma values_of_the: "r \<noteq> None \<Longrightarrow> values_of r = the r"
  by (auto simp: values_of_def)

lemma keys_view [simp]: "map (fst \<circ> (\<lambda>(k, g). (k, F g))) d = map fst d"
  by (auto simp: comp_def case_prod_beta)

lemma filter_map_values: "filter (\<lambda>(k, g). Q g) (map (\<lambda>(k, g). (k, F g)) d) = map (\<lambda>(k, g). (k, F g)) (filter (\<lambda>(k, g). Q (F g)) d)"
  by (induction d) auto

lemma view_enabled: "enabled_groups L selected is_sub = resolve_enabled_groups (view pd L) selected is_sub"
  by (cases is_sub; simp add: enabled_groups_def resolve_enabled_groups_def always_groups_def view_def view_group_def filter_map_values split: option.splits)

lemma view_hooks: "hooks_for L stage names = get_hooks (view pd L) stage names"
proof -
  have "dget (map (\<lambda>(k, hs). (k, map hm_hook hs)) (ld_hooks L)) g = map_option (map hm_hook) (dget (ld_hooks L) g)" for g
    by (simp add: map_of_map)
  then have "hooks_of (view pd L) = (\<lambda>g. case dget (ld_hooks L) g of None \<Rightarrow> [] | Some hs \<Rightarrow> map hm_hook hs)"
    by (auto simp: hooks_of_def view_def split: option.splits)
  moreover have "group_names_or_all (view pd L) names = names_or_all L names"
    by (simp add: names_or_all_def group_names_or_all_def view_def split: option.splits list.splits)
  ultimately show ?thesis by (simp add: hooks_for_def get_hooks_def)
qed

lemma view_tools:
  assumes "readable pd L"
  shows "openai_tools pd L names exclude = Some (get_openai_tools (view pd L) names exclude)"
proof -
  have r: "\<forall>g \<in> set (dvalues (ld_groups L)). group_tools pd g \<noteq> None"
    using assms by (auto simp: readable_def list_all_iff)
  let ?targets = "case names of None \<Rightarrow> dvalues (ld_groups L) | Some ns \<Rightarrow> filter (\<lambda>g. gd_name g \<in> set ns) (dvalues (ld_groups L))"
  have t: "traverse (group_tools pd) ?targets = Some (map (\<lambda>g. the (group_tools pd g)) ?targets)"
    by (rule traverse_readable) (use r in \<open>auto split: option.splits\<close>)
  have v: "values_of (group_tools pd g) = the (group_tools pd g)" if "(k, g) \<in> set (ld_groups L)" for k g
    using r that by (intro values_of_the) force
  have allowed: "n \<in> set (map (\<lambda>t. tl_name (tm_tool t)) (concat (map (\<lambda>g. the (group_tools pd g)) ?targets))) \<longleftrightarrow>
      n \<in> set (concat (map (\<lambda>(_, g). case names of Some ns \<Rightarrow> if cg_name g \<in> set ns then map tl_name (cg_tools g) else []
                      | None \<Rightarrow> map tl_name (cg_tools g)) (rg_groups (view pd L))))" for n
    by (cases names) (auto simp: view_def view_group_def v image_iff split: if_splits; force simp: v)+
  show ?thesis
    unfolding openai_tools_def Let_def t get_openai_tools_def visible_tools_def allowed [symmetric]
    by (auto simp: view_def comp_def case_prod_beta filter_map intro!: map_cong filter_cong)
qed

lemma view_event_groups:
  assumes "readable pd L"
  shows "groups_for_event_type L et = Some (get_groups_for_event_type (view pd L) et)"
proof -
  have r: "group_event_names g = Some (values_of (group_event_names g))" if "(k, g) \<in> set (ld_groups L)" for k g
    using assms that by (auto simp: readable_def list_all_iff values_of_def)
  have "traverse (\<lambda>(k, g). map_option (Pair k) (group_event_names g)) (ld_groups L) = Some (map (\<lambda>(k, g). (k, values_of (group_event_names g))) (ld_groups L))"
    by (rule traverse_values) (use r in \<open>force split: prod.splits\<close>)
  then show ?thesis
    by (simp add: groups_for_event_type_def get_groups_for_event_type_def view_def view_group_def filter_map_values)
qed

text \<open> The queries of the registry, which read the manifests each time they are asked, answer as the registry
  of parsed groups does on which tools, hooks and event types of a session are reasoned about, for any groups whose
  tools and event types can be read.
\<close>

theorem view_queries:
  assumes "readable pd L"
  shows "openai_tools pd L names exclude = Some (get_openai_tools (view pd L) names exclude) \<and>
    hooks_for L stage names = get_hooks (view pd L) stage names \<and>
    enabled_groups L selected is_sub = resolve_enabled_groups (view pd L) selected is_sub \<and>
    groups_for_event_type L et = Some (get_groups_for_event_type (view pd L) et)"
  using view_tools [OF assms] view_hooks view_enabled view_event_groups [OF assms] by blast

section \<open>What loading leaves\<close>

text \<open>
  Groups are filed under their names and tools under theirs, every executor of a tool has its tool, and every group
  has a manifest on record.
\<close>

definition registry_ok :: "'c loaded \<Rightarrow> bool" where
  "registry_ok L \<longleftrightarrow> dict_ok (ld_groups L) \<and> dict_ok (ld_tools L) \<and>
     list_all (\<lambda>(k, g). gd_name g = k) (ld_groups L) \<and> list_all (\<lambda>(k, t). tl_name (tm_tool t) = k) (ld_tools L) \<and>
     set (dkeys (ld_tool_exec L)) \<subseteq> set (dkeys (ld_tools L)) \<and>
     set (dkeys (ld_hooks L)) \<subseteq> set (dkeys (ld_groups L)) \<and> set (dkeys (ld_paths L)) = set (dkeys (ld_groups L))"

lemma registry_ok_empty: "registry_ok empty_registry"
  by (simp add: registry_ok_def empty_registry_def)

lemma list_all_dset: "dict_ok d \<Longrightarrow> list_all P d \<Longrightarrow> P (k, v) \<Longrightarrow> list_all P (dset k v d)"
  by (auto simp: list_all_iff set_dset)

lemma set_dkeys_dset [simp]: "fst ` set (dset k v d) = insert k (fst ` set d)"
proof -
  have "set (dkeys (dset k v d)) = insert k (set (dkeys d))" by (simp add: dkeys_dset insert_absorb)
  then show ?thesis by simp
qed

lemma registry_ok_group: "registry_ok L \<Longrightarrow> registry_ok (register_group le dir g L)"
  by (auto simp: registry_ok_def register_group_def list_all_dset)

lemma registry_ok_tool: "registry_ok L \<Longrightarrow> registry_ok (register_tool le dir t L)"
  by (auto simp: registry_ok_def register_tool_def load_tool_executor_def Let_def list_all_dset split: script_file.splits)

lemma registry_ok_event: "registry_ok L \<Longrightarrow> registry_ok (register_event et L)"
  by (simp add: registry_ok_def register_event_def)

lemma registry_ok_hook: "registry_ok L \<Longrightarrow> registry_ok (load_hook_executor le dir h L)"
  by (auto simp: registry_ok_def load_hook_executor_def split: script_file.splits)

lemma fold_keeps: "(\<And>x L. P L \<Longrightarrow> P (f x L)) \<Longrightarrow> P L \<Longrightarrow> P (fold f xs L)"
  by (induction xs arbitrary: L) auto

text \<open>The groups of a directory's later steps are those its first step left.\<close>

lemma groups_of_tools [simp]: "ld_groups (fold (register_tool le dir) ts L) = ld_groups L"
  by (rule fold_keeps [where P = "\<lambda>L'. ld_groups L' = ld_groups L"])
    (auto simp: register_tool_def load_tool_executor_def Let_def split: script_file.splits)

lemma groups_of_events [simp]: "ld_groups (fold register_event ets L) = ld_groups L"
  by (rule fold_keeps [where P = "\<lambda>L'. ld_groups L' = ld_groups L"]) (auto simp: register_event_def)

lemma groups_of_hooks [simp]: "ld_groups (register_hooks le dir name hs L) = ld_groups L"
  unfolding register_hooks_def
  by (rule fold_keeps [where P = "\<lambda>L'. ld_groups L' = ld_groups L"])
    (auto simp: load_hook_executor_def split: script_file.splits)

lemma groups_of_load:
  "ld_groups (load_group le p L) = (case Option.bind (snd p) (parse_group (lv_pydantic le)) of
      None \<Rightarrow> ld_groups L | Some g \<Rightarrow> dset (gd_name g) g (ld_groups L))"
  by (auto simp: load_group_def Let_def register_group_def split: option.splits)

lemma registry_ok_hooks:
  assumes "registry_ok L" and "name \<in> set (dkeys (ld_groups L))"
  shows "registry_ok (register_hooks le dir name hs L)"
  unfolding register_hooks_def
  by (rule fold_keeps [where P = registry_ok, OF registry_ok_hook]) (use assms in \<open>auto simp: registry_ok_def\<close>)

lemma registry_ok_tools: "registry_ok L \<Longrightarrow> registry_ok (fold (register_tool le dir) ts L)"
  by (induction ts arbitrary: L) (simp_all add: registry_ok_tool)

lemma registry_ok_events: "registry_ok L \<Longrightarrow> registry_ok (fold register_event ets L)"
  by (induction ets arbitrary: L) (simp_all add: registry_ok_event)

lemma registry_ok_load: "registry_ok L \<Longrightarrow> registry_ok (load_group le p L)"
  by (auto simp: load_group_def Let_def register_group_def [of _ _ _ L, THEN arg_cong [where f = ld_groups]]
      split: option.splits intro!: registry_ok_hooks registry_ok_events registry_ok_tools registry_ok_group)

lemma loaded_ok: "registry_ok (load_capabilities le dirs)"
  unfolding load_capabilities_def using registry_ok_load registry_ok_empty by (rule fold_keeps [where P = registry_ok])

lemma apply_group_policy_InrE:
  assumes "apply_group_policy name patch files L = Inr (files', L')"
  obtains g dir raw where "dget (ld_groups L) name = Some g" "dget (ld_paths L) name = Some dir" "dget files dir = Some raw"
    "policy_patch patch \<noteq> []" "files' = dset dir (dict_update raw (policy_patch patch)) files"
    "L' = L\<lparr>ld_groups := dset name (fold set_policy_field (policy_patch patch) g) (ld_groups L)\<rparr>"
  using assms by (auto simp: apply_group_policy_def split: option.splits if_splits bind_splits)

lemma set_policy_name: "gd_name (fold set_policy_field ps g) = gd_name g"
  by (induction ps arbitrary: g) (auto simp: set_policy_field_def)

lemma policy_keeps_ok:
  assumes "registry_ok L" and "apply_group_policy name patch files L = Inr (files', L')"
  shows "registry_ok L'"
proof -
  obtain g where g: "dget (ld_groups L) name = Some g"
    and L': "L' = L\<lparr>ld_groups := dset name (fold set_policy_field (policy_patch patch) g) (ld_groups L)\<rparr>"
    using assms(2) by (rule apply_group_policy_InrE)
  from g have in_groups: "(name, g) \<in> set (ld_groups L)" by (rule map_of_SomeD)
  with assms(1) have "gd_name g = name" by (auto simp: registry_ok_def list_all_iff)
  moreover from in_groups have "name \<in> fst ` set (ld_groups L)" by force
  ultimately show ?thesis
    using assms(1) by (simp add: registry_ok_def L' list_all_dset set_policy_name insert_absorb)
qed

lemma hooks_of_view_named: "registry_ok L \<Longrightarrow> p \<in> set (rg_groups (view pd L)) \<Longrightarrow> cg_name (snd p) = fst p"
  by (auto simp: registry_ok_def view_def view_group_def list_all_iff)

section \<open>Tools that are offered\<close>

definition change_policies ::
  "(string \<times> json_object) list \<Rightarrow> (string, json_object) dict \<times> 'c loaded \<Rightarrow> (string, json_object) dict \<times> 'c loaded" where
  "change_policies = fold (\<lambda>(name, patch) (files, L). case apply_group_policy name patch files L of Inl _ \<Rightarrow> (files, L) | Inr r \<Rightarrow> r)"

lemma change_policies_ok: "registry_ok (snd s) \<Longrightarrow> registry_ok (snd (change_policies changes s))"
  unfolding change_policies_def
  by (induction changes arbitrary: s) (auto split: prod.splits sum.splits dest: policy_keeps_ok)

lemma enabled_groups_known: "set (enabled_groups L selected is_sub) \<subseteq> set (dkeys (ld_groups L))" "distinct (enabled_groups L selected is_sub)"
  by (auto simp: enabled_groups_def Let_def split: option.splits)

text \<open>C30. Whatever manifests are loaded and whatever policies are changed afterwards, the groups of a session are
  registered groups, each once, and a tool that the model of the session is offered is a registered tool under its own
  name which one of these groups declares.
\<close>

theorem offered_tools_confined:
  assumes "L = snd (change_policies changes (files, load_capabilities le dirs))" and "gs = enabled_groups L selected is_sub"
    and "openai_tools pd L (Some gs) exclude = Some tools"
  shows "distinct gs \<and> set gs \<subseteq> set (dkeys (ld_groups L)) \<and>
    (\<forall>t \<in> set tools. \<exists>tool k g ts. t = tool_json (tl_name (tm_tool tool), tm_tool tool) \<and> tl_name (tm_tool tool) \<notin> set exclude \<and>
       dget (ld_tools L) (tl_name (tm_tool tool)) = Some tool \<and> k \<in> set gs \<and> dget (ld_groups L) k = Some g \<and>
       group_tools pd g = Some ts \<and> tl_name (tm_tool tool) \<in> set (map (\<lambda>t. tl_name (tm_tool t)) ts))"
proof -
  have ok: "registry_ok L" unfolding assms(1) by (rule change_policies_ok) (simp add: loaded_ok)
  let ?targets = "filter (\<lambda>g. gd_name g \<in> set gs) (dvalues (ld_groups L))"
  obtain tss where tss: "traverse (group_tools pd) ?targets = Some tss"
    and tools: "tools = map (\<lambda>(n, t). tool_json (n, tm_tool t))
           (filter (\<lambda>(n, t). n \<notin> set exclude \<and> n \<in> set (map (\<lambda>t. tl_name (tm_tool t)) (concat tss))) (ld_tools L))"
    using assms(3) by (auto simp: openai_tools_def Let_def)
  have "\<exists>tool k g ts. t = tool_json (tl_name (tm_tool tool), tm_tool tool) \<and> tl_name (tm_tool tool) \<notin> set exclude \<and>
       dget (ld_tools L) (tl_name (tm_tool tool)) = Some tool \<and> k \<in> set gs \<and> dget (ld_groups L) k = Some g \<and>
       group_tools pd g = Some ts \<and> tl_name (tm_tool tool) \<in> set (map (\<lambda>t. tl_name (tm_tool t)) ts)" if in_tools: "t \<in> set tools" for t
  proof -
    obtain n tool where t: "t = tool_json (n, tm_tool tool)" "(n, tool) \<in> set (ld_tools L)" "n \<notin> set exclude"
      "n \<in> set (map (\<lambda>t. tl_name (tm_tool t)) (concat tss))" using in_tools unfolding tools by auto
    then have n: "n = tl_name (tm_tool tool)" and got: "dget (ld_tools L) n = Some tool"
      using ok by (auto simp: registry_ok_def list_all_iff dget_Some_set)
    obtain ts where ts: "ts \<in> set tss" "n \<in> set (map (\<lambda>t. tl_name (tm_tool t)) ts)" using t(4) by auto
    from tss have "map (group_tools pd) ?targets = map Some tss" by (simp add: traverse_Some)
    with ts(1) have "Some ts \<in> set (map (group_tools pd) ?targets)" by simp
    then obtain k g where g: "(k, g) \<in> set (ld_groups L)" "gd_name g \<in> set gs" "group_tools pd g = Some ts" by force
    then have "gd_name g = k" and "dget (ld_groups L) k = Some g"
      using ok by (auto simp: registry_ok_def list_all_iff dget_Some_set)
    with g t n got ts show ?thesis by metis
  qed
  then show ?thesis using enabled_groups_known [of L selected is_sub] assms(2) by blast
qed

section \<open>A manifest that is only partly valid\<close>

lemma load_group_keeps:
  assumes "dget (ld_groups L) name = Some g" and "\<forall>g'. Option.bind (snd p) (parse_group (lv_pydantic le)) = Some g' \<longrightarrow> gd_name g' \<noteq> name"
  shows "dget (ld_groups (load_group le p L)) name = Some g"
  using assms by (auto simp: groups_of_load split: option.splits)

text \<open> A group whose manifest has a valid head and one malformed tool stays registered when its loading fails.
  From then on the tools of a session cannot be listed when the group is among its groups, and no routing profile can
  be built: with \<open>always_enable_planner\<close>, every turn of every main session fails.
\<close>

theorem malformed_tool_stops_planning:
  assumes "dirs = before @ (dir, Some manifest) # after" and "parse_group (lv_pydantic le) manifest = Some g"
    and "group_tools (lv_pydantic le) g = None" and "gd_planner g = JBool True"
    and "\<forall>p \<in> set after. \<forall>g'. Option.bind (snd p) (parse_group (lv_pydantic le)) = Some g' \<longrightarrow> gd_name g' \<noteq> gd_name g"
  shows "gd_name g \<in> set (enabled_groups (load_capabilities le dirs) selected False) \<and>
    openai_tools (lv_pydantic le) (load_capabilities le dirs) (Some (enabled_groups (load_capabilities le dirs) selected False)) exclude = None \<and>
    get_group_profiles (lv_pydantic le) (load_capabilities le dirs) = None"
proof -
  let ?L = "load_capabilities le dirs"
  have "dget (ld_groups (fold (load_group le) after L)) (gd_name g) = Some g" if "dget (ld_groups L) (gd_name g) = Some g" for L
    using assms(5) that by (induction after arbitrary: L) (auto simp: load_group_keeps)
  then have "dget (ld_groups ?L) (gd_name g) = Some g" using assms(2) by (simp add: load_capabilities_def assms(1) groups_of_load)
  then have g: "(gd_name g, g) \<in> set (ld_groups ?L)" by (rule map_of_SomeD)
  then have on: "gd_name g \<in> set (enabled_groups ?L selected False)"
    using assms(4) by (force simp: enabled_groups_def enabled_for_def Let_def split: option.splits)
  then show ?thesis using g assms(3) by (force simp: openai_tools_def get_group_profiles_def tool_profile_def traverse_None)
qed

section \<open>A policy and its manifest\<close>

fun is_flag :: "json \<Rightarrow> bool" where
  "is_flag (JBool b) = True"
| "is_flag _ = False"

text \<open>The values a manifest is written with, and those that its validation refuses.\<close>

definition policy_value_ok :: "string \<times> json \<Rightarrow> bool" where
  "policy_value_ok p =
     (if fst p = ''always_enable_planner'' \<or> fst p = ''always_enable_subagent'' then is_flag (snd p)
      else if fst p = ''routing_hint'' then str_or_null (snd p) \<noteq> None else of_str (snd p) \<noteq> None)"

definition refused_value :: "pydantic \<Rightarrow> string \<times> json \<Rightarrow> bool" where
  "refused_value pd p =
     (if fst p = ''always_enable_planner'' \<or> fst p = ''always_enable_subagent'' then pd_bool pd (snd p) = None
      else if fst p = ''routing_hint'' then str_or_null (snd p) = None else of_str (snd p) = None)"

lemma of_str_Some: "of_str v = Some s \<longleftrightarrow> v = JStr s"
  by (cases v) auto

lemma is_flag_iff: "is_flag v \<longleftrightarrow> (\<exists>b. v = JBool b)"
  by (cases v) auto

lemma str_or_null_Some: "str_or_null v = Some w \<longleftrightarrow> w = v \<and> (v = JNull \<or> (\<exists>s. v = JStr s))"
  by (cases v) auto

lemma bind_Some_iff: "Option.bind m f = Some y \<longleftrightarrow> (\<exists>x. m = Some x \<and> f x = Some y)"
  by (cases m) auto

lemma needed_dset [simp]: "needed (dset k v d) k' f = (if k' = k then f v else needed d k' f)"
  by (simp add: needed_def)

lemma optional_dset [simp]: "optional (dset k v d) k' f x = (if k' = k then f v else optional d k' f x)"
  by (simp add: optional_def)

lemma parse_group_Some:
  "parse_group pd d = Some g \<longleftrightarrow>
     needed d ''name'' of_str = Some (gd_name g) \<and> needed d ''description'' of_str = Some (gd_description g) \<and>
     map_option JBool (needed d ''always_enable_planner'' (pd_bool pd)) = Some (gd_planner g) \<and>
     map_option JBool (needed d ''always_enable_subagent'' (pd_bool pd)) = Some (gd_subagent g) \<and>
     map_option JStr (optional d ''manifest_version'' of_str ''1.0'') = Some (gd_version g) \<and>
     optional d ''routing_hint'' str_or_null JNull = Some (gd_hint g) \<and>
     needed d ''capabilities'' of_dicts = Some (gd_capabilities g) \<and> optional d ''hooks'' of_dicts [] = Some (gd_hooks g) \<and>
     optional d ''event_types'' of_dicts [] = Some (gd_events g)"
  by (cases g) (auto simp: parse_group_def bind_Some_iff)

lemma parse_group_policy_field:
  assumes "parse_group pd raw = Some g" and "fst p \<in> set POLICY_KEYS" and "policy_value_ok p" and "\<And>b. pd_bool pd (JBool b) = Some b"
  shows "parse_group pd (dset (fst p) (snd p) raw) = Some (set_policy_field p g)"
proof -
  obtain k v where p: "p = (k, v)" by fastforce
  consider b where "k = ''always_enable_planner''" "v = JBool b" | b where "k = ''always_enable_subagent''" "v = JBool b"
    | "k = ''routing_hint''" "str_or_null v = Some v" | s where "k = ''manifest_version''" "v = JStr s"
    using assms(2,3) by (auto simp: p POLICY_KEYS_def policy_value_ok_def str_or_null_Some of_str_Some is_flag_iff)
  then show ?thesis
    by cases (use assms(1,4) in \<open>simp_all add: p parse_group_Some set_policy_field_def\<close>)
qed

lemma parse_group_policy:
  assumes "\<And>b. pd_bool pd (JBool b) = Some b"
  shows "parse_group pd raw = Some g \<Longrightarrow> list_all (\<lambda>p. fst p \<in> set POLICY_KEYS \<and> policy_value_ok p) ps \<Longrightarrow>
    parse_group pd (dict_update raw ps) = Some (fold set_policy_field ps g)"
proof (induction ps arbitrary: raw g)
  case (Cons p ps)
  obtain k v where p: "p = (k, v)" by fastforce
  from Cons.prems have "parse_group pd (dset k v raw) = Some (set_policy_field (k, v) g)"
    using parse_group_policy_field [of pd raw g "(k, v)"] assms by (simp add: p)
  with Cons.prems(2) Cons.IH show ?case by (simp add: p)
qed simp

lemma parse_group_refused:
  assumes "dget d k = Some v" and "k \<in> set POLICY_KEYS" and "refused_value pd (k, v)"
  shows "parse_group pd d = None"
proof (rule ccontr)
  assume "parse_group pd d \<noteq> None"
  with assms show False
    by (auto simp: POLICY_KEYS_def refused_value_def parse_group_def bind_Some_iff needed_def optional_def of_str_Some)
qed

text \<open> A changed policy survives a restart: when the group in memory is the one its manifest describes and the
  values of the patch have the types of their fields, validating the manifest that was written back gives the group
  as it is in memory after the change, and no other manifest is touched.
\<close>

theorem policy_round_trip:
  assumes "apply_group_policy name patch files L = Inr (files', L')" and "dget (ld_paths L) name = Some dir"
    and "dget files dir = Some raw" and "parse_group pd raw = dget (ld_groups L) name"
    and "list_all policy_value_ok (policy_patch patch)" and "\<And>b. pd_bool pd (JBool b) = Some b"
  shows "Option.bind (dget files' dir) (parse_group pd) = dget (ld_groups L') name \<and>
    (other \<noteq> dir \<longrightarrow> dget files' other = dget files other)"
proof -
  obtain g where g: "dget (ld_groups L) name = Some g"
    and f: "files' = dset dir (dict_update raw (policy_patch patch)) files"
    and L': "L' = L\<lparr>ld_groups := dset name (fold set_policy_field (policy_patch patch) g) (ld_groups L)\<rparr>"
    using assms(1,2,3) by (auto elim!: apply_group_policy_InrE)
  have "list_all (\<lambda>p. fst p \<in> set POLICY_KEYS \<and> policy_value_ok p) (policy_patch patch)"
    using assms(5) by (auto simp: list_all_iff policy_patch_def)
  from parse_group_policy [OF assms(6) _ this, of raw g] show ?thesis
    using assms(4) by (simp add: f g L')
qed

text \<open> The values of a patch are not validated: a patch with a value that its field does not admit is accepted, is
  in force at once and is written to the manifest, and the next start no longer loads the group.
\<close>

theorem invalid_policy_loses_group:
  assumes "apply_group_policy name patch files L = Inr (files', L')" and "dget (ld_paths L) name = Some dir"
    and "dict_ok patch" and "p \<in> set (policy_patch patch)" and "refused_value (lv_pydantic le) p"
  shows "dget (ld_groups L') name \<noteq> None \<and> dget files' dir \<noteq> None \<and> load_group le (dir, dget files' dir) L0 = L0"
proof -
  obtain k v where p: "p = (k, v)" by fastforce
  obtain raw where f: "files' = dset dir (dict_update raw (policy_patch patch)) files" and "dget (ld_groups L') name \<noteq> None"
    using assms(1,2) by (auto elim!: apply_group_policy_InrE)
  have ok: "dict_ok (policy_patch patch)" using assms(3) by (simp add: dict_ok_def policy_patch_def distinct_map_filter)
  with assms(4) have "dget (policy_patch patch) k = Some v" by (simp add: p dget_Some_set)
  then have "dget (dict_update raw (policy_patch patch)) k = Some v" by (simp add: dget_update [OF ok])
  moreover have "k \<in> set POLICY_KEYS" using assms(4) by (auto simp: p policy_patch_def)
  ultimately have "parse_group (lv_pydantic le) (dict_update raw (policy_patch patch)) = None"
    using assms(5) unfolding p by (rule parse_group_refused)
  with \<open>dget (ld_groups L') name \<noteq> None\<close> show ?thesis by (simp add: f load_group_def)
qed

section \<open>Witnesses\<close>

definition strict_pydantic :: pydantic where
  "strict_pydantic = \<lparr>pd_bool = \<lambda>v. (case v of JBool b \<Rightarrow> Some b | _ \<Rightarrow> None), pd_int = \<lambda>v. (case v of JInt i \<Rightarrow> Some i | _ \<Rightarrow> None)\<rparr>"

definition demo_manifest :: "string \<Rightarrow> json list \<Rightarrow> json_object" where
  "demo_manifest name caps = [(''name'', JStr name), (''description'', JStr ''d''), (''always_enable_planner'', JBool True),
     (''always_enable_subagent'', JBool False), (''capabilities'', JList caps)]"

definition demo_tool :: "string \<Rightarrow> json" where
  "demo_tool name = JDict [(''name'', JStr name), (''description'', JStr ''d''), (''type'', JStr ''Tool''), (''schema'', JDict []), (''script'', JStr ''s.py'')]"

definition demo_load :: "unit load_env" where
  "demo_load = \<lparr>lv_pydantic = strict_pydantic, lv_script = \<lambda>d s. ScriptModule \<lparr>sm_handler = None, sm_execute_hook = False, sm_execute = True\<rparr>,
     lv_config_module = \<lambda>d f. ConfigMissing, lv_yaml = \<lambda>d. [], lv_environ = []\<rparr>"

abbreviation demo_loaded :: "unit loaded" where
  "demo_loaded \<equiv> load_capabilities demo_load [(''a'', Some (demo_manifest ''A'' [demo_tool ''t''])), (''b'', Some (demo_manifest ''B'' [demo_tool ''u'']))]"

theorem view_queries_witness:
  "openai_tools strict_pydantic demo_loaded (Some [''A'']) [] = Some (get_openai_tools (view strict_pydantic demo_loaded) (Some [''A'']) [])"
proof -
  have "readable strict_pydantic demo_loaded" by code_simp
  from view_queries [OF this, of "Some [''A'']" "[]"] show ?thesis by blast
qed

theorem offered_tools_confined_witness:
  "distinct (enabled_groups demo_loaded None False) \<and> set (enabled_groups demo_loaded None False) \<subseteq> set (dkeys (ld_groups demo_loaded))"
proof -
  have "openai_tools strict_pydantic demo_loaded (Some (enabled_groups demo_loaded None False)) [''u''] =
      Some [tool_json (''t'', \<lparr>tl_name = ''t'', tl_description = ''d'', tl_schema = [], tl_record_event = True\<rparr>)]" by code_simp
  moreover have "demo_loaded = snd (change_policies [] ([] :: (string, json_object) dict, demo_loaded))" by (simp add: change_policies_def)
  ultimately show ?thesis using offered_tools_confined [OF _ refl, of demo_loaded "[]" "[]"] by blast
qed

theorem malformed_tool_stops_planning_witness:
  "openai_tools strict_pydantic (load_capabilities demo_load [(''a'', Some (demo_manifest ''A'' [JDict [(''type'', JStr ''Tool'')]]))])
     (Some (enabled_groups (load_capabilities demo_load [(''a'', Some (demo_manifest ''A'' [JDict [(''type'', JStr ''Tool'')]]))]) None False)) [] = None"
proof -
  let ?m = "demo_manifest ''A'' [JDict [(''type'', JStr ''Tool'')]]"
  let ?g = "the (parse_group (lv_pydantic demo_load) ?m)"
  have "parse_group (lv_pydantic demo_load) ?m = Some ?g" "group_tools (lv_pydantic demo_load) ?g = None" "gd_planner ?g = JBool True" by code_simp+
  from malformed_tool_stops_planning [OF _ this, of "[(''a'', Some ?m)]" "[]" "''a''" "[]" None "[]"] show ?thesis
    by (simp add: demo_load_def)
qed

abbreviation demo_files :: "(string, json_object) dict" where
  "demo_files \<equiv> [(''a'', demo_manifest ''A'' [demo_tool ''t''])]"

theorem policy_round_trip_witness:
  "\<exists>files' L'. apply_group_policy ''A'' [(''always_enable_planner'', JBool False)] demo_files demo_loaded = Inr (files', L') \<and>
     Option.bind (dget files' ''a'') (parse_group strict_pydantic) = dget (ld_groups L') ''A''"
proof -
  have "isl (apply_group_policy ''A'' [(''always_enable_planner'', JBool False)] demo_files demo_loaded) = False" by code_simp
  then obtain files' L' where r: "apply_group_policy ''A'' [(''always_enable_planner'', JBool False)] demo_files demo_loaded = Inr (files', L')"
    by (cases "apply_group_policy ''A'' [(''always_enable_planner'', JBool False)] demo_files demo_loaded") auto
  have "dget (ld_paths demo_loaded) ''a'' = None" "dget (ld_paths demo_loaded) ''A'' = Some ''a''"
    "parse_group strict_pydantic (demo_manifest ''A'' [demo_tool ''t'']) = dget (ld_groups demo_loaded) ''A''"
    "list_all policy_value_ok (policy_patch [(''always_enable_planner'', JBool False)])" by code_simp+
  with policy_round_trip [OF r, of "''a''" _ strict_pydantic "''b''"] r show ?thesis by (simp add: strict_pydantic_def)
qed

theorem invalid_policy_loses_group_witness:
  "\<exists>files' L'. apply_group_policy ''A'' [(''always_enable_planner'', JNull)] demo_files demo_loaded = Inr (files', L') \<and>
     load_group demo_load (''a'', dget files' ''a'') empty_registry = empty_registry"
proof -
  have "isl (apply_group_policy ''A'' [(''always_enable_planner'', JNull)] demo_files demo_loaded) = False" by code_simp
  then obtain files' L' where r: "apply_group_policy ''A'' [(''always_enable_planner'', JNull)] demo_files demo_loaded = Inr (files', L')"
    by (cases "apply_group_policy ''A'' [(''always_enable_planner'', JNull)] demo_files demo_loaded") auto
  have "dget (ld_paths demo_loaded) ''A'' = Some ''a''" "dict_ok [(''always_enable_planner'', JNull)]"
    "(''always_enable_planner'', JNull) \<in> set (policy_patch [(''always_enable_planner'', JNull)])"
    "refused_value (lv_pydantic demo_load) (''always_enable_planner'', JNull)" by code_simp+
  from invalid_policy_loses_group [OF r this, of empty_registry] r show ?thesis by blast
qed

end
