(* ===== verification/Router.thy ===== *)
theory Router
  imports Registry Llm
begin

text \<open>
  The choice of capability groups for a delegated task (\<^verbatim>\<open>core/agent/routing/router.py\<close>): a model is asked, and its
  answer is used as far as it names candidate groups. The model client is that of \<open>Llm\<close> (any function here), JSON
  parsing is a parameter. A Python set becomes a list without repetitions; its order is not part of the model.
\<close>

section \<open>The answer\<close>

text \<open>\<open>s.split(sep)\<close>\<close>

function split_on :: "string \<Rightarrow> string \<Rightarrow> string list" where
  "split_on sep s = (case until_text sep s of
      None \<Rightarrow> [s]
    | Some (a, rest) \<Rightarrow> if length rest < length s then a # split_on sep rest else [a])"
  by pat_completeness auto
termination
  by (relation "measure (\<lambda>(sep, s). length s)") auto

declare split_on.simps [simp del]

definition FENCE :: string where
  "FENCE = replicate 3 (CHR 0x60)"

text \<open>A fence occurs, so the split has two parts at least.\<close>

definition fenced :: "string \<Rightarrow> string \<Rightarrow> string" where
  "fenced open_fence t = py_strip (hd (split_on FENCE (split_on open_fence t ! 1)))"

definition answer_text :: "string \<Rightarrow> string" where
  "answer_text response =
     (let t = py_strip response
      in if py_contains (FENCE @ ''json'') t then fenced (FENCE @ ''json'') t
         else if py_contains FENCE t then fenced FENCE t else t)"

text \<open>A list or a dictionary in the answer is not hashable.\<close>

fun hashable :: "json \<Rightarrow> bool" where
  "hashable (JList vs) = False"
| "hashable (JDict d) = False"
| "hashable _ = True"

definition chosen_names :: "string list \<Rightarrow> json list \<Rightarrow> string list res" where
  "chosen_names names vs =
     (if list_all hashable vs then Inr (List.map_filter (\<lambda>v. case v of JStr s \<Rightarrow> if s \<in> set names then Some s else None | _ \<Rightarrow> None) vs)
      else Inl TypeError)"

section \<open>Selection\<close>

definition NL :: string where
  "NL = [CHR 0x0A]"

definition build_prompt :: "string \<Rightarrow> group_doc list \<Rightarrow> string" where
  "build_prompt input profiles =
     ''You are a system routing brain. The user's current goal is:'' @ NL @ [CHR 0x22] @ input @ [CHR 0x22] @ NL @ NL @
     ''We have the following capability groups available to call:'' @ NL @
     concat (map (\<lambda>(i, g). show_nat i @ ''. '' @ gd_name g @ '': '' @ gd_description g @ NL) (List.enumerate 1 profiles)) @
     NL @ ''Based on the user's goal, please select the capability groups that might need to be enabled for this task.'' @ NL @
     ''Please be restrained and only select truly relevant groups.'' @ NL @
     ''Output the result as a JSON array of strings containing the group names. For example: ['' @
     [CHR 0x22] @ ''CoreOperations'' @ [CHR 0x22] @ '', '' @ [CHR 0x22] @ ''DatabaseTools'' @ [CHR 0x22] @ ''].'' @ NL @
     ''Do not output any other text besides the JSON array.''"

definition read_choice :: "(string \<Rightarrow> json option) \<Rightarrow> string list \<Rightarrow> string list \<Rightarrow> string \<Rightarrow> string list" where
  "read_choice loads baseline names response = (case loads (answer_text response) of
      Some (JList vs) \<Rightarrow> (case chosen_names names vs of Inl _ \<Rightarrow> baseline @ names | Inr ns \<Rightarrow> py_unique (baseline @ ns))
    | _ \<Rightarrow> baseline @ names)"

text \<open>
  \<open>None\<close> is the error of a manifest that cannot be read: the profiles are built outside the \<open>try\<close>. Everything that
  fails inside it gives every group.
\<close>

definition select_groups ::
  "pydantic \<Rightarrow> (string \<Rightarrow> json option) \<Rightarrow> (json list \<Rightarrow> 'e \<Rightarrow> (llm_exc + string) \<times> 'e) \<Rightarrow> 'c loaded \<Rightarrow> string \<Rightarrow> 'e \<Rightarrow> string list option \<times> 'e" where
  "select_groups pd loads ask L input e = (case get_group_profiles pd L of
      None \<Rightarrow> (None, e)
    | Some _ \<Rightarrow>
        (let all = dvalues (ld_groups L); baseline = map gd_name (filter (enabled_for True) all);
             candidates = filter (\<lambda>g. \<not> enabled_for True g) all
         in if candidates = [] then (Some baseline, e)
            else case ask [JDict [(''role'', JStr ''user''), (''content'', JStr (build_prompt input candidates))]] e of
              (Inl _, e1) \<Rightarrow> (Some (baseline @ map gd_name candidates), e1)
            | (Inr response, e1) \<Rightarrow> (Some (read_choice loads baseline (map gd_name candidates) response), e1)))"

section \<open>Facts\<close>

lemma chosen_names_candidates:
  assumes "chosen_names names vs = Inr ns"
  shows "set ns = {s. JStr s \<in> set vs \<and> s \<in> set names}"
proof -
  let ?f = "\<lambda>v. case v of JStr s \<Rightarrow> if s \<in> set names then Some s else None | _ \<Rightarrow> None"
  have "set (List.map_filter ?f vs) = {s. \<exists>v \<in> set vs. ?f v = Some s}"
    by (force simp: map_filter_def)
  moreover have "?f v = Some s \<longleftrightarrow> v = JStr s \<and> s \<in> set names" for v s by (cases v) auto
  ultimately show ?thesis using assms by (auto simp: chosen_names_def split: if_splits)
qed

lemma read_choice_bounds: "set baseline \<subseteq> set (read_choice loads baseline names response)" "set (read_choice loads baseline names response) \<subseteq> set baseline \<union> set names"
  by (auto simp: read_choice_def dest: chosen_names_candidates split: option.splits json.splits sum.splits)

lemma read_choice_list: "loads (answer_text response) = Some (JList vs) \<Longrightarrow> list_all hashable vs \<Longrightarrow>
    set (read_choice loads baseline names response) = set baseline \<union> {s. JStr s \<in> set vs \<and> s \<in> set names}"
  using chosen_names_candidates [of names vs] by (simp add: read_choice_def chosen_names_def)

text \<open> Whatever the routing model answers, a delegated task gets the groups that every sub-agent has and no group
  that is not registered; with a list of names it gets exactly the named candidates besides, and when the model cannot
  be reached or its answer cannot be read it gets every registered group.
\<close>

theorem routing_is_safe:
  assumes "get_group_profiles pd L \<noteq> None"
  shows "\<exists>gs e'. select_groups pd loads ask L input e = (Some gs, e') \<and>
    {gd_name g | g. g \<in> set (dvalues (ld_groups L)) \<and> enabled_for True g} \<subseteq> set gs \<and>
    set gs \<subseteq> gd_name ` set (dvalues (ld_groups L)) \<and>
    (\<forall>x e1. (\<forall>ms. ask ms e = (Inl x, e1)) \<longrightarrow> set gs = gd_name ` set (dvalues (ld_groups L))) \<and>
    (\<forall>response vs e1. (\<forall>ms. ask ms e = (Inr response, e1)) \<and> loads (answer_text response) = Some (JList vs) \<and> list_all hashable vs \<longrightarrow>
       set gs = {gd_name g | g. g \<in> set (dvalues (ld_groups L)) \<and> (enabled_for True g \<or> JStr (gd_name g) \<in> set vs)})"
proof -
  define all where "all = dvalues (ld_groups L)"
  define baseline where "baseline = map gd_name (filter (enabled_for True) all)"
  define candidates where "candidates = filter (\<lambda>g. \<not> enabled_for True g) all"
  obtain ps where ps: "get_group_profiles pd L = Some ps" using assms by auto
  let ?q = "[JDict [(''role'', JStr ''user''), (''content'', JStr (build_prompt input candidates))]]"
  obtain r e1 where r: "ask ?q e = (r, e1)" by fastforce
  have every: "set (baseline @ map gd_name candidates) = gd_name ` set all"
    by (auto simp: baseline_def candidates_def)
  have base: "{gd_name g | g. g \<in> set all \<and> enabled_for True g} = set baseline" by (auto simp: baseline_def)
  have exact: "{gd_name g | g. g \<in> set all \<and> (enabled_for True g \<or> JStr (gd_name g) \<in> set vs)} =
      set baseline \<union> {s. JStr s \<in> set vs \<and> s \<in> set (map gd_name candidates)}" for vs
    by (auto simp: baseline_def candidates_def)
  have sel: "select_groups pd loads ask L input e = (if candidates = [] then (Some baseline, e)
      else (Some (case r of Inl _ \<Rightarrow> baseline @ map gd_name candidates | Inr response \<Rightarrow> read_choice loads baseline (map gd_name candidates) response), e1))"
    unfolding select_groups_def Let_def all_def [symmetric] baseline_def [symmetric] candidates_def [symmetric] ps r by (cases r) simp_all
  show ?thesis
  proof (cases "candidates = []")
    case True
    then have "set baseline = gd_name ` set all" using every by simp
    then show ?thesis unfolding all_def [symmetric] base exact sel using True by auto
  next
    case False
    define gs where "gs = (case r of Inl _ \<Rightarrow> baseline @ map gd_name candidates | Inr response \<Rightarrow> read_choice loads baseline (map gd_name candidates) response)"
    have "set baseline \<subseteq> set gs" "set gs \<subseteq> gd_name ` set all"
      using every read_choice_bounds(1) [of baseline loads "map gd_name candidates"] read_choice_bounds(2) [of loads baseline "map gd_name candidates"]
      unfolding gs_def by (cases r; fastforce)+
    moreover have "set gs = gd_name ` set all" if "\<forall>ms. ask ms e = (Inl x, e2)" for x e2
      using that r every by (auto simp: gs_def)
    moreover have "set gs = set baseline \<union> {s. JStr s \<in> set vs \<and> s \<in> set (map gd_name candidates)}"
      if "(\<forall>ms. ask ms e = (Inr response, e2)) \<and> loads (answer_text response) = Some (JList vs) \<and> list_all hashable vs" for response vs e2
      using that r read_choice_list [of loads response vs baseline "map gd_name candidates"] by (auto simp: gs_def)
    ultimately show ?thesis unfolding all_def [symmetric] base exact sel gs_def [symmetric] using False by auto
  qed
qed

text \<open>The answer is a fenced list that names one candidate and one group that does not exist.\<close>

theorem routing_is_safe_witness:
  "\<exists>gs e'. select_groups strict_pydantic (\<lambda>s. if s = ''[B]'' then Some (JList [JStr ''B'', JStr ''X'']) else None)
       (\<lambda>ms e. (Inr (FENCE @ ''json'' @ NL @ ''[B]'' @ NL @ FENCE), Suc e)) demo_loaded ''do it'' (0 :: nat) = (Some gs, e') \<and>
     set gs = {''B''}"
proof -
  let ?loads = "\<lambda>s. if s = ''[B]'' then Some (JList [JStr ''B'', JStr ''X'']) else None"
  let ?ask = "\<lambda>ms e. (Inr (FENCE @ ''json'' @ NL @ ''[B]'' @ NL @ FENCE), Suc e)"
  have profiles: "get_group_profiles strict_pydantic demo_loaded \<noteq> None" by code_simp
  have answer: "?loads (answer_text (FENCE @ ''json'' @ NL @ ''[B]'' @ NL @ FENCE)) = Some (JList [JStr ''B'', JStr ''X''])" by code_simp
  have "dvalues (ld_groups demo_loaded) = [the (parse_group strict_pydantic (demo_manifest ''A'' [demo_tool ''t''])), the (parse_group strict_pydantic (demo_manifest ''B'' [demo_tool ''u'']))]"
    by code_simp
  moreover have "gd_name (the (parse_group strict_pydantic (demo_manifest ''A'' [demo_tool ''t'']))) = ''A''" "gd_name (the (parse_group strict_pydantic (demo_manifest ''B'' [demo_tool ''u'']))) = ''B''"
    "\<not> enabled_for True (the (parse_group strict_pydantic (demo_manifest ''A'' [demo_tool ''t''])))" "\<not> enabled_for True (the (parse_group strict_pydantic (demo_manifest ''B'' [demo_tool ''u''])))"
    by code_simp+
  ultimately obtain ga gb where "dvalues (ld_groups demo_loaded) = [ga, gb]" and g: "gd_name ga = ''A''" "gd_name gb = ''B''" "\<not> enabled_for True ga" "\<not> enabled_for True gb"
    by (rule that)
  then have all: "set (dvalues (ld_groups demo_loaded)) = {ga, gb}" by simp
  have "{gd_name g | g. g \<in> set (dvalues (ld_groups demo_loaded)) \<and> (enabled_for True g \<or> JStr (gd_name g) \<in> set [JStr ''B'', JStr ''X''])} = {''B''}"
    unfolding all using g by (auto intro: exI [of _ gb])
  then show ?thesis
    using routing_is_safe [OF profiles, of ?loads ?ask "''do it''" 0] answer by fastforce
qed

end
