(* ===== verification/Control.thy ===== *)
theory Control
  imports EnvFile Registry Router
begin

text \<open>
  The control operations of the web console (\<open>BusinessGatewayControl\<close>, \<^verbatim>\<open>bridge/gateway_control.py\<close>): the model
  endpoints, the environment file and the settings in memory, the policies of the capability groups, and the
  session list and history it shows. Also \<open>SessionRepository.list_all\<close>, the document functions of
  \<^verbatim>\<open>infrastructure/llm/config.py\<close> and the clients a planner holds (\<^verbatim>\<open>core/agent/planning/planner_core.py\<close>).

  A YAML document that is written is read back as it was. The settings are the attributes of the settings object.
\<close>

section \<open>State\<close>

record session_times =
  sx_title :: "string option"
  sx_created :: int
  sx_updated :: int

type_synonym llm_clients = "(llm_profile \<times> llm_profile option) \<times> (llm_profile \<times> llm_profile option)"

record 'c control_state =
  ct_env :: "string option"
  ct_settings :: json_object
  ct_manifests :: "(string, json_object) dict"
  ct_registry :: "'c loaded"
  ct_llm :: "json_object option"
  ct_clients :: llm_clients
  ct_sessions :: "(string, session_times) dict"
  ct_events :: "event_row list"

text \<open>\<open>ce_tasks\<close> is \<open>collect_subagent_task_rows\<close> of the gateway, if there is one; \<open>ce_ellipsis\<close> is its character.\<close>

record control_env =
  ce_runtime :: py_runtime
  ce_fields :: "string list"
  ce_tasks :: "(string \<Rightarrow> json list) option"
  ce_ellipsis :: string

datatype control_error = Refused string | Raised py_error | NoProfile string

section \<open>What the console shows of a history\<close>

definition nonempty_str :: "json \<Rightarrow> string option" where
  "nonempty_str v = (case v of JStr s \<Rightarrow> if py_strip s \<noteq> [] then Some s else None | _ \<Rightarrow> None)"

definition item_text :: "py_runtime \<Rightarrow> json_object \<Rightarrow> string" where
  "item_text rt d = py_str rt (py_or (py_or (obj_get d ''text'') (obj_get d ''content'')) (JStr []))"

definition item_url :: "json_object \<Rightarrow> json" where
  "item_url d = (case obj_get d ''image_url'' of JDict i \<Rightarrow> obj_get i ''url'' | _ \<Rightarrow> JNull)"

definition is_data_image :: "json \<Rightarrow> bool" where
  "is_data_image v = (case v of JStr s \<Rightarrow> py_startswith s ''data:image/'' | _ \<Rightarrow> False)"

definition segment_preview :: "py_runtime \<Rightarrow> json_object \<Rightarrow> string list" where
  "segment_preview rt d =
     (let ty = py_str rt (py_or (obj_get d ''type'') (JStr []))
      in if ty = ''text'' then [item_text rt d]
         else if ty = ''file'' then [if truthy (obj_get d ''file_id'') then ''[file:'' @ py_str rt (obj_get d ''file_id'') @ '']'' else ''[file]'']
         else if ty = ''image_url''
         then [if is_data_image (item_url d) then ''[image:data-url omitted]''
               else if truthy (item_url d) then ''[image:'' @ py_str rt (item_url d) @ '']'' else ''[image]'']
         else if ty = ''code_block'' then [item_text rt d]
         else (case nonempty_str (obj_get d ''text'') of
                 Some s \<Rightarrow> [s]
               | None \<Rightarrow> (case nonempty_str (obj_get d ''content'') of Some s \<Rightarrow> [s] | None \<Rightarrow> [])))"

definition dict_items :: "json \<Rightarrow> json_object list" where
  "dict_items v = (case v of JList vs \<Rightarrow> map dict_of (filter is_dict vs) | _ \<Rightarrow> [])"

definition segments_preview :: "py_runtime \<Rightarrow> json \<Rightarrow> string" where
  "segments_preview rt content = py_strip (py_join LF (concat (map (segment_preview rt) (dict_items content))))"

definition frontend_segment :: "py_runtime \<Rightarrow> json_object \<Rightarrow> json list" where
  "frontend_segment rt d =
     (let ty = py_str rt (py_or (obj_get d ''type'') (JStr []))
      in if ty = ''text''
         then (if item_text rt d \<noteq> [] then [JDict [(''type'', JStr ''text''), (''text'', JStr (item_text rt d))]] else [])
         else if ty = ''image_url''
         then (case item_url d of
                 JStr u \<Rightarrow> if u \<noteq> [] then [JDict [(''type'', JStr ''image_url''), (''image_url'', JDict [(''url'', JStr u)])]] else []
               | _ \<Rightarrow> [])
         else if ty = ''file'' \<and> truthy (obj_get d ''file_id'') then [JDict [(''type'', JStr ''file''), (''file_id'', obj_get d ''file_id'')]]
         else [])"

definition build_segments_for_frontend :: "py_runtime \<Rightarrow> json \<Rightarrow> json list" where
  "build_segments_for_frontend rt content = concat (map (frontend_segment rt) (dict_items content))"

definition PREVIEW_LIMIT :: nat where
  "PREVIEW_LIMIT = 2000"

definition shorten :: "control_env \<Rightarrow> string \<Rightarrow> string" where
  "shorten ce s = take PREVIEW_LIMIT s @ (if PREVIEW_LIMIT < length s then ce_ellipsis ce else [])"

definition history_row :: "control_env \<Rightarrow> event_row \<Rightarrow> json" where
  "history_row ce ev =
     (let rt = ce_runtime ce; ts = (''ts_ms'', JInt (ev_time ev))
      in if ev_type ev = ''session_event''
         then (let raw = py_lower (py_strip (case ev_role ev of None \<Rightarrow> ''assistant'' | Some r \<Rightarrow> if r = [] then ''assistant'' else r))
               in JDict [(''kind'', JStr ''session_event''),
                    (''role'', JStr (if raw \<in> {''user'', ''assistant'', ''system''} then raw else ''assistant'')),
                    (''text'', JStr (segments_preview rt (ev_content ev))), (''segments'', JList (build_segments_for_frontend rt (ev_content ev))), ts])
         else if ev_type ev = ''operation_event''
         then JDict [(''kind'', JStr ''operation_event''), (''tool_name'', JStr (case ev_tool_name ev of None \<Rightarrow> [] | Some n \<Rightarrow> n)), ts,
                (''result_preview'', case ev_tool_result ev of
                   JNull \<Rightarrow> JNull
                 | JStr s \<Rightarrow> JStr (shorten ce s)
                 | v \<Rightarrow> JStr (shorten ce (json_dumps rt v)))]
         else JDict [(''kind'', JStr ''unknown''), ts])"

section \<open>Model endpoints\<close>

definition get_llm_document :: "'c control_state \<Rightarrow> json_object" where
  "get_llm_document S = (case ct_llm S of
      None \<Rightarrow> [(''default_profile'', JStr ''main''), (''fallback_profile'', JNull), (''profiles'', JDict [])]
    | Some d \<Rightarrow> d)"

definition apply_llm_document :: "json_object \<Rightarrow> 'c control_state \<Rightarrow> (control_error + unit) \<times> 'c control_state" where
  "apply_llm_document doc S =
     (if \<not> is_dict (obj_get doc ''profiles'') then (Inl (Refused ''document.profiles must be an object''), S)
      else case obj_get doc ''default_profile'' of
          JStr d \<Rightarrow> if py_strip d = [] then (Inl (Refused ''document.default_profile must be a non-empty string''), S)
                    else (Inr (), S\<lparr>ct_llm := Some doc\<rparr>)
        | _ \<Rightarrow> (Inl (Refused ''document.default_profile must be a non-empty string''), S))"

definition new_client :: "py_runtime \<Rightarrow> json_object option \<Rightarrow> (endpoint_config \<Rightarrow> string) \<Rightarrow> control_error + (llm_profile \<times> llm_profile option)" where
  "new_client rt doc which = (case load_endpoint_config rt doc of
      Inl x \<Rightarrow> Inl (Raised x)
    | Inr cfg \<Rightarrow> (case create_llm_client cfg (which cfg) of None \<Rightarrow> Inl (NoProfile (which cfg)) | Some c \<Rightarrow> Inr c))"

definition router_profile :: "control_env \<Rightarrow> 'c control_state \<Rightarrow> string" where
  "router_profile ce S = py_str (ce_runtime ce) (obj_get (ct_settings S) ''router_profile_name'')"

text \<open>The client of the planner is replaced before the one of the router is made.\<close>

definition reload_llm_client :: "control_env \<Rightarrow> 'c control_state \<Rightarrow> (control_error + unit) \<times> 'c control_state" where
  "reload_llm_client ce S = (case new_client (ce_runtime ce) (ct_llm S) ec_default of
      Inl x \<Rightarrow> (Inl x, S)
    | Inr c \<Rightarrow>
        (let S1 = S\<lparr>ct_clients := (c, snd (ct_clients S))\<rparr>
         in case new_client (ce_runtime ce) (ct_llm S1) (\<lambda>_. router_profile ce S1) of
              Inl x \<Rightarrow> (Inl x, S1)
            | Inr r \<Rightarrow> (Inr (), S1\<lparr>ct_clients := (c, r)\<rparr>)))"

text \<open>A task type names a profile; without one of that name the planner's own client is used.\<close>

definition resolve_llm_client :: "control_env \<Rightarrow> string \<Rightarrow> 'c control_state \<Rightarrow> control_error + (llm_profile \<times> llm_profile option)" where
  "resolve_llm_client ce task S =
     (let tt = py_lower (py_strip task)
      in if tt = [] \<or> tt = ''general'' then Inr (fst (ct_clients S))
         else case new_client (ce_runtime ce) (ct_llm S) (\<lambda>_. tt) of
             Inl (NoProfile _) \<Rightarrow> Inr (fst (ct_clients S))
           | r \<Rightarrow> r)"

section \<open>The environment\<close>

definition coerce_str_value :: "py_runtime \<Rightarrow> string \<Rightarrow> json" where
  "coerce_str_value rt raw =
     (let lowered = py_lower (py_strip raw)
      in if lowered = ''true'' \<or> lowered = ''false'' then JBool (lowered = ''true'')
         else case rt_int rt raw of
             Some i \<Rightarrow> JInt i
           | None \<Rightarrow> (case rt_float rt raw of Some r \<Rightarrow> JFloat r | None \<Rightarrow> JStr raw))"

text \<open>Assigning to a setting does not validate, so it does not fail.\<close>

definition apply_env_to_settings :: "control_env \<Rightarrow> (string, string) dict \<Rightarrow> json_object \<Rightarrow> json_object" where
  "apply_env_to_settings ce updates settings =
     fold (\<lambda>(key, v) s. let attr = py_lower (drop 10 key)
        in if py_startswith key ''FAIRYCLAW_'' \<and> attr \<in> set (ce_fields ce) then dset attr (coerce_str_value (ce_runtime ce) v) s else s) updates settings"

definition env_texts :: "py_runtime \<Rightarrow> json_object \<Rightarrow> json_object" where
  "env_texts rt raw = fold (\<lambda>(k, v) d. dset k (JStr (py_str rt v)) d) (filter (\<lambda>(k, v). v \<noteq> JNull) raw) []"

definition put_system_env :: "control_env \<Rightarrow> json_object \<Rightarrow> 'c control_state \<Rightarrow> (control_error + unit) \<times> 'c control_state" where
  "put_system_env ce body S = (case obj_get body ''env'' of
      JDict raw \<Rightarrow>
        (let texts = env_texts (ce_runtime ce) raw
         in if ''FAIRYCLAW_API_TOKEN'' \<in> set (dkeys texts) then (Inl (Refused ''FAIRYCLAW_API_TOKEN cannot be changed via control plane''), S)
            else let validated = validate_system_env_slice (ce_runtime ce) texts
                 in (Inr (), S\<lparr>ct_env := merge_whitelisted_env SYSTEM_ENV_WHITELIST validated (ct_env S),
                              ct_settings := apply_env_to_settings ce validated (ct_settings S)\<rparr>))
    | _ \<Rightarrow> (Inl (Refused ''body.env must be an object''), S))"

section \<open>The session list\<close>

text \<open>Every session with the number of its events and the time of the latest, the most recently changed first.\<close>

definition session_summary :: "event_row list \<Rightarrow> string \<times> session_times \<Rightarrow> json" where
  "session_summary rows p =
     (let own = filter (\<lambda>r. ev_session r = fst p) rows
      in JDict [(''session_id'', JStr (fst p)), (''title'', json_opt JStr (sx_title (snd p))), (''created_at'', JInt (sx_created (snd p))),
                (''last_activity_at'', JInt (if own = [] then sx_created (snd p) else Max (set (map ev_time own)))), (''event_count'', JInt (int (length own)))])"

definition session_list_all :: "'c control_state \<Rightarrow> json list" where
  "session_list_all S = map (session_summary (ct_events S)) (sort_key (\<lambda>p. - sx_updated (snd p)) (ct_sessions S))"

definition HISTORY_LIMIT_CAP :: int where
  "HISTORY_LIMIT_CAP = 500"

definition history_limit :: "json \<Rightarrow> nat" where
  "history_limit v = (case v of
      JInt i \<Rightarrow> if 0 < i then nat (min i HISTORY_LIMIT_CAP) else 200
    | JBool b \<Rightarrow> if b then 1 else 200
    | _ \<Rightarrow> 200)"

section \<open>Policies\<close>

text \<open>\<open>CapabilityGroupPolicy.to_dict\<close>: fields that are \<open>None\<close> are left out.\<close>

definition group_policy :: "string \<times> group_doc \<Rightarrow> json" where
  "group_policy p = JDict (drop_none [(''name'', JStr (fst p)), (''description'', JStr (gd_description (snd p))), (''always_enable_planner'', gd_planner (snd p)),
     (''always_enable_subagent'', gd_subagent (snd p)), (''manifest_version'', gd_version (snd p)), (''routing_hint'', gd_hint (snd p))])"

section \<open>The operations\<close>

definition control_op :: "control_env \<Rightarrow> string \<Rightarrow> json_object \<Rightarrow> 'c control_state \<Rightarrow> (control_error + json_object) \<times> 'c control_state" where
  "control_op ce op body S =
     (let rt = ce_runtime ce; ack = (\<lambda>r. case r of (Inl x, T) \<Rightarrow> (Inl x, T) | (Inr _, T) \<Rightarrow> (Inr [(''ok'', JBool True)], T));
          sid = py_strip (str_field rt body ''session_id'')
      in if op = ''config.llm.get'' then (Inr [(''document'', JDict (get_llm_document S))], S)
         else if op = ''config.llm.put''
         then (case obj_get body ''document'' of
                 JDict doc \<Rightarrow> (case apply_llm_document doc S of (Inl x, T) \<Rightarrow> (Inl x, T) | (Inr _, T) \<Rightarrow> ack (reload_llm_client ce T))
               | _ \<Rightarrow> (Inl (Refused ''body.document must be an object''), S))
         else if op = ''config.system_env.get''
         then (Inr [(''env'', JDict (map (\<lambda>(k, v). (k, JStr v)) (filter (\<lambda>(k, v). k \<in> set SYSTEM_ENV_WHITELIST) (read_env_file (ct_env S)))))], S)
         else if op = ''config.system_env.put'' then ack (put_system_env ce body S)
         else if op = ''capabilities.list'' then (Inr [(''groups'', JList (map group_policy (ld_groups (ct_registry S))))], S)
         else if op = ''capabilities.put''
         then (let name = py_strip (str_field rt body ''group_name'')
               in if name = [] then (Inl (Refused ''group_name required''), S)
                  else case obj_get body ''patch'' of
                      JDict patch \<Rightarrow> (case apply_group_policy name patch (ct_manifests S) (ct_registry S) of
                          Inl msg \<Rightarrow> (Inl (Refused msg), S)
                        | Inr (files, L) \<Rightarrow> (Inr [(''ok'', JBool True)], S\<lparr>ct_manifests := files, ct_registry := L\<rparr>))
                    | _ \<Rightarrow> (Inl (Refused ''patch must be an object''), S))
         else if op = ''sessions.list'' then (Inr [(''sessions'', JList (session_list_all S))], S)
         else if op = ''sessions.history''
         then (if sid = [] then (Inl (Refused ''session_id required''), S)
               else if dget (ct_sessions S) sid = None then (Inl (Refused (''Session not found: '' @ sid)), S)
               else (Inr [(''session_id'', JStr sid),
                          (''events'', JList (map (history_row ce) (repo_history sid (history_limit (obj_get body ''limit'')) (ct_events S))))], S))
         else if op = ''sessions.subagent_tasks''
         then (if sid = [] then (Inl (Refused ''session_id required''), S)
               else (Inr [(''session_id'', JStr sid), (''tasks'', JList (case ce_tasks ce of None \<Rightarrow> [] | Some f \<Rightarrow> f sid))], S))
         else (Inl (Refused (''Unknown gateway_control op: '' @ op)), S))"

section \<open>What a change of the environment can reach\<close>

lemma whitelist_clean: "list_all clean_key SYSTEM_ENV_WHITELIST"
  by code_simp

lemma env_slice_ok: "dict_ok (validate_system_env_slice rt d)"
proof -
  have "dict_ok (foldl (\<lambda>out (k, v). if k \<notin> set SYSTEM_ENV_WHITELIST \<or> v = JNull then out else dset k (py_str rt v) out) out d)"
    if "dict_ok out" for out :: "(string, string) dict"
    using that by (induction d arbitrary: out) (auto split: prod.split)
  then show ?thesis by (simp add: validate_system_env_slice_def)
qed

lemma env_slice_keys: "set (dkeys (validate_system_env_slice rt d)) \<subseteq> set (dkeys d)"
proof -
  let ?step = "\<lambda>out (k, v). if k \<notin> set SYSTEM_ENV_WHITELIST \<or> v = JNull then out else dset k (py_str rt v) out"
  have "set (dkeys (foldl ?step out d)) \<subseteq> set (dkeys out) \<union> set (dkeys d)" for out
  proof (induction d arbitrary: out)
    case (Cons p d)
    have "set (dkeys (?step out p)) \<subseteq> insert (fst p) (set (dkeys out))" by (cases p) auto
    with Cons.IH [of "?step out p"] show ?case unfolding foldl_Cons list.map list.set by blast
  qed simp
  from this [of "[]"] show ?thesis by (simp add: validate_system_env_slice_def)
qed

text \<open>The settings a request for the environment comes to.\<close>

definition accepted_env :: "control_env \<Rightarrow> json_object \<Rightarrow> (string, string) dict" where
  "accepted_env ce raw = validate_system_env_slice (ce_runtime ce) (env_texts (ce_runtime ce) raw)"

lemma filter_whitelisted: "filter (\<lambda>(k, v). k \<in> set SYSTEM_ENV_WHITELIST) (accepted_env ce raw) = accepted_env ce raw"
  using env_slice_whitelisted [of "ce_runtime ce" "env_texts (ce_runtime ce) raw"] by (force simp: accepted_env_def filter_id_conv)

lemma put_system_env_accepted:
  "put_system_env ce [(''env'', JDict raw)] S = (Inr (), S') \<longleftrightarrow>
     ''FAIRYCLAW_API_TOKEN'' \<notin> set (dkeys (env_texts (ce_runtime ce) raw)) \<and>
     S' = S\<lparr>ct_env := (if accepted_env ce raw = [] then ct_env S else Some (merge_env_keys (accepted_env ce raw) (ct_env S))),
            ct_settings := apply_env_to_settings ce (accepted_env ce raw) (ct_settings S)\<rparr>"
  using filter_whitelisted [of ce raw]
  by (auto simp: put_system_env_def Let_def merge_whitelisted_env_def accepted_env_def)

lemma clean_accepted: "list_all clean_value (dvalues (accepted_env ce raw)) \<Longrightarrow> clean_env (accepted_env ce raw)"
proof -
  assume v: "list_all clean_value (dvalues (accepted_env ce raw))"
  have "clean_key (fst p)" if "p \<in> set (accepted_env ce raw)" for p
  proof -
    have "fst p \<in> set SYSTEM_ENV_WHITELIST"
      using that env_slice_whitelisted [of "ce_runtime ce" "env_texts (ce_runtime ce) raw"] by (auto simp: accepted_env_def)
    then show ?thesis using whitelist_clean by (simp add: list_all_iff)
  qed
  with v show ?thesis using env_slice_ok by (auto simp: clean_env_def accepted_env_def list_all_iff)
qed

lemma merge_reads_back:
  assumes "clean_env (read_env_file f)" and "clean_env updates"
  shows "dget (read_env_file (Some (merge_env_keys updates f))) k = (case dget updates k of Some v \<Rightarrow> Some v | None \<Rightarrow> dget (read_env_file f) k)"
proof (cases f)
  case None
  have "merge_env_keys updates None = merge_env_keys updates (Some [])"
    by (simp add: merge_env_keys_def read_env_file_def read_env_def py_splitlines_def)
  moreover have "read_env [] = []" by code_simp
  ultimately show ?thesis using env_merge_round_trip [of "[]" updates k] assms None
    by (cases "dget updates k") (simp_all add: read_env_file_def clean_env_def)
next
  case (Some t)
  then show ?thesis using env_merge_round_trip [of t updates k] assms by (cases "dget updates k") (simp_all add: read_env_file_def)
qed


text \<open> The guard on the API token can be passed: a line feed in the value of an allowed setting makes the rest of
  the value an assignment of its own, so that a request which is accepted sets the token, for any environment file.
\<close>

theorem token_guard_can_be_passed:
  assumes "clean_env (read_env_file (ct_env S))" and "clean_value v" and "clean_value token"
  shows "\<exists>S'. control_op ce ''config.system_env.put''
      [(''env'', JDict [(''FAIRYCLAW_LOG_LEVEL'', JStr (v @ LF @ env_line (''FAIRYCLAW_API_TOKEN'', token)))])] S = (Inr [(''ok'', JBool True)], S') \<and>
    dget (read_env_file (ct_env S')) ''FAIRYCLAW_API_TOKEN'' = Some token"
proof -
  let ?w = "v @ LF @ env_line (''FAIRYCLAW_API_TOKEN'', token)"
  let ?raw = "[(''FAIRYCLAW_LOG_LEVEL'', JStr ?w)]"
  have texts: "env_texts (ce_runtime ce) ?raw = ?raw" by (simp add: env_texts_def)
  have allowed: "''FAIRYCLAW_LOG_LEVEL'' \<in> set SYSTEM_ENV_WHITELIST" by (simp add: SYSTEM_ENV_WHITELIST_def)
  then have acc: "accepted_env ce ?raw = [(''FAIRYCLAW_LOG_LEVEL'', ?w)]" 
    unfolding accepted_env_def texts validate_system_env_slice_def by simp
  have keys: "clean_key ''FAIRYCLAW_LOG_LEVEL''" "clean_key ''FAIRYCLAW_API_TOKEN''" "''FAIRYCLAW_API_TOKEN'' < ''FAIRYCLAW_LOG_LEVEL''" by code_simp+
  define S' where "S' = S\<lparr>ct_env := Some (merge_env_keys [(''FAIRYCLAW_LOG_LEVEL'', ?w)] (ct_env S)),
     ct_settings := apply_env_to_settings ce [(''FAIRYCLAW_LOG_LEVEL'', ?w)] (ct_settings S)\<rparr>"
  have "put_system_env ce [(''env'', JDict ?raw)] S = (Inr (), S')" unfolding put_system_env_accepted texts acc by (simp add: S'_def)
  then have "control_op ce ''config.system_env.put'' [(''env'', JDict ?raw)] S = (Inr [(''ok'', JBool True)], S')" by (simp add: control_op_def Let_def)
  moreover have "dget (read_env_file (ct_env S')) ''FAIRYCLAW_API_TOKEN'' = Some token"
    using line_feed_assigns_another_key [OF assms(1) keys(1) assms(2) keys(2) assms(3) keys(3)] by (simp add: S'_def read_env_file_def)
  ultimately show ?thesis by blast
qed

section \<open>A model document that cannot be used\<close>

lemma control_op_llm_put: "control_op ce ''config.llm.put'' body S = (case obj_get body ''document'' of
    JDict doc \<Rightarrow> (case apply_llm_document doc S of
        (Inl x, T) \<Rightarrow> (Inl x, T)
      | (Inr _, T) \<Rightarrow> (case reload_llm_client ce T of (Inl x, U) \<Rightarrow> (Inl x, U) | (Inr _, U) \<Rightarrow> (Inr [(''ok'', JBool True)], U)))
  | _ \<Rightarrow> (Inl (Refused ''body.document must be an object''), S))"
  by (simp add: control_op_def Let_def)

text \<open> A document of model endpoints whose default profile is not among its profiles is refused only after it was
  stored: the request fails and the running clients stay, but the document is the one the next start reads, which
  then makes no client.
\<close>

theorem refused_document_is_stored:
  assumes "obj_get doc ''profiles'' = JDict ps" and "obj_get doc ''default_profile'' = JStr name" and "py_strip name \<noteq> []"
    and "load_endpoint_config (ce_runtime ce) (Some doc) = Inr cfg" and "dget (ec_profiles cfg) (ec_default cfg) = None"
  shows "\<exists>S'. control_op ce ''config.llm.put'' [(''document'', JDict doc)] S = (Inl (NoProfile (ec_default cfg)), S') \<and>
    ct_llm S' = Some doc \<and> ct_clients S' = ct_clients S \<and> new_client (ce_runtime ce) (ct_llm S') ec_default = Inl (NoProfile (ec_default cfg))"
proof -
  let ?S = "S\<lparr>ct_llm := Some doc\<rparr>"
  have client: "new_client (ce_runtime ce) (Some doc) ec_default = Inl (NoProfile (ec_default cfg))"
    using assms(4,5) by (simp add: new_client_def create_llm_client_def)
  have "apply_llm_document doc S = (Inr (), ?S)" using assms(1-3) by (simp add: apply_llm_document_def)
  moreover have "reload_llm_client ce ?S = (Inl (NoProfile (ec_default cfg)), ?S)" using client by (simp add: reload_llm_client_def)
  ultimately have "control_op ce ''config.llm.put'' [(''document'', JDict doc)] S = (Inl (NoProfile (ec_default cfg)), ?S)"
    by (simp add: control_op_llm_put)
  then show ?thesis using client by simp
qed

section \<open>What an operation leaves alone\<close>

text \<open>Only three operations change anything, none of them a session or an event, and the registry stays well formed.\<close>

lemma reload_keeps: "reload_llm_client ce S = (r, S') \<Longrightarrow> S' = S\<lparr>ct_clients := ct_clients S'\<rparr>"
  by (auto simp: reload_llm_client_def Let_def split: sum.splits)

lemma control_op_put_env: "control_op ce ''config.system_env.put'' body S =
    (case put_system_env ce body S of (Inl x, T) \<Rightarrow> (Inl x, T) | (Inr _, T) \<Rightarrow> (Inr [(''ok'', JBool True)], T))"
  by (simp add: control_op_def Let_def)

lemma control_op_put_policy: "control_op ce ''capabilities.put'' body S =
    (let name = py_strip (str_field (ce_runtime ce) body ''group_name'')
     in if name = [] then (Inl (Refused ''group_name required''), S)
        else case obj_get body ''patch'' of
            JDict patch \<Rightarrow> (case apply_group_policy name patch (ct_manifests S) (ct_registry S) of
                Inl msg \<Rightarrow> (Inl (Refused msg), S)
              | Inr (files, L) \<Rightarrow> (Inr [(''ok'', JBool True)], S\<lparr>ct_manifests := files, ct_registry := L\<rparr>))
          | _ \<Rightarrow> (Inl (Refused ''patch must be an object''), S))"
  by (simp add: control_op_def Let_def)

lemma control_op_reads:
  assumes "op \<notin> {''config.llm.put'', ''config.system_env.put'', ''capabilities.put''}"
  shows "snd (control_op ce op body S) = S"
  using assms by (simp add: control_op_def Let_def)

lemma control_op_cases:
  assumes "control_op ce op body S = (r, S')"
  obtains "S' = S" | doc cl where "S' = S\<lparr>ct_llm := doc, ct_clients := cl\<rparr>" | env st where "S' = S\<lparr>ct_env := env, ct_settings := st\<rparr>"
    | name patch files L where "apply_group_policy name patch (ct_manifests S) (ct_registry S) = Inr (files, L)" "S' = S\<lparr>ct_manifests := files, ct_registry := L\<rparr>"
proof (cases "op \<in> {''config.llm.put'', ''config.system_env.put'', ''capabilities.put''}")
  case False
  then have "S' = S" using control_op_reads [OF False, of ce body S] assms by simp
  then show ?thesis by (rule that(1))
next
  case True
  then consider "op = ''config.llm.put''" | "op = ''config.system_env.put''" | "op = ''capabilities.put''" by blast
  then show ?thesis
  proof cases
    case 1
    have applied: "T = S \<or> T = S\<lparr>ct_llm := Some doc\<rparr>" if "apply_llm_document doc S = (q, T)" for doc q T
      using that by (auto simp: apply_llm_document_def split: json.splits if_splits)
    have clients: "\<exists>cl. U = T\<lparr>ct_clients := cl\<rparr>" if "reload_llm_client ce T = (q, U)" for T q U
      using reload_keeps [OF that] by blast
    have same: "S = S\<lparr>ct_llm := ct_llm S, ct_clients := ct_clients S\<rparr>"
      "S\<lparr>ct_clients := cl\<rparr> = S\<lparr>ct_llm := ct_llm S, ct_clients := cl\<rparr>"
      "S\<lparr>ct_llm := doc\<rparr> = S\<lparr>ct_llm := doc, ct_clients := ct_clients S\<rparr>" for cl doc by simp_all
    have "S' = S \<or> (\<exists>doc q T. apply_llm_document doc S = (q, T) \<and> (S' = T \<or> (\<exists>q. reload_llm_client ce T = (q, S'))))"
      using assms unfolding 1 control_op_llm_put by (fastforce split: json.splits sum.splits prod.splits)
    then have "\<exists>doc cl. S' = S\<lparr>ct_llm := doc, ct_clients := cl\<rparr>"
      using applied clients same by metis
    then show ?thesis using that(2) by blast
  next
    case 2
    have "S' = S \<or> (\<exists>env st. S' = S\<lparr>ct_env := env, ct_settings := st\<rparr>)"
      using assms unfolding 2 control_op_put_env
      by (auto simp: put_system_env_def Let_def split: json.splits if_splits prod.splits)
    then show ?thesis using that(1,3) by blast
  next
    case 3
    have "S' = S \<or> (\<exists>name patch files L. apply_group_policy name patch (ct_manifests S) (ct_registry S) = Inr (files, L) \<and>
        S' = S\<lparr>ct_manifests := files, ct_registry := L\<rparr>)"
    proof (cases "obj_get body ''patch''")
      case (JDict patch)
      then show ?thesis using assms unfolding 3 control_op_put_policy Let_def
        by (fastforce split: if_splits sum.splits prod.splits)
    qed (use assms in \<open>simp_all add: 3 control_op_put_policy Let_def split: if_splits\<close>)
    then show ?thesis using that(1,4) by blast
  qed
qed

lemma control_op_frame:
  assumes "control_op ce op body S = (r, S')"
  shows "ct_sessions S' = ct_sessions S" "ct_events S' = ct_events S" "registry_ok (ct_registry S) \<Longrightarrow> registry_ok (ct_registry S')"
  using assms by (auto elim!: control_op_cases dest: policy_keeps_ok)

lemma history_limit_bound: "1 \<le> history_limit v \<and> history_limit v \<le> 500"
  by (cases v) (auto simp: history_limit_def HISTORY_LIMIT_CAP_def)

section \<open>Witnesses\<close>

definition demo_control_env :: control_env where
  "demo_control_env = \<lparr>ce_runtime = null_runtime, ce_fields = [''log_level'', ''api_token''], ce_tasks = None, ce_ellipsis = ''...''\<rparr>"

definition demo_control :: "unit control_state" where
  "demo_control = \<lparr>ct_env = Some (env_line (''FAIRYCLAW_API_TOKEN'', ''secret'') @ LF), ct_settings = [], ct_manifests = [], ct_registry = empty_registry,
     ct_llm = None, ct_clients = ((demo_profile ''main'' ''m'', None), (demo_profile ''router'' ''m'', None)), ct_sessions = [], ct_events = []\<rparr>"


theorem token_guard_can_be_passed_witness:
  "\<exists>S'. control_op demo_control_env ''config.system_env.put''
      [(''env'', JDict [(''FAIRYCLAW_LOG_LEVEL'', JStr (''INFO'' @ LF @ env_line (''FAIRYCLAW_API_TOKEN'', ''mine'')))])] demo_control = (Inr [(''ok'', JBool True)], S') \<and>
    dget (read_env_file (ct_env S')) ''FAIRYCLAW_API_TOKEN'' = Some ''mine''"
proof -
  have "clean_env (read_env_file (ct_env demo_control))" "clean_value ''INFO''" "clean_value ''mine''" by code_simp+
  then show ?thesis by (rule token_guard_can_be_passed)
qed

theorem refused_document_is_stored_witness:
  "\<exists>S'. control_op demo_control_env ''config.llm.put'' [(''document'', JDict [(''default_profile'', JStr ''gone''), (''profiles'', JDict [])])] demo_control =
      (Inl (NoProfile ''gone''), S') \<and> ct_llm S' = Some [(''default_profile'', JStr ''gone''), (''profiles'', JDict [])]"
proof -
  let ?doc = "[(''default_profile'', JStr ''gone''), (''profiles'', JDict [])]"
  let ?cfg = "\<lparr>ec_default = ''gone'', ec_fallback = None, ec_profiles = []\<rparr>"
  have "obj_get ?doc ''profiles'' = JDict []" "obj_get ?doc ''default_profile'' = JStr ''gone''" "py_strip ''gone'' \<noteq> []"
    "load_endpoint_config (ce_runtime demo_control_env) (Some ?doc) = Inr ?cfg" "dget (ec_profiles ?cfg) (ec_default ?cfg) = None" by code_simp+
  from refused_document_is_stored [OF this, of demo_control] show ?thesis by auto
qed

end
