(* ===== verification/Onebot.thy ===== *)
theory Onebot
  imports Ingress EnvFile Llm
begin

text \<open>
  The OneBot adapter (\<^verbatim>\<open>gateway/adapters/onebot_adapter.py\<close>, \<^verbatim>\<open>onebot_session_store.py\<close>), the table of active sessions
  (\<open>OnebotSenderActiveRepository\<close>), the lookups of routes by sender (\<open>GatewaySessionRouteRepository\<close>) and the deletion of
  a session, on the sessions, routes and message handling of \<open>Ingress\<close>. One event is handled at a time.

  The database is the default one, SQLite without enforced foreign keys, so that deleting a session removes the rows
  the object mapper cascades to, its events and files, and no others. Fetching a remote file, sending to OneBot and
  whether the bridge is up are parameters. What raises is \<open>Inl\<close>.
\<close>

section \<open>Senders\<close>

text \<open>The columns of a route row: what \<open>bind\<close> makes of the sender it stores.\<close>

definition sender_column :: "py_runtime \<Rightarrow> json_object \<Rightarrow> string \<Rightarrow> string option" where
  "sender_column rt d k = (case obj_get d k of JNull \<Rightarrow> None | v \<Rightarrow> strip_or_none (py_str rt v))"

definition sender_fields :: "string list" where
  "sender_fields = [''platform'', ''user_id'', ''group_id'', ''self_id'']"

definition normalize_sender_value :: "py_runtime \<Rightarrow> json \<Rightarrow> string" where
  "normalize_sender_value rt v = py_strip (py_str rt (py_or v (JStr [])))"

text \<open>\<open>_normalize_onebot_sender_ref\<close>, as the list of its four values.\<close>

definition normalize_onebot_sender :: "py_runtime \<Rightarrow> json_object \<Rightarrow> string list" where
  "normalize_onebot_sender rt d =
     (let p = normalize_sender_value rt (obj_get d ''platform'')
      in (if p = [] then ''onebot'' else p) # map (\<lambda>k. normalize_sender_value rt (obj_get d k)) [''user_id'', ''group_id'', ''self_id''])"

definition lookup_values :: "py_runtime \<Rightarrow> json_object \<Rightarrow> string option list" where
  "lookup_values rt d = map (\<lambda>v. if v = [] then None else Some v) (normalize_onebot_sender rt d)"

text \<open>The adapter's own dictionary for a sender; missing values are null.\<close>

definition sender_dict :: "sender_ref \<Rightarrow> json_object" where
  "sender_dict s = [(''platform'', json_opt JStr (sr_platform s)), (''user_id'', json_opt JStr (sr_user s)),
     (''group_id'', json_opt JStr (sr_group s)), (''self_id'', json_opt JStr (sr_self s))]"

section \<open>Routes by sender\<close>

definition of_sender :: "py_runtime \<Rightarrow> json_object \<Rightarrow> string \<Rightarrow> route_row \<Rightarrow> bool" where
  "of_sender rt d adapter r \<longleftrightarrow> rt_adapter r = Some adapter \<and> map (sender_column rt (rt_sender r)) sender_fields = lookup_values rt d"

text \<open>The first row in the order of insertion; the query does not say which.\<close>

definition find_by_sender :: "py_runtime \<Rightarrow> string \<Rightarrow> json_object \<Rightarrow> routes \<Rightarrow> string option" where
  "find_by_sender rt adapter d rows = map_option fst (find (\<lambda>p. of_sender rt d adapter (snd p)) rows)"

definition get_for_onebot_sender :: "py_runtime \<Rightarrow> string \<Rightarrow> json_object \<Rightarrow> routes \<Rightarrow> route_row option" where
  "get_for_onebot_sender rt sid d rows = (case dget rows sid of
      Some r \<Rightarrow> if of_sender rt d ''onebot'' r then Some r else None
    | None \<Rightarrow> None)"

record listed =
  li_session :: string
  li_title :: "string option"
  li_updated :: int

definition list_sessions_for_sender :: "py_runtime \<Rightarrow> (string \<Rightarrow> int) \<Rightarrow> json_object \<Rightarrow> sessions \<Rightarrow> routes \<Rightarrow> listed list" where
  "list_sessions_for_sender rt updated d rows routes =
     sort_key (\<lambda>i. - li_updated i) (List.map_filter (\<lambda>(sid, r). case dget rows sid of
         Some s \<Rightarrow> if of_sender rt d ''onebot'' r then Some \<lparr>li_session = sid, li_title = se_title s, li_updated = updated sid\<rparr> else None
       | None \<Rightarrow> None) routes)"

section \<open>State\<close>

record 'h onebot =
  on_api_base :: string
  on_token :: string
  on_allowed :: string
  on_prefix :: string
  on_env_file :: "string option"
  on_active :: "(string list, string) dict"
  on_business :: "'h business"
  on_sent :: "(int \<times> int option \<times> json) list"
  on_inbound :: "inbound_message list"
  on_uploads :: "(string \<times> string) list"
  on_next :: nat

record onebot_env =
  oe_business :: business_env
  oe_bridge_up :: bool
  oe_db_ok :: bool
  oe_fresh :: "nat \<Rightarrow> string"
  oe_now :: "nat \<Rightarrow> int"
  oe_updated :: "string \<Rightarrow> int"
  oe_time_text :: "int \<Rightarrow> string"
  oe_upload :: "string \<Rightarrow> string \<Rightarrow> string \<Rightarrow> string option"
  oe_send :: "int \<times> int option \<times> json \<Rightarrow> bool"

definition ADAPTER :: string where
  "ADAPTER = ''onebot''"

definition env_rt :: "onebot_env \<Rightarrow> py_runtime" where
  "env_rt oe = be_runtime (oe_business oe)"

definition on_routes :: "'h onebot \<Rightarrow> routes" where
  "on_routes S = bz_routes (on_business S)"

definition on_sessions :: "'h onebot \<Rightarrow> sessions" where
  "on_sessions S = rs_sessions (bz_store (on_business S))"

text \<open>The key of a sender in the table of active sessions; the adapter is always the same.\<close>

definition active_key :: "onebot_env \<Rightarrow> sender_ref \<Rightarrow> string list" where
  "active_key oe s = ADAPTER # normalize_onebot_sender (env_rt oe) (sender_dict s)"

definition get_active :: "onebot_env \<Rightarrow> sender_ref \<Rightarrow> 'h onebot \<Rightarrow> string option" where
  "get_active oe s S = dget (on_active S) (active_key oe s)"

definition set_active :: "onebot_env \<Rightarrow> sender_ref \<Rightarrow> string \<Rightarrow> 'h onebot \<Rightarrow> 'h onebot" where
  "set_active oe s sid S = S\<lparr>on_active := dset (active_key oe s) sid (on_active S)\<rparr>"

definition clear_active :: "onebot_env \<Rightarrow> sender_ref \<Rightarrow> 'h onebot \<Rightarrow> 'h onebot" where
  "clear_active oe s S = S\<lparr>on_active := dpop (active_key oe s) (on_active S)\<rparr>"

text \<open>\<open>SessionRepository.delete\<close>\<close>

definition delete_session :: "string \<Rightarrow> 'h business \<Rightarrow> bool \<times> 'h business" where
  "delete_session sid B =
     (if dget (rs_sessions (bz_store B)) sid = None then (False, B)
      else (True, B\<lparr>bz_store := (bz_store B)\<lparr>rs_sessions := dpop sid (rs_sessions (bz_store B))\<rparr>,
                    bz_rows := filter (\<lambda>r. ev_session r \<noteq> sid) (bz_rows B),
                    bz_files := (bz_files B)\<lparr>fs_files := filter (\<lambda>f. fl_session f \<noteq> sid) (fs_files (bz_files B))\<rparr>\<rparr>))"

section \<open>The gateway runtime\<close>

definition bind_route :: "string \<Rightarrow> string \<Rightarrow> json_object \<Rightarrow> 'h onebot \<Rightarrow> 'h onebot" where
  "bind_route adapter sid sender S = S\<lparr>on_business := (on_business S)\<lparr>bz_routes := route_bind sid (Some adapter) sender None (bz_routes (on_business S))\<rparr>\<rparr>"

definition new_session_id :: "onebot_env \<Rightarrow> 'h onebot \<Rightarrow> string" where
  "new_session_id oe S = ''sess_'' @ oe_fresh oe (on_next S)"

definition default_title :: "sender_ref \<Rightarrow> string" where
  "default_title s = ''OneBot User '' @ (case sr_user s of None \<Rightarrow> [] | Some u \<Rightarrow> u) @ (case sr_group s of None \<Rightarrow> [] | Some g \<Rightarrow> '' (Group '' @ g @ '')'')"

definition gateway_open :: "onebot_env \<Rightarrow> string \<Rightarrow> string \<Rightarrow> string option \<Rightarrow> json_object \<Rightarrow> json_object \<Rightarrow> 'h onebot \<Rightarrow> (string + string) \<times> 'h onebot" where
  "gateway_open oe adapter platform title meta sender S =
     (if \<not> oe_bridge_up oe then (Inl ''bridge'', S)
      else (let (sid, B) = open_session (oe_business oe) (new_session_id oe S) platform title meta (on_business S)
            in (Inr sid, bind_route adapter sid sender (S\<lparr>on_business := B, on_next := Suc (on_next S)\<rparr>))))"

definition open_onebot_session :: "onebot_env \<Rightarrow> sender_ref \<Rightarrow> string option \<Rightarrow> 'h onebot \<Rightarrow> (string + string) \<times> 'h onebot" where
  "open_onebot_session oe s title S =
     gateway_open oe ADAPTER ADAPTER (Some (case title of Some (c # cs) \<Rightarrow> c # cs | _ \<Rightarrow> default_title s)) [(''sender'', JDict (sender_dict s))] (sender_dict s) S"

definition submit :: "onebot_env \<Rightarrow> inbound_message \<Rightarrow> 'h onebot \<Rightarrow> (string + unit) \<times> 'h onebot" where
  "submit oe m S =
     (if \<not> oe_bridge_up oe then (Inl ''bridge'', S)
      else case submit_message (oe_business oe) (oe_db_ok oe) (oe_fresh oe (on_next S)) (oe_now oe (on_next S)) m (on_business S) of
          (Inl x, B) \<Rightarrow> (Inl x, S\<lparr>on_business := B, on_next := Suc (on_next S)\<rparr>)
        | (Inr _, B) \<Rightarrow> (Inr (), bind_route (in_adapter m) (in_session m) (case in_sender m of None \<Rightarrow> [] | Some s \<Rightarrow> sender_to_dict s)
              (S\<lparr>on_business := B, on_inbound := on_inbound S @ [m], on_next := Suc (on_next S)\<rparr>)))"

definition send_onebot :: "onebot_env \<Rightarrow> int \<Rightarrow> int option \<Rightarrow> json \<Rightarrow> 'h onebot \<Rightarrow> (string + unit) \<times> 'h onebot" where
  "send_onebot oe user grp message S =
     (if oe_send oe (user, grp, message) then (Inr (), S\<lparr>on_sent := on_sent S @ [(user, grp, message)]\<rparr>) else (Inl ''onebot'', S))"

section \<open>The session of a message\<close>

definition resolve_session :: "onebot_env \<Rightarrow> sender_ref \<Rightarrow> 'h onebot \<Rightarrow> (string + string) \<times> 'h onebot" where
  "resolve_session oe s S =
     (let rt = env_rt oe; active = (case get_active oe s S of Some (c # cs) \<Rightarrow> Some (c # cs) | _ \<Rightarrow> None)
      in case Option.bind active (\<lambda>sid. map_option (\<lambda>_. sid) (get_for_onebot_sender rt sid (sender_dict s) (on_routes S))) of
           Some sid \<Rightarrow> (Inr sid, S)
         | None \<Rightarrow>
             (let S1 = (if active = None then S else clear_active oe s S)
              in case find_by_sender rt ADAPTER (sender_dict s) (on_routes S1) of
                   Some sid \<Rightarrow> (Inr sid, set_active oe s sid S1)
                 | None \<Rightarrow> (case open_onebot_session oe s None S1 of
                     (Inl x, S2) \<Rightarrow> (Inl x, S2) | (Inr sid, S2) \<Rightarrow> (Inr sid, set_active oe s sid S2))))"

section \<open>Reading a message\<close>

definition text_piece :: "py_runtime \<Rightarrow> json \<Rightarrow> string option" where
  "text_piece rt v = (case v of
      JDict d \<Rightarrow> (if obj_get d ''type'' = JStr ''text''
                  then (case obj_get_or d ''data'' (JDict []) of
                          JDict e \<Rightarrow> Some (py_str rt (py_or (obj_get e ''text'') (JStr []))) | _ \<Rightarrow> None)
                  else None)
    | _ \<Rightarrow> None)"

text \<open>The text of a message that is nothing but text.\<close>

definition extract_text_message :: "py_runtime \<Rightarrow> json \<Rightarrow> string option" where
  "extract_text_message rt message = (case message of
      JStr s \<Rightarrow> strip_or_none s
    | JList vs \<Rightarrow> if list_all (\<lambda>v. text_piece rt v \<noteq> None) vs then strip_or_none (concat (List.map_filter (text_piece rt) vs)) else None
    | _ \<Rightarrow> None)"

definition parse_management_command :: "string \<Rightarrow> string \<Rightarrow> (string \<times> string) option" where
  "parse_management_command cmd t =
     (if \<not> py_startswith t cmd then None
      else let tail = py_strip (drop (length cmd) t)
           in Some (py_lower (takeWhile (\<lambda>c. \<not> is_space c) tail), py_strip (dropWhile (\<lambda>c. \<not> is_space c) tail)))"

text \<open>\<open>\[CQ:(image|file),.*?file=(.*?)\]\<close> from the current place, on one line: the address and the rest.\<close>

definition cq_match :: "string \<Rightarrow> (string \<times> string) option" where
  "cq_match s =
     Option.bind (case expect ''[CQ:image,'' s of Some r \<Rightarrow> Some r | None \<Rightarrow> expect ''[CQ:file,'' s) (\<lambda>s1.
     Option.bind (until_text ''file='' s1) (\<lambda>(skipped, s2).
     Option.bind (until_text '']'' s2) (\<lambda>(v, s3). if CHR 0x0A \<in> set skipped \<or> CHR 0x0A \<in> set v then None else Some (v, s3))))"

text \<open>The matches of a message, each with the text before it, and the text after the last one.\<close>

function cq_split :: "string \<Rightarrow> string \<Rightarrow> (string \<times> string) list \<times> string" where
  "cq_split acc [] = ([], rev acc)"
| "cq_split acc (c # cs) = (case cq_match (c # cs) of
      None \<Rightarrow> cq_split (c # acc) cs
    | Some (v, rest) \<Rightarrow>
        (if length rest \<le> length cs then (let (ps, t) = cq_split [] rest in ((rev acc, v) # ps, t)) else ([(rev acc, v)], [])))"
  by pat_completeness auto
termination
  by (relation "measure (\<lambda>(acc, s). length s)") auto

definition text_part_segments :: "string \<Rightarrow> content_segment list" where
  "text_part_segments t = (let s = py_strip t in if s = [] then [] else [text_segment (JStr s)])"

text \<open>What a message consists of before its files are fetched; \<open>None\<close> is an item whose \<open>data\<close> has no \<open>get\<close>.\<close>

datatype piece = TextPiece string | FilePiece string string

definition list_piece :: "py_runtime \<Rightarrow> json \<Rightarrow> piece list option" where
  "list_piece rt v = (case v of
      JDict d \<Rightarrow>
        (if obj_get d ''type'' = JStr ''text''
         then (case obj_get_or d ''data'' (JDict []) of
                 JDict e \<Rightarrow> Some [TextPiece (py_str rt (py_or (obj_get e ''text'') (JStr [])))] | _ \<Rightarrow> None)
         else if obj_get d ''type'' = JStr ''image'' \<or> obj_get d ''type'' = JStr ''file''
         then Some (case obj_get_or d ''data'' (JDict []) of
                 JDict e \<Rightarrow> (case py_or (obj_get e ''url'') (obj_get e ''file'') of
                     JStr u \<Rightarrow> if u = [] then [] else [FilePiece u (py_str rt (py_or (obj_get e ''name'') (JStr ''upload'')))]
                   | _ \<Rightarrow> [])
               | _ \<Rightarrow> [])
         else Some [])
    | _ \<Rightarrow> Some [])"

definition string_pieces :: "string \<Rightarrow> piece list" where
  "string_pieces t = (let (ps, after) = cq_split [] t
     in concat (map (\<lambda>(before, v). [TextPiece before, FilePiece (fst (py_split1 CHR '','' v)) ''upload'']) ps) @ [TextPiece after])"

text \<open>One piece after the other; what raises ends the conversion, with the pieces before it already uploaded.\<close>

fun convert_pieces :: "onebot_env \<Rightarrow> string \<Rightarrow> piece option list \<Rightarrow> 'h onebot \<Rightarrow> (string + content_segment list) \<times> 'h onebot" where
  "convert_pieces oe sid [] S = (Inr [], S)"
| "convert_pieces oe sid (None # ps) S = (Inl ''message'', S)"
| "convert_pieces oe sid (Some (TextPiece t) # ps) S = (case convert_pieces oe sid ps S of
      (Inl x, T) \<Rightarrow> (Inl x, T) | (Inr ss, T) \<Rightarrow> (Inr (text_part_segments t @ ss), T))"
| "convert_pieces oe sid (Some (FilePiece url name) # ps) S = (case oe_upload oe sid url name of
      None \<Rightarrow> (Inl ''upload'', S)
    | Some fid \<Rightarrow> (case convert_pieces oe sid ps (S\<lparr>on_uploads := on_uploads S @ [(sid, url)]\<rparr>) of
        (Inl x, T) \<Rightarrow> (Inl x, T) | (Inr ss, T) \<Rightarrow> (Inr ((if fid = [] then [] else [file_segment fid None]) @ ss), T)))"

definition pieces_of :: "py_runtime \<Rightarrow> json \<Rightarrow> piece option list" where
  "pieces_of rt message = (case message of
      JStr t \<Rightarrow> map Some (string_pieces t)
    | JList vs \<Rightarrow> concat (map (\<lambda>v. case list_piece rt v of None \<Rightarrow> [None] | Some ps \<Rightarrow> map Some ps) vs)
    | _ \<Rightarrow> [])"

section \<open>Management commands\<close>

definition help_text :: "string \<Rightarrow> string" where
  "help_text cmd = py_join LF [''Session management commands:'', cmd @ '' new [title]'', cmd @ '' ls'',
     cmd @ '' checkout <session_id or title>'', cmd @ '' co <session_id or title>'',
     cmd @ '' rm <session_id or title>  (permanently deletes the session)'']"

definition title_key :: "listed \<Rightarrow> string" where
  "title_key i = py_lower (py_strip (case li_title i of None \<Rightarrow> [] | Some t \<Rightarrow> t))"

definition resolve_owned :: "onebot_env \<Rightarrow> sender_ref \<Rightarrow> string \<Rightarrow> 'h onebot \<Rightarrow> string + string" where
  "resolve_owned oe s needle S =
     (let rt = env_rt oe; raw = py_strip needle
      in if raw = [] then Inl ''empty''
         else if py_startswith raw ''sess_''
         then (case get_for_onebot_sender rt raw (sender_dict s) (on_routes S) of
                 Some _ \<Rightarrow> Inr raw | None \<Rightarrow> Inl (''Session does not exist or is not owned by the current sender: '' @ raw))
         else (let items = list_sessions_for_sender rt (oe_updated oe) (sender_dict s) (on_sessions S) (on_routes S); key = py_lower raw;
                   exact = filter (\<lambda>i. title_key i = key) items;
                   hits = filter (\<lambda>i. title_key i \<noteq> [] \<and> py_startswith (title_key i) key) items
               in case exact of
                    [i] \<Rightarrow> Inr (li_session i)
                  | _ # _ \<Rightarrow> Inl (''Duplicate session title. Please specify session_id: '' @ py_join '', '' (map li_session (take 5 exact)))
                  | [] \<Rightarrow> (case hits of
                      [i] \<Rightarrow> Inr (li_session i)
                    | _ # _ \<Rightarrow> Inl ''Multiple session titles share this prefix; use a more specific title or session_id.''
                    | [] \<Rightarrow> Inl (''Session not found: '' @ raw))))"

definition render_session_list :: "onebot_env \<Rightarrow> sender_ref \<Rightarrow> 'h onebot \<Rightarrow> string" where
  "render_session_list oe s S =
     (let items = list_sessions_for_sender (env_rt oe) (oe_updated oe) (sender_dict s) (on_sessions S) (on_routes S);
          line = (\<lambda>i. (if Some (li_session i) = get_active oe s S then ''* '' else ''  '') @ li_session i @ '' | '' @
                  (case li_title i of Some (c # cs) \<Rightarrow> c # cs | _ \<Rightarrow> ''(untitled)'') @ '' | '' @ oe_time_text oe (li_updated i))
      in if items = [] then ''No switchable sessions are available.''
         else py_join LF ([''Session list:''] @ map line (take 20 items) @
           (if 20 < length items then [''... '' @ show_nat (length items) @ '' sessions total, showing first 20 only''] else [])))"

definition usage_checkout :: "string \<Rightarrow> string" where
  "usage_checkout p = ''Usage: '' @ p @ '' checkout <session_id or title>'' @ LF @ ''Example: '' @ p @ '' checkout sess_abc...'' @ LF @
     ''Or: '' @ p @ '' checkout My Work''"

definition usage_rm :: "string \<Rightarrow> string" where
  "usage_rm p = ''Usage: '' @ p @ '' rm <session_id or title>'' @ LF @ ''This permanently deletes the session and all its messages/files.''"

definition run_command :: "onebot_env \<Rightarrow> int \<Rightarrow> int option \<Rightarrow> sender_ref \<Rightarrow> string \<Rightarrow> string \<Rightarrow> 'h onebot \<Rightarrow> (string + unit) \<times> 'h onebot" where
  "run_command oe user grp s command arg S =
     (let say = (\<lambda>t. send_onebot oe user grp (JStr t))
      in if command = [] \<or> command = ''help'' then say (help_text (on_prefix S)) S
         else if command = ''new''
         then (case open_onebot_session oe s (if arg = [] then None else Some arg) S of
                 (Inl x, T) \<Rightarrow> (Inl x, T)
               | (Inr sid, T) \<Rightarrow> say (''Created and switched to new session: '' @ sid) (set_active oe s sid T))
         else if command = ''ls'' then say (render_session_list oe s S) S
         else if command = ''checkout'' \<or> command = ''co''
         then (if py_strip arg = [] then say (usage_checkout (on_prefix S)) S
               else case resolve_owned oe s arg S of
                   Inl text \<Rightarrow> say text S
                 | Inr sid \<Rightarrow> say (''Switched to session: '' @ sid) (set_active oe s sid S))
         else if command = ''rm''
         then (if py_strip arg = [] then say (usage_rm (on_prefix S)) S
               else case resolve_owned oe s arg S of
                   Inl text \<Rightarrow> say text S
                 | Inr sid \<Rightarrow>
                     (let T = (if get_active oe s S = Some sid then clear_active oe s S else S);
                          (deleted, B) = delete_session sid (on_business T)
                      in say ((if deleted then ''Deleted session: '' else ''Delete failed (session may not exist): '') @ sid) (T\<lparr>on_business := B\<rparr>)))
         else say (help_text (on_prefix S)) S)"

section \<open>Events\<close>

definition spoken_text :: "py_runtime \<Rightarrow> content_segment \<Rightarrow> bool" where
  "spoken_text rt g \<longleftrightarrow> sg_type g = SEG_TEXT \<and> py_strip (py_str rt (py_or (sg_text g) (JStr []))) \<noteq> []"

definition process_message :: "onebot_env \<Rightarrow> int \<Rightarrow> int option \<Rightarrow> string option \<Rightarrow> json \<Rightarrow> 'h onebot \<Rightarrow> (string + unit) \<times> 'h onebot" where
  "process_message oe user grp self message S =
     (let rt = env_rt oe;
          s = \<lparr>sr_platform = Some ADAPTER, sr_user = Some (show_int user), sr_group = map_option show_int grp, sr_self = self\<rparr>;
          command = Option.bind (extract_text_message rt message) (parse_management_command (on_prefix S))
      in case command of
           Some (c, a) \<Rightarrow> run_command oe user grp s c a S
         | None \<Rightarrow> (case resolve_session oe s S of
             (Inl x, T) \<Rightarrow> (Inl x, T)
           | (Inr sid, T) \<Rightarrow> (case convert_pieces oe sid (pieces_of rt message) T of
               (Inl x, U) \<Rightarrow> (Inl x, U)
             | (Inr ss, U) \<Rightarrow>
                 (if ss = [] then (Inr (), U)
                  else submit oe \<lparr>in_session = sid, in_adapter = ADAPTER, in_segments = ss, in_trigger = list_ex (spoken_text rt) ss,
                         in_sender = Some s, in_task_type = None, in_groups = None,
                         in_meta = [(''message_id'', JStr (''onebot_msg_'' @ oe_fresh oe (on_next U)))]\<rparr> U))))"

datatype event_answer = Ignored string | Accepted | Failed string

definition onebot_event :: "onebot_env \<Rightarrow> json_object \<Rightarrow> 'h onebot \<Rightarrow> event_answer \<times> 'h onebot" where
  "onebot_event oe d S =
     (let rt = env_rt oe; user = obj_get d ''user_id''; self = obj_get d ''self_id''; grp = obj_get d ''group_id''
      in if obj_get d ''post_type'' \<noteq> JStr ''message'' then (Ignored ''not a message event'', S)
         else if \<not> truthy user then (Ignored ''no user_id'', S)
         else if truthy self \<and> py_str rt user = py_str rt self then (Ignored ''self message'', S)
         else if on_allowed S \<noteq> [] \<and> obj_get d ''message_type'' \<noteq> JStr ''private'' then (Ignored ''only private allowed'', S)
         else if on_allowed S \<noteq> [] \<and> py_str rt user \<noteq> on_allowed S then (Ignored ''user not allowed'', S)
         else case (py_int rt user, if grp = JNull then Inr None else res_bind (py_int rt grp) (\<lambda>g. Inr (Some g))) of
             (Inr u, Inr g) \<Rightarrow>
               (case process_message oe u g (if self = JNull then None else Some (py_str rt self)) (obj_get d ''message'') S of
                  (Inl x, T) \<Rightarrow> (Failed x, T) | (Inr _, T) \<Rightarrow> (Accepted, T))
           | _ \<Rightarrow> (Failed ''id'', S))"

section \<open>Settings and outbound messages\<close>

definition get_onebot_settings :: "'h onebot \<Rightarrow> (string, string) dict" where
  "get_onebot_settings S = [(''ONEBOT_API_BASE'', on_api_base S), (''ONEBOT_ACCESS_TOKEN'', on_token S), (''ONEBOT_ALLOWED_USER'', on_allowed S),
     (''ONEBOT_SESSION_CMD_PREFIX'', on_prefix S)]"

text \<open>The keys are visited in some order, which does not matter: each sets a field of its own.\<close>

definition apply_onebot_settings :: "py_runtime \<Rightarrow> json_object \<Rightarrow> 'h onebot \<Rightarrow> 'h onebot" where
  "apply_onebot_settings rt patch S =
     (let given = filter (\<lambda>k. dget patch k \<noteq> None) (dkeys (get_onebot_settings S));
          val = (\<lambda>k. py_str rt (py_or (obj_get patch k) (JStr [])));
          pick = (\<lambda>k f old. if k \<in> set given then f (val k) else old);
          S1 = S\<lparr>on_api_base := pick ''ONEBOT_API_BASE'' (\<lambda>v. if v = [] then ''http://localhost:3000'' else v) (on_api_base S),
                 on_token := pick ''ONEBOT_ACCESS_TOKEN'' (\<lambda>v. v) (on_token S), on_allowed := pick ''ONEBOT_ALLOWED_USER'' (\<lambda>v. v) (on_allowed S),
                 on_prefix := pick ''ONEBOT_SESSION_CMD_PREFIX'' (\<lambda>v. if py_strip v = [] then ''/sess'' else py_strip v) (on_prefix S)\<rparr>
      in if given = [] then S1 else S1\<lparr>on_env_file := Some (merge_env_keys (map (\<lambda>k. (k, val k)) given) (on_env_file S1))\<rparr>)"

text \<open>The route of an outbound message, from the table or from the frame.\<close>

definition resolve_outbound_route :: "routes \<Rightarrow> outbound_message \<Rightarrow> (string \<times> json_object) option" where
  "resolve_outbound_route rows m = (case route_resolve rows (ob_session m) of
      Some r \<Rightarrow> (case rt_adapter r of Some a \<Rightarrow> Some (a, rt_sender r) | None \<Rightarrow> None)
    | None \<Rightarrow> (case ob_adapter m of
        Some (c # cs) \<Rightarrow> Some (c # cs, case ob_sender m of None \<Rightarrow> [] | Some d \<Rightarrow> d) | _ \<Rightarrow> None))"

text \<open>\<open>fetch\<close> is the download of a file with its name; \<open>b64\<close> the encoding of its content.\<close>

definition send_outbound ::
  "onebot_env \<Rightarrow> (string \<Rightarrow> string \<Rightarrow> (string \<times> string option) option) \<Rightarrow> (string \<Rightarrow> string) \<Rightarrow> outbound_message \<Rightarrow> 'h onebot \<Rightarrow> (string + unit) \<times> 'h onebot" where
  "send_outbound oe fetch b64 m S =
     (if ob_kind m = ''event'' then (Inr (), S)
      else case resolve_outbound_route (on_routes S) m of
          None \<Rightarrow> (Inl (''Missing gateway route for session: '' @ ob_session m), S)
        | Some (_, d) \<Rightarrow>
            (let rt = env_rt oe; g = obj_get d ''group_id''
             in if obj_get d ''user_id'' = JNull then (Inl (''Missing OneBot sender route for session: '' @ ob_session m), S)
                else case (rt_int rt (py_str rt (obj_get d ''user_id'')),
                           if g = JNull \<or> py_strip (py_str rt g) = [] then Some None else map_option Some (rt_int rt (py_str rt g))) of
                    (Some u, Some grp) \<Rightarrow>
                      (if ob_kind m = ''text'' then send_onebot oe u grp (py_or (obj_get (ob_content m) ''text'') (JStr [])) S
                       else if ob_kind m = ''file''
                       then (case obj_get (ob_content m) ''file_id'' of
                               JStr fid \<Rightarrow>
                                 (if fid = [] then (Inl ''Missing file_id in outbound file payload'', S)
                                  else case fetch (ob_session m) fid of
                                      None \<Rightarrow> (Inl ''download'', S)
                                    | Some (content, name) \<Rightarrow>
                                        (let label = (case name of Some (c # cs) \<Rightarrow> c # cs | _ \<Rightarrow> fid)
                                         in send_onebot oe u grp (JList
                                              [JDict [(''type'', JStr ''text''), (''data'', JDict [(''text'', JStr (''Received file: '' @ label @ LF))])],
                                               JDict [(''type'', JStr ''file''), (''data'', JDict [(''file'', JStr (''base64://'' @ b64 content)), (''name'', JStr label)])]]) S))
                             | _ \<Rightarrow> (Inl ''Missing file_id in outbound file payload'', S))
                       else (Inl (''Unsupported outbound kind for OneBot adapter: '' @ ob_kind m), S))
                  | _ \<Rightarrow> (Inl ''id'', S)))"

section \<open>Who owns a session\<close>

definition owned :: "onebot_env \<Rightarrow> sender_ref \<Rightarrow> string \<Rightarrow> 'h onebot \<Rightarrow> bool" where
  "owned oe s sid S \<longleftrightarrow> get_for_onebot_sender (env_rt oe) sid (sender_dict s) (on_routes S) \<noteq> None"

text \<open>All that is stored of a session.\<close>

definition session_data :: "string \<Rightarrow> 'h onebot \<Rightarrow> session_row option \<times> route_row option \<times> event_row list \<times> file_row list" where
  "session_data sid S = (dget (on_sessions S) sid, dget (on_routes S) sid, filter (\<lambda>r. ev_session r = sid) (bz_rows (on_business S)),
     filter (\<lambda>f. fl_session f = sid) (fs_files (bz_files (on_business S))))"

text \<open>What a sender does leaves session \<open>sid\<close> and the active sessions of the other senders alone.\<close>

definition spares :: "onebot_env \<Rightarrow> sender_ref \<Rightarrow> string \<Rightarrow> 'h onebot \<Rightarrow> 'h onebot \<Rightarrow> bool" where
  "spares oe s sid S T \<longleftrightarrow> session_data sid T = session_data sid S \<and> (\<forall>k. k \<noteq> active_key oe s \<longrightarrow> dget (on_active T) k = dget (on_active S) k) \<and>
     (dget (on_active T) (active_key oe s) = Some sid \<longrightarrow> dget (on_active S) (active_key oe s) = Some sid) \<and>
     (\<forall>u. (sid, u) \<in> set (on_uploads T) \<longrightarrow> (sid, u) \<in> set (on_uploads S)) \<and> (\<forall>m \<in> set (on_inbound T). in_session m = sid \<longrightarrow> m \<in> set (on_inbound S))"

named_theorems spare_rules "what spares a session"

lemma spares_refl [spare_rules]: "spares oe s sid S S"
  by (simp add: spares_def)

lemma spares_trans: "spares oe s sid S T \<Longrightarrow> spares oe s sid T U \<Longrightarrow> spares oe s sid S U"
  unfolding spares_def by metis

lemma spares_owned: "spares oe s sid S T \<Longrightarrow> owned oe s sid T \<longleftrightarrow> owned oe s sid S"
  by (auto simp: spares_def session_data_def owned_def get_for_onebot_sender_def)

lemma spares_set_active [spare_rules]: "other \<noteq> sid \<Longrightarrow> spares oe s sid S (set_active oe s other S)"
  by (simp add: spares_def set_active_def session_data_def on_sessions_def on_routes_def)

lemma spares_clear_active [spare_rules]: "spares oe s sid S (clear_active oe s S)"
  by (simp add: spares_def clear_active_def session_data_def on_sessions_def on_routes_def)

lemma spares_send [spare_rules]: "spares oe s sid S (snd (send_onebot oe user grp t S))"
  by (simp add: spares_def send_onebot_def session_data_def on_sessions_def on_routes_def)

lemma spares_bind [spare_rules]: "other \<noteq> sid \<Longrightarrow> spares oe s sid S (bind_route adapter other d S)"
  by (simp add: spares_def bind_route_def session_data_def on_sessions_def on_routes_def route_bind_def Let_def)

lemma spares_delete [spare_rules]:
  assumes "other \<noteq> sid"
  shows "spares oe s sid S (S\<lparr>on_business := snd (delete_session other (on_business S))\<rparr>)"
proof -
  have rows: "filter (\<lambda>r. ev_session r \<noteq> other \<and> ev_session r = sid) rows = filter (\<lambda>r. ev_session r = sid) rows" for rows
    using assms by (intro filter_cong) auto
  have files: "filter (\<lambda>f. fl_session f \<noteq> other \<and> fl_session f = sid) fs = filter (\<lambda>f. fl_session f = sid) fs" for fs
    using assms by (intro filter_cong) auto
  show ?thesis using assms
    by (simp add: spares_def delete_session_def session_data_def on_sessions_def on_routes_def rows [of "bz_rows (on_business S)"]
        files [of "fs_files (bz_files (on_business S))"])
qed

lemma spares_open:
  assumes "new_session_id oe S \<noteq> sid"
  shows "spares oe s sid S (snd (open_onebot_session oe s title S))"
  using assms
  by (auto simp: open_onebot_session_def gateway_open_def spares_def bind_route_def session_data_def on_sessions_def on_routes_def route_bind_def Let_def open_session_def
      initialize_session_def session_create_def set_meta_value_def split: option.splits prod.splits)

lemma open_result: "open_onebot_session oe s title S = (Inr other, T) \<Longrightarrow> other = new_session_id oe S"
  by (auto simp: open_onebot_session_def gateway_open_def Let_def open_session_def split: if_splits prod.splits)

lemma stored_rows: "store_message be db_ok eid now m B = Inr B' \<Longrightarrow> in_session m \<noteq> sid \<Longrightarrow>
    filter (\<lambda>r. ev_session r = sid) (bz_rows B') = filter (\<lambda>r. ev_session r = sid) (bz_rows B) \<and>
    bz_store B' = bz_store B \<and> bz_files B' = bz_files B \<and> bz_routes B' = bz_routes B"
  by (auto simp: store_message_def memory_add_session_event_def repo_add_session_event_def res_bind_Inr_iff split: if_splits option.splits)

lemma submitted_business: "submit_message be db_ok eid now m B = (r, B') \<Longrightarrow> in_session m \<noteq> sid \<Longrightarrow>
    filter (\<lambda>r. ev_session r = sid) (bz_rows B') = filter (\<lambda>r. ev_session r = sid) (bz_rows B) \<and>
    bz_store B' = bz_store B \<and> bz_files B' = bz_files B \<and> bz_routes B' = bz_routes B"
  by (auto simp: submit_message_def split: if_splits sum.splits dest!: stored_rows)

lemma spares_submit:
  assumes "in_session m \<noteq> sid"
  shows "spares oe s sid S (snd (submit oe m S))"
proof (cases "submit_message (oe_business oe) (oe_db_ok oe) (oe_fresh oe (on_next S)) (oe_now oe (on_next S)) m (on_business S)")
  case (Pair r B)
  from submitted_business [OF this assms] assms show ?thesis
    by (cases r) (auto simp: submit_def Pair spares_def bind_route_def session_data_def on_sessions_def on_routes_def route_bind_def Let_def)
qed

lemma spares_convert: "other \<noteq> sid \<Longrightarrow> spares oe s sid S (snd (convert_pieces oe other ps S))"
proof (induction oe other ps S rule: convert_pieces.induct)
  case (4 oe other url name ps S)
  have "spares oe s sid S (S\<lparr>on_uploads := on_uploads S @ [(other, url)]\<rparr>)"
    using 4(2) by (auto simp: spares_def session_data_def on_sessions_def on_routes_def)
  with 4 show ?case by (auto split: option.splits prod.splits sum.splits intro: spares_refl dest: spares_trans)
qed (auto split: prod.splits sum.splits intro: spares_refl)

section \<open>The session that is chosen\<close>

lemma find_some: "find P xs = Some x \<Longrightarrow> x \<in> set xs \<and> P x"
  by (induction xs) (auto split: if_splits)

lemma find_by_sender_owned:
  assumes "dict_ok (on_routes S)" and "find_by_sender (env_rt oe) ADAPTER (sender_dict s) (on_routes S) = Some other"
  shows "owned oe s other S"
proof -
  obtain r where "(other, r) \<in> set (on_routes S)" "of_sender (env_rt oe) (sender_dict s) ADAPTER r"
    using assms(2) by (auto simp: find_by_sender_def dest!: find_some)
  then show ?thesis using assms(1) by (simp add: owned_def get_for_onebot_sender_def dget_Some_set [symmetric] ADAPTER_def)
qed

lemma listed_owned:
  assumes "dict_ok (on_routes S)" and "i \<in> set (list_sessions_for_sender (env_rt oe) upd (sender_dict s) (on_sessions S) (on_routes S))"
  shows "owned oe s (li_session i) S"
proof -
  obtain sid r where "(sid, r) \<in> set (on_routes S)" "of_sender (env_rt oe) (sender_dict s) ''onebot'' r" "li_session i = sid"
    using assms(2) by (auto simp: list_sessions_for_sender_def map_filter_def split: option.splits if_splits)
  then show ?thesis using assms(1) by (simp add: owned_def get_for_onebot_sender_def dget_Some_set [symmetric])
qed

lemma resolve_owned_owned:
  assumes "dict_ok (on_routes S)" and "resolve_owned oe s needle S = Inr other"
  shows "owned oe s other S"
proof -
  define items where "items = list_sessions_for_sender (env_rt oe) (oe_updated oe) (sender_dict s) (on_sessions S) (on_routes S)"
  have hit: "owned oe s (li_session i) S" if "filter P items = i # is" for P i "is"
  proof -
    have "i \<in> set items" using that by (metis filter_is_subset list.set_intros(1) subsetD)
    then show ?thesis using listed_owned [OF assms(1)] by (simp add: items_def)
  qed
  show ?thesis
  proof (cases "py_startswith (py_strip needle) ''sess_''")
    case True
    then show ?thesis using assms(2) unfolding resolve_owned_def Let_def owned_def by (simp split: if_splits option.splits)
  next
    case False
    then show ?thesis
      using assms(2) unfolding resolve_owned_def Let_def items_def [symmetric] by (simp split: if_splits list.splits) (blast intro: hit)+
  qed
qed

lemma resolve_session_spares:
  assumes "dict_ok (on_routes S)" and "\<not> owned oe s sid S" and "new_session_id oe S \<noteq> sid" and "resolve_session oe s S = (r, T)"
  shows "spares oe s sid S T \<and> r \<noteq> Inr sid"
proof -
  define active where "active = (case get_active oe s S of Some (c # cs) \<Rightarrow> Some (c # cs) | _ \<Rightarrow> None)"
  define S1 where "S1 = (if active = None then S else clear_active oe s S)"
  have S1: "spares oe s sid S S1" "on_routes S1 = on_routes S" "new_session_id oe S1 = new_session_id oe S"
    by (simp_all add: S1_def spares_refl spares_clear_active, simp_all add: clear_active_def on_routes_def new_session_id_def)
  show ?thesis
  proof (cases "Option.bind active (\<lambda>sid. map_option (\<lambda>_. sid) (get_for_onebot_sender (env_rt oe) sid (sender_dict s) (on_routes S)))")
    case (Some other)
    then have "r = Inr other" "T = S" using assms(4) by (simp_all add: resolve_session_def Let_def active_def)
    moreover have "owned oe s other S" using Some by (auto simp: owned_def bind_eq_Some_conv)
    ultimately show ?thesis using assms(2) by (auto simp: spares_refl)
  next
    case None
    show ?thesis
    proof (cases "find_by_sender (env_rt oe) ADAPTER (sender_dict s) (on_routes S1)")
      case (Some other)
      then have "r = Inr other" "T = set_active oe s other S1" using assms(4) None by (simp_all add: resolve_session_def Let_def active_def S1_def)
      moreover have "other \<noteq> sid" using find_by_sender_owned [OF assms(1)] Some S1(2) assms(2) by auto
      ultimately show ?thesis using S1(1) spares_set_active spares_trans by blast
    next
      case none: None
      obtain q U where q: "open_onebot_session oe s None S1 = (q, U)" by fastforce
      then have U: "spares oe s sid S U" using spares_trans [OF S1(1) spares_open [of oe S1 sid s None]] S1(3) assms(3) by simp
      show ?thesis
      proof (cases q)
        case (Inl x)
        have "r = Inl x \<and> T = U" using assms(4) None none q Inl unfolding resolve_session_def Let_def active_def [symmetric] S1_def [symmetric] by simp
        then show ?thesis using U by simp
      next
        case (Inr other)
        then have "other \<noteq> sid" using open_result q S1(3) assms(3) by metis
        moreover have "r = Inr other" "T = set_active oe s other U" using assms(4) None none q Inr by (simp_all add: resolve_session_def Let_def active_def S1_def)
        ultimately show ?thesis using U spares_set_active spares_trans by blast
      qed
    qed
  qed
qed

section \<open>A sender and the sessions of the others\<close>

lemma spares_say: "spares oe s sid S T \<Longrightarrow> send_onebot oe user grp t T = (r, U) \<Longrightarrow> spares oe s sid S U"
  by (metis spares_trans spares_send snd_conv)

lemma spares_rm:
  assumes "other \<noteq> sid" and "spares oe s sid S T"
  shows "spares oe s sid S (T\<lparr>on_business := snd (delete_session other (on_business T))\<rparr>)"
  using spares_trans [OF assms(2) spares_delete [OF assms(1)]] .

lemma run_command_spares:
  assumes "dict_ok (on_routes S)" and "\<not> owned oe s sid S" and "new_session_id oe S \<noteq> sid" and "run_command oe user grp s c a S = (r, T)"
  shows "spares oe s sid S T"
proof -
  have say: "spares oe s sid S T" if "send_onebot oe user grp t U = (r, T)" "spares oe s sid S U" for t U using spares_say that by metis
  have refl: "spares oe s sid S S" by (rule spares_refl)
  have other: "other \<noteq> sid" if "resolve_owned oe s a S = Inr other" for other
    using resolve_owned_owned [OF assms(1) that] assms(2) by auto
  consider (hlp) "c = [] \<or> c = ''help'' \<or> c \<noteq> ''new'' \<and> c \<noteq> ''ls'' \<and> c \<noteq> ''checkout'' \<and> c \<noteq> ''co'' \<and> c \<noteq> ''rm''"
    | (new) "c = ''new''" | (ls) "c = ''ls''" | (co) "c = ''checkout'' \<or> c = ''co''" | (rm) "c = ''rm''" by blast
  then show ?thesis
  proof cases
    case hlp
    then have "send_onebot oe user grp (JStr (help_text (on_prefix S))) S = (r, T)"
      using assms(4) by (cases "c = [] \<or> c = ''help''") (auto simp: run_command_def)
    then show ?thesis using say refl by blast
  next
    case new
    obtain q U where q: "open_onebot_session oe s (if a = [] then None else Some a) S = (q, U)" by fastforce
    then have U: "spares oe s sid S U" using spares_open [OF assms(3)] by (metis snd_conv)
    show ?thesis
    proof (cases q)
      case (Inl x)
      then show ?thesis using assms(4) new q U by (simp add: run_command_def)
    next
      case (Inr other)
      then have "other \<noteq> sid" using open_result q assms(3) by metis
      then have "spares oe s sid S (set_active oe s other U)" using spares_trans [OF U spares_set_active] by blast
      then show ?thesis using assms(4) new q Inr say by (auto simp: run_command_def)
    qed
  next
    case ls
    then show ?thesis using assms(4) say refl by (auto simp: run_command_def)
  next
    case co
    then have cmd: "run_command oe user grp s c a S = (if py_strip a = [] then send_onebot oe user grp (JStr (usage_checkout (on_prefix S))) S
        else case resolve_owned oe s a S of Inl text \<Rightarrow> send_onebot oe user grp (JStr text) S
          | Inr sid \<Rightarrow> send_onebot oe user grp (JStr (''Switched to session: '' @ sid)) (set_active oe s sid S))"
      by (elim disjE) (simp_all add: run_command_def)
    show ?thesis
    proof (cases "py_strip a = [] \<or> (\<exists>x. resolve_owned oe s a S = Inl x)")
      case True
      then have "\<exists>t. send_onebot oe user grp t S = (r, T)" using assms(4) unfolding cmd by (cases "py_strip a = []") auto
      then show ?thesis using say refl by blast
    next
      case False
      then obtain other0 where other0: "resolve_owned oe s a S = Inr other0" by (cases "resolve_owned oe s a S") auto
      then have "\<exists>t. send_onebot oe user grp t (set_active oe s other0 S) = (r, T)" using assms(4) False unfolding cmd by auto
      then show ?thesis using say spares_set_active [OF other [OF other0]] by blast
    qed
  next
    case rm
    show ?thesis
    proof (cases "resolve_owned oe s a S")
      case (Inl x)
      then show ?thesis using rm assms(4) say refl by (auto simp: run_command_def split: if_splits)
    next
      case (Inr other0)
      define U where "U = (if get_active oe s S = Some other0 then clear_active oe s S else S)"
      have "spares oe s sid S U" by (simp add: U_def spares_refl spares_clear_active)
      note U = spares_rm [OF other [OF Inr] this]
      obtain d B where d: "delete_session other0 (on_business U) = (d, B)" by fastforce
      have "c \<noteq> [] \<and> c \<noteq> ''help'' \<and> c \<noteq> ''new'' \<and> c \<noteq> ''ls'' \<and> c \<noteq> ''checkout'' \<and> c \<noteq> ''co''" using rm by simp
      then show ?thesis
        using rm assms(4) say refl U d Inr unfolding run_command_def Let_def U_def [symmetric]
        by (auto simp: Let_def U_def [symmetric] split: if_splits)
    qed
  qed
qed

text \<open>C31. What one OneBot sender says or commands leaves every session that is not the sender's own alone: the session, its
  route, its events and its files are as before, no message and no upload is added to it, it does not become the sender's active
  session, and the active sessions of all other senders are as before. A sender owns the sessions whose route
  carries exactly its platform, user, group and bot.\<close>

theorem onebot_isolation:
  assumes "dict_ok (on_routes S)"
    and "\<not> owned oe \<lparr>sr_platform = Some ADAPTER, sr_user = Some (show_int user), sr_group = map_option show_int grp, sr_self = self\<rparr> sid S"
    and "new_session_id oe S \<noteq> sid" and "process_message oe user grp self message S = (r, T)"
  shows "spares oe \<lparr>sr_platform = Some ADAPTER, sr_user = Some (show_int user), sr_group = map_option show_int grp, sr_self = self\<rparr> sid S T"
proof -
  define s where "s = \<lparr>sr_platform = Some ADAPTER, sr_user = Some (show_int user), sr_group = map_option show_int grp, sr_self = self\<rparr>"
  define command where "command = Option.bind (extract_text_message (env_rt oe) message) (parse_management_command (on_prefix S))"
  note own = assms(2) [folded s_def]
  have pm: "process_message oe user grp self message S = (r, T)" by (rule assms(4))
  show ?thesis unfolding s_def [symmetric]
  proof (cases command)
    case (Some p)
    then show "spares oe s sid S T"
      using pm run_command_spares [OF assms(1) own assms(3)] unfolding process_message_def Let_def s_def [symmetric] command_def [symmetric]
      by (cases p) simp
  next
    case None
    obtain q U where q: "resolve_session oe s S = (q, U)" by fastforce
    note U = resolve_session_spares [OF assms(1) own assms(3) q]
    show "spares oe s sid S T"
    proof (cases q)
      case (Inl x)
      then show ?thesis using pm None q U unfolding process_message_def Let_def s_def [symmetric] command_def [symmetric] by simp
    next
      case (Inr other)
      then have ne: "other \<noteq> sid" using U by auto
      obtain v V where v: "convert_pieces oe other (pieces_of (env_rt oe) message) U = (v, V)" by fastforce
      then have V: "spares oe s sid S V" using spares_trans [OF _ spares_convert [OF ne, where ps = "pieces_of (env_rt oe) message" and S = U]] U by fastforce
      have "spares oe s sid S (snd (submit oe m V))" if "in_session m = other" for m
        using spares_trans [OF V spares_submit] that ne by blast
      then show ?thesis using pm None q Inr v V unfolding process_message_def Let_def s_def [symmetric] command_def [symmetric]
        by (cases v) (auto split: if_splits dest!: arg_cong [where f = snd])
    qed
  qed
qed

definition two_routes :: routes where
  "two_routes = [(''sess_a'', \<lparr>rt_adapter = Some ''onebot'', rt_sender = sender_dict \<lparr>sr_platform = Some ''onebot'', sr_user = Some ''7'', sr_group = None, sr_self = None\<rparr>, rt_parent = None\<rparr>),
     (''sess_b'', \<lparr>rt_adapter = Some ''onebot'', rt_sender = sender_dict \<lparr>sr_platform = Some ''onebot'', sr_user = Some ''8'', sr_group = None, sr_self = None\<rparr>, rt_parent = None\<rparr>)]"

definition demo_onebot :: "unit onebot" where
  "demo_onebot = \<lparr>on_api_base = [], on_token = [], on_allowed = [], on_prefix = ''/sess'', on_env_file = None,
     on_active = [(''onebot'' # [''onebot'', ''7'', [], []], ''sess_a'')],
     on_business = \<lparr>bz_store = \<lparr>rs_cache = [], rs_sessions = [(''sess_a'', \<lparr>se_platform = ''onebot'', se_title = Some ''Work'', se_meta = []\<rparr>),
         (''sess_b'', \<lparr>se_platform = ''onebot'', se_title = None, se_meta = []\<rparr>)]\<rparr>, bz_rows = [],
       bz_files = \<lparr>fs_uploads = [], fs_files = [], fs_events = []\<rparr>, bz_routes = two_routes, bz_bus = bus_init 1\<rparr>,
     on_sent = [], on_inbound = [], on_uploads = [], on_next = 0\<rparr>"

definition demo_onebot_env :: onebot_env where
  "demo_onebot_env = \<lparr>oe_business = demo_business_env, oe_bridge_up = True, oe_db_ok = True, oe_fresh = (\<lambda>n. show_nat n), oe_now = (\<lambda>n. int n),
     oe_updated = (\<lambda>_. 0), oe_time_text = show_int, oe_upload = (\<lambda>_ _ _. None), oe_send = (\<lambda>_. True)\<rparr>"

definition demo_sender :: sender_ref where
  "demo_sender = \<lparr>sr_platform = Some ADAPTER, sr_user = Some (show_int 7), sr_group = None, sr_self = None\<rparr>"

text \<open>The other user's session stays, even when the command names it.\<close>

theorem onebot_isolation_witness:
  "spares demo_onebot_env demo_sender ''sess_b'' demo_onebot (snd (process_message demo_onebot_env 7 None None (JStr ''/sess rm sess_b'') demo_onebot)) \<and>
   on_sent (snd (process_message demo_onebot_env 7 None None (JStr ''/sess rm sess_b'') demo_onebot)) =
     [(7, None, JStr ''Session does not exist or is not owned by the current sender: sess_b'')]"
proof
  have "dict_ok (on_routes demo_onebot)" "\<not> owned demo_onebot_env demo_sender ''sess_b'' demo_onebot" "new_session_id demo_onebot_env demo_onebot \<noteq> ''sess_b''"
    by code_simp+
  then show "spares demo_onebot_env demo_sender ''sess_b'' demo_onebot (snd (process_message demo_onebot_env 7 None None (JStr ''/sess rm sess_b'') demo_onebot))"
    using onebot_isolation [where S = demo_onebot and oe = demo_onebot_env and user = 7 and grp = None and self = None and sid = "''sess_b''"
        and message = "JStr ''/sess rm sess_b''"] by (simp add: demo_sender_def prod_eq_iff)
  show "on_sent (snd (process_message demo_onebot_env 7 None None (JStr ''/sess rm sess_b'') demo_onebot)) =
     [(7, None, JStr ''Session does not exist or is not owned by the current sender: sess_b'')]" by code_simp
qed

section \<open>A removed session\<close>

text \<open>The sender's route leads to a session that is gone, and no other session is its active one.\<close>

definition stranded :: "onebot_env \<Rightarrow> sender_ref \<Rightarrow> string \<Rightarrow> 'h onebot \<Rightarrow> bool" where
  "stranded oe s sid S \<longleftrightarrow> find_by_sender (env_rt oe) ADAPTER (sender_dict s) (on_routes S) = Some sid \<and> dget (on_sessions S) sid = None \<and>
     owned oe s sid S \<and> sid \<noteq> [] \<and> (get_active oe s S = None \<or> get_active oe s S = Some sid)"

lemma stranded_resolves:
  assumes "stranded oe s sid S" and "resolve_session oe s S = (r, T)"
  shows "r = Inr sid \<and> on_business T = on_business S \<and> stranded oe s sid T \<and> on_inbound T = on_inbound S \<and> on_prefix T = on_prefix S"
proof (cases "get_active oe s S")
  case None
  then show ?thesis using assms
    by (auto simp: resolve_session_def stranded_def set_active_def get_active_def on_routes_def on_sessions_def owned_def)
next
  case (Some x)
  then obtain c cs where "sid = c # cs" "x = sid" using assms(1) by (cases sid) (auto simp: stranded_def)
  then show ?thesis using assms Some by (auto simp: resolve_session_def stranded_def owned_def)
qed

lemma removed_is_stranded:
  assumes "dict_ok (on_routes S)" and "find_by_sender (env_rt oe) ADAPTER (sender_dict s) (on_routes S) = Some sid" and "sid \<noteq> []"
    and "get_active oe s S = Some sid" and "dict_ok (on_active S)" and "dict_ok (on_sessions S)"
    and "resolve_owned oe s a S = Inr sid" and "py_strip a \<noteq> []" and "run_command oe user grp s ''rm'' a S = (r, T)"
  shows "stranded oe s sid T \<and> on_prefix T = on_prefix S"
proof -
  define U where "U = (clear_active oe s S)\<lparr>on_business := snd (delete_session sid (on_business S))\<rparr>"
  have routes: "on_routes U = on_routes S" by (auto simp: U_def on_routes_def delete_session_def clear_active_def)
  have "dget (on_sessions U) sid = None" using assms(6) by (auto simp: U_def on_sessions_def delete_session_def clear_active_def)
  moreover have "get_active oe s U = None" using assms(5) by (simp add: U_def get_active_def clear_active_def)
  moreover have "owned oe s sid S" using find_by_sender_owned [OF assms(1,2)] .
  ultimately have "stranded oe s sid U" using assms(2,3) routes by (simp add: stranded_def owned_def)
  moreover have "T = U \<or> (\<exists>t. T = U\<lparr>on_sent := t\<rparr>)"
    using assms(4,7,8,9) by (auto simp: run_command_def Let_def U_def send_onebot_def clear_active_def split: if_splits prod.splits)
  ultimately show ?thesis by (auto simp: stranded_def get_active_def on_routes_def on_sessions_def owned_def U_def clear_active_def)
qed

text \<open>A message that is one text, not blank and not a command.\<close>

definition plain_message :: "py_runtime \<Rightarrow> string \<Rightarrow> json \<Rightarrow> bool" where
  "plain_message rt prefix_text message \<longleftrightarrow> Option.bind (extract_text_message rt message) (parse_management_command prefix_text) = None \<and>
     (case pieces_of rt message of [Some (TextPiece t)] \<Rightarrow> py_strip t \<noteq> [] | _ \<Rightarrow> False)"

fun process_messages :: "onebot_env \<Rightarrow> int \<Rightarrow> int option \<Rightarrow> string option \<Rightarrow> json list \<Rightarrow> 'h onebot \<Rightarrow> (string + unit) list \<times> 'h onebot" where
  "process_messages oe user grp self [] S = ([], S)"
| "process_messages oe user grp self (m # ms) S =
     (let (r, T) = process_message oe user grp self m S; (rs, U) = process_messages oe user grp self ms T in (r # rs, U))"

lemma plain_piece: "plain_message rt p m \<Longrightarrow> \<exists>t. pieces_of rt m = [Some (TextPiece t)] \<and> py_strip t \<noteq> []"
  by (cases "pieces_of rt m"; cases "hd (pieces_of rt m)"; cases "tl (pieces_of rt m)")
    (auto simp: plain_message_def split: piece.splits)

lemma stranded_message:
  assumes "stranded oe \<lparr>sr_platform = Some ADAPTER, sr_user = Some (show_int user), sr_group = map_option show_int grp, sr_self = self\<rparr> sid U"
    and "oe_bridge_up oe" and "plain_message (env_rt oe) (on_prefix U) m" and "process_message oe user grp self m U = (q, V)"
  shows "q = Inl (''Session not found: '' @ sid) \<and> on_inbound V = on_inbound U \<and> on_business V = on_business U \<and> on_prefix V = on_prefix U \<and>
    stranded oe \<lparr>sr_platform = Some ADAPTER, sr_user = Some (show_int user), sr_group = map_option show_int grp, sr_self = self\<rparr> sid V"
proof -
  define s where "s = \<lparr>sr_platform = Some ADAPTER, sr_user = Some (show_int user), sr_group = map_option show_int grp, sr_self = self\<rparr>"
  obtain t where t: "pieces_of (env_rt oe) m = [Some (TextPiece t)]" "py_strip t \<noteq> []" using plain_piece assms(3) by blast
  have cmd: "Option.bind (extract_text_message (env_rt oe) m) (parse_management_command (on_prefix U)) = None" using assms(3) by (simp add: plain_message_def)
  obtain r T where r: "resolve_session oe s U = (r, T)" by fastforce
  note T = stranded_resolves [OF assms(1) [folded s_def] r]
  then have gone: "dget (rs_sessions (bz_store (on_business T))) sid = None" by (auto simp: stranded_def on_sessions_def)
  have refused: "submit oe i T = (Inl (''Session not found: '' @ sid), T\<lparr>on_next := Suc (on_next T)\<rparr>)" if "in_session i = sid" for i
    using assms(2) gone that by (simp add: submit_def submit_message_def)
  have "process_message oe user grp self m U = (Inl (''Session not found: '' @ sid), T\<lparr>on_next := Suc (on_next T)\<rparr>)"
    using r T t unfolding process_message_def Let_def s_def [symmetric] cmd by (simp add: text_part_segments_def refused)
  then show ?thesis using assms(4) T unfolding s_def [symmetric]
    by (auto simp: stranded_def get_active_def on_routes_def on_sessions_def owned_def)
qed

lemma stranded_messages:
  assumes "stranded oe \<lparr>sr_platform = Some ADAPTER, sr_user = Some (show_int user), sr_group = map_option show_int grp, sr_self = self\<rparr> sid T"
    and "oe_bridge_up oe" and "list_all (plain_message (env_rt oe) (on_prefix T)) ms" and "process_messages oe user grp self ms T = (rs, U)"
  shows "rs = replicate (length ms) (Inl (''Session not found: '' @ sid)) \<and> on_inbound U = on_inbound T \<and> on_business U = on_business T"
  using assms
proof (induction ms arbitrary: T rs)
  case (Cons m ms)
  obtain q V where q: "process_message oe user grp self m T = (q, V)" by fastforce
  obtain rs' where rs': "process_messages oe user grp self ms V = (rs', U)" "rs = q # rs'"
    using Cons.prems(4) q by (auto split: prod.splits)
  have m: "plain_message (env_rt oe) (on_prefix T) m" and ms: "list_all (plain_message (env_rt oe) (on_prefix T)) ms" using Cons.prems(3) by simp_all
  note V = stranded_message [OF Cons.prems(1,2) m q]
  have "list_all (plain_message (env_rt oe) (on_prefix V)) ms" using ms V by simp
  from Cons.IH [OF _ Cons.prems(2) this rs'(1)] V rs'(2) show ?case by simp
qed simp


definition after_rm :: "unit onebot" where
  "after_rm = snd (run_command demo_onebot_env 7 None demo_sender ''rm'' ''work'' demo_onebot)"


end
