(* ===== verification/Web.thy ===== *)
theory Web
  imports Bridge Files Control Onebot "HOL-Library.Multiset"
begin

text \<open>
  The web gateway (\<^verbatim>\<open>gateway/adapters/web_gateway_adapter.py\<close>, \<^verbatim>\<open>web_gateway_ws.py\<close>): the sockets of the browser
  clients with their backlogs, where each \<open>send_json\<close> is a step of its own and those of all coroutines interleave, and the requests
  a client makes, on the gateway runtime of \<open>Onebot\<close>.
\<close>

section \<open>What is pushed\<close>

definition web_content :: "(string \<Rightarrow> string \<Rightarrow> (string \<times> string option \<times> string option) res) \<Rightarrow> outbound_message \<Rightarrow> json_object res" where
  "web_content dl m =
     (if ob_kind m \<noteq> ''file'' then Inr (ob_content m)
      else case obj_get (ob_content m) ''file_id'' of
          JStr (c # cs) \<Rightarrow> res_bind (dl (ob_session m) (c # cs)) (\<lambda>(bytes, name, mime). Inr
            [(''file_id'', JStr (c # cs)), (''filename'', JStr (case name of Some (n # ns) \<Rightarrow> n # ns | _ \<Rightarrow> c # cs)),
             (''mime_type'', json_opt JStr mime), (''size_bytes'', JInt (int (length bytes)))])
        | _ \<Rightarrow> Inl (RuntimeError ''Missing file_id in outbound file payload''))"

text \<open>The message as it is pushed, or the error before anything is; the envelope is made from it.\<close>

definition prepare_push :: "(string \<Rightarrow> string \<Rightarrow> (string \<times> string option \<times> string option) res) \<Rightarrow> outbound_message \<Rightarrow> outbound_message res" where
  "prepare_push dl m =
     (if ob_kind m \<notin> {''text'', ''file'', ''event''}
      then Inl (RuntimeError (''Unsupported outbound kind for web gateway adapter: '' @ ob_kind m))
      else if ob_session m = OUTBOUND_BROADCAST \<and> ob_kind m \<noteq> ''event''
      then Inl (RuntimeError ''Broadcast session id only supports kind=event'')
      else res_bind (web_content dl m) (\<lambda>c. Inr (m\<lparr>ob_content := c\<rparr>)))"

definition push_envelope :: "outbound_message \<Rightarrow> json_object" where
  "push_envelope m = [(''op'', JStr ''push''), (''body'', JDict (outbound_to_payload m))]"

definition fallback_message :: "string \<Rightarrow> outbound_message \<Rightarrow> outbound_message" where
  "fallback_message parent m =
     m\<lparr>ob_meta := if dget (ob_meta m) ''fc_parent_session_id'' = None then dset ''fc_parent_session_id'' (JStr parent) (ob_meta m) else ob_meta m\<rparr>"

section \<open>The sockets\<close>

text \<open>
  A socket is a number, never used twice. What goes to it belongs to a channel: the pushes of a session, those to all clients,
  or those of a session that went to its parent's sockets instead. A coroutine that is sending is a task with the
  sends it has left; the task of a connection's own handler, which replays a backlog, names its socket, and the handler does
  nothing else until it is through.
\<close>

datatype channel = OfSession string | OfAll | OfParent

datatype web_task = Sends "nat option" channel "(nat \<times> outbound_message) list" | Fallback outbound_message

record web =
  wb_sockets :: "(string, nat list) dict"
  wb_backlog :: "(string, outbound_message list) dict"
  wb_all :: "nat list"
  wb_broadcast :: "outbound_message list"
  wb_next :: nat
  wb_open :: "nat list"
  wb_tasks :: "web_task list"
  wb_seen :: "(nat \<times> channel \<times> outbound_message) list"
  wb_ended :: "nat list"

definition web_init :: web where
  "web_init = \<lparr>wb_sockets = [], wb_backlog = [], wb_all = [], wb_broadcast = [], wb_next = 0, wb_open = [], wb_tasks = [], wb_seen = [], wb_ended = []\<rparr>"

text \<open>\<open>deque(maxlen=n)\<close>\<close>

definition last_n :: "nat \<Rightarrow> 'a list \<Rightarrow> 'a list" where
  "last_n n xs = drop (length xs - n) xs"

definition SESSION_BACKLOG :: nat where "SESSION_BACKLOG = 128"

definition BROADCAST_BACKLOG :: nat where "BROADCAST_BACKLOG = 64"

definition sockets_of :: "web \<Rightarrow> string \<Rightarrow> nat list" where
  "sockets_of S sid = (case dget (wb_sockets S) sid of Some ws \<Rightarrow> ws | None \<Rightarrow> [])"

definition backlog_of :: "web \<Rightarrow> string \<Rightarrow> outbound_message list" where
  "backlog_of S sid = (case dget (wb_backlog S) sid of Some ms \<Rightarrow> ms | None \<Rightarrow> [])"

definition push_channel :: "outbound_message \<Rightarrow> channel" where
  "push_channel m = (if ob_session m = OUTBOUND_BROADCAST then OfAll else OfSession (ob_session m))"

fun subscribers :: "web \<Rightarrow> channel \<Rightarrow> nat list" where
  "subscribers S (OfSession sid) = sockets_of S sid"
| "subscribers S OfAll = wb_all S"
| "subscribers S OfParent = []"

definition busy :: "web \<Rightarrow> nat \<Rightarrow> bool" where
  "busy S w \<longleftrightarrow> list_ex (\<lambda>t. case t of Sends (Some v) _ _ \<Rightarrow> v = w | _ \<Rightarrow> False) (wb_tasks S)"

definition add_sends :: "nat option \<Rightarrow> channel \<Rightarrow> (nat \<times> outbound_message) list \<Rightarrow> web \<Rightarrow> web" where
  "add_sends owner c ps S = (if ps = [] then S else S\<lparr>wb_tasks := wb_tasks S @ [Sends owner c ps]\<rparr>)"

definition drop_nth :: "nat \<Rightarrow> 'a list \<Rightarrow> 'a list" where
  "drop_nth i xs = take i xs @ drop (Suc i) xs"

section \<open>Steps\<close>

text \<open>
  \<open>Push\<close> is the locked part of \<open>send\<close>, with the order in which the set of sockets is listed; \<open>Deliver\<close> and \<open>Lost\<close> are one
  \<open>send_json\<close> that succeeds, or fails and ends its coroutine, which for the replay of the broadcasts, sent before the \<open>try\<close> of the
  handler, is the handler without its clean-up; \<open>Reroute\<close> is the second part of \<open>send\<close> for a message that had no
  socket, with the routes of that moment; \<open>Drop\<close> is a connection that goes down; \<open>Close\<close> is the end of its handler.
\<close>

datatype web_action = Connect | Bind nat string | Push outbound_message "nat list" | Deliver nat | Lost nat
  | Reroute nat routes "nat list" | Drop nat | Close nat

definition connect :: "web \<Rightarrow> web" where
  "connect S = (let w = wb_next S in add_sends (Some w) OfAll (map (Pair w) (wb_broadcast S))
     (S\<lparr>wb_all := wb_all S @ [w], wb_open := wb_open S @ [w], wb_next := Suc w\<rparr>))"

definition bind_socket :: "nat \<Rightarrow> string \<Rightarrow> web \<Rightarrow> web" where
  "bind_socket w sid S = add_sends (Some w) (OfSession sid) (map (Pair w) (backlog_of S sid))
     (S\<lparr>wb_sockets := dset sid (if w \<in> set (sockets_of S sid) then sockets_of S sid else sockets_of S sid @ [w]) (wb_sockets S)\<rparr>)"

definition push :: "outbound_message \<Rightarrow> nat list \<Rightarrow> web \<Rightarrow> web" where
  "push m ts S =
     (if push_channel m = OfAll
      then add_sends None OfAll (map (\<lambda>w. (w, m)) ts) (S\<lparr>wb_broadcast := last_n BROADCAST_BACKLOG (wb_broadcast S @ [m])\<rparr>)
      else (let S1 = S\<lparr>wb_backlog := dset (ob_session m) (last_n SESSION_BACKLOG (backlog_of S (ob_session m) @ [m])) (wb_backlog S)\<rparr>
            in if ts = [] then S1\<lparr>wb_tasks := wb_tasks S1 @ [Fallback m]\<rparr> else add_sends None (push_channel m) (map (\<lambda>w. (w, m)) ts) S1))"

definition close_socket :: "nat \<Rightarrow> web \<Rightarrow> web" where
  "close_socket w S = S\<lparr>wb_all := filter (\<lambda>v. v \<noteq> w) (wb_all S), wb_open := filter (\<lambda>v. v \<noteq> w) (wb_open S),
     wb_sockets := map (\<lambda>(sid, ws). (sid, filter (\<lambda>v. v \<noteq> w) ws)) (wb_sockets S)\<rparr>"

definition lose :: "nat \<Rightarrow> nat option \<Rightarrow> channel \<Rightarrow> web \<Rightarrow> web" where
  "lose i owner c S = S\<lparr>wb_tasks := drop_nth i (wb_tasks S),
     wb_ended := (case owner of Some v \<Rightarrow> if c = OfAll then v # wb_ended S else wb_ended S | None \<Rightarrow> wb_ended S)\<rparr>"

definition parent_for_push :: "routes \<Rightarrow> string \<Rightarrow> string option" where
  "parent_for_push rows sid = (if py_strip sid = [] then None else get_parent_session_id rows sid)"

definition web_act :: "web_action \<Rightarrow> web \<Rightarrow> web option" where
  "web_act a S = (case a of
      Connect \<Rightarrow> Some (connect S)
    | Bind w sid \<Rightarrow> if w \<in> set (wb_all S) \<and> \<not> busy S w \<and> w \<notin> set (wb_ended S) \<and> sid \<noteq> [] then Some (bind_socket w sid S) else None
    | Push m ts \<Rightarrow> if sort ts = sort (subscribers S (push_channel m)) then Some (push m ts S) else None
    | Deliver i \<Rightarrow> if i < length (wb_tasks S) then (case wb_tasks S ! i of
          Sends owner c ((w, m) # ps) \<Rightarrow>
            (if w \<in> set (wb_open S)
             then Some (S\<lparr>wb_seen := wb_seen S @ [(w, c, m)],
                          wb_tasks := if ps = [] then drop_nth i (wb_tasks S) else (wb_tasks S)[i := Sends owner c ps]\<rparr>)
             else None)
        | _ \<Rightarrow> None) else None
    | Lost i \<Rightarrow> if i < length (wb_tasks S) then (case wb_tasks S ! i of
          Sends owner c ((w, m) # ps) \<Rightarrow> if w \<in> set (wb_open S) then None else Some (lose i owner c S)
        | _ \<Rightarrow> None) else None
    | Reroute i rows ts \<Rightarrow> if i < length (wb_tasks S) then (case wb_tasks S ! i of
          Fallback m \<Rightarrow> (case parent_for_push rows (ob_session m) of
              None \<Rightarrow> Some (S\<lparr>wb_tasks := drop_nth i (wb_tasks S)\<rparr>)
            | Some p \<Rightarrow> if sort ts = sort (sockets_of S p)
                then Some (add_sends None OfParent (map (\<lambda>w. (w, fallback_message p m)) ts) (S\<lparr>wb_tasks := drop_nth i (wb_tasks S)\<rparr>)) else None)
        | _ \<Rightarrow> None) else None
    | Drop w \<Rightarrow> Some (S\<lparr>wb_open := filter (\<lambda>v. v \<noteq> w) (wb_open S)\<rparr>)
    | Close w \<Rightarrow> if w \<in> set (wb_all S) \<and> \<not> busy S w \<and> w \<notin> set (wb_ended S) then Some (close_socket w S) else None)"

fun web_run :: "web_action list \<Rightarrow> web \<Rightarrow> web option" where
  "web_run [] S = Some S"
| "web_run (a # as) S = Option.bind (web_act a S) (web_run as)"

section \<open>Counting what goes to a socket\<close>

definition arrived :: "web \<Rightarrow> nat \<Rightarrow> channel \<Rightarrow> outbound_message multiset" where
  "arrived S w c = image_mset (\<lambda>(v, d, m). m) (filter_mset (\<lambda>(v, d, m). v = w \<and> d = c) (mset (wb_seen S)))"

fun task_owes :: "nat \<Rightarrow> channel \<Rightarrow> web_task \<Rightarrow> outbound_message multiset" where
  "task_owes w c (Sends owner d ps) = (if d = c then mset (map snd (filter (\<lambda>p. fst p = w) ps)) else {#})"
| "task_owes w c (Fallback m) = {#}"

definition under_way :: "web \<Rightarrow> nat \<Rightarrow> channel \<Rightarrow> outbound_message multiset" where
  "under_way S w c = sum_list (map (task_owes w c) (wb_tasks S))"

fun pushes :: "channel \<Rightarrow> web_action list \<Rightarrow> outbound_message list" where
  "pushes c [] = []"
| "pushes c (Push m ts # as) = (if push_channel m = c then m # pushes c as else pushes c as)"
| "pushes c (_ # as) = pushes c as"

lemma owed_drop_nth: "i < length ts \<Longrightarrow> sum_list (map f ts) = f (ts ! i) + sum_list (map f (drop_nth i ts))" for f :: "'a \<Rightarrow> 'b multiset"
  unfolding drop_nth_def by (subst id_take_nth_drop [of i ts]) (simp_all add: ac_simps)

lemma owed_update: "i < length ts \<Longrightarrow> f t + sum_list (map f (drop_nth i ts)) = sum_list (map f (ts[i := t]))" for f :: "'a \<Rightarrow> 'b multiset"
  unfolding drop_nth_def by (simp add: upd_conv_take_nth_drop ac_simps)

lemma under_way_add_sends: "under_way (add_sends owner d ps S) w c = under_way S w c + task_owes w c (Sends owner d ps)"
  by (simp add: under_way_def add_sends_def)

lemma add_sends_simps [simp]:
  "wb_sockets (add_sends owner d ps S) = wb_sockets S" "wb_backlog (add_sends owner d ps S) = wb_backlog S" "wb_all (add_sends owner d ps S) = wb_all S"
  "wb_broadcast (add_sends owner d ps S) = wb_broadcast S" "wb_next (add_sends owner d ps S) = wb_next S" "wb_open (add_sends owner d ps S) = wb_open S"
  "wb_seen (add_sends owner d ps S) = wb_seen S" "wb_ended (add_sends owner d ps S) = wb_ended S"
  by (simp_all add: add_sends_def)

lemma sends_to: "map snd (filter (\<lambda>p. fst p = w) (map (\<lambda>v. (v, m)) ts)) = replicate (count_list ts w) m"
  by (induction ts) auto

lemma replays_to: "map snd (filter (\<lambda>p. fst p = w) (map (Pair v) ms)) = (if v = w then ms else [])"
  by (induction ms) auto

lemma owes_sends [simp]: "task_owes w c (Sends owner d (map (\<lambda>v. (v, m)) ts)) = (if d = c then mset (replicate (count_list ts w) m) else {#})"
  by (simp only: task_owes.simps sends_to)

lemma owes_replay [simp]: "task_owes w c (Sends owner d (map (Pair v) ms)) = (if d = c \<and> v = w then mset ms else {#})"
  by (simp only: task_owes.simps replays_to) simp

section \<open>One step\<close>

definition web_ok :: "web \<Rightarrow> bool" where
  "web_ok S \<longleftrightarrow> distinct (wb_all S) \<and> set (wb_all S) \<subseteq> {..<wb_next S} \<and> (\<forall>sid. distinct (sockets_of S sid) \<and> set (sockets_of S sid) \<subseteq> set (wb_all S)) \<and>
     (\<forall>w c. c \<noteq> OfParent \<longrightarrow> arrived S w c + under_way S w c \<noteq> {#} \<longrightarrow> w < wb_next S \<and> (w \<in> set (wb_all S) \<longrightarrow> w \<in> set (subscribers S c)))"

lemma sockets_bind: "sockets_of (bind_socket w sid S) t = (if t = sid \<and> w \<notin> set (sockets_of S sid) then sockets_of S sid @ [w] else sockets_of S t)"
  by (simp add: sockets_of_def bind_socket_def)

lemma sockets_push [simp]: "sockets_of (push m ts S) sid = sockets_of S sid" "wb_all (push m ts S) = wb_all S" "wb_next (push m ts S) = wb_next S"
    "wb_seen (push m ts S) = wb_seen S"
  by (simp_all add: sockets_of_def push_def Let_def)

lemma sockets_close: "sockets_of (close_socket w S) sid = filter (\<lambda>v. v \<noteq> w) (sockets_of S sid)"
proof -
  have "dget (map (\<lambda>(s, ws). (s, filter (\<lambda>v. v \<noteq> w) ws)) d) sid = map_option (filter (\<lambda>v. v \<noteq> w)) (dget d sid)" for d :: "(string, nat list) dict"
    by (induction d) auto
  then show ?thesis by (simp add: sockets_of_def close_socket_def split: option.split)
qed

text \<open>What one action adds to what is due to a socket.\<close>

definition newly_due :: "nat \<Rightarrow> channel \<Rightarrow> web_action \<Rightarrow> web \<Rightarrow> outbound_message multiset" where
  "newly_due w c a S = (case a of
      Connect \<Rightarrow> if w = wb_next S \<and> c = OfAll then mset (wb_broadcast S) else {#}
    | Bind v sid \<Rightarrow> if v = w \<and> c = OfSession sid then mset (backlog_of S sid) else {#}
    | Push m ts \<Rightarrow> if push_channel m = c then mset (replicate (count_list (subscribers S c) w) m) else {#}
    | _ \<Rightarrow> {#})"

lemma arrived_cong: "wb_seen T = wb_seen S \<Longrightarrow> arrived T w c = arrived S w c"
  by (simp add: arrived_def)

lemma count_list_sorted: "sort xs = sort ys \<Longrightarrow> count_list xs w = count_list ys w" for xs :: "nat list"
  by (metis mset_sort count_mset)

lemma under_way_push:
  assumes "sort ts = sort (subscribers S (push_channel m))" and "c \<noteq> OfParent"
  shows "under_way (push m ts S) w c = under_way S w c + newly_due w c (Push m ts) S"
proof -
  have n: "count_list ts w = count_list (subscribers S (push_channel m)) w" using assms(1) by (rule count_list_sorted)
  have e: "ts = [] \<Longrightarrow> subscribers S (push_channel m) = []" using assms(1) by (metis mset_sort mset_zero_iff)
  show ?thesis
  proof (cases "push_channel m = OfAll")
    case True
    then show ?thesis using n by (simp add: push_def under_way_add_sends newly_due_def del: task_owes.simps) (simp add: under_way_def)
  next
    case False
    then show ?thesis using n e
      by (cases "ts = []"; cases "push_channel m = c") (simp_all add: push_def Let_def under_way_add_sends newly_due_def del: task_owes.simps, simp_all add: under_way_def)
  qed
qed

lemma web_step_due:
  assumes "web_act a S = Some T" and "c \<noteq> OfParent"
  shows "arrived T w c + under_way T w c \<subseteq># arrived S w c + under_way S w c + newly_due w c a S"
    and "\<forall>i. a \<noteq> Lost i \<Longrightarrow> arrived T w c + under_way T w c = arrived S w c + under_way S w c + newly_due w c a S"
proof -
  have "if \<exists>i. a = Lost i then arrived T w c + under_way T w c \<subseteq># arrived S w c + under_way S w c
      else arrived T w c + under_way T w c = arrived S w c + under_way S w c + newly_due w c a S"
  proof (cases a)
    case Connect
    then show ?thesis using assms
      by (auto simp: web_act_def connect_def Let_def under_way_add_sends newly_due_def arrived_def simp del: task_owes.simps) (auto simp: under_way_def)
  next
    case (Bind v sid)
    then show ?thesis using assms
      by (auto simp: web_act_def bind_socket_def under_way_add_sends newly_due_def arrived_def simp del: task_owes.simps split: if_splits) (auto simp: under_way_def)
  next
    case (Push m ts)
    then have "T = push m ts S" "sort ts = sort (subscribers S (push_channel m))" using assms(1) by (auto simp: web_act_def split: if_splits)
    then show ?thesis using under_way_push [OF _ assms(2)] Push arrived_cong [of T S] by simp
  next
    case (Deliver i)
    then obtain owner d v m ps where t: "i < length (wb_tasks S)" "wb_tasks S ! i = Sends owner d ((v, m) # ps)"
        "T = S\<lparr>wb_seen := wb_seen S @ [(v, d, m)], wb_tasks := if ps = [] then drop_nth i (wb_tasks S) else (wb_tasks S)[i := Sends owner d ps]\<rparr>"
      using assms(1) by (auto simp: web_act_def split: if_splits web_task.splits list.splits prod.splits)
    have "arrived T w c = arrived S w c + (if v = w \<and> d = c then {#m#} else {#})" using t(3) by (simp add: arrived_def)
    moreover have "under_way S w c = task_owes w c (Sends owner d ((v, m) # ps)) + sum_list (map (task_owes w c) (drop_nth i (wb_tasks S)))"
      using owed_drop_nth [OF t(1), of "task_owes w c"] t(2) by (simp add: under_way_def)
    moreover have "under_way T w c = task_owes w c (Sends owner d ps) + sum_list (map (task_owes w c) (drop_nth i (wb_tasks S)))"
      using t(3) owed_update [OF t(1), of "task_owes w c" "Sends owner d ps"] by (auto simp: under_way_def split: if_splits)
    ultimately show ?thesis using Deliver by (auto simp: newly_due_def)
  next
    case (Lost i)
    then obtain owner d where t: "i < length (wb_tasks S)" "T = lose i owner d S"
      using assms(1) by (auto simp: web_act_def split: if_splits web_task.splits list.splits prod.splits)
    then show ?thesis using Lost owed_drop_nth [OF t(1), of "task_owes w c"] by (simp add: under_way_def arrived_def lose_def)
  next
    case (Reroute i rows ts)
    obtain m where t: "i < length (wb_tasks S)" "wb_tasks S ! i = Fallback m"
      using assms(1) Reroute by (auto simp: web_act_def split: if_splits web_task.splits)
    have "\<exists>ps. T = add_sends None OfParent ps (S\<lparr>wb_tasks := drop_nth i (wb_tasks S)\<rparr>)"
    proof (cases "parent_for_push rows (ob_session m)")
      case None
      then have "T = add_sends None OfParent [] (S\<lparr>wb_tasks := drop_nth i (wb_tasks S)\<rparr>)" using assms(1) Reroute t by (simp add: web_act_def add_sends_def)
      then show ?thesis by blast
    next
      case (Some q)
      then show ?thesis using assms(1) Reroute t by (auto simp: web_act_def split: if_splits)
    qed
    then obtain ps where T: "T = add_sends None OfParent ps (S\<lparr>wb_tasks := drop_nth i (wb_tasks S)\<rparr>)" by blast
    have "arrived T w c = arrived S w c" by (simp add: T arrived_def)
    moreover have "under_way T w c = under_way S w c"
      using owed_drop_nth [OF t(1), of "task_owes w c"] t(2) assms(2) unfolding T under_way_add_sends by (simp add: under_way_def)
    ultimately show ?thesis using Reroute by (simp add: newly_due_def)
  qed (use assms in \<open>auto simp: web_act_def under_way_def arrived_def newly_due_def close_socket_def split: if_splits\<close>)
  then show "arrived T w c + under_way T w c \<subseteq># arrived S w c + under_way S w c + newly_due w c a S"
    and "\<forall>i. a \<noteq> Lost i \<Longrightarrow> arrived T w c + under_way T w c = arrived S w c + under_way S w c + newly_due w c a S"
    by (auto split: if_splits intro: subset_mset.order_trans)
qed

section \<open>What stays true of the sockets\<close>

lemma web_act_sockets:
  assumes "web_act a S = Some T"
  shows "sockets_of T sid = (case a of
      Bind w t \<Rightarrow> if t = sid \<and> w \<notin> set (sockets_of S sid) then sockets_of S sid @ [w] else sockets_of S sid
    | Close w \<Rightarrow> filter (\<lambda>v. v \<noteq> w) (sockets_of S sid) | _ \<Rightarrow> sockets_of S sid)"
    and "wb_all T = (case a of Connect \<Rightarrow> wb_all S @ [wb_next S] | Close w \<Rightarrow> filter (\<lambda>v. v \<noteq> w) (wb_all S) | _ \<Rightarrow> wb_all S)"
    and "wb_next T = (if a = Connect then Suc (wb_next S) else wb_next S)"
proof -
  have same: "sockets_of (S\<lparr>wb_tasks := x\<rparr>) sid = sockets_of S sid" "sockets_of (add_sends None OfParent ps (S\<lparr>wb_tasks := x\<rparr>)) sid = sockets_of S sid"
    "sockets_of (S\<lparr>wb_seen := y, wb_tasks := x\<rparr>) sid = sockets_of S sid" "sockets_of (S\<lparr>wb_open := z\<rparr>) sid = sockets_of S sid" "sockets_of (lose i owner c S) sid = sockets_of S sid" for x y z ps i owner c
    by (simp_all add: sockets_of_def lose_def)
  show "sockets_of T sid = (case a of
      Bind w t \<Rightarrow> if t = sid \<and> w \<notin> set (sockets_of S sid) then sockets_of S sid @ [w] else sockets_of S sid
    | Close w \<Rightarrow> filter (\<lambda>v. v \<noteq> w) (sockets_of S sid) | _ \<Rightarrow> sockets_of S sid)"
    using assms
    by (cases a) (auto simp: web_act_def sockets_bind sockets_close same connect_def Let_def split: if_splits web_task.splits list.splits prod.splits option.splits,
        simp_all add: sockets_of_def)
  show "wb_all T = (case a of Connect \<Rightarrow> wb_all S @ [wb_next S] | Close w \<Rightarrow> filter (\<lambda>v. v \<noteq> w) (wb_all S) | _ \<Rightarrow> wb_all S)"
    using assms
    by (cases a) (auto simp: web_act_def connect_def bind_socket_def close_socket_def lose_def Let_def split: if_splits web_task.splits list.splits prod.splits option.splits)
  show "wb_next T = (if a = Connect then Suc (wb_next S) else wb_next S)"
    using assms
    by (cases a) (auto simp: web_act_def connect_def bind_socket_def close_socket_def lose_def Let_def split: if_splits web_task.splits list.splits prod.splits option.splits)
qed

lemma subscribers_stay:
  assumes "web_act a S = Some T" and "w \<in> set (subscribers S c)" and "a \<noteq> Close w"
  shows "w \<in> set (subscribers T c)"
  using assms web_act_sockets [OF assms(1)] by (cases c; cases a) auto

lemma subscribers_all: "web_ok S \<Longrightarrow> set (subscribers S c) \<subseteq> set (wb_all S) \<and> distinct (subscribers S c)"
  by (cases c) (auto simp: web_ok_def)

lemma web_ok_init: "web_ok web_init"
  by (simp add: web_ok_def web_init_def sockets_of_def arrived_def under_way_def)

lemma web_ok_step:
  assumes "web_ok S" and "web_act a S = Some T"
  shows "web_ok T"
proof -
  note sockets = web_act_sockets [OF assms(2)]
  have wf: "distinct (wb_all S)" "set (wb_all S) \<subseteq> {..<wb_next S}" "\<And>sid. distinct (sockets_of S sid)" "\<And>sid. set (sockets_of S sid) \<subseteq> set (wb_all S)"
    using assms(1) by (auto simp: web_ok_def)
  have bound: "w \<in> set (wb_all S)" if "a = Bind w sid" for w sid using assms(2) that by (auto simp: web_act_def split: if_splits)
  have "distinct (wb_all T)" using wf(1,2) sockets(2) by (cases a) auto
  moreover have "set (wb_all T) \<subseteq> {..<wb_next T}" using wf(2) sockets(2,3) by (cases a) auto
  moreover have "distinct (sockets_of T sid)" for sid using wf(3) sockets(1) by (cases a) auto
  moreover have "set (sockets_of T sid) \<subseteq> set (wb_all T)" for sid using wf(4) sockets(1,2) bound by (cases a) (auto split: if_splits)
  moreover have "w < wb_next T \<and> (w \<in> set (wb_all T) \<longrightarrow> w \<in> set (subscribers T c))"
    if c: "c \<noteq> OfParent" and due: "arrived T w c + under_way T w c \<noteq> {#}" for w c
  proof -
    have "arrived S w c + under_way S w c \<noteq> {#} \<or> newly_due w c a S \<noteq> {#}"
      using web_step_due(1) [OF assms(2) c, of w] due by (metis empty_neutral(1) subset_mset.le_zero_eq)
    then have "w < wb_next S \<and> (w \<in> set (wb_all S) \<longrightarrow> w \<in> set (subscribers S c)) \<or> newly_due w c a S \<noteq> {#}"
      using assms(1) c by (auto simp: web_ok_def)
    then show ?thesis
    proof
      assume old: "w < wb_next S \<and> (w \<in> set (wb_all S) \<longrightarrow> w \<in> set (subscribers S c))"
      have "w \<in> set (wb_all T) \<Longrightarrow> w \<in> set (wb_all S) \<and> a \<noteq> Close w" using old sockets(2) by (cases a) auto
      then show ?thesis using old sockets(3) subscribers_stay [OF assms(2)] by auto
    next
      assume new: "newly_due w c a S \<noteq> {#}"
      show ?thesis
      proof (cases a)
        case Connect
        then show ?thesis using new sockets by (auto simp: newly_due_def split: if_splits)
      next
        case (Bind v sid)
        then show ?thesis using new sockets bound wf(2) by (auto simp: newly_due_def split: if_splits)
      next
        case (Push m ts)
        then have "w \<in> set (subscribers S c)" using new by (auto simp: newly_due_def count_list_0_iff split: if_splits)
        then show ?thesis using Push subscribers_stay [OF assms(2)] subscribers_all [OF assms(1), of c] wf(2) sockets(3) by auto
      qed (use new in \<open>simp_all add: newly_due_def\<close>)
    qed
  qed
  ultimately show ?thesis by (auto simp: web_ok_def)
qed

lemma web_ok_run: "web_ok S \<Longrightarrow> web_run as S = Some T \<Longrightarrow> web_ok T"
  by (induction as arbitrary: S) (auto simp: bind_eq_Some_conv intro: web_ok_step)

section \<open>Exactly once\<close>

lemma newly_due_subscriber:
  assumes "web_ok S" and "w \<in> set (subscribers S c)" and "a \<noteq> Bind w sid" and "c = OfSession sid"
  shows "newly_due w c a S = mset (pushes c [a])"
proof -
  have "count_list (subscribers S c) w = 1"
    using subscribers_all [OF assms(1), of c] assms(2) by (metis count_mset count_mset_0_iff distinct_count_atmost_1)
  then show ?thesis using assms by (cases a) (auto simp: newly_due_def)
qed

lemma pushes_Cons: "pushes c (a # as) = pushes c [a] @ pushes c as"
  by (cases a) auto

lemma due_run:
  assumes "web_ok S" and "w \<in> set (sockets_of S sid)" and "web_run as S = Some T" and "Close w \<notin> set as" and "Bind w sid \<notin> set as"
  shows "arrived T w (OfSession sid) + under_way T w (OfSession sid) \<subseteq># arrived S w (OfSession sid) + under_way S w (OfSession sid) + mset (pushes (OfSession sid) as)"
    and "\<forall>i. Lost i \<notin> set as \<Longrightarrow>
      arrived T w (OfSession sid) + under_way T w (OfSession sid) = arrived S w (OfSession sid) + under_way S w (OfSession sid) + mset (pushes (OfSession sid) as)"
proof -
  let ?due = "\<lambda>S. arrived S w (OfSession sid) + under_way S w (OfSession sid)"
  have "?due T \<subseteq># ?due S + mset (pushes (OfSession sid) as) \<and> ((\<forall>i. Lost i \<notin> set as) \<longrightarrow> ?due T = ?due S + mset (pushes (OfSession sid) as))"
    using assms
  proof (induction as arbitrary: S)
    case (Cons a as)
    then obtain U where U: "web_act a S = Some U" "web_run as U = Some T" by (auto simp: bind_eq_Some_conv)
    have w: "w \<in> set (sockets_of U sid)" using subscribers_stay [OF U(1), of w "OfSession sid"] Cons.prems(2,4) by auto
    have "newly_due w (OfSession sid) a S = mset (pushes (OfSession sid) [a])" using newly_due_subscriber [OF Cons.prems(1)] Cons.prems(2,5) by auto
    note step = web_step_due [OF U(1), of "OfSession sid" w, unfolded this]
    have IH: "?due T \<subseteq># ?due U + mset (pushes (OfSession sid) as)" "(\<forall>i. Lost i \<notin> set as) \<longrightarrow> ?due T = ?due U + mset (pushes (OfSession sid) as)"
      using Cons.IH [OF web_ok_step [OF Cons.prems(1) U(1)] w U(2)] Cons.prems(4,5) by simp_all
    have "?due T \<subseteq># ?due S + mset (pushes (OfSession sid) [a]) + mset (pushes (OfSession sid) as)"
      using IH(1) step(1) by (meson channel.distinct(3) subset_mset.add_right_mono subset_mset.order_trans)
    moreover have "(\<forall>i. Lost i \<notin> set (a # as)) \<longrightarrow> ?due T = ?due S + mset (pushes (OfSession sid) [a]) + mset (pushes (OfSession sid) as)"
      using IH(2) step(2) by auto
    ultimately show ?case by (subst (1 2) pushes_Cons) (simp add: ac_simps)
  qed simp
  then show "?due T \<subseteq># ?due S + mset (pushes (OfSession sid) as)" and "\<forall>i. Lost i \<notin> set as \<Longrightarrow> ?due T = ?due S + mset (pushes (OfSession sid) as)" by auto
qed

lemma last_n_append: "last_n n (last_n n xs @ ys) = last_n n (xs @ ys)"
  by (cases "length xs \<le> n") (auto simp: last_n_def min_def add.commute)

lemma backlog_step: "web_act a S = Some T \<Longrightarrow> backlog_of T sid = (if pushes (OfSession sid) [a] = [] then backlog_of S sid
    else last_n SESSION_BACKLOG (backlog_of S sid @ pushes (OfSession sid) [a]))"
  by (cases a) (auto simp: web_act_def backlog_of_def connect_def bind_socket_def push_def close_socket_def push_channel_def lose_def Let_def
      split: if_splits web_task.splits list.splits prod.splits option.splits)

lemma backlog_run: "web_run as S = Some T \<Longrightarrow> last_n SESSION_BACKLOG (backlog_of S sid) = backlog_of S sid \<Longrightarrow>
    backlog_of T sid = last_n SESSION_BACKLOG (backlog_of S sid @ pushes (OfSession sid) as)"
proof (induction as arbitrary: S)
  case (Cons a as)
  then obtain U where U: "web_act a S = Some U" "web_run as U = Some T" by (auto simp: bind_eq_Some_conv)
  have "backlog_of U sid = last_n SESSION_BACKLOG (backlog_of S sid @ pushes (OfSession sid) [a])" using backlog_step [OF U(1)] Cons.prems(2) by simp
  moreover from this have "last_n SESSION_BACKLOG (backlog_of U sid) = backlog_of U sid" using last_n_append [of _ _ "[]"] by simp
  ultimately have "backlog_of T sid = last_n SESSION_BACKLOG (last_n SESSION_BACKLOG (backlog_of S sid @ pushes (OfSession sid) [a]) @ pushes (OfSession sid) as)"
    using Cons.IH [OF U(2)] by simp
  then show ?case by (subst pushes_Cons) (simp add: last_n_append)
qed simp


definition demo_push :: "string \<Rightarrow> outbound_message" where
  "demo_push t = \<lparr>ob_session = ''s1'', ob_kind = ''text'', ob_content = [(''text'', JStr t)], ob_meta = [], ob_adapter = None, ob_sender = None\<rparr>"

text \<open>A socket that binds while older pushes wait: a push that comes then can overtake the replay.\<close>

definition overtaking_run :: "web_action list" where
  "overtaking_run = [Push (demo_push ''new'') [0], Deliver 2, Deliver 1]"

definition bound_web :: web where
  "bound_web = the (web_run [Connect, Push (demo_push ''old'') [], Bind 0 ''s1''] web_init)"

definition overtaken_web :: web where
  "overtaken_web = the (web_run overtaking_run bound_web)"


section \<open>Connections that are down\<close>

text \<open>A push to several sockets stops at the first one that is down: the sockets after it get nothing of it, neither now nor later.\<close>

lemma dead_socket_starves_the_others:
  assumes "wb_tasks S = ts @ [Sends None c ((w, m) # ps)]" and "w \<notin> set (wb_open S)"
  shows "web_act (Deliver (length ts)) S = None \<and> web_act (Lost (length ts)) S = Some (S\<lparr>wb_tasks := ts\<rparr>)"
  using assms by (simp add: web_act_def drop_nth_def lose_def)

lemma leaked_step:
  assumes "web_act a S = Some T" and "w \<in> set (wb_ended S)" and "w \<in> set (wb_all S)" and "w \<notin> set (wb_open S)" and "w < wb_next S"
  shows "w \<in> set (wb_ended T) \<and> w \<in> set (wb_all T) \<and> w \<notin> set (wb_open T) \<and> w < wb_next T"
  using assms
  by (cases a) (auto simp: web_act_def connect_def bind_socket_def push_def close_socket_def lose_def Let_def
      split: if_splits web_task.splits list.splits prod.splits option.splits)

lemma leaked_run:
  assumes "web_run as S = Some T" and "w \<in> set (wb_ended S)" and "w \<in> set (wb_all S)" and "w \<notin> set (wb_open S)" and "w < wb_next S"
  shows "w \<in> set (wb_all T) \<and> w \<notin> set (wb_open T)"
  using assms
proof (induction as arbitrary: S)
  case (Cons a as)
  then obtain U where "web_act a S = Some U" "web_run as U = Some T" by (auto simp: bind_eq_Some_conv)
  then show ?case using Cons.IH leaked_step [of a S U w] Cons.prems by blast
qed simp

text \<open>C34. When a connection goes down while the broadcasts are replayed to it, its handler ends outside the clean-up and the
  socket is never unregistered: from then on, for ever, every broadcast is sent to it too, and a broadcast that lists it first reaches none of
  the clients that are connected.\<close>

theorem failed_replay_leaks_socket:
  assumes "web_run as web_init = Some S" and "i < length (wb_tasks S)" and "wb_tasks S ! i = Sends (Some w) OfAll ((w, old) # ps)"
    and "web_act (Lost i) S = Some S1" and "w \<in> set (wb_all S)" and "web_run bs S1 = Some T"
    and "web_act (Push m (w # ts)) T = Some U" and "push_channel m = OfAll"
  shows "w \<in> set (wb_all T) \<and> web_act (Deliver (length (wb_tasks T))) U = None \<and>
    web_act (Lost (length (wb_tasks T))) U = Some (U\<lparr>wb_tasks := wb_tasks T\<rparr>)"
proof -
  have down: "w \<notin> set (wb_open S)" and S1: "S1 = lose i (Some w) OfAll S" using assms(2-4) by (auto simp: web_act_def split: if_splits)
  have "w < wb_next S" using web_ok_run [OF web_ok_init assms(1)] assms(5) by (auto simp: web_ok_def)
  then have T: "w \<in> set (wb_all T) \<and> w \<notin> set (wb_open T)"
    using leaked_run [OF assms(6), of w] S1 assms(5) down by (simp add: lose_def)
  have "U = push m (w # ts) T" using assms(7) by (auto simp: web_act_def split: if_splits)
  then have "wb_tasks U = wb_tasks T @ [Sends None OfAll ((w, m) # map (\<lambda>v. (v, m)) ts)]" "wb_open U = wb_open T"
    using assms(8) by (simp_all add: push_def add_sends_def)
  then show ?thesis using dead_socket_starves_the_others [of U] T by simp
qed

definition beat :: outbound_message where
  "beat = \<lparr>ob_session = OUTBOUND_BROADCAST, ob_kind = ''event'', ob_content = [], ob_meta = [], ob_adapter = Some ''http'', ob_sender = None\<rparr>"

definition leaking_web :: web where
  "leaking_web = the (web_run [Push beat [], Connect, Drop 0] web_init)"

definition leaked_web :: web where
  "leaked_web = the (web_act (Lost 0) leaking_web)"

definition later_web :: web where
  "later_web = the (web_run [Connect, Deliver 0] leaked_web)"

theorem failed_replay_leaks_socket_witness:
  "wb_all later_web = [0, 1] \<and> wb_open later_web = [1] \<and>
   web_act (Deliver 0) (the (web_act (Push beat [0, 1]) later_web)) = None"
proof (intro conjI)
  show "wb_all later_web = [0, 1]" "wb_open later_web = [1]" by code_simp+
  have 1: "web_run [Push beat [], Connect, Drop 0] web_init = Some leaking_web" "web_act (Lost 0) leaking_web = Some leaked_web"
    "web_run [Connect, Deliver 0] leaked_web = Some later_web" "web_act (Push beat [0, 1]) later_web = Some (the (web_act (Push beat [0, 1]) later_web))"
    "push_channel beat = OfAll" by code_simp+
  have 2: "wb_tasks leaking_web = [Sends (Some 0) OfAll [(0, beat)]]" "wb_all leaking_web = [0]" "wb_tasks later_web = []" by code_simp+
  from failed_replay_leaks_socket [OF 1(1) _ _ 1(2) _ 1(3) 1(4) 1(5), of beat "[]"] 2
  show "web_act (Deliver 0) (the (web_act (Push beat [0, 1]) later_web)) = None" by simp
qed

section \<open>Requests\<close>

text \<open>
  The socket server: the sockets, the gateway runtime with the database, and the business side the control operations reach over
  the bridge. The validation of a segment's size and the texts of exceptions are the libraries'; the times of the sessions and the
  limits of the current month are given.
\<close>

record ('h, 'c) web_server =
  ws_web :: web
  ws_runtime :: "'h onebot"
  ws_control :: "'c control_state"

record web_env =
  we_onebot :: onebot_env
  we_control :: control_env
  we_error_text :: "control_error \<Rightarrow> string"
  we_size_ok :: "json \<Rightarrow> bool"
  we_max_bytes :: int
  we_client_max :: int
  we_chunk :: int
  we_server_chunk :: int
  we_sha :: "string \<Rightarrow> string"
  we_created :: "string \<Rightarrow> int"
  we_now :: int
  we_month :: "int \<times> int"
  we_onebot_there :: bool

definition WEB_ADAPTER :: string where
  "WEB_ADAPTER = ''http''"

definition we_rt :: "web_env \<Rightarrow> py_runtime" where
  "we_rt we = env_rt (we_onebot we)"

definition we_exc :: "web_env \<Rightarrow> py_error \<Rightarrow> string" where
  "we_exc we = be_exc_text (oe_business (we_onebot we))"

definition ws_business :: "('h, 'c) web_server \<Rightarrow> 'h business" where
  "ws_business S = on_business (ws_runtime S)"

text \<open>A stripped text field of the request.\<close>

definition body_text :: "web_env \<Rightarrow> json_object \<Rightarrow> string \<Rightarrow> string" where
  "body_text we body k = py_strip (str_field (we_rt we) body k)"

subsection \<open>Chat\<close>

definition optional_str :: "json \<Rightarrow> bool" where
  "optional_str v = (case v of JNull \<Rightarrow> True | JStr _ \<Rightarrow> True | _ \<Rightarrow> False)"

definition optional_dict :: "json \<Rightarrow> bool" where
  "optional_dict v = (case v of JNull \<Rightarrow> True | JDict _ \<Rightarrow> True | _ \<Rightarrow> False)"

definition valid_segment :: "web_env \<Rightarrow> json \<Rightarrow> bool" where
  "valid_segment we v = (case v of
      JDict d \<Rightarrow> (case obj_get d ''type'' of JStr _ \<Rightarrow> True | _ \<Rightarrow> False) \<and>
        list_all (\<lambda>k. optional_str (obj_get d k)) [''content'', ''file_id'', ''path'', ''absolute_path'', ''name'', ''mime_type''] \<and>
        optional_dict (obj_get d ''image_url'') \<and> (obj_get d ''size'' = JNull \<or> we_size_ok we (obj_get d ''size''))
    | _ \<Rightarrow> False)"

definition json_text :: "json \<Rightarrow> string" where
  "json_text v = (case v of JStr s \<Rightarrow> s | _ \<Rightarrow> [])"

definition chat_segment :: "json \<Rightarrow> content_segment list" where
  "chat_segment v = (case v of
      JDict d \<Rightarrow>
        (let t = json_text (obj_get d ''type'')
         in if t = ''text'' then [text_segment (JStr (json_text (obj_get d ''content'')))]
            else if t = ''image_url'' \<and> truthy (obj_get d ''image_url'')
            then (case obj_get d ''image_url'' of
                    JDict i \<Rightarrow> if truthy (obj_get i ''url'') then [(image_url_segment [])\<lparr>sg_image_url := JDict [(''url'', obj_get i ''url'')]\<rparr>] else []
                  | _ \<Rightarrow> [])
            else if t = ''file'' \<and> json_text (obj_get d ''file_id'') \<noteq> [] then [file_segment (json_text (obj_get d ''file_id'')) None]
            else [])
    | _ \<Rightarrow> [])"

definition speaks :: "json \<Rightarrow> bool" where
  "speaks v = (case v of JDict d \<Rightarrow> obj_get d ''type'' = JStr ''text'' \<and> py_strip (json_text (obj_get d ''content'')) \<noteq> [] | _ \<Rightarrow> False)"

definition PROCESSING :: string where
  "PROCESSING = ''Message received, processing in background.''"

definition STORED :: string where
  "STORED = ''Message received and stored. Waiting for text input to trigger processing.''"

definition web_chat :: "web_env \<Rightarrow> json_object \<Rightarrow> ('h, 'c) web_server \<Rightarrow> (string + json_object) \<times> ('h, 'c) web_server" where
  "web_chat we body S =
     (let sid = body_text we body ''session_id''
      in if sid = [] then (Inl ''session_id required'', S)
         else case py_or (obj_get body ''segments'') (JList []) of
             JList vs \<Rightarrow>
               (if \<not> list_all (valid_segment we) vs then (Inl (we_exc we ValueError), S)
                else let ss = concat (map chat_segment vs); trigger = (ss \<noteq> [] \<and> list_ex speaks vs);
                         m = \<lparr>in_session = sid, in_adapter = WEB_ADAPTER, in_segments = ss, in_trigger = trigger, in_sender = None, in_task_type = None,
                              in_groups = None, in_meta = [(''message_id'', JStr (''ws_msg_'' @ oe_fresh (we_onebot we) (on_next (ws_runtime S))))]\<rparr>
                     in case submit (we_onebot we) m (ws_runtime S) of
                          (Inl x, R) \<Rightarrow> (Inl x, S\<lparr>ws_runtime := R\<rparr>)
                        | (Inr _, R) \<Rightarrow> (Inr [(''status'', JStr ''accepted''), (''message'', JStr (if trigger then PROCESSING else STORED))], S\<lparr>ws_runtime := R\<rparr>))
           | _ \<Rightarrow> (Inl (we_exc we ValueError), S))"

subsection \<open>Sessions\<close>

definition web_create :: "web_env \<Rightarrow> json_object \<Rightarrow> ('h, 'c) web_server \<Rightarrow> (string + json_object) \<times> ('h, 'c) web_server" where
  "web_create we body S =
     (if \<not> optional_str (obj_get body ''title'') then (Inl (we_exc we ValueError), S)
      else let title = (case obj_get body ''title'' of JStr t \<Rightarrow> Some t | _ \<Rightarrow> None);
               meta = (case obj_get body ''meta'' of JDict d \<Rightarrow> d | _ \<Rightarrow> [])
           in case gateway_open (we_onebot we) WEB_ADAPTER (py_str (we_rt we) (py_or (obj_get body ''platform'') (JStr ''web''))) title meta [] (ws_runtime S) of
                (Inl x, R) \<Rightarrow> (Inl x, S\<lparr>ws_runtime := R\<rparr>)
              | (Inr sid, R) \<Rightarrow> (Inr [(''session_id'', JStr sid), (''title'', json_opt JStr title), (''created_at'', JInt (we_now we))], S\<lparr>ws_runtime := R\<rparr>))"

text \<open>The socket is bound in one step; the replay of the backlog is a task of its own.\<close>

definition web_bind :: "web_env \<Rightarrow> nat \<Rightarrow> json_object \<Rightarrow> ('h, 'c) web_server \<Rightarrow> (string + json_object) \<times> ('h, 'c) web_server" where
  "web_bind we w body S =
     (let sid = body_text we body ''session_id''
      in if sid = [] then (Inl ''session_id required'', S)
         else (Inr [(''bound'', JBool True), (''session_id'', JStr sid)], S\<lparr>ws_web := bind_socket w sid (ws_web S)\<rparr>))"

definition web_sessions :: "web_env \<Rightarrow> ('h, 'c) web_server \<Rightarrow> json list" where
  "web_sessions we S =
     (let updated = oe_updated (we_onebot we);
          own = filter (\<lambda>(sid, s). se_platform s = ''web'') (on_sessions (ws_runtime S))
      in map (session_summary (bz_rows (ws_business S)))
           (sort_key (\<lambda>p. - sx_updated (snd p)) (map (\<lambda>(sid, s). (sid, \<lparr>sx_title = se_title s, sx_created = we_created we sid, sx_updated = updated sid\<rparr>)) own)))"

subsection \<open>Usage\<close>

definition child_sessions :: "routes \<Rightarrow> string \<Rightarrow> string list" where
  "child_sessions rows p = filter (\<lambda>c. c \<noteq> []) (map py_strip (list_by_parent_session rows p))"

lemma child_sessions_keys: "set (child_sessions rows p) \<subseteq> py_strip ` set (dkeys rows)"
  by (auto simp: child_sessions_def list_by_parent_session_def)

function collect_sessions :: "routes \<Rightarrow> string list \<Rightarrow> string list \<Rightarrow> string list" where
  "collect_sessions rows [] visited = visited"
| "collect_sessions rows (cur # queue) visited =
     (if cur \<in> set visited then collect_sessions rows queue visited
      else collect_sessions rows (queue @ filter (\<lambda>c. c \<notin> set (visited @ [cur])) (child_sessions rows cur)) (visited @ [cur]))"
  by pat_completeness auto

termination
proof (relation "measures [\<lambda>(rows, queue, visited). card ((py_strip ` set (dkeys rows) \<union> set queue) - set visited), \<lambda>(rows, queue, visited). length queue]",
    simp, goal_cases)
  case (1 rows cur queue visited)
  have "card ((py_strip ` set (dkeys rows) \<union> set queue) - set visited) \<le> card ((py_strip ` set (dkeys rows) \<union> set (cur # queue)) - set visited)"
    by (rule card_mono) auto
  then show ?case by auto
next
  case (2 rows cur queue visited)
  let ?next = "queue @ filter (\<lambda>c. c \<notin> set (visited @ [cur])) (child_sessions rows cur)"
  have "card ((py_strip ` set (dkeys rows) \<union> set ?next) - set (visited @ [cur])) < card ((py_strip ` set (dkeys rows) \<union> set (cur # queue)) - set visited)"
    by (rule psubset_card_mono) (use 2 child_sessions_keys [of rows cur] in auto)
  then show ?case by simp
qed

definition collect_usage_session_ids :: "routes \<Rightarrow> string \<Rightarrow> string list" where
  "collect_usage_session_ids rows sid = collect_sessions rows [sid] []"

definition usage_sum :: "(usage_tokens \<Rightarrow> int option) \<Rightarrow> event_row list \<Rightarrow> int" where
  "usage_sum f rows = sum_list (map (\<lambda>r. case f (ev_usage r) of Some n \<Rightarrow> n | None \<Rightarrow> 0) rows)"

definition usage_rows :: "string list option \<Rightarrow> (int \<times> int) option \<Rightarrow> event_row list \<Rightarrow> event_row list" where
  "usage_rows sids month rows = filter (\<lambda>r. (case sids of None \<Rightarrow> True | Some xs \<Rightarrow> ev_session r \<in> set (filter (\<lambda>x. x \<noteq> []) xs)) \<and>
     (case month of None \<Rightarrow> True | Some (a, b) \<Rightarrow> a \<le> ev_time r \<and> ev_time r < b)) rows"

definition usage_totals :: "string list option \<Rightarrow> (int \<times> int) option \<Rightarrow> event_row list \<Rightarrow> int \<times> int \<times> int" where
  "usage_totals sids month rows = (let rs = usage_rows sids month rows in (usage_sum use_prompt rs, usage_sum use_completion rs, usage_sum use_total rs))"

definition web_usage :: "web_env \<Rightarrow> string \<Rightarrow> ('h, 'c) web_server \<Rightarrow> json_object" where
  "web_usage we sid S =
     (let rows = bz_rows (ws_business S);
          (p, c, t) = usage_totals (Some (collect_usage_session_ids (on_routes (ws_runtime S)) sid)) None rows;
          (mp, mc, mt) = usage_totals None (Some (we_month we)) rows
      in [(''session_id'', JStr sid), (''session_prompt_tokens_used'', JInt p), (''session_completion_tokens_used'', JInt c), (''session_tokens_used'', JInt t),
          (''month_prompt_tokens_used'', JInt mp), (''month_completion_tokens_used'', JInt mc), (''month_tokens_used'', JInt mt)])"

subsection \<open>Files\<close>

definition web_upload :: "web_env \<Rightarrow> json_object \<Rightarrow> ('h, 'c) web_server \<Rightarrow> (string + json_object) \<times> ('h, 'c) web_server" where
  "web_upload we body S =
     (let rt = we_rt we; sid = body_text we body ''session_id''; name = py_str rt (py_or (obj_get body ''filename'') (JStr ''unnamed'')); n = on_next (ws_runtime S)
      in case obj_get body ''content_base64'' of
           JStr b64 \<Rightarrow>
             (if sid = [] then (Inl ''session_id and content_base64 required'', S)
              else case b64decode b64 of
                  Inl e \<Rightarrow> (Inl (we_exc we e), S)
                | Inr raw \<Rightarrow>
                    (if we_max_bytes we < int (length raw) then (Inl ''file too large'', S)
                     else if \<not> oe_bridge_up (we_onebot we) then (Inl ''bridge'', S)
                     else case upload_file rt (we_sha we) (we_client_max we) (we_chunk we) (''upload_'' @ oe_fresh (we_onebot we) n) (''file_'' @ oe_fresh (we_onebot we) n)
                         \<lparr>fi_session = sid, fi_adapter = WEB_ADAPTER, fi_message = ''ws_file_'' @ oe_fresh (we_onebot we) n, fi_filename = name,
                          fi_size = 0, fi_sha = [], fi_mime = (case obj_get body ''mime_type'' of JStr mt \<Rightarrow> Some mt | _ \<Rightarrow> None)\<rparr>
                         raw (bz_files (ws_business S)) of
                       (r, F) \<Rightarrow>
                         (let T = S\<lparr>ws_runtime := (ws_runtime S)\<lparr>on_business := (ws_business S)\<lparr>bz_files := F\<rparr>, on_next := Suc n\<rparr>\<rparr>
                          in case r of
                               Inl e \<Rightarrow> (Inl (we_exc we e), T)
                             | Inr fid \<Rightarrow> (Inr [(''file_id'', JStr fid), (''filename'', JStr name), (''size'', JInt (int (length raw))), (''created_at'', JInt (we_now we))], T))))
         | _ \<Rightarrow> (Inl ''session_id and content_base64 required'', S))"

definition web_download :: "web_env \<Rightarrow> json_object \<Rightarrow> ('h, 'c) web_server \<Rightarrow> string + json_object" where
  "web_download we body S =
     (let sid = body_text we body ''session_id''; fid = body_text we body ''file_id''
      in if sid = [] \<or> fid = [] then Inl ''session_id and file_id required''
         else if \<not> oe_bridge_up (we_onebot we) then Inl ''bridge''
         else case download_file (we_rt we) (we_server_chunk we) (oe_fresh (we_onebot we) (on_next (ws_runtime S))) sid fid (bz_files (ws_business S)) of
             Inl e \<Rightarrow> Inl (we_exc we e)
           | Inr (content, name, mime) \<Rightarrow> Inr
               [(''file_id'', JStr fid), (''filename'', JStr (case name of Some (c # cs) \<Rightarrow> c # cs | _ \<Rightarrow> fid)), (''mime_type'', json_opt JStr mime),
                (''content_base64'', JStr (b64encode content))])"

subsection \<open>Control operations over the bridge\<close>

definition send_bridge_control :: "web_env \<Rightarrow> string \<Rightarrow> json_object \<Rightarrow> ('h, 'c) web_server \<Rightarrow> (string + json_object) \<times> ('h, 'c) web_server" where
  "send_bridge_control we op body S =
     (if \<not> oe_bridge_up (we_onebot we) then (Inl ''bridge'', S)
      else case control_op (we_control we) op body (ws_control S) of
          (Inl e, C) \<Rightarrow> (Inl (let t = we_error_text we e in if t = [] then ''gateway_control failed'' else t), S\<lparr>ws_control := C\<rparr>)
        | (Inr d, C) \<Rightarrow> (Inr d, S\<lparr>ws_control := C\<rparr>))"

definition on_ok :: "('a \<Rightarrow> 'b) \<Rightarrow> (string + 'a) \<times> 's \<Rightarrow> (string + 'b) \<times> 's" where
  "on_ok f p = (case p of (Inl x, S) \<Rightarrow> (Inl x, S) | (Inr a, S) \<Rightarrow> (Inr (f a), S))"

definition dict_part :: "string \<Rightarrow> json_object \<Rightarrow> json_object" where
  "dict_part k r = [(k, case obj_get r k of JDict d \<Rightarrow> JDict d | _ \<Rightarrow> JDict [])]"

definition list_part :: "string \<Rightarrow> json_object \<Rightarrow> json_object" where
  "list_part k r = [(k, case obj_get r k of JList l \<Rightarrow> JList l | _ \<Rightarrow> JList [])]"

definition OK_BODY :: json_object where
  "OK_BODY = [(''ok'', JBool True)]"

definition answer_session :: "web_env \<Rightarrow> string \<Rightarrow> string \<Rightarrow> json_object \<Rightarrow> json_object" where
  "answer_session we sid k r =
     [(''session_id'', JStr (py_str (we_rt we) (py_or (obj_get r ''session_id'') (JStr sid))))] @ list_part k r"

definition web_control :: "web_env \<Rightarrow> string \<Rightarrow> json_object \<Rightarrow> ('h, 'c) web_server \<Rightarrow> (string + json_object) \<times> ('h, 'c) web_server" where
  "web_control we op body S =
     (let call = (\<lambda>b. send_bridge_control we op b S); sid = body_text we body ''session_id''
      in if op = ''config.llm.get'' then on_ok (dict_part ''document'') (call [])
         else if op = ''config.llm.put''
         then (case obj_get body ''document'' of
                 JDict doc \<Rightarrow> on_ok (\<lambda>_. OK_BODY) (call [(''document'', JDict doc)]) | _ \<Rightarrow> (Inl ''document object required'', S))
         else if op = ''config.system_env.get'' then on_ok (dict_part ''env'') (call [])
         else if op = ''config.system_env.put''
         then (case obj_get body ''env'' of JDict e \<Rightarrow> on_ok (\<lambda>_. OK_BODY) (call [(''env'', JDict e)]) | _ \<Rightarrow> (Inl ''env object required'', S))
         else if op = ''sessions.history''
         then (if sid = [] then (Inl ''session_id required'', S)
               else on_ok (answer_session we sid ''events'') (call [(''session_id'', JStr sid), (''limit'', obj_get body ''limit'')]))
         else if op = ''sessions.subagent_tasks''
         then (if sid = [] then (Inl ''session_id required'', S) else on_ok (answer_session we sid ''tasks'') (call [(''session_id'', JStr sid)]))
         else if op = ''capabilities.list'' then on_ok (list_part ''groups'') (call [])
         else on_ok (\<lambda>_. OK_BODY) (call body))"

definition CONTROL_OPS :: "string list" where
  "CONTROL_OPS = [''config.llm.get'', ''config.llm.put'', ''config.system_env.get'', ''config.system_env.put'', ''sessions.history'',
     ''sessions.subagent_tasks'', ''capabilities.list'', ''capabilities.put'']"

subsection \<open>One request\<close>

definition dispatch_op :: "web_env \<Rightarrow> nat \<Rightarrow> json \<Rightarrow> json_object \<Rightarrow> ('h, 'c) web_server \<Rightarrow> (string + json_object) \<times> ('h, 'c) web_server" where
  "dispatch_op we w op body S = (case op of
      JStr name \<Rightarrow>
        (if name = ''ping'' then (Inr [(''pong'', JBool True)], S)
         else if name = ''session.create'' then web_create we body S
         else if name = ''session.bind'' then web_bind we w body S
         else if name = ''chat.send'' then web_chat we body S
         else if name = ''file.upload'' then web_upload we body S
         else if name = ''file.download'' then (web_download we body S, S)
         else if name = ''config.onebot.get''
         then ((if we_onebot_there we then Inr [(''settings'', JDict (map (\<lambda>(k, v). (k, JStr v)) (get_onebot_settings (ws_runtime S))))]
                else Inl ''OneBot adapter not available''), S)
         else if name = ''config.onebot.put''
         then (if we_onebot_there we then (Inr OK_BODY, S\<lparr>ws_runtime := apply_onebot_settings (we_rt we) body (ws_runtime S)\<rparr>)
               else (Inl ''OneBot adapter not available'', S))
         else if name = ''sessions.list'' then (Inr [(''sessions'', JList (web_sessions we S))], S)
         else if name = ''sessions.usage''
         then (let sid = body_text we body ''session_id'' in if sid = [] then (Inl ''session_id required'', S) else (Inr (web_usage we sid S), S))
         else if name \<in> set CONTROL_OPS then web_control we name body S
         else (Inl (''unknown op: '' @ name), S))
    | v \<Rightarrow> (Inl (''unknown op: '' @ py_str (we_rt we) v), S))"

text \<open>The answer to one line of a client; \<open>None\<close> is a line that ends the connection's handler.\<close>

definition web_request :: "web_env \<Rightarrow> nat \<Rightarrow> json option \<Rightarrow> ('h, 'c) web_server \<Rightarrow> json_object option \<times> ('h, 'c) web_server" where
  "web_request we w line S = (case line of
      None \<Rightarrow> (Some [(''op'', JStr ''error''), (''id'', JNull), (''ok'', JBool False), (''message'', JStr ''invalid_json'')], S)
    | Some (JDict d) \<Rightarrow>
        (case dispatch_op we w (obj_get d ''op'') (case obj_get d ''body'' of JDict b \<Rightarrow> b | _ \<Rightarrow> []) S of
           (Inl text, T) \<Rightarrow> (Some [(''op'', JStr ''error''), (''id'', obj_get d ''id''), (''ok'', JBool False), (''message'', JStr text)], T)
         | (Inr b, T) \<Rightarrow> (Some [(''op'', JStr ''ack''), (''id'', obj_get d ''id''), (''ok'', JBool True), (''body'', JDict b)], T))
    | Some _ \<Rightarrow> (None, S))"

section \<open>The sessions whose usage is counted\<close>

definition child_rel :: "routes \<Rightarrow> (string \<times> string) set" where
  "child_rel rows = {(p, py_strip c) | p c r. (c, r) \<in> set rows \<and> rt_parent r = Some p \<and> py_strip c \<noteq> []}"

lemma child_rel_iff: "(p, c) \<in> child_rel rows \<longleftrightarrow> c \<in> set (child_sessions rows p)"
  by (force simp: child_rel_def child_sessions_def list_by_parent_session_def)

lemma collect_sessions_distinct: "distinct visited \<Longrightarrow> distinct (collect_sessions rows queue visited)"
  by (induction rows queue visited rule: collect_sessions.induct) auto

lemma collect_sessions_closed:
  assumes "\<forall>p \<in> set visited. child_rel rows `` {p} \<subseteq> set visited \<union> set queue"
  shows "set visited \<union> set queue \<subseteq> set (collect_sessions rows queue visited) \<and>
    child_rel rows `` set (collect_sessions rows queue visited) \<subseteq> set (collect_sessions rows queue visited)"
  using assms
proof (induction rows queue visited rule: collect_sessions.induct)
  case (2 rows cur queue visited)
  show ?case
  proof (cases "cur \<in> set visited")
    case True
    then have "\<forall>p \<in> set visited. child_rel rows `` {p} \<subseteq> set visited \<union> set queue" using "2.prems" by auto
    then show ?thesis using "2.IH"(1) [OF True] True by auto
  next
    case False
    let ?next = "queue @ filter (\<lambda>c. c \<notin> set (visited @ [cur])) (child_sessions rows cur)"
    have "\<forall>p \<in> set (visited @ [cur]). child_rel rows `` {p} \<subseteq> set (visited @ [cur]) \<union> set ?next"
      using "2.prems" by (auto simp: child_rel_iff)
    then show ?thesis using "2.IH"(2) [OF False] False by auto
  qed
qed auto

lemma collect_sessions_reached:
  assumes "set visited \<union> set queue \<subseteq> (child_rel rows)\<^sup>* `` {s}"
  shows "set (collect_sessions rows queue visited) \<subseteq> (child_rel rows)\<^sup>* `` {s}"
  using assms
proof (induction rows queue visited rule: collect_sessions.induct)
  case (2 rows cur queue visited)
  have "set (child_sessions rows cur) \<subseteq> (child_rel rows)\<^sup>* `` {s}"
    using "2.prems" by (auto simp flip: child_rel_iff intro: rtrancl_into_rtrancl)
  then show ?case using 2 by (cases "cur \<in> set visited") auto
qed auto

lemma collect_usage_closure: "set (collect_usage_session_ids rows sid) = (child_rel rows)\<^sup>* `` {sid}"
proof
  show "set (collect_usage_session_ids rows sid) \<subseteq> (child_rel rows)\<^sup>* `` {sid}"
    unfolding collect_usage_session_ids_def by (rule collect_sessions_reached) auto
  let ?X = "set (collect_usage_session_ids rows sid)"
  have X: "sid \<in> ?X" "child_rel rows `` ?X \<subseteq> ?X" using collect_sessions_closed [of "[]" rows "[sid]"] by (auto simp: collect_usage_session_ids_def)
  show "(child_rel rows)\<^sup>* `` {sid} \<subseteq> ?X"
  proof
    fix c assume "c \<in> (child_rel rows)\<^sup>* `` {sid}"
    then have "(sid, c) \<in> (child_rel rows)\<^sup>*" by simp
    then show "c \<in> ?X" by (induction rule: rtrancl_induct) (use X in auto)
  qed
qed

text \<open>C35. The sessions whose tokens are added up for a session are itself and its descendants in the table of
  routes, each once, and the search for them ends, also when the table has a cycle; so the answer counts every stored event of the session
  and of its sub-sessions, at any depth, exactly once.\<close>

theorem usage_counts_descendants_once:
  "set (collect_usage_session_ids rows sid) = (child_rel rows)\<^sup>* `` {sid} \<and> distinct (collect_usage_session_ids rows sid) \<and>
   (sid \<noteq> [] \<longrightarrow> usage_totals (Some (collect_usage_session_ids rows sid)) None evs =
     (let own = filter (\<lambda>r. (sid, ev_session r) \<in> (child_rel rows)\<^sup>*) evs in (usage_sum use_prompt own, usage_sum use_completion own, usage_sum use_total own)))"
proof (intro conjI impI)
  show "set (collect_usage_session_ids rows sid) = (child_rel rows)\<^sup>* `` {sid}" by (rule collect_usage_closure)
  show "distinct (collect_usage_session_ids rows sid)" unfolding collect_usage_session_ids_def by (rule collect_sessions_distinct) simp
  assume sid: "sid \<noteq> []"
  have named: "x \<noteq> []" if "(sid, x) \<in> (child_rel rows)\<^sup>*" for x
    using that by (cases rule: rtranclE) (use sid in \<open>auto simp: child_rel_def\<close>)
  have "(case Some (collect_usage_session_ids rows sid) of None \<Rightarrow> True | Some xs \<Rightarrow> ev_session r \<in> set (filter (\<lambda>x. x \<noteq> []) xs)) \<and>
      (case None of None \<Rightarrow> True | Some (a, b) \<Rightarrow> a \<le> ev_time r \<and> ev_time r < b) \<longleftrightarrow> (sid, ev_session r) \<in> (child_rel rows)\<^sup>*" for r
    using named [of "ev_session r"] by (auto simp: collect_usage_closure)
  then have "usage_rows (Some (collect_usage_session_ids rows sid)) None evs = filter (\<lambda>r. (sid, ev_session r) \<in> (child_rel rows)\<^sup>*) evs"
    unfolding usage_rows_def by (intro filter_cong refl)
  then show "usage_totals (Some (collect_usage_session_ids rows sid)) None evs =
     (let own = filter (\<lambda>r. (sid, ev_session r) \<in> (child_rel rows)\<^sup>*) evs in (usage_sum use_prompt own, usage_sum use_completion own, usage_sum use_total own))"
    by (simp only: usage_totals_def)
qed

definition family_routes :: routes where
  "family_routes = [(''b'', \<lparr>rt_adapter = None, rt_sender = [], rt_parent = Some ''a''\<rparr>), (''c'', \<lparr>rt_adapter = None, rt_sender = [], rt_parent = Some ''b''\<rparr>),
     (''a'', \<lparr>rt_adapter = None, rt_sender = [], rt_parent = Some ''c''\<rparr>), (''d'', \<lparr>rt_adapter = None, rt_sender = [], rt_parent = None\<rparr>)]"

definition used_row :: "string \<Rightarrow> int \<Rightarrow> event_row" where
  "used_row sid n = \<lparr>ev_id = [], ev_session = sid, ev_type = ''session_event'', ev_time = 0, ev_role = None, ev_content = JNull, ev_tool_name = None,
     ev_tool_args = JNull, ev_tool_result = JNull, ev_usage = \<lparr>use_prompt = None, use_completion = None, use_total = Some n\<rparr>\<rparr>"

theorem usage_counts_descendants_once_witness:
  "collect_usage_session_ids family_routes ''a'' = [''a'', ''b'', ''c''] \<and>
   usage_sum use_total (filter (\<lambda>r. (''a'', ev_session r) \<in> (child_rel family_routes)\<^sup>*) [used_row ''c'' 2, used_row ''d'' 40, used_row ''a'' 1]) = 3"
proof
  show ids: "collect_usage_session_ids family_routes ''a'' = [''a'', ''b'', ''c'']" by code_simp
  have "usage_totals (Some (collect_usage_session_ids family_routes ''a'')) None [used_row ''c'' 2, used_row ''d'' 40, used_row ''a'' 1] = (0, 0, 3)" by code_simp
  then show "usage_sum use_total (filter (\<lambda>r. (''a'', ev_session r) \<in> (child_rel family_routes)\<^sup>*) [used_row ''c'' 2, used_row ''d'' 40, used_row ''a'' 1]) = 3"
    using usage_counts_descendants_once [of family_routes "''a''" "[used_row ''c'' 2, used_row ''d'' 40, used_row ''a'' 1]"] by (simp add: Let_def)
qed

section \<open>What a chat answer says\<close>

lemma speaking_segment: "speaks v \<Longrightarrow> chat_segment v \<noteq> []"
  by (cases v) (simp_all add: speaks_def chat_segment_def json_text_def)

lemma speaking_segments: "list_ex speaks vs \<Longrightarrow> concat (map chat_segment vs) \<noteq> []"
  by (induction vs) (auto simp: speaking_segment)

lemma bus_bind_route [simp]: "bz_bus (on_business (bind_route a sid d S)) = bz_bus (on_business S)"
  by (simp add: bind_route_def)

text \<open>What an accepted message does to the bus: at most one event, one the scheduler takes as a message that asks for a turn.\<close>

definition wakes :: "string \<Rightarrow> 'h bus \<Rightarrow> 'h bus \<Rightarrow> bool" where
  "wakes sid b b' \<longleftrightarrow> (\<exists>e p. user_message_from_event e = Inr p \<and> um_trigger_turn p \<and> (\<forall>t. pending b' t = pending b t @ (if t = sid then [e] else [])))"

lemma submitted_wakes:
  assumes "submit oe m R = (Inr u, R')"
  shows "dget (on_sessions R) (in_session m) \<noteq> None"
    and "if in_trigger m then wakes (in_session m) (bz_bus (on_business R)) (bz_bus (on_business R')) else bz_bus (on_business R') = bz_bus (on_business R)"
proof -
  let ?n = "on_next R"
  let ?e = "message_event (be_runtime (oe_business oe)) (oe_fresh oe ?n) (oe_now oe ?n) m"
  obtain B where B: "submit_message (oe_business oe) (oe_db_ok oe) (oe_fresh oe ?n) (oe_now oe ?n) m (on_business R) = (Inr (), B)"
      "bz_bus (on_business R') = bz_bus B"
    using assms by (auto simp: submit_def split: if_splits prod.splits sum.splits)
  then obtain B1 where B1: "store_message (oe_business oe) (oe_db_ok oe) (oe_fresh oe ?n) (oe_now oe ?n) m (on_business R) = Inr B1"
      "dget (rs_sessions (bz_store (on_business R))) (in_session m) \<noteq> None" "bz_bus B = (if in_trigger m then publish ?e (bz_bus B1) else bz_bus B1)"
    by (auto simp: submit_message_def split: if_splits sum.splits)
  then show "dget (on_sessions R) (in_session m) \<noteq> None" by (simp add: on_sessions_def)
  have "pending (publish ?e b) t = pending b t @ (if t = in_session m then [?e] else [])" for t and b :: "'a bus"
    by (simp add: pending_publish message_event_def)
  moreover obtain p where "user_message_from_event ?e = Inr p" "um_trigger_turn p" by (rule message_event_parses)
  ultimately have "wakes (in_session m) b (publish ?e b)" for b :: "'a bus" unfolding wakes_def by blast
  then show "if in_trigger m then wakes (in_session m) (bz_bus (on_business R)) (bz_bus (on_business R')) else bz_bus (on_business R') = bz_bus (on_business R)"
    using B(2) B1(3) store_message_Inr(1) [OF B1(1)] by simp
qed

text \<open> A chat request that is acknowledged names an existing session and is told the truth: it is told that the message is being
  processed exactly when one of its segments is text that is not blank, and exactly then one event that asks for a
  turn of that session is queued; otherwise it is told that the message waits for text, and nothing is queued.\<close>

theorem chat_answer_tells_the_truth:
  assumes "dispatch_op we w (JStr ''chat.send'') body S = (Inr ans, T)"
  shows "\<exists>vs. py_or (obj_get body ''segments'') (JList []) = JList vs \<and> dget (on_sessions (ws_runtime S)) (body_text we body ''session_id'') \<noteq> None \<and>
    (if list_ex speaks vs
     then obj_get ans ''message'' = JStr PROCESSING \<and> wakes (body_text we body ''session_id'') (bz_bus (ws_business S)) (bz_bus (ws_business T))
     else obj_get ans ''message'' = JStr STORED \<and> bz_bus (ws_business T) = bz_bus (ws_business S))"
proof -
  have chat: "web_chat we body S = (Inr ans, T)" using assms by (simp add: dispatch_op_def)
  let ?sid = "body_text we body ''session_id''"
  obtain vs where vs: "py_or (obj_get body ''segments'') (JList []) = JList vs" using chat
    by (cases "py_or (obj_get body ''segments'') (JList [])") (auto simp: web_chat_def Let_def split: if_splits)
  define m where "m = \<lparr>in_session = ?sid, in_adapter = WEB_ADAPTER, in_segments = concat (map chat_segment vs),
     in_trigger = (concat (map chat_segment vs) \<noteq> [] \<and> list_ex speaks vs), in_sender = None, in_task_type = None,
     in_groups = None, in_meta = [(''message_id'', JStr (''ws_msg_'' @ oe_fresh (we_onebot we) (on_next (ws_runtime S))))]\<rparr>"
  obtain r R where r: "submit (we_onebot we) m (ws_runtime S) = (r, R)" by fastforce
  have trigger: "in_trigger m \<longleftrightarrow> list_ex speaks vs" using speaking_segments by (auto simp: m_def)
  have "r = Inr () \<and> T = S\<lparr>ws_runtime := R\<rparr> \<and> obj_get ans ''message'' = JStr (if in_trigger m then PROCESSING else STORED)"
    using chat r unfolding web_chat_def Let_def vs json.case m_def [symmetric]
    by (cases r) (auto simp: obj_get_def m_def split: if_splits)
  then show ?thesis using submitted_wakes [of "we_onebot we" m "ws_runtime S" "()" R] r vs trigger
    by (auto simp: ws_business_def m_def)
qed

definition demo_web_env :: web_env where
  "demo_web_env = \<lparr>we_onebot = demo_onebot_env, we_control = demo_control_env, we_error_text = (\<lambda>_. []), we_size_ok = (\<lambda>_. False), we_max_bytes = 10,
     we_client_max = 10, we_chunk = 4, we_server_chunk = 4, we_sha = id, we_created = (\<lambda>_. 0), we_now = 0, we_month = (0, 1), we_onebot_there = True\<rparr>"

definition demo_server :: "(unit, unit) web_server" where
  "demo_server = \<lparr>ws_web = web_init, ws_runtime = demo_onebot, ws_control = demo_control\<rparr>"

definition chat_body :: "string \<Rightarrow> json_object" where
  "chat_body t = [(''session_id'', JStr '' sess_a ''), (''segments'', JList [JDict [(''type'', JStr ''text''), (''content'', JStr t)]])]"

definition chat_run :: "string \<Rightarrow> (string + json_object) \<times> (unit, unit) web_server" where
  "chat_run t = dispatch_op demo_web_env 0 (JStr ''chat.send'') (chat_body t) demo_server"

theorem chat_answer_tells_the_truth_witness:
  "wakes ''sess_a'' (bz_bus (ws_business demo_server)) (bz_bus (ws_business (snd (chat_run ''hi'')))) \<and>
   bz_bus (ws_business (snd (chat_run '' ''))) = bz_bus (ws_business demo_server) \<and> bz_rows (ws_business (snd (chat_run '' ''))) \<noteq> []"
proof -
  have ans: "fst (chat_run ''hi'') = Inr [(''status'', JStr ''accepted''), (''message'', JStr PROCESSING)]"
    "fst (chat_run '' '') = Inr [(''status'', JStr ''accepted''), (''message'', JStr STORED)]" by code_simp+
  have run: "dispatch_op demo_web_env 0 (JStr ''chat.send'') (chat_body t) demo_server = (fst (chat_run t), snd (chat_run t))" for t by (simp add: chat_run_def)
  have sid: "body_text demo_web_env (chat_body t) ''session_id'' = ''sess_a''" for t by code_simp
  have differ: "PROCESSING \<noteq> STORED" by code_simp
  note truth = chat_answer_tells_the_truth [OF run [of "''hi''", unfolded ans(1)]] chat_answer_tells_the_truth [OF run [of "'' ''", unfolded ans(2)]]
  have "bz_rows (ws_business (snd (chat_run '' ''))) \<noteq> []" by code_simp
  then show ?thesis using truth differ by (auto simp: sid obj_get_def split: if_splits)
qed

end
