(* ===== verification/FileTools.thy ===== *)
theory FileTools
  imports Ingress "HOL-Library.Sublist"
begin

text \<open>
  The file tools of the agent (\<^verbatim>\<open>capabilities/core_ops/scripts/fs_*.py\<close>, \<^verbatim>\<open>read_file.py\<close>,
  \<^verbatim>\<open>list_files.py\<close>, \<^verbatim>\<open>export_session_file.py\<close>, \<^verbatim>\<open>send_file.py\<close>) and the guard they share, \<open>resolve_safe_path\<close>
  and \<open>SafeFilesystemPath\<close> of \<^verbatim>\<open>core/capabilities/models.py\<close>, over a POSIX file system with symbolic links. \<open>resolve\<close> is
  \<^verbatim>\<open>os.path.realpath\<close> as CPython has it since it goes on behind a cycle of links (3.12.4, 3.13); its memory of resolved links is
  left out, as it returns what it computes again. Nothing else works on the file system during a call. Permissions, the texts
  of errors, the codec of UTF-8, \<open>json.dumps\<close> and \<open>mimetypes\<close> are parameters.
\<close>

section \<open>A file system\<close>

text \<open>A path is the list of its components from the root; the root itself is always a directory.\<close>

type_synonym path = "string list"

datatype node = Dir | Reg string | Link string

type_synonym fs = "(path, node) dict"

datatype os_error = ENOENT | EEXIST | EISDIR | ENOTEMPTY | EACCES

definition node_at :: "fs \<Rightarrow> path \<Rightarrow> node option" where
  "node_at fs p = (if p = [] then Some Dir else dget fs p)"

definition components :: "string \<Rightarrow> path" where
  "components s = filter (\<lambda>c. c \<noteq> [] \<and> c \<noteq> ''.'') (py_split CHR ''/'' s)"

definition is_abs :: "string \<Rightarrow> bool" where
  "is_abs s = py_startswith s ''/''"

definition path_text :: "path \<Rightarrow> string" where
  "path_text p = (if p = [] then ''/'' else concat (map (\<lambda>c. CHR ''/'' # c) p))"

text \<open>\<open>os.path.join\<close>\<close>

definition path_join :: "string \<Rightarrow> string \<Rightarrow> string" where
  "path_join base t = (if is_abs t then t else if base = [] \<or> last base = CHR ''/'' then base @ t else base @ ''/'' @ t)"

text \<open>\<open>normpath\<close> of an absolute path: \<open>..\<close> takes a component away without a look at the file system.\<close>

definition norm :: "path \<Rightarrow> path" where
  "norm cs = foldl (\<lambda>p c. if c = ''..'' then butlast p else p @ [c]) [] cs"

definition abspath :: "string \<Rightarrow> string \<Rightarrow> path" where
  "abspath cwd s = norm (components (path_join cwd s))"

definition links :: "fs \<Rightarrow> path set" where
  "links fs = {p \<in> set (dkeys fs). \<exists>t. dget fs p = Some (Link t)}"

lemma finite_links [simp]: "finite (links fs)"
  by (simp add: links_def)

text \<open>
  \<open>realpath\<close> from a directory already resolved, with the links it is resolving. A link met again while it is being
  resolved stays in the path as it is; the flag records that this happened.
\<close>

function resolve :: "fs \<Rightarrow> path set \<Rightarrow> path \<Rightarrow> path \<Rightarrow> path \<times> bool" where
  "resolve fs active p [] = (p, False)"
| "resolve fs active p (c # cs) =
     (if c = ''..'' then resolve fs active (butlast p) cs
      else case node_at fs (p @ [c]) of
          Some (Link t) \<Rightarrow>
            (if p @ [c] \<in> active then (fst (resolve fs active (p @ [c]) cs), True)
             else let (q, b) = resolve fs (insert (p @ [c]) active) (if is_abs t then [] else p) (components t);
                      (r, b') = resolve fs active q cs
                  in (r, b \<or> b'))
        | _ \<Rightarrow> resolve fs active (p @ [c]) cs)"
  by pat_completeness auto

termination
proof (relation "measures [\<lambda>(fs, active, p, cs). card (links fs - active), \<lambda>(fs, active, p, cs). length cs]", simp_all, goal_cases)
  case (1 fs active p c t)
  then have "p @ [c] \<in> links fs - active" by (force simp: links_def node_at_def dest: map_of_SomeD split: if_splits)
  then have "card (links fs - insert (p @ [c]) active) < card (links fs - active)" by (intro psubset_card_mono) auto
  then show ?case by simp
qed

definition realpath :: "fs \<Rightarrow> string \<Rightarrow> string \<Rightarrow> path \<times> bool" where
  "realpath fs cwd s = resolve fs {} [] (abspath cwd s)"

section \<open>System calls\<close>

text \<open>Where the kernel finds a path, following at most \<open>n\<close> links; \<open>None\<close> is a path through something that is no directory.\<close>

function follow :: "fs \<Rightarrow> nat \<Rightarrow> path \<Rightarrow> path \<Rightarrow> path option" where
  "follow fs n p [] = Some p"
| "follow fs n p (c # cs) =
     (if c = ''..'' then follow fs n (butlast p) cs
      else case node_at fs (p @ [c]) of
          Some (Link t) \<Rightarrow> (if n = 0 then None else follow fs (n - 1) (if is_abs t then [] else p) (components t @ cs))
        | Some Dir \<Rightarrow> follow fs n (p @ [c]) cs
        | _ \<Rightarrow> if cs = [] then Some (p @ [c]) else None)"
  by pat_completeness auto
termination by (relation "measures [\<lambda>(fs, n, p, cs). n, \<lambda>(fs, n, p, cs). length cs]") auto

definition MAX_LINKS :: nat where "MAX_LINKS = 40"

definition found :: "fs \<Rightarrow> path \<Rightarrow> path option" where
  "found fs p = follow fs MAX_LINKS [] p"

definition stat :: "fs \<Rightarrow> path \<Rightarrow> node option" where
  "stat fs p = Option.bind (found fs p) (node_at fs)"

definition is_dir :: "fs \<Rightarrow> path \<Rightarrow> bool" where
  "is_dir fs p \<longleftrightarrow> stat fs p = Some Dir"

definition exists :: "fs \<Rightarrow> path \<Rightarrow> bool" where
  "exists fs p \<longleftrightarrow> stat fs p \<noteq> None"

text \<open>Calls on the entry itself, which follow the links before the last component only.\<close>

definition entry :: "fs \<Rightarrow> path \<Rightarrow> path option" where
  "entry fs p = (if p = [] then Some [] else map_option (\<lambda>d. d @ [last p]) (found fs (butlast p)))"

definition os_read :: "fs \<Rightarrow> path \<Rightarrow> os_error + string" where
  "os_read fs p = (case stat fs p of Some (Reg b) \<Rightarrow> Inr b | Some _ \<Rightarrow> Inl EISDIR | None \<Rightarrow> Inl ENOENT)"

definition os_write :: "(path \<Rightarrow> bool) \<Rightarrow> path \<Rightarrow> string \<Rightarrow> fs \<Rightarrow> os_error + fs" where
  "os_write denied p b fs = (case found fs p of
      None \<Rightarrow> Inl ENOENT
    | Some r \<Rightarrow> if node_at fs r = Some Dir then Inl EISDIR else if node_at fs (butlast r) \<noteq> Some Dir then Inl ENOENT
                else if denied r then Inl EACCES else Inr (dset r (Reg b) fs))"

definition os_remove :: "(path \<Rightarrow> bool) \<Rightarrow> path \<Rightarrow> fs \<Rightarrow> os_error + fs" where
  "os_remove denied p fs = (case entry fs p of
      None \<Rightarrow> Inl ENOENT
    | Some r \<Rightarrow> (case node_at fs r of None \<Rightarrow> Inl ENOENT | Some Dir \<Rightarrow> Inl EISDIR | Some _ \<Rightarrow> if denied r then Inl EACCES else Inr (dpop r fs)))"

definition os_rmdir :: "(path \<Rightarrow> bool) \<Rightarrow> path \<Rightarrow> fs \<Rightarrow> os_error + fs" where
  "os_rmdir denied p fs = (case entry fs p of
      None \<Rightarrow> Inl ENOENT
    | Some r \<Rightarrow> if node_at fs r \<noteq> Some Dir then Inl ENOENT
                else if r = [] \<or> list_ex (\<lambda>k. strict_prefix r k) (dkeys fs) then Inl ENOTEMPTY else if denied r then Inl EACCES else Inr (dpop r fs))"

definition os_mkdir :: "(path \<Rightarrow> bool) \<Rightarrow> path \<Rightarrow> fs \<Rightarrow> os_error + fs" where
  "os_mkdir denied p fs = (case entry fs p of
      None \<Rightarrow> Inl ENOENT
    | Some r \<Rightarrow> if node_at fs r \<noteq> None then Inl EEXIST else if node_at fs (butlast r) \<noteq> Some Dir then Inl ENOENT
                else if denied r then Inl EACCES else Inr (dset r Dir fs))"

text \<open>\<open>os.makedirs(p, exist_ok=True)\<close>\<close>

definition make_dir :: "(path \<Rightarrow> bool) \<Rightarrow> path \<Rightarrow> fs \<Rightarrow> os_error option \<times> fs" where
  "make_dir denied p fs = (case os_mkdir denied p fs of Inr fs' \<Rightarrow> (None, fs') | Inl e \<Rightarrow> (if is_dir fs p then None else Some e, fs))"

function make_dirs :: "(path \<Rightarrow> bool) \<Rightarrow> path \<Rightarrow> fs \<Rightarrow> os_error option \<times> fs" where
  "make_dirs denied p fs =
     (if p = [] then (None, fs)
      else case (if butlast p \<noteq> [] \<and> \<not> exists fs (butlast p) then make_dirs denied (butlast p) fs else (None, fs)) of
          (None, fs1) \<Rightarrow> make_dir denied p fs1
        | (Some e, fs1) \<Rightarrow> if e = EEXIST then make_dir denied p fs1 else (Some e, fs1))"
  by pat_completeness auto
termination by (relation "measure (\<lambda>(denied, p, fs). length p)") auto

declare make_dirs.simps [simp del]

section \<open>Safe paths\<close>

record file_env =
  fe_runtime :: py_runtime
  fe_cwd :: string
  fe_denied :: "path \<Rightarrow> bool"
  fe_error :: "os_error \<Rightarrow> path \<Rightarrow> string"
  fe_exc :: "py_error \<Rightarrow> string"
  fe_decode :: "string \<Rightarrow> string option"
  fe_encode :: "string \<Rightarrow> string option"
  fe_dumps :: "json \<Rightarrow> string"
  fe_guess :: "string \<Rightarrow> string option"

record tool_scope =
  sc_session :: string
  sc_filesystem :: "string option"
  sc_workspace :: "string option"
  sc_database :: bool

definition nonblank :: "string option \<Rightarrow> string option" where
  "nonblank s = Option.bind s strip_or_none"

definition allowed_roots :: "tool_scope \<Rightarrow> string list" where
  "allowed_roots sc = remdups ((case nonblank (sc_filesystem sc) of Some r \<Rightarrow> [r] | None \<Rightarrow> []) @
     (case nonblank (sc_workspace sc) of Some w \<Rightarrow> [w] | None \<Rightarrow> []))"

text \<open>\<open>resolve_safe_path\<close> for an argument as the model gave it; what is no string, or holds a null byte, raises.\<close>

definition safe_path :: "file_env \<Rightarrow> tool_scope \<Rightarrow> fs \<Rightarrow> json \<Rightarrow> (string + path) res" where
  "safe_path fe sc fs v =
     (if allowed_roots sc = [] then Inr (Inl ''Error: Neither FAIRYCLAW_FILESYSTEM_ROOT_DIR nor workspace_root is configured.'')
      else case v of
          JStr s \<Rightarrow>
            (let target = (case nonblank (sc_workspace sc) of Some w \<Rightarrow> path_join w s | None \<Rightarrow> s)
             in if CHR 0x00 \<in> set s then Inl ValueError
                else let q = fst (realpath fs (fe_cwd fe) target)
                     in if list_ex (\<lambda>r. prefix (fst (realpath fs (fe_cwd fe) r)) q) (allowed_roots sc) then Inr (Inr q)
                        else Inr (Inl (''Path '' @ rt_repr (fe_runtime fe) v @ '' is outside allowed roots: '' @
                               py_join '', '' (map (\<lambda>r. rt_repr (fe_runtime fe) (JStr (path_text (fst (realpath fs (fe_cwd fe) r))))) (allowed_roots sc)) @ ''.'')))
        | _ \<Rightarrow> Inl TypeError)"

section \<open>The tools\<close>

text \<open>\<open>k\<close> goes on with the path; an error text is the answer.\<close>

definition with_path :: "file_env \<Rightarrow> tool_scope \<Rightarrow> json \<Rightarrow> (path \<Rightarrow> fs \<Rightarrow> string \<times> fs) \<Rightarrow> fs \<Rightarrow> string res \<times> fs" where
  "with_path fe sc v k fs = (case safe_path fe sc fs v of
      Inl e \<Rightarrow> (Inl e, fs)
    | Inr (Inl text) \<Rightarrow> (Inr text, fs)
    | Inr (Inr q) \<Rightarrow> (let (text, fs') = k q fs in (Inr text, fs')))"

definition fs_delete :: "file_env \<Rightarrow> tool_scope \<Rightarrow> json_object \<Rightarrow> fs \<Rightarrow> string res \<times> fs" where
  "fs_delete fe sc args fs =
     (if \<not> truthy (obj_get args ''file_path'') then (Inr ''Error: file_path is required.'', fs)
      else with_path fe sc (obj_get args ''file_path'') (\<lambda>q fs.
        if \<not> exists fs q then (''Error: File not found at '' @ path_text q, fs)
        else if is_dir fs q
        then (case os_rmdir (fe_denied fe) q fs of
                Inl e \<Rightarrow> (''Error deleting file: '' @ fe_error fe e q, fs) | Inr fs' \<Rightarrow> (''Directory removed successfully from '' @ path_text q, fs'))
        else (case os_remove (fe_denied fe) q fs of
                Inl e \<Rightarrow> (''Error deleting file: '' @ fe_error fe e q, fs) | Inr fs' \<Rightarrow> (''File removed successfully from '' @ path_text q, fs'))) fs)"

definition list_entry :: "fs \<Rightarrow> path \<Rightarrow> string \<Rightarrow> (os_error \<times> path) + json" where
  "list_entry fs q name =
     (let item = (\<lambda>ty n. Inr (JDict [(''name'', JStr name), (''type'', JStr ty), (''size'', JInt n), (''path'', JStr (path_join (path_text q) name))]))
      in case stat fs (q @ [name]) of
           Some Dir \<Rightarrow> item ''directory'' 0
         | Some (Reg b) \<Rightarrow> item ''file'' (int (length b))
         | _ \<Rightarrow> Inl (ENOENT, q @ [name]))"

fun list_entries :: "fs \<Rightarrow> path \<Rightarrow> string list \<Rightarrow> (os_error \<times> path) + json list" where
  "list_entries fs q [] = Inr []"
| "list_entries fs q (n # ns) = (case list_entry fs q n of Inl e \<Rightarrow> Inl e | Inr v \<Rightarrow>
      (case list_entries fs q ns of Inl e \<Rightarrow> Inl e | Inr vs \<Rightarrow> Inr (v # vs)))"

text \<open>\<open>os.listdir\<close>, in the order the table has the entries\<close>

definition names_in :: "fs \<Rightarrow> path \<Rightarrow> string list" where
  "names_in fs d = map last (filter (\<lambda>k. k \<noteq> [] \<and> butlast k = d) (dkeys fs))"

definition fs_list :: "file_env \<Rightarrow> tool_scope \<Rightarrow> json_object \<Rightarrow> fs \<Rightarrow> string res \<times> fs" where
  "fs_list fe sc args fs =
     (let dir = (case obj_get args ''dir_path'' of
            JStr (c # cs) \<Rightarrow> c # cs
          | _ \<Rightarrow> (case sc_workspace sc of Some (c # cs) \<Rightarrow> c # cs | _ \<Rightarrow> (case sc_filesystem sc of Some r \<Rightarrow> r | None \<Rightarrow> [])))
      in with_path fe sc (JStr dir) (\<lambda>q fs.
        (if \<not> exists fs q then ''Error: Directory not found at '' @ path_text q
         else if \<not> is_dir fs q then ''Error: '' @ path_text q @ '' is not a directory.''
         else case list_entries fs q (names_in fs (the (found fs q))) of
             Inl (e, p) \<Rightarrow> ''Error listing directory: '' @ fe_error fe e p | Inr vs \<Rightarrow> fe_dumps fe (JList vs), fs)) fs)"

definition fs_read :: "file_env \<Rightarrow> tool_scope \<Rightarrow> json_object \<Rightarrow> fs \<Rightarrow> string res \<times> fs" where
  "fs_read fe sc args fs =
     (if \<not> truthy (obj_get args ''file_path'') then (Inr ''Error: file_path is required.'', fs)
      else with_path fe sc (obj_get args ''file_path'') (\<lambda>q fs.
        (if \<not> exists fs q then ''Error: File not found at '' @ path_text q
         else if is_dir fs q then ''Error: '' @ path_text q @ '' is not a file.''
         else case os_read fs q of
             Inl e \<Rightarrow> ''Error reading file: '' @ fe_error fe e q
           | Inr b \<Rightarrow> (case fe_decode fe b of None \<Rightarrow> ''Error: File is binary and cannot be read as text.'' | Some t \<Rightarrow> t), fs)) fs)"

text \<open>The file is opened, and so emptied, before the content turns out to be no text that can be encoded.\<close>

definition write_text :: "file_env \<Rightarrow> json \<Rightarrow> path \<Rightarrow> fs \<Rightarrow> string \<times> fs" where
  "write_text fe content q fs = (case make_dirs (fe_denied fe) (butlast q) fs of
      (Some e, fs1) \<Rightarrow> (''Error writing file: '' @ fe_error fe e q, fs1)
    | (None, fs1) \<Rightarrow> (case os_write (fe_denied fe) q [] fs1 of
        Inl e \<Rightarrow> (''Error writing file: '' @ fe_error fe e q, fs1)
      | Inr fs2 \<Rightarrow> (case content of
          JStr t \<Rightarrow> (case fe_encode fe t of
              None \<Rightarrow> (''Error writing file: '' @ fe_exc fe ValueError, fs2)
            | Some b \<Rightarrow> (case os_write (fe_denied fe) q b fs2 of
                Inl e \<Rightarrow> (''Error writing file: '' @ fe_error fe e q, fs2)
              | Inr fs3 \<Rightarrow> (''File written successfully to '' @ path_text q, fs3)))
        | _ \<Rightarrow> (''Error writing file: '' @ fe_exc fe TypeError, fs2))))"

definition fs_write :: "file_env \<Rightarrow> tool_scope \<Rightarrow> json_object \<Rightarrow> fs \<Rightarrow> string res \<times> fs" where
  "fs_write fe sc args fs =
     (if \<not> truthy (obj_get args ''file_path'') then (Inr ''Error: file_path is required.'', fs)
      else if obj_get args ''content'' = JNull then (Inr ''Error: content is required.'', fs)
      else with_path fe sc (obj_get args ''file_path'') (write_text fe (obj_get args ''content'')) fs)"

definition NO_DATABASE :: string where
  "NO_DATABASE = ''Error: Memory access required for file operations.''"

definition read_file :: "file_env \<Rightarrow> tool_scope \<Rightarrow> json_object \<Rightarrow> file_row list \<Rightarrow> string res" where
  "read_file fe sc args rows =
     (if \<not> truthy (obj_get args ''file_id'') then Inr ''Error: file_id is required.''
      else if \<not> sc_database sc then Inr NO_DATABASE
      else case obj_get args ''file_id'' of
          JStr fid \<Rightarrow> (case file_get_for_session fid (sc_session sc) rows of
             None \<Rightarrow> Inr (''Error: File '' @ fid @ '' not found.'')
           | Some f \<Rightarrow> if fl_content f = [] then Inr []
                       else case fe_decode fe (fl_content f) of
                           Some t \<Rightarrow> Inr t
                         | None \<Rightarrow> Inr (''Error: File content is binary (mime: '' @ py_str (fe_runtime fe) (json_opt JStr (fl_mime f)) @ ''). Cannot read as text.''))
        | _ \<Rightarrow> Inl AttributeError)"

definition list_files :: "file_env \<Rightarrow> tool_scope \<Rightarrow> file_row list \<Rightarrow> string" where
  "list_files fe sc rows =
     (if \<not> sc_database sc then NO_DATABASE
      else fe_dumps fe (JList (map (\<lambda>f. JDict [(''id'', JStr (fl_id f)), (''filename'', JStr (fl_filename f)), (''size'', JInt (int (fl_size f))),
             (''mime_type'', JStr (case fl_mime f of Some m \<Rightarrow> m | None \<Rightarrow> []))]) (filter (\<lambda>f. fl_session f = sc_session sc) rows))))"

definition write_out :: "file_env \<Rightarrow> string \<Rightarrow> file_row \<Rightarrow> path \<Rightarrow> fs \<Rightarrow> string \<times> fs" where
  "write_out fe fid f q fs = (case make_dirs (fe_denied fe) (butlast q) fs of
      (Some e, fs1) \<Rightarrow> (''Error exporting file: '' @ fe_error fe e q, fs1)
    | (None, fs1) \<Rightarrow> (case os_write (fe_denied fe) q (fl_content f) fs1 of
        Inl e \<Rightarrow> (''Error exporting file: '' @ fe_error fe e q, fs1)
      | Inr fs2 \<Rightarrow> (''Success: File '' @ [CHR 0x27] @ fl_filename f @ [CHR 0x27] @ '' (ID: '' @ fid @ '') has been exported to '' @ [CHR 0x27] @ path_text q @
          [CHR 0x27, CHR ''.''], fs2)))"

text \<open>The target is checked, and then once more with the name of the file.\<close>

definition export_to :: "file_env \<Rightarrow> tool_scope \<Rightarrow> string \<Rightarrow> file_row \<Rightarrow> json \<Rightarrow> fs \<Rightarrow> string \<times> fs" where
  "export_to fe sc fid f target fs = (case safe_path fe sc fs target of
      Inl e \<Rightarrow> (''Error exporting file: '' @ fe_exc fe e, fs)
    | Inr (Inl text) \<Rightarrow> (text, fs)
    | Inr (Inr q) \<Rightarrow> (case safe_path fe sc fs (JStr (if is_dir fs q then path_join (path_text q) (fl_filename f) else path_text q)) of
        Inl e \<Rightarrow> (''Error exporting file: '' @ fe_exc fe e, fs)
      | Inr (Inl text) \<Rightarrow> (text, fs)
      | Inr (Inr d) \<Rightarrow> write_out fe fid f d fs))"

definition export_session_file :: "file_env \<Rightarrow> tool_scope \<Rightarrow> json_object \<Rightarrow> file_row list \<Rightarrow> fs \<Rightarrow> string \<times> fs" where
  "export_session_file fe sc args rows fs =
     (let target = (if truthy (obj_get args ''target_path'') then obj_get args ''target_path''
                    else JStr (case sc_workspace sc of Some (c # cs) \<Rightarrow> c # cs | _ \<Rightarrow> fe_cwd fe))
      in if \<not> truthy (obj_get args ''file_id'') then (''Error: file_id is required.'', fs)
         else if \<not> sc_database sc then (NO_DATABASE, fs)
         else case obj_get args ''file_id'' of
           JStr fid \<Rightarrow> (case file_get_for_session fid (sc_session sc) rows of
             None \<Rightarrow> (''Error: File with ID '' @ [CHR 0x27] @ fid @ [CHR 0x27] @ '' not found in the current session.'', fs)
           | Some f \<Rightarrow> export_to fe sc fid f target fs)
         | _ \<Rightarrow> (''Error exporting file: '' @ fe_exc fe AttributeError, fs))"

record file_world =
  fw_rows :: "file_row list"
  fw_delivered :: "(string \<times> string) list"

definition send_file :: "file_env \<Rightarrow> tool_scope \<Rightarrow> string \<Rightarrow> json_object \<Rightarrow> fs \<Rightarrow> file_world \<Rightarrow> string res \<times> file_world" where
  "send_file fe sc fresh args fs W =
     (if \<not> truthy (obj_get args ''file_path'') then (Inr ''Error: file_path is required.'', W)
      else case safe_path fe sc fs (obj_get args ''file_path'') of
          Inl e \<Rightarrow> (Inl e, W)
        | Inr (Inl text) \<Rightarrow> (Inr text, W)
        | Inr (Inr q) \<Rightarrow>
            (if \<not> exists fs q then (Inr (''Error: File not found at '' @ path_text q), W)
             else case os_read fs q of
                 Inl e \<Rightarrow> (Inr (''Error binding file to session: '' @ fe_error fe e q), W)
               | Inr b \<Rightarrow> (Inr (''File sent (file_id='' @ fresh @ '').''),
                   W\<lparr>fw_rows := file_create fresh (sc_session sc) (last q) b (fe_guess fe (path_text q)) (fw_rows W),
                     fw_delivered := fw_delivered W @ [(sc_session sc, fresh)]\<rparr>)))"

section \<open>Paths without links\<close>

definition plain :: "fs \<Rightarrow> path \<Rightarrow> bool" where
  "plain fs q \<longleftrightarrow> ''..'' \<notin> set q \<and> (\<forall>p t. prefix p q \<longrightarrow> node_at fs p \<noteq> Some (Link t))"

lemma plain_prefix: "plain fs q \<Longrightarrow> prefix p q \<Longrightarrow> plain fs p"
  unfolding plain_def by (meson in_mono prefix_order.trans set_mono_prefix)

lemma plain_Nil [simp]: "plain fs []"
  by (simp add: plain_def node_at_def)

lemma plain_snoc: "plain fs (p @ [c]) \<longleftrightarrow> plain fs p \<and> c \<noteq> ''..'' \<and> (\<forall>t. node_at fs (p @ [c]) \<noteq> Some (Link t))"
  by (auto simp: plain_def prefix_snoc)

lemma plain_butlast: "plain fs p \<Longrightarrow> plain fs (butlast p)"
  by (rule plain_prefix) (simp_all add: prefix_def, metis append_butlast_last_id append_Nil2 butlast.simps(1))

lemma resolve_plain: "\<not> snd (resolve fs A p cs) \<Longrightarrow> plain fs p \<Longrightarrow> plain fs (fst (resolve fs A p cs))"
proof (induction fs A p cs rule: resolve.induct)
  case (2 fs A p c cs)
  show ?case
  proof (cases "c = ''..''")
    case True
    then show ?thesis using 2 plain_butlast by simp
  next
    case False
    show ?thesis
    proof (cases "\<exists>t. node_at fs (p @ [c]) = Some (Link t)")
      case True
      then obtain t where t: "node_at fs (p @ [c]) = Some (Link t)" by blast
      obtain q b r b' where q: "resolve fs (insert (p @ [c]) A) (if is_abs t then [] else p) (components t) = (q, b)" "resolve fs A q cs = (r, b')"
        by (metis surj_pair)
      have new: "p @ [c] \<notin> A" using "2.prems"(1) False t by auto
      have "plain fs q" using "2.IH"(6) [OF False t refl new] "2.prems" False t new q by auto
      then have "plain fs r" using "2.IH"(7) [OF False t refl new q(1) [symmetric] refl] "2.prems"(1) False t new q by auto
      then show ?thesis using False t new q by simp
    next
      case link: False
      then have "plain fs (p @ [c])" using "2.prems"(2) False by (simp add: plain_snoc)
      then show ?thesis using "2.prems"(1) False link "2.IH"(2-4) by (cases "node_at fs (p @ [c])") (auto split: node.splits)
    qed
  qed
qed simp

lemma resolve_of_plain: "plain fs (p @ cs) \<Longrightarrow> resolve fs A p cs = (p @ cs, False)"
proof (induction cs arbitrary: p)
  case (Cons c cs)
  have "plain fs (p @ [c])" by (rule plain_prefix [OF Cons.prems]) (simp add: prefix_def)
  then show ?case using Cons.IH [of "p @ [c]"] Cons.prems by (auto simp: plain_snoc split: option.split node.split)
qed simp

lemma follow_plain: "plain fs (p @ cs) \<Longrightarrow> follow fs n p cs = None \<or> follow fs n p cs = Some (p @ cs)"
proof (induction cs arbitrary: p)
  case (Cons c cs)
  have "plain fs (p @ [c])" by (rule plain_prefix [OF Cons.prems]) (simp add: prefix_def)
  then show ?case using Cons.IH [of "p @ [c]"] Cons.prems by (auto simp: plain_snoc split: option.split node.split)
qed simp

lemma found_plain: "plain fs q \<Longrightarrow> found fs q = Some r \<Longrightarrow> r = q"
  using follow_plain [of fs "[]" q MAX_LINKS] by (auto simp: found_def)

lemma entry_plain: "plain fs q \<Longrightarrow> entry fs q = Some r \<Longrightarrow> r = q"
  using found_plain [OF plain_butlast [of fs q]] by (fastforce simp: entry_def split: if_splits)

lemma node_at_dset: "r \<noteq> [] \<Longrightarrow> node_at (dset r v fs) p = (if p = r then Some v else node_at fs p)"
  by (auto simp: node_at_def)

lemma node_at_dpop: "node_at (dpop r fs) p = (if p = r \<and> p \<noteq> [] then None else node_at fs p)"
  by (auto simp: node_at_def)

section \<open>What a call changes\<close>

definition changes_only :: "path \<Rightarrow> fs \<Rightarrow> fs \<Rightarrow> bool" where
  "changes_only q fs fs' \<longleftrightarrow> (\<forall>p. p \<noteq> q \<longrightarrow> node_at fs' p = node_at fs p \<or> node_at fs p = None \<and> node_at fs' p = Some Dir \<and> strict_prefix p q) \<and>
     (\<forall>t. node_at fs' q \<noteq> Some (Link t) \<or> node_at fs q = Some (Link t))"

lemma changes_only_refl [simp]: "changes_only q fs fs"
  by (simp add: changes_only_def)

lemma changes_only_trans: "changes_only q fs fs1 \<Longrightarrow> changes_only q fs1 fs2 \<Longrightarrow> changes_only q fs fs2"
  unfolding changes_only_def by metis

lemma changes_only_plain: "changes_only q fs fs' \<Longrightarrow> plain fs q \<Longrightarrow> plain fs' q"
  unfolding plain_def changes_only_def by (metis node.distinct(3) option.inject)

lemma not_Dir: "node_at fs q \<noteq> Some Dir \<Longrightarrow> q \<noteq> []"
  by (auto simp: node_at_def)

lemma write_changes: "plain fs q \<Longrightarrow> os_write dn q b fs = Inr fs' \<Longrightarrow> changes_only q fs fs'"
  by (auto simp: os_write_def changes_only_def node_at_dset not_Dir dest!: found_plain split: option.splits if_splits)

lemma remove_changes: "plain fs q \<Longrightarrow> os_remove dn q fs = Inr fs' \<Longrightarrow> changes_only q fs fs'"
  by (auto simp: os_remove_def changes_only_def node_at_dpop dest!: entry_plain split: option.splits if_splits node.splits)

lemma rmdir_changes: "plain fs q \<Longrightarrow> os_rmdir dn q fs = Inr fs' \<Longrightarrow> changes_only q fs fs'"
  by (auto simp: os_rmdir_def changes_only_def node_at_dpop dest!: entry_plain split: option.splits if_splits)

lemma make_dir_changes: "plain fs q \<Longrightarrow> make_dir dn q fs = (e, fs') \<Longrightarrow>
    \<forall>p. node_at fs' p = node_at fs p \<or> node_at fs p = None \<and> node_at fs' p = Some Dir \<and> prefix p q"
proof -
  assume q: "plain fs q" "make_dir dn q fs = (e, fs')"
  have "\<forall>p. node_at fs1 p = node_at fs p \<or> node_at fs p = None \<and> node_at fs1 p = Some Dir \<and> prefix p q" if "os_mkdir dn q fs = Inr fs1" for fs1
    using that q(1) by (auto simp: os_mkdir_def node_at_def dest!: entry_plain split: option.splits if_splits)
  then show ?thesis using q(2) by (auto simp: make_dir_def split: sum.splits)
qed

lemma make_dirs_changes:
  "make_dirs dn q fs = (e, fs') \<Longrightarrow> plain fs q \<Longrightarrow>
    \<forall>p. node_at fs' p = node_at fs p \<or> node_at fs p = None \<and> node_at fs' p = Some Dir \<and> prefix p q"
proof (induction dn q fs arbitrary: e fs' rule: make_dirs.induct)
  case (1 dn q fs)
  let ?added = "\<lambda>fs fs' q. \<forall>p. node_at fs' p = node_at fs p \<or> node_at fs p = None \<and> node_at fs' p = Some Dir \<and> prefix p q"
  show ?case
  proof (cases "q = []")
    case True
    then show ?thesis using "1.prems"(1) by (simp add: make_dirs.simps)
  next
    case False
    obtain e1 fs1 where inner: "(if butlast q \<noteq> [] \<and> \<not> exists fs (butlast q) then make_dirs dn (butlast q) fs else (None, fs)) = (e1, fs1)"
      by (metis surj_pair)
    have "?added fs fs1 (butlast q)"
    proof (cases "butlast q \<noteq> [] \<and> \<not> exists fs (butlast q)")
      case True
      then show ?thesis using "1.IH" [OF False True, of e1 fs1] inner plain_butlast [OF "1.prems"(2)] by simp
    qed (use inner in auto)
    moreover have "prefix (butlast q) q" by (metis False append_butlast_last_id prefixI)
    ultimately have fs1: "?added fs fs1 q" by (meson prefix_order.trans)
    then have plain1: "plain fs1 q" using "1.prems"(2) unfolding plain_def by (metis node.distinct(3) option.inject)
    have "fs' = fs1 \<or> make_dir dn q fs1 = (e, fs')"
      using "1.prems"(1) False unfolding make_dirs.simps [of dn q fs] inner by (auto split: option.splits if_splits)
    then show ?thesis
    proof
      assume "make_dir dn q fs1 = (e, fs')"
      from make_dir_changes [OF plain1 this] show ?thesis using fs1 by metis
    qed (use fs1 in simp)
  qed
qed

lemma make_parents_changes:
  assumes "make_dirs dn (butlast q) fs = (e, fs')" and "plain fs q" and "q \<noteq> []"
  shows "changes_only q fs fs'"
proof -
  have "strict_prefix p q" if "prefix p (butlast q)" for p
    using that assms(3) by (metis append_butlast_last_id prefix_order.le_less_trans strict_prefixI')
  moreover have "\<forall>p. node_at fs' p = node_at fs p \<or> node_at fs p = None \<and> node_at fs' p = Some Dir \<and> prefix p (butlast q)"
    using make_dirs_changes [OF assms(1) plain_butlast [OF assms(2)]] .
  ultimately show ?thesis unfolding changes_only_def by (metis node.distinct(3) option.inject)
qed

section \<open>Confinement\<close>

definition root_paths :: "file_env \<Rightarrow> tool_scope \<Rightarrow> fs \<Rightarrow> path list" where
  "root_paths fe sc fs = map (\<lambda>r. fst (realpath fs (fe_cwd fe) r)) (allowed_roots sc)"

text \<open>Outside the roots nothing changes, but for directories made on the way to a root that did not exist.\<close>

definition confined :: "path list \<Rightarrow> fs \<Rightarrow> fs \<Rightarrow> bool" where
  "confined roots fs fs' \<longleftrightarrow> (\<forall>p. (\<exists>r \<in> set roots. prefix r p) \<or> node_at fs' p = node_at fs p \<or>
     node_at fs p = None \<and> node_at fs' p = Some Dir \<and> (\<exists>r \<in> set roots. strict_prefix p r))"

definition no_link_cycle :: "file_env \<Rightarrow> fs \<Rightarrow> bool" where
  "no_link_cycle fe fs \<longleftrightarrow> (\<forall>s. \<not> snd (realpath fs (fe_cwd fe) s))"

lemma confined_refl [simp]: "confined roots fs fs"
  by (simp add: confined_def)

lemma changes_confined: "changes_only q fs fs' \<Longrightarrow> r \<in> set roots \<Longrightarrow> prefix r q \<Longrightarrow> confined roots fs fs'"
  unfolding changes_only_def confined_def
  by (metis prefix_order.less_imp_le prefix_order.not_eq_order_implies_strict prefix_same_cases)

lemma safe_path_inside:
  assumes "safe_path fe sc fs v = Inr (Inr q)"
  shows "\<exists>r \<in> set (root_paths fe sc fs). prefix r q" and "no_link_cycle fe fs \<Longrightarrow> plain fs q"
proof -
  obtain target where q: "q = fst (realpath fs (fe_cwd fe) target)" "list_ex (\<lambda>r. prefix (fst (realpath fs (fe_cwd fe) r)) q) (allowed_roots sc)"
    using assms by (auto simp: safe_path_def Let_def split: if_splits json.splits)
  then show "\<exists>r \<in> set (root_paths fe sc fs). prefix r q" by (auto simp: root_paths_def list_ex_iff)
  show "plain fs q" if "no_link_cycle fe fs"
    using resolve_plain [of fs "{}" "[]"] that unfolding q(1) no_link_cycle_def realpath_def by auto
qed

lemma with_path_confined:
  assumes "no_link_cycle fe fs" and "\<And>q. plain fs q \<Longrightarrow> changes_only q fs (snd (k q fs))"
  shows "confined (root_paths fe sc fs) fs (snd (with_path fe sc v k fs))"
proof (cases "\<exists>q. safe_path fe sc fs v = Inr (Inr q)")
  case True
  then obtain q where q: "safe_path fe sc fs v = Inr (Inr q)" by blast
  then show ?thesis using safe_path_inside [OF q] assms changes_confined
    by (auto simp: with_path_def split: prod.splits) (metis snd_conv)
qed (auto simp: with_path_def split: sum.splits)

lemma write_step_changes:
  assumes "plain fs q" and "make_dirs dn (butlast q) fs = (e, fs1)"
  shows "changes_only q fs fs1 \<and> (\<forall>b fs2. os_write dn q b fs1 = Inr fs2 \<longrightarrow> changes_only q fs fs2 \<and> plain fs2 q)"
proof (cases "q = []")
  case True
  then show ?thesis using assms by (auto simp: make_dirs.simps os_write_def found_def node_at_def)
next
  case False
  have fs1: "changes_only q fs fs1" using make_parents_changes [OF assms(2,1) False] .
  then have "plain fs1 q" using changes_only_plain assms(1) by blast
  then show ?thesis using fs1 write_changes changes_only_trans changes_only_plain by metis
qed

lemma write_text_changes: "plain fs q \<Longrightarrow> changes_only q fs (snd (write_text fe v q fs))"
proof -
  assume q: "plain fs q"
  obtain e fs1 where fs1: "make_dirs (fe_denied fe) (butlast q) fs = (e, fs1)" by fastforce
  note step = write_step_changes [OF q fs1]
  have "changes_only q fs fs3" if "os_write (fe_denied fe) q [] fs1 = Inr fs2" "os_write (fe_denied fe) q b fs2 = Inr fs3" for b fs2 fs3
    using step that write_changes changes_only_trans by metis
  then show ?thesis using fs1 step by (auto simp: write_text_def split: option.split sum.split json.split)
qed

lemma fs_write_confined: "no_link_cycle fe fs \<Longrightarrow> confined (root_paths fe sc fs) fs (snd (fs_write fe sc args fs))"
  by (simp add: fs_write_def with_path_confined write_text_changes)

lemma fs_delete_confined: "no_link_cycle fe fs \<Longrightarrow> confined (root_paths fe sc fs) fs (snd (fs_delete fe sc args fs))"
  unfolding fs_delete_def
  by (auto intro!: with_path_confined split: sum.split dest: remove_changes rmdir_changes)

lemma write_out_confined: "plain fs q \<Longrightarrow> changes_only q fs (snd (write_out fe fid f q fs))"
  using write_step_changes [of fs q "fe_denied fe"] by (auto simp: write_out_def split: prod.split option.split sum.split)

lemma export_to_confined: "no_link_cycle fe fs \<Longrightarrow> confined (root_paths fe sc fs) fs (snd (export_to fe sc fid f target fs))"
proof -
  assume nc: "no_link_cycle fe fs"
  have "confined (root_paths fe sc fs) fs (snd (write_out fe fid f d fs))" if "safe_path fe sc fs v = Inr (Inr d)" for v d
    using safe_path_inside [OF that] nc write_out_confined changes_confined by metis
  then show ?thesis unfolding export_to_def by (simp split: sum.split)
qed

lemma export_confined: "no_link_cycle fe fs \<Longrightarrow> confined (root_paths fe sc fs) fs (snd (export_session_file fe sc args rows fs))"
proof -
  assume nc: "no_link_cycle fe fs"
  show ?thesis
  proof (cases "obj_get args ''file_id''")
    case (JStr fid)
    then show ?thesis using export_to_confined [OF nc] unfolding export_session_file_def Let_def
      by (cases "file_get_for_session fid (sc_session sc) rows") simp_all
  qed (simp_all add: export_session_file_def Let_def)
qed


lemma link_free_resolve:
  assumes "\<And>l t. node_at fs l = Some (Link t) \<Longrightarrow> is_abs t \<and> plain fs (components t)"
  shows "\<not> snd (resolve fs {} p cs)"
proof (induction cs arbitrary: p)
  case (Cons c cs)
  show ?case
  proof (cases "\<exists>t. node_at fs (p @ [c]) = Some (Link t)")
    case True
    then obtain t where t: "node_at fs (p @ [c]) = Some (Link t)" by blast
    have "resolve fs {p @ [c]} [] (components t) = (components t, False)" using resolve_of_plain [of fs "[]"] assms [OF t] by simp
    then show ?thesis using t assms [OF t] Cons by (auto simp: Let_def split: prod.split)
  qed (use Cons in \<open>auto split: option.split node.split\<close>)
qed simp

definition demo_fs :: fs where
  "demo_fs = [([''etc''], Dir), ([''etc'', ''passwd''], Reg ''root''), ([''ws''], Dir), ([''ws'', ''out''], Link ''/etc''), ([''ws'', ''a''], Reg ''text''),
     ([''ws'', ''l''], Link ''/ws/a'')]"

definition demo_file_env :: file_env where
  "demo_file_env = \<lparr>fe_runtime = null_runtime, fe_cwd = ''/'', fe_denied = (\<lambda>_. False), fe_error = (\<lambda>_ _. ''error''), fe_exc = (\<lambda>_. ''exception''),
     fe_decode = Some, fe_encode = Some, fe_dumps = (\<lambda>_. ''dump''), fe_guess = (\<lambda>_. None)\<rparr>"

definition demo_scope :: tool_scope where
  "demo_scope = \<lparr>sc_session = ''s1'', sc_filesystem = None, sc_workspace = Some ''/ws'', sc_database = True\<rparr>"

lemma demo_no_link_cycle: "no_link_cycle demo_file_env demo_fs"
proof -
  have links: "l = [''ws'', ''out''] \<and> t = ''/etc'' \<or> l = [''ws'', ''l''] \<and> t = ''/ws/a''" if "node_at demo_fs l = Some (Link t)" for l t
    using that by (auto simp: node_at_def demo_fs_def split: if_splits)
  have "plain demo_fs [''etc'']" "plain demo_fs [''ws'', ''a'']"
    using plain_snoc [of demo_fs "[]" "''etc''"] plain_snoc [of demo_fs "[]" "''ws''"] plain_snoc [of demo_fs "[''ws'']" "''a''"]
    by (simp_all add: node_at_def demo_fs_def)
  moreover have "components ''/etc'' = [''etc'']" "components ''/ws/a'' = [''ws'', ''a'']" "is_abs ''/etc''" "is_abs ''/ws/a''" by code_simp+
  ultimately have "is_abs t \<and> plain demo_fs (components t)" if "node_at demo_fs l = Some (Link t)" for l t using links [OF that] by auto
  then show ?thesis using link_free_resolve [of demo_fs] by (simp add: no_link_cycle_def realpath_def)
qed


section \<open>What the reading tools learn\<close>

text \<open>The two file systems differ at most in the contents of files outside the roots.\<close>

definition same_inside :: "path list \<Rightarrow> fs \<Rightarrow> fs \<Rightarrow> bool" where
  "same_inside roots fs1 fs2 \<longleftrightarrow> (\<forall>p. node_at fs1 p = node_at fs2 p \<or>
     (\<exists>b1 b2. node_at fs1 p = Some (Reg b1) \<and> node_at fs2 p = Some (Reg b2) \<and> (\<forall>r \<in> set roots. \<not> prefix r p)))"

text \<open>What \<open>resolve\<close> and \<open>follow\<close> see of a node.\<close>

definition link_at :: "fs \<Rightarrow> path \<Rightarrow> string option" where
  "link_at fs p = (case node_at fs p of Some (Link t) \<Rightarrow> Some t | _ \<Rightarrow> None)"

definition dir_at :: "fs \<Rightarrow> path \<Rightarrow> bool" where
  "dir_at fs p \<longleftrightarrow> node_at fs p = Some Dir"

lemma resolve_step:
  "resolve fs A p (c # cs) = (if c = ''..'' then resolve fs A (butlast p) cs else case link_at fs (p @ [c]) of
      Some t \<Rightarrow> (if p @ [c] \<in> A then (fst (resolve fs A (p @ [c]) cs), True)
         else let (q, b) = resolve fs (insert (p @ [c]) A) (if is_abs t then [] else p) (components t); (r, b') = resolve fs A q cs in (r, b \<or> b'))
    | None \<Rightarrow> resolve fs A (p @ [c]) cs)"
  by (simp add: link_at_def split: option.split node.split)

lemma follow_step:
  "follow fs n p (c # cs) = (if c = ''..'' then follow fs n (butlast p) cs else case link_at fs (p @ [c]) of
      Some t \<Rightarrow> (if n = 0 then None else follow fs (n - 1) (if is_abs t then [] else p) (components t @ cs))
    | None \<Rightarrow> if dir_at fs (p @ [c]) then follow fs n (p @ [c]) cs else if cs = [] then Some (p @ [c]) else None)"
  by (simp add: link_at_def dir_at_def split: option.split node.split)

lemma link_at_iff: "link_at fs p = Some t \<longleftrightarrow> node_at fs p = Some (Link t)"
  by (simp add: link_at_def split: option.split node.split)

lemma resolve_links: "link_at fs2 = link_at fs1 \<Longrightarrow> resolve fs2 A p cs = resolve fs1 A p cs"
proof (induction fs1 A p cs rule: resolve.induct)
  case (2 fs1 A p c cs)
  have dot: "c = ''..'' \<Longrightarrow> resolve fs2 A (butlast p) cs = resolve fs1 A (butlast p) cs" using "2.IH"(1) "2.prems" by blast
  show ?case
  proof (cases "link_at fs1 (p @ [c])")
    case None
    then have "c \<noteq> ''..'' \<Longrightarrow> resolve fs2 A (p @ [c]) cs = resolve fs1 A (p @ [c]) cs"
      using "2.IH"(2-4) "2.prems" by (cases "node_at fs1 (p @ [c])") (auto simp: link_at_def split: node.splits)
    then show ?thesis unfolding resolve_step "2.prems" using dot None by simp
  next
    case (Some t)
    then have t: "node_at fs1 (p @ [c]) = Some (Link t)" by (simp add: link_at_iff)
    show ?thesis
    proof (cases "c = ''..''")
      case False
      have loop: "p @ [c] \<in> A \<Longrightarrow> resolve fs2 A (p @ [c]) cs = resolve fs1 A (p @ [c]) cs" using "2.IH"(5) False t "2.prems" by blast
      have nested: "p @ [c] \<notin> A \<Longrightarrow> resolve fs2 (insert (p @ [c]) A) (if is_abs t then [] else p) (components t) =
          resolve fs1 (insert (p @ [c]) A) (if is_abs t then [] else p) (components t)" using "2.IH"(6) False t "2.prems" by blast
      obtain q b where q: "resolve fs1 (insert (p @ [c]) A) (if is_abs t then [] else p) (components t) = (q, b)" by fastforce
      have "p @ [c] \<notin> A \<Longrightarrow> resolve fs2 A q cs = resolve fs1 A q cs" using "2.IH"(7) False t q "2.prems" by metis
      then show ?thesis unfolding resolve_step "2.prems" using False Some loop nested q by simp
    qed (simp add: dot)
  qed
qed simp

lemma follow_kinds: "link_at fs2 = link_at fs1 \<Longrightarrow> dir_at fs2 = dir_at fs1 \<Longrightarrow> follow fs2 n p cs = follow fs1 n p cs"
proof (induction fs1 n p cs rule: follow.induct)
  case (2 fs1 n p c cs)
  have dot: "c = ''..'' \<Longrightarrow> follow fs2 n (butlast p) cs = follow fs1 n (butlast p) cs" using "2.IH" "2.prems" by blast
  have dir: "c \<noteq> ''..'' \<Longrightarrow> dir_at fs1 (p @ [c]) \<Longrightarrow> follow fs2 n (p @ [c]) cs = follow fs1 n (p @ [c]) cs"
    using "2.IH" "2.prems" by (simp add: dir_at_def)
  have link: "c \<noteq> ''..'' \<Longrightarrow> link_at fs1 (p @ [c]) = Some t \<Longrightarrow> n \<noteq> 0 \<Longrightarrow>
      follow fs2 (n - 1) (if is_abs t then [] else p) (components t @ cs) = follow fs1 (n - 1) (if is_abs t then [] else p) (components t @ cs)" for t
    using "2.IH" "2.prems" by (simp add: link_at_iff)
  show ?case unfolding follow_step "2.prems" using dot dir link by (cases "link_at fs1 (p @ [c])") auto
qed simp

lemma same_inside_kinds:
  assumes "same_inside roots fs1 fs2"
  shows "link_at fs2 = link_at fs1" and "dir_at fs2 = dir_at fs1"
proof -
  have "link_at fs2 p = link_at fs1 p \<and> dir_at fs2 p = dir_at fs1 p" for p
    using assms [unfolded same_inside_def, rule_format, of p] by (auto simp: link_at_def dir_at_def)
  then show "link_at fs2 = link_at fs1" "dir_at fs2 = dir_at fs1" by auto
qed

lemma resolve_same: "same_inside roots fs1 fs2 \<Longrightarrow> resolve fs2 A p cs = resolve fs1 A p cs"
  by (intro resolve_links same_inside_kinds)

lemma follow_same: "same_inside roots fs1 fs2 \<Longrightarrow> follow fs2 n p cs = follow fs1 n p cs"
  by (intro follow_kinds same_inside_kinds)

lemma safe_path_links: "link_at fs2 = link_at fs1 \<Longrightarrow> safe_path fe sc fs2 v = safe_path fe sc fs1 v"
proof -
  assume same: "link_at fs2 = link_at fs1"
  have "realpath fs2 = realpath fs1" by (intro ext) (simp add: realpath_def resolve_links [OF same])
  then show ?thesis unfolding safe_path_def by metis
qed

lemma safe_path_same: "same_inside roots fs1 fs2 \<Longrightarrow> safe_path fe sc fs2 v = safe_path fe sc fs1 v"
  by (intro safe_path_links same_inside_kinds)

lemma stat_same:
  assumes "same_inside (root_paths fe sc fs1) fs1 fs2" and "no_link_cycle fe fs1" and "safe_path fe sc fs1 v = Inr (Inr q)"
  shows "stat fs2 q = stat fs1 q"
proof (cases "found fs1 q")
  case None
  then show ?thesis using follow_same [OF assms(1)] by (simp add: stat_def found_def)
next
  case (Some r)
  then have "r = q" using found_plain safe_path_inside(2) [OF assms(3,2)] by blast
  then have "node_at fs2 r = node_at fs1 r" using assms(1) safe_path_inside(1) [OF assms(3)] unfolding same_inside_def by metis
  then show ?thesis using Some follow_same [OF assms(1)] by (simp add: stat_def found_def)
qed


definition other_fs :: fs where
  "other_fs = dset [''etc'', ''passwd''] (Reg ''changed'') demo_fs"


section \<open>Existing files\<close>

text \<open>The directories on the way to a path are there.\<close>

definition dirs_to :: "fs \<Rightarrow> path \<Rightarrow> bool" where
  "dirs_to fs q \<longleftrightarrow> ''..'' \<notin> set q \<and> (\<forall>p. strict_prefix p q \<longrightarrow> node_at fs p = Some Dir)"

lemma follow_dirs:
  assumes "''..'' \<notin> set d" and "\<And>k. k < length d \<Longrightarrow> node_at fs (p @ take (Suc k) d) = Some Dir"
  shows "follow fs n p (d @ cs) = follow fs n (p @ d) cs"
  using assms
proof (induction d arbitrary: p)
  case (Cons c d)
  have "node_at fs ((p @ [c]) @ take (Suc k) d) = Some Dir" if "k < length d" for k using Cons.prems(2) [of "Suc k"] that by simp
  then show ?case using Cons.IH [of "p @ [c]"] Cons.prems(1) Cons.prems(2) [of 0] by (auto simp: dir_at_def follow_step link_at_def)
qed simp

lemma follow_to_dir:
  assumes "dirs_to fs (d @ [c])"
  shows "follow fs n [] (d @ cs) = follow fs n d cs"
proof -
  have "node_at fs ([] @ take (Suc k) d) = Some Dir" if "k < length d" for k
  proof -
    have "strict_prefix (take (Suc k) d) (d @ [c])" by (rule strict_prefixI) (auto simp: take_is_prefix prefix_prefix dest: arg_cong [where f = length])
    then show ?thesis using assms by (simp add: dirs_to_def)
  qed
  then show ?thesis using follow_dirs [of d fs "[]"] assms by (simp add: dirs_to_def)
qed

lemma found_dirs:
  assumes "dirs_to fs q" and "\<And>t. node_at fs q \<noteq> Some (Link t)"
  shows "found fs q = Some q"
proof (cases q rule: rev_cases)
  case (snoc d c)
  then have "found fs q = follow fs MAX_LINKS d [c]" using follow_to_dir [of fs d c] assms(1) by (simp add: found_def)
  moreover have "c \<noteq> ''..''" using assms(1) snoc by (auto simp: dirs_to_def)
  ultimately show ?thesis using assms(2) snoc by (simp add: follow_step link_at_def split: option.split node.split)
qed (simp add: found_def)

lemma dirs_to_butlast: "dirs_to fs q \<Longrightarrow> dirs_to fs (butlast q)"
  unfolding dirs_to_def by (meson in_set_butlastD prefix_order.less_le_trans prefixeq_butlast)

lemma dirs_plain: "dirs_to fs q \<Longrightarrow> (\<And>t. node_at fs q \<noteq> Some (Link t)) \<Longrightarrow> plain fs q"
proof -
  assume q: "dirs_to fs q" "\<And>t. node_at fs q \<noteq> Some (Link t)"
  have "node_at fs p \<noteq> Some (Link t)" if "prefix p q" for p t using q that by (cases "p = q") (auto simp: dirs_to_def)
  then show ?thesis using q(1) by (simp add: plain_def dirs_to_def)
qed

lemma resolve_prefix: "plain fs (p @ d) \<Longrightarrow> resolve fs A p (d @ cs) = resolve fs A (p @ d) cs"
proof (induction d arbitrary: p)
  case (Cons c d)
  have "plain fs (p @ [c])" by (rule plain_prefix [OF Cons.prems]) (simp add: prefix_def)
  then show ?case using Cons.IH [of "p @ [c]"] Cons.prems by (auto simp: plain_snoc split: option.split node.split)
qed simp

lemma found_butlast: "dirs_to fs q \<Longrightarrow> found fs (butlast q) = Some (butlast q) \<and> node_at fs (butlast q) = Some Dir"
proof (cases "q = []")
  case True
  then show ?thesis by (simp add: found_def node_at_def)
next
  case False
  assume q: "dirs_to fs q"
  have "strict_prefix (butlast q) q" using False by (metis append_butlast_last_id not_Cons_self2 same_append_eq append_self_conv strict_prefixI')
  then have "node_at fs (butlast q) = Some Dir" using q by (simp add: dirs_to_def)
  then show ?thesis using found_dirs [OF dirs_to_butlast [OF q]] by simp
qed

lemma entry_dirs: "dirs_to fs q \<Longrightarrow> entry fs q = Some q"
  using found_butlast [of fs q] by (auto simp: entry_def)

lemma make_dirs_there: "dirs_to fs q \<Longrightarrow> make_dirs dn (butlast q) fs = (None, fs)"
proof -
  assume q: "dirs_to fs q"
  let ?d = "butlast q"
  have d: "dirs_to fs ?d" "is_dir fs ?d" using dirs_to_butlast [OF q] found_butlast [OF q] by (simp_all add: is_dir_def stat_def)
  have "exists fs (butlast ?d)" using found_butlast [OF d(1)] by (simp add: exists_def stat_def)
  moreover have "make_dir dn ?d fs = (None, fs)" using d entry_dirs [OF d(1)] found_butlast [OF q] by (simp add: make_dir_def os_mkdir_def)
  ultimately show ?thesis by (simp add: make_dirs.simps)
qed

section \<open>Deleting through a link\<close>

lemma listing_fails: "list_entry fs d n = Inl x \<Longrightarrow> n \<in> set ns \<Longrightarrow> \<exists>y. list_entries fs d ns = Inl y"
  by (induction ns) (auto split: sum.split)



section \<open>Writing\<close>

text \<open> A write whose content is no text, as when the model passes an object, fails, but only after the file was opened for
  writing: the answer is an error and the old content is gone.\<close>

theorem failed_write_empties_file:
  assumes "safe_path fe sc fs (obj_get args ''file_path'') = Inr (Inr q)" and "truthy (obj_get args ''file_path'')"
    and "dirs_to fs q" and "node_at fs q = Some (Reg b)" and "\<not> fe_denied fe q"
    and "obj_get args ''content'' \<noteq> JNull" and "\<And>t. obj_get args ''content'' \<noteq> JStr t"
  shows "\<exists>fs'. fs_write fe sc args fs = (Inr (''Error writing file: '' @ fe_exc fe TypeError), fs') \<and> node_at fs' q = Some (Reg [])"
proof -
  have "found fs q = Some q" using found_dirs [OF assms(3)] assms(4) by simp
  then have "os_write (fe_denied fe) q [] fs = Inr (dset q (Reg []) fs)"
    using assms(4,5) found_butlast [OF assms(3)] by (simp add: os_write_def)
  then have "write_text fe (obj_get args ''content'') q fs = (''Error writing file: '' @ fe_exc fe TypeError, dset q (Reg []) fs)"
    using make_dirs_there [OF assms(3)] assms(6,7) by (cases "obj_get args ''content''") (simp_all add: write_text_def, blast)
  moreover have "q \<noteq> []" using assms(4) by (auto simp: node_at_def)
  ultimately show ?thesis using assms(1,2,6) by (simp add: fs_write_def with_path_def node_at_dset)
qed

theorem failed_write_empties_file_witness:
  "\<exists>fs'. fs_write demo_file_env demo_scope [(''file_path'', JStr ''a''), (''content'', JDict [(''k'', JInt 1)])] demo_fs =
      (Inr ''Error writing file: exception'', fs') \<and> node_at fs' [''ws'', ''a''] = Some (Reg [])"
proof -
  let ?args = "[(''file_path'', JStr ''a''), (''content'', JDict [(''k'', JInt 1)])]"
  have a: "safe_path demo_file_env demo_scope demo_fs (obj_get ?args ''file_path'') = Inr (Inr [''ws'', ''a''])" "truthy (obj_get ?args ''file_path'')"
    "node_at demo_fs [''ws'', ''a''] = Some (Reg ''text'')" by code_simp+
  have d: "dirs_to demo_fs [''ws'', ''a'']" by (auto simp: dirs_to_def strict_prefix_def prefix_Cons demo_fs_def node_at_def)
  show ?thesis using failed_write_empties_file [OF a(1,2) d a(3)] by (simp add: demo_file_env_def obj_get_def)
qed

lemma write_text_ok:
  assumes "write_text fe (JStr t) q fs = (text, fs')" and "text = ''File written successfully to '' @ path_text q" and "plain fs q"
  shows "\<exists>b. fe_encode fe t = Some b \<and> stat fs' q = Some (Reg b) \<and> link_at fs' = link_at fs"
proof -
  obtain e fs1 where fs1: "make_dirs (fe_denied fe) (butlast q) fs = (e, fs1)" by fastforce
  obtain b fs2 where b: "e = None" "fe_encode fe t = Some b" "os_write (fe_denied fe) q [] fs1 = Inr fs2" "os_write (fe_denied fe) q b fs2 = Inr fs'"
    using assms(1,2) fs1 by (auto simp: write_text_def split: option.splits sum.splits)
  note step = write_step_changes [OF assms(3) fs1]
  have plain1: "plain fs1 q" using step changes_only_plain assms(3) by blast
  have plain2: "plain fs2 q" using step b(3) by blast
  have f2: "found fs2 q = Some q" "fs' = dset q (Reg b) fs2"
    using b(4) found_plain [OF plain2] by (auto simp: os_write_def split: option.splits if_splits)
  have q: "q \<noteq> []" "node_at fs2 q = Some (Reg [])"
    using b(3) found_plain [OF plain1] by (auto simp: os_write_def node_at_def split: option.splits if_splits)
  have same: "link_at fs' p = link_at fs2 p" "dir_at fs' p = dir_at fs2 p" for p
    using q by (simp_all add: f2(2) link_at_def dir_at_def node_at_dset)
  have "found fs' q = Some q" using follow_kinds [of fs' fs2] same f2(1) by (simp add: found_def ext)
  moreover have "changes_only q fs fs'"
    using step b(3) write_changes [OF plain2 b(4)] changes_only_trans by blast
  then have "link_at fs' p = link_at fs p" for p
    using assms(3) q(2) f2(2) q(1) unfolding changes_only_def
    by (cases "p = q") (auto simp: link_at_def node_at_dset plain_def split: option.splits node.splits)
  ultimately show ?thesis using b(2) f2(2) q(1) by (simp add: stat_def node_at_dset ext)
qed

lemma refusal_text: "safe_path fe sc fs v = Inr (Inl text) \<Longrightarrow> hd text \<in> {CHR ''E'', CHR ''P''}"
proof -
  assume "safe_path fe sc fs v = Inr (Inl text)"
  then show ?thesis by (cases v) (auto simp: safe_path_def Let_def split: if_splits)
qed

text \<open> What was written is what is read: after a write that is reported as successful, reading the same path returns the text, also when
  the path goes through links or its directories had to be made.\<close>

theorem written_text_is_read_back:
  assumes "no_link_cycle fe fs" and "fs_write fe sc args fs = (Inr (''File written successfully to '' @ p), fs')" and "obj_get args ''content'' = JStr t"
    and "\<And>b. fe_encode fe t = Some b \<Longrightarrow> fe_decode fe b = Some t"
  shows "fst (fs_read fe sc args fs') = Inr t"
proof -
  have path: "truthy (obj_get args ''file_path'')" using assms(2) by (auto simp: fs_write_def split: if_splits)
  have w: "with_path fe sc (obj_get args ''file_path'') (write_text fe (JStr t)) fs = (Inr (''File written successfully to '' @ p), fs')"
    using assms(2,3) path by (simp add: fs_write_def)
  obtain q where safe: "safe_path fe sc fs (obj_get args ''file_path'') = Inr (Inr q)"
  proof (cases "safe_path fe sc fs (obj_get args ''file_path'')")
    case (Inr x)
    then show ?thesis using w that refusal_text [of fe sc fs "obj_get args ''file_path''"] by (cases x) (simp_all add: with_path_def)
  qed (use w in \<open>simp add: with_path_def\<close>)
  then have q: "safe_path fe sc fs (obj_get args ''file_path'') = Inr (Inr q)" "write_text fe (JStr t) q fs = (''File written successfully to '' @ p, fs')"
    using w by (simp_all add: with_path_def split: prod.splits)
  have plain: "plain fs q" using safe_path_inside(2) [OF q(1) assms(1)] .
  have "p = path_text q" using q(2) by (auto simp: write_text_def split: option.splits sum.splits prod.splits)
  then obtain b where b: "fe_encode fe t = Some b" "stat fs' q = Some (Reg b)" "link_at fs' = link_at fs"
    using write_text_ok [OF q(2) _ plain] by blast
  have "safe_path fe sc fs' (obj_get args ''file_path'') = Inr (Inr q)" using q(1) safe_path_links [OF b(3)] by simp
  then show ?thesis using path b assms(4) by (simp add: fs_read_def with_path_def exists_def is_dir_def os_read_def)
qed

theorem written_text_is_read_back_witness:
  "fst (fs_read demo_file_env demo_scope [(''file_path'', JStr ''l''), (''content'', JStr ''new'')]
     (snd (fs_write demo_file_env demo_scope [(''file_path'', JStr ''l''), (''content'', JStr ''new'')] demo_fs))) = Inr ''new''"
proof -
  let ?args = "[(''file_path'', JStr ''l''), (''content'', JStr ''new'')]"
  have "fst (fs_write demo_file_env demo_scope ?args demo_fs) = Inr (''File written successfully to '' @ ''/ws/a'')" by code_simp
  then have w: "fs_write demo_file_env demo_scope ?args demo_fs = (Inr (''File written successfully to '' @ ''/ws/a''), snd (fs_write demo_file_env demo_scope ?args demo_fs))"
    by (metis prod.collapse)
  show ?thesis by (rule written_text_is_read_back [OF demo_no_link_cycle w]) (simp_all add: obj_get_def demo_file_env_def)
qed

end
