(* ===== verification/Shell.thy ===== *)
theory Shell
  imports History
begin

text \<open>
  The tools that run a command (\<^verbatim>\<open>capabilities/core_ops/scripts/run_command.py\<close>, \<^verbatim>\<open>execute_python.py\<close>): the loop
  that watches the process, and the report. What the loop sees at each turn is given: whether the sub-task was cancelled, the exit
  code once the process has ended, and the clock in seconds; so are what the process wrote and the error when it cannot be started.
\<close>

section \<open>Watching the process\<close>

record glance =
  gl_cancelled :: bool
  gl_code :: "int option"
  gl_time :: rat

datatype outcome = Cancelled | Exited int | TimedOut

text \<open>\<open>None\<close> is a loop that still runs after all the turns given.\<close>

fun watch :: "rat \<Rightarrow> glance list \<Rightarrow> outcome option" where
  "watch deadline [] = None"
| "watch deadline (g # gs) =
     (if gl_cancelled g then Some Cancelled
      else case gl_code g of
          Some n \<Rightarrow> Some (Exited n)
        | None \<Rightarrow> if deadline \<le> gl_time g then Some TimedOut else watch deadline gs)"

datatype launch = NotStarted string | Started "glance list" "string option" "string option"

section \<open>Shell commands\<close>

text \<open>The texts a process wrote are decoded leniently here; \<open>the\<close> is never reached without them.\<close>

definition report_parts :: "int \<Rightarrow> string \<Rightarrow> string \<Rightarrow> string list" where
  "report_parts code out err =
     (if code \<noteq> 0 then [''Exit Code: '' @ show_int code] else []) @ (if out \<noteq> [] then [''Stdout:'' @ LF @ out] else []) @
     (if err \<noteq> [] then [''Stderr:'' @ LF @ err] else [])"

definition shell_report :: "int \<Rightarrow> string \<Rightarrow> string \<Rightarrow> string" where
  "shell_report code out err =
     (let parts = report_parts code (py_strip out) (py_strip err)
      in if parts = [] then ''Command executed successfully with no output.'' else py_join (LF @ LF) parts)"

definition run_command :: "int \<Rightarrow> rat \<Rightarrow> json \<Rightarrow> launch \<Rightarrow> string option" where
  "run_command timeout start command l =
     (if \<not> truthy command then Some ''Error: command is required.''
      else case l of
          NotStarted e \<Rightarrow> Some (''Error executing command: '' @ e)
        | Started gs out err \<Rightarrow> map_option (\<lambda>x. case x of
              Cancelled \<Rightarrow> ''Error: Command cancelled because sub-task was killed.''
            | TimedOut \<Rightarrow> ''Error: Command timed out after '' @ show_int timeout @ '' seconds.''
            | Exited n \<Rightarrow> shell_report n (case out of Some s \<Rightarrow> s | None \<Rightarrow> []) (case err of Some s \<Rightarrow> s | None \<Rightarrow> []))
            (watch (start + of_int timeout) gs))"

section \<open>Python code\<close>

record run_result =
  rr_stdout :: string
  rr_stderr :: string
  rr_code :: int

text \<open>Here the texts are decoded strictly: \<open>None\<close> is a text that is not UTF-8, whose error is given.\<close>

definition execute_code :: "int \<Rightarrow> rat \<Rightarrow> string \<Rightarrow> launch \<Rightarrow> run_result option" where
  "execute_code timeout start decode_error l = (case l of
      NotStarted e \<Rightarrow> Some \<lparr>rr_stdout = [], rr_stderr = e, rr_code = 1\<rparr>
    | Started gs out err \<Rightarrow> map_option (\<lambda>x. case x of
          Cancelled \<Rightarrow> \<lparr>rr_stdout = [], rr_stderr = ''Execution cancelled because sub-task was killed.'', rr_code = 1\<rparr>
        | TimedOut \<Rightarrow> \<lparr>rr_stdout = [], rr_stderr = ''Execution timed out after '' @ show_int timeout @ '' seconds.'', rr_code = 1\<rparr>
        | Exited n \<Rightarrow> (case (out, err) of
            (Some s, Some t) \<Rightarrow> \<lparr>rr_stdout = py_strip s, rr_stderr = py_strip t, rr_code = n\<rparr>
          | _ \<Rightarrow> \<lparr>rr_stdout = [], rr_stderr = decode_error, rr_code = 1\<rparr>))
        (watch (start + of_int timeout) gs))"

definition execute_python :: "int \<Rightarrow> rat \<Rightarrow> string \<Rightarrow> json \<Rightarrow> launch \<Rightarrow> string option" where
  "execute_python timeout start decode_error code l =
     (if \<not> truthy code then Some ''Error: code is required.''
      else map_option (\<lambda>r. ''Exit Code: '' @ show_int (rr_code r) @ LF @ ''Stdout:'' @ LF @ rr_stdout r @
             (if rr_stderr r \<noteq> [] then LF @ ''Stderr:'' @ LF @ rr_stderr r else [])) (execute_code timeout start decode_error l))"

section \<open>Ending\<close>

text \<open>The pause between two turns is a fifth of a second at least.\<close>

definition paced :: "rat \<Rightarrow> glance list \<Rightarrow> bool" where
  "paced start gs \<longleftrightarrow> (\<forall>i < length gs. start + of_nat i / 5 \<le> gl_time (gs ! i))"

lemma watch_late: "g \<in> set gs \<Longrightarrow> deadline \<le> gl_time g \<Longrightarrow> \<exists>x. watch deadline gs = Some x"
  by (induction gs) (auto split: option.split)

lemma watch_answer:
  "watch deadline gs = Some x \<longleftrightarrow> (\<exists>i < length gs. (\<forall>j < i. \<not> gl_cancelled (gs ! j) \<and> gl_code (gs ! j) = None \<and> gl_time (gs ! j) < deadline) \<and>
     (case x of Cancelled \<Rightarrow> gl_cancelled (gs ! i)
      | Exited n \<Rightarrow> \<not> gl_cancelled (gs ! i) \<and> gl_code (gs ! i) = Some n
      | TimedOut \<Rightarrow> \<not> gl_cancelled (gs ! i) \<and> gl_code (gs ! i) = None \<and> deadline \<le> gl_time (gs ! i)))"
proof (induction gs)
  case (Cons g gs)
  have split_ex: "(\<exists>i < length (g # gs). P i) \<longleftrightarrow> P 0 \<or> (\<exists>i < length gs. P (Suc i))" for P
    by (metis length_Cons less_Suc_eq_0_disj)
  show ?case
  proof (cases "gl_cancelled g \<or> gl_code g \<noteq> None \<or> deadline \<le> gl_time g")
    case True
    then show ?thesis unfolding split_ex by (cases x) (auto split: option.split)
  next
    case False
    then show ?thesis unfolding split_ex using Cons.IH by (cases x) (simp_all add: All_less_Suc2)
  qed
qed simp


definition quiet :: "rat \<Rightarrow> glance" where
  "quiet t = \<lparr>gl_cancelled = False, gl_code = None, gl_time = t\<rparr>"


end
