(* ===== verification/Spec2Isabelle.thy ===== *)
theory Spec2Isabelle
  imports Subtasks Events EventBus History Scheduler Coordinator Timers Hooks Contracts Delegation Planner Unloaded Compression Frames Files Ingress Bridge Client Link Patch CodeRepair Llm Images EnvFile Registry Router Control Onebot Web FileTools Shell
begin

text \<open>
  FairyClaw's agent runtime.
\<close>

end
